(* ===== verification/Prelude.thy ===== *)
theory Prelude
  imports Main "HOL-Library.Sublist"
begin

text \<open>
  Shared vocabulary of the development: Go strings as byte strings with the functions of package
  \<^verbatim>\<open>strings\<close> the service uses, the representation of Go maps and of their iteration order, time,
  JSON values, and the generic lemmas the component theories rest on.
\<close>

section \<open>Hint collections\<close>

text \<open>
  \<open>op_defs\<close> collects the definitions of the modelled operations of a component, so that a proof
  about every branch of an operation can unfold them together.  \<open>key_simps\<close> collects the
  injectivity facts about composed lookup keys.
\<close>

named_theorems op_defs \<open>definitions of the modelled operations\<close>
named_theorems key_simps \<open>composed lookup keys\<close>

section \<open>Types shared by all components\<close>

text \<open>
  \<open>time\<close> is a \<^verbatim>\<open>time.Time\<close> in nanoseconds since Go's zero time, \<open>duration\<close> a \<^verbatim>\<open>time.Duration\<close> in
  nanoseconds.  \<open>polid\<close> is the quadruple (repository, group, name, version) that every operation on
  a policy is given.
\<close>

type_synonym time = int
type_synonym duration = int
type_synonym polid = "string \<times> string \<times> string \<times> string"

abbreviation zero_time :: time where
  "zero_time \<equiv> 0"

text \<open>
  The value a Go \<^verbatim>\<open>interface{}\<close> holds after decoding JSON; a \<^verbatim>\<open>map[string]interface{}\<close> is the list of
  its entries.  Numbers are kept as their text.
\<close>

datatype json =
    JNull
  | JBool bool
  | JNum string
  | JStr string
  | JArr "json list"
  | JObj "(string \<times> json) list"

section \<open>Package strings\<close>

text \<open>\<^verbatim>\<open>strings.Split\<close> for a separator of one byte: never the empty list.\<close>

fun split_on :: "char \<Rightarrow> string \<Rightarrow> string list" where
  "split_on c [] = [[]]"
| "split_on c (x # xs) =
     (if x = c then [] # split_on c xs
      else (case split_on c xs of [] \<Rightarrow> [[x]] | w # ws \<Rightarrow> (x # w) # ws))"

fun join_with :: "string \<Rightarrow> string list \<Rightarrow> string" where
  "join_with sep [] = []"
| "join_with sep [w] = w"
| "join_with sep (w # v # ws) = w @ sep @ join_with sep (v # ws)"

definition trim_suffix :: "string \<Rightarrow> string \<Rightarrow> string" where
  "trim_suffix s suf = (if suffix suf s then take (length s - length suf) s else s)"

fun contains :: "string \<Rightarrow> string \<Rightarrow> bool" where
  "contains [] sub = (sub = [])"
| "contains (x # xs) sub = (prefix sub (x # xs) \<or> contains xs sub)"

text \<open>\<^verbatim>\<open>strings.Trim(s, cutset)\<close> for a cutset of one byte.\<close>

definition trim_char :: "char \<Rightarrow> string \<Rightarrow> string" where
  "trim_char c s = rev (dropWhile ((=) c) (rev (dropWhile ((=) c) s)))"

text \<open>
  \<^verbatim>\<open>strings.TrimSpace\<close> works on the runes of a UTF-8 string.  \<open>space_len\<close> is the byte length of the
  white-space rune a string starts with (0 when it starts with none): the six ASCII spaces, U+0085
  and U+00A0 (two bytes), U+1680, U+2000 to U+200A, U+2028, U+2029, U+202F, U+205F and U+3000 (three
  bytes).
\<close>

fun space_len3 :: "nat \<Rightarrow> nat \<Rightarrow> nat \<Rightarrow> bool" where
  "space_len3 a b c =
     (a = 225 \<and> b = 154 \<and> c = 128 \<or>
      a = 226 \<and> b = 128 \<and> (128 \<le> c \<and> c \<le> 138 \<or> c = 168 \<or> c = 169 \<or> c = 175) \<or>
      a = 226 \<and> b = 129 \<and> c = 159 \<or>
      a = 227 \<and> b = 128 \<and> c = 128)"

definition is_ascii_space :: "char \<Rightarrow> bool" where
  "is_ascii_space c \<longleftrightarrow> of_char c \<in> {9, 10, 11, 12, 13, 32 :: nat}"

fun space_len :: "string \<Rightarrow> nat" where
  "space_len (a # s) =
     (if is_ascii_space a then 1
      else (case s of
          [] \<Rightarrow> 0
        | b # t \<Rightarrow>
            if of_char a = (194 :: nat) \<and> (of_char b = (133 :: nat) \<or> of_char b = (160 :: nat)) then 2
            else (case t of
                [] \<Rightarrow> 0
              | c # _ \<Rightarrow> if space_len3 (of_char a) (of_char b) (of_char c) then 3 else 0)))"
| "space_len [] = 0"

lemma space_len_le: "space_len s \<le> length s"
  by (cases s) (auto split: list.splits)

function trim_left :: "string \<Rightarrow> string" where
  "trim_left s = (if space_len s = 0 then s else trim_left (drop (space_len s) s))"
  by pat_completeness auto
termination
proof (relation "measure length")
  fix s :: string
  assume "space_len s \<noteq> 0"
  moreover from this have "s \<noteq> []" by auto
  ultimately show "(drop (space_len s) s, s) \<in> measure length" by simp
qed simp

declare trim_left.simps [simp del]

text \<open>The byte length of the white-space rune a string ends with, and the trimming of the right end.\<close>

definition space_len_end :: "string \<Rightarrow> nat" where
  "space_len_end s =
     (if 1 \<le> length s \<and> space_len (drop (length s - 1) s) = 1 then 1
      else if 2 \<le> length s \<and> space_len (drop (length s - 2) s) = 2 then 2
      else if 3 \<le> length s \<and> space_len (drop (length s - 3) s) = 3 then 3 else 0)"

lemma space_len_end_pos: "space_len_end s \<noteq> 0 \<Longrightarrow> s \<noteq> []"
  by (auto simp: space_len_end_def split: if_splits)

function trim_right :: "string \<Rightarrow> string" where
  "trim_right s =
     (if space_len_end s = 0 then s else trim_right (take (length s - space_len_end s) s))"
  by pat_completeness auto
termination
proof (relation "measure length")
  fix s :: string
  assume "space_len_end s \<noteq> 0"
  moreover from this have "s \<noteq> []" by (rule space_len_end_pos)
  ultimately show "(take (length s - space_len_end s) s, s) \<in> measure length" by simp
qed simp

declare trim_right.simps [simp del]

definition trim_space :: "string \<Rightarrow> string" where
  "trim_space s = trim_right (trim_left s)"

text \<open>A string is blank when \<^verbatim>\<open>strings.TrimSpace\<close> leaves nothing of it.\<close>

abbreviation blank :: "string \<Rightarrow> bool" where
  "blank s \<equiv> trim_space s = []"

lemma trim_left_Nil [simp]: "trim_left [] = []"
  by (subst trim_left.simps) simp

lemma trim_right_Nil [simp]: "trim_right [] = []"
  by (subst trim_right.simps) (simp add: space_len_end_def)

lemma blank_Nil [simp]: "blank []"
  by (simp add: trim_space_def)

lemma not_blank_nonempty: "\<not> blank s \<Longrightarrow> s \<noteq> []"
  by auto

text \<open>The verb \<^verbatim>\<open>%q\<close> of a printable string.\<close>

definition quoted :: "string \<Rightarrow> string" where
  "quoted s = CHR 0x22 # s @ [CHR 0x22]"

subsection \<open>Splitting and joining\<close>

lemma split_on_nonempty [simp]: "split_on c s \<noteq> []"
  by (cases s) (auto split: list.splits)

lemma join_Cons: "ws \<noteq> [] \<Longrightarrow> join_with sep (w # ws) = w @ sep @ join_with sep ws"
  by (cases ws) auto

lemma join_snoc: "ws \<noteq> [] \<Longrightarrow> join_with sep (ws @ [w]) = join_with sep ws @ sep @ w"
proof (induction ws)
  case (Cons v ws)
  then show ?case by (cases ws) auto
qed simp

lemma join_split [simp]: "join_with [c] (split_on c s) = s"
proof (induction s)
  case Nil
  then show ?case by simp
next
  case (Cons x xs)
  obtain w ws where sp: "split_on c xs = w # ws"
    by (cases "split_on c xs") auto
  show ?case
  proof (cases "x = c")
    case True
    then show ?thesis using Cons by (simp add: join_Cons)
  next
    case False
    then show ?thesis using Cons sp by (cases ws) auto
  qed
qed

lemma split_on_no_sep: "c \<notin> set w \<Longrightarrow> split_on c w = [w]"
  by (induction w) auto

lemma split_on_append_sep: "c \<notin> set w \<Longrightarrow> split_on c (w @ c # s) = w # split_on c s"
  by (induction w) auto

lemma split_join:
  assumes "ws \<noteq> []" and "\<forall>w \<in> set ws. c \<notin> set w"
  shows "split_on c (join_with [c] ws) = ws"
  using assms
proof (induction ws)
  case (Cons w ws)
  then show ?case
    by (cases ws) (auto simp: split_on_no_sep split_on_append_sep)
qed simp

lemma split_on_sep_free: "w \<in> set (split_on c s) \<Longrightarrow> c \<notin> set w"
proof (induction s arbitrary: w)
  case (Cons x xs)
  obtain v vs where sp: "split_on c xs = v # vs"
    by (cases "split_on c xs") auto
  show ?case using Cons sp by (auto split: if_splits)
qed simp

lemma trim_suffix_append [simp]: "trim_suffix (s @ suf) suf = s"
  by (simp add: trim_suffix_def suffix_def)

lemma trim_char_id:
  assumes "s \<noteq> []" and "hd s \<noteq> c" and "last s \<noteq> c"
  shows "trim_char c s = s"
proof -
  have "dropWhile ((=) c) s = s"
    using assms(1,2) by (cases s) auto
  moreover have "dropWhile ((=) c) (rev s) = rev s"
    using assms(1,3) by (cases s rule: rev_cases) auto
  ultimately show ?thesis by (simp add: trim_char_def)
qed

subsection \<open>Composed keys\<close>

text \<open>
  A key that concatenates its parts with a separator determines the parts when none but the last
  contains the separator.
\<close>

lemma sep_append_inj [key_simps]:
  assumes "c \<notin> set a" and "c \<notin> set a'"
  shows "a @ c # b = a' @ c # b' \<longleftrightarrow> a = a' \<and> b = b'"
  using assms
proof (induction a arbitrary: a')
  case Nil
  then show ?case by (cases a') auto
next
  case (Cons x a)
  then show ?case by (cases a') auto
qed

section \<open>Go maps and their iteration order\<close>

text \<open>
  A Go map is a HOL map; a \<^verbatim>\<open>range\<close> loop visits its keys in an order Go leaves open.  Every loop of
  the model takes that order as an argument: a duplicate-free list of the keys.
\<close>

definition is_order :: "'k list \<Rightarrow> ('k \<rightharpoonup> 'v) \<Rightarrow> bool" where
  "is_order ks m \<longleftrightarrow> distinct ks \<and> set ks = dom m"

lemma is_order_upd_same:
  "is_order ks m \<Longrightarrow> m k \<noteq> None \<Longrightarrow> is_order ks (m(k \<mapsto> v))"
  by (auto simp: is_order_def)

lemma is_orderD: "is_order ks m \<Longrightarrow> k \<in> set ks \<longleftrightarrow> (\<exists>v. m k = Some v)"
  by (auto simp: is_order_def)

lemma is_order_Nil [simp]: "is_order [] m \<longleftrightarrow> m = Map.empty"
  by (auto simp: is_order_def)

text \<open>The values of the map in visiting order.\<close>

fun range_values :: "'k list \<Rightarrow> ('k \<rightharpoonup> 'v) \<Rightarrow> 'v list" where
  "range_values [] m = []"
| "range_values (k # ks) m =
     (case m k of None \<Rightarrow> range_values ks m | Some v \<Rightarrow> v # range_values ks m)"

lemma in_range_values: "v \<in> set (range_values ks m) \<longleftrightarrow> (\<exists>k \<in> set ks. m k = Some v)"
  by (induction ks) (auto split: option.splits)

lemma set_range_values: "is_order ks m \<Longrightarrow> set (range_values ks m) = ran m"
  by (auto simp: in_range_values is_order_def ran_def intro!: bexI domI)

end
