(* ===== verification/Go_Errors.thy ===== *)
theory Go_Errors
  imports Prelude
begin

text \<open>
  The error values of the service and the results of its operations.  The structured errors are
  those of package \<^verbatim>\<open>microservice-core-go/pkg/err\<close> (\<^verbatim>\<open>vendor/.../pkg/err/errors.go\<close>), which decide the
  HTTP status of every failed request; \<^verbatim>\<open>internal/service/error_response.go\<close> turns any error into one
  of them.  The random identifier that \<^verbatim>\<open>NewID\<close> attaches to an error is left out here, as only the printed text and the body
  of a response show it; theory \<open>Error_Ids\<close> has it.
\<close>

section \<open>Error kinds\<close>

datatype kind =
    Unknown
  | BadRequest
  | Unauthorized
  | Forbidden
  | Exist
  | NotFound
  | Timeout
  | Internal
  | ServiceUnavailable

text \<open>The value of the Go constant (they are numbered by \<^verbatim>\<open>iota\<close>).\<close>

fun kind_code :: "kind \<Rightarrow> nat" where
  "kind_code Unknown = 0"
| "kind_code BadRequest = 1"
| "kind_code Unauthorized = 2"
| "kind_code Forbidden = 3"
| "kind_code Exist = 4"
| "kind_code NotFound = 5"
| "kind_code Timeout = 6"
| "kind_code Internal = 7"
| "kind_code ServiceUnavailable = 8"

lemma kind_code_inj [simp]: "kind_code k = kind_code l \<longleftrightarrow> k = l"
  by (cases k; cases l) simp_all

text \<open>Kinds are compared as the integers they are.\<close>

instantiation kind :: linorder
begin

definition less_eq_kind :: "kind \<Rightarrow> kind \<Rightarrow> bool" where
  "less_eq_kind k l \<longleftrightarrow> kind_code k \<le> kind_code l"

definition less_kind :: "kind \<Rightarrow> kind \<Rightarrow> bool" where
  "less_kind k l \<longleftrightarrow> kind_code k < kind_code l"

instance
  by standard (auto simp: less_eq_kind_def less_kind_def)

end

fun kind_String :: "kind \<Rightarrow> string" where
  "kind_String Unknown = ''unknown error''"
| "kind_String BadRequest = ''bad request''"
| "kind_String Unauthorized = ''not authenticated''"
| "kind_String Forbidden = ''permission denied''"
| "kind_String Exist = ''already exist''"
| "kind_String NotFound = ''not found''"
| "kind_String Timeout = ''timeout''"
| "kind_String Internal = ''internal error''"
| "kind_String ServiceUnavailable = ''service unavailable''"

section \<open>Error values\<close>

text \<open>
  \<open>Structured\<close> is an \<^verbatim>\<open>*errors.Error\<close> with its kind, message and wrapped error; \<open>Plain\<close> is any other
  value of type \<^verbatim>\<open>error\<close>, known by its text.
\<close>

datatype goerror =
    Plain string
  | Structured kind string "goerror option"

text \<open>
  \<^verbatim>\<open>errors.New\<close> takes values of several types; \<open>errarg\<close> is one of its arguments.  The loop over the
  arguments is \<open>new_arg\<close>: it carries the kind, the kind of the wrapped structured error, the message
  and the wrapped error.
\<close>

datatype errarg = AKind kind | AErr goerror | AStr string

fun new_arg ::
  "kind \<times> kind \<times> string \<times> goerror option \<Rightarrow> errarg \<Rightarrow> kind \<times> kind \<times> string \<times> goerror option" where
  "new_arg (k, ik, m, e) (AKind k') = (k', ik, m, e)"
| "new_arg (k, ik, m, e) (AErr (Structured k' m' i)) =
     (k, k', if m = [] then m' else m, Some (Structured k' m' i))"
| "new_arg (k, ik, m, e) (AErr (Plain t)) = (k, ik, m, Some (Plain t))"
| "new_arg (k, ik, m, e) (AStr m') = (k, ik, m', e)"

definition errors_New :: "errarg list \<Rightarrow> goerror" where
  "errors_New args =
     (let (k, ik, m, e) = foldl new_arg (Unknown, Unknown, [], None) args
      in Structured (if k = Unknown then ik else k) m e)"

fun errors_Is :: "kind \<Rightarrow> goerror \<Rightarrow> bool" where
  "errors_Is k (Structured k' m e) = (k' = k)"
| "errors_Is k (Plain t) = False"

fun GetKind :: "int \<Rightarrow> kind" where
  "GetKind c =
     (if c = 400 then BadRequest
      else if c = 401 then Unauthorized
      else if c = 403 then Forbidden
      else if c = 409 then Exist
      else if c = 404 then NotFound
      else if c = 408 then Timeout
      else if c = 500 then Internal
      else if c = 503 then ServiceUnavailable
      else Unknown)"

fun kind_status :: "kind \<Rightarrow> int" where
  "kind_status BadRequest = 400"
| "kind_status Unauthorized = 401"
| "kind_status Forbidden = 403"
| "kind_status Exist = 409"
| "kind_status NotFound = 404"
| "kind_status Timeout = 408"
| "kind_status Internal = 500"
| "kind_status ServiceUnavailable = 503"
| "kind_status Unknown = 500"

text \<open>\<^verbatim>\<open>Error.Error\<close> without the identifier it appends; \<^verbatim>\<open>pad\<close> writes the separator after a non-empty text.\<close>

definition pad :: "string \<Rightarrow> string" where
  "pad b = (if b = [] then b else b @ '': '')"

fun err_text :: "goerror \<Rightarrow> string" where
  "err_text (Plain t) = t"
| "err_text (Structured k m e) =
     (let b = (if k = Unknown then m else pad m @ kind_String k)
      in case e of None \<Rightarrow> b | Some i \<Rightarrow> pad b @ err_text i)"

text \<open>
  \<^verbatim>\<open>NewErrorResponse\<close>: a structured error is sent as it is; an error raised by the generated
  transport code (\<^verbatim>\<open>goa.ServiceError\<close>, here its status and text) keeps its status; every other error
  is internal.
\<close>

datatype raised = Goa int string | Raised goerror

fun NewErrorResponse :: "raised option \<Rightarrow> goerror option" where
  "NewErrorResponse None = None"
| "NewErrorResponse (Some (Raised (Structured k m e))) = Some (Structured k m e)"
| "NewErrorResponse (Some (Goa status m)) = Some (Structured (GetKind status) m (Some (Plain m)))"
| "NewErrorResponse (Some (Raised (Plain t))) = Some (Structured Internal t (Some (Plain t)))"

fun StatusCode :: "goerror \<Rightarrow> int" where
  "StatusCode (Structured k m e) = kind_status k"
| "StatusCode (Plain t) = 500"

text \<open>The status the client of the HTTP API sees for an error returned by a service method.\<close>

definition response_status :: "goerror \<Rightarrow> int" where
  "response_status e =
     (case NewErrorResponse (Some (Raised e)) of None \<Rightarrow> 200 | Some r \<Rightarrow> StatusCode r)"

section \<open>Results of operations\<close>

text \<open>
  What a Go call can do: return a value, return an error, panic, or block for ever on a mutex that
  is never released.
\<close>

datatype 'a outcome = Ok 'a | Err goerror | Panic string | Blocked

text \<open>
  \<open>obind\<close> is \<^verbatim>\<open>x, err := f(); if err != nil { return err }\<close>; \<open>owrap\<close> rewrites the error on the way out,
  as in \<^verbatim>\<open>return errors.New("...", err)\<close>.
\<close>

fun obind :: "'a outcome \<Rightarrow> ('a \<Rightarrow> 'b outcome) \<Rightarrow> 'b outcome" where
  "obind (Ok x) f = f x"
| "obind (Err e) f = Err e"
| "obind (Panic t) f = Panic t"
| "obind Blocked f = Blocked"

fun owrap :: "(goerror \<Rightarrow> goerror) \<Rightarrow> 'a outcome \<Rightarrow> 'a outcome" where
  "owrap g (Ok x) = Ok x"
| "owrap g (Err e) = Err (g e)"
| "owrap g (Panic t) = Panic t"
| "owrap g Blocked = Blocked"

text \<open>
  The same for operations on a state: a stateful call takes the state and returns its outcome with
  the new state.
\<close>

definition sbind ::
  "('s \<Rightarrow> 'a outcome \<times> 's) \<Rightarrow> ('a \<Rightarrow> 's \<Rightarrow> 'b outcome \<times> 's) \<Rightarrow> 's \<Rightarrow> 'b outcome \<times> 's" where
  "sbind m f s =
     (case m s of
        (Ok x, s') \<Rightarrow> f x s'
      | (Err e, s') \<Rightarrow> (Err e, s')
      | (Panic t, s') \<Rightarrow> (Panic t, s')
      | (Blocked, s') \<Rightarrow> (Blocked, s'))"

definition swrap :: "(goerror \<Rightarrow> goerror) \<Rightarrow> ('s \<Rightarrow> 'a outcome \<times> 's) \<Rightarrow> 's \<Rightarrow> 'a outcome \<times> 's" where
  "swrap g m s = (let (r, s') = m s in (owrap g r, s'))"

definition sret :: "'a outcome \<Rightarrow> 's \<Rightarrow> 'a outcome \<times> 's" where
  "sret r s = (r, s)"

abbreviation wrap_msg :: "string \<Rightarrow> goerror \<Rightarrow> goerror" where
  "wrap_msg m e \<equiv> errors_New [AStr m, AErr e]"

subsection \<open>Rules\<close>

lemma sbind_eqs [simp]:
  "m s = (Ok x, s') \<Longrightarrow> sbind m f s = f x s'"
  "m s = (Err e, s') \<Longrightarrow> sbind m f s = (Err e, s')"
  "m s = (Panic t, s') \<Longrightarrow> sbind m f s = (Panic t, s')"
  "m s = (Blocked, s') \<Longrightarrow> sbind m f s = (Blocked, s')"
  by (simp_all add: sbind_def)

lemma swrap_eqs [simp]:
  "m s = (r, s') \<Longrightarrow> swrap g m s = (owrap g r, s')"
  by (simp add: swrap_def)

lemma sret_eq [simp]: "sret r s = (r, s)"
  by (simp add: sret_def)

lemma obind_Ok_iff: "obind m f = Ok y \<longleftrightarrow> (\<exists>x. m = Ok x \<and> f x = Ok y)"
  by (cases m) auto

lemma owrap_Ok_iff [simp]: "owrap g m = Ok x \<longleftrightarrow> m = Ok x"
  by (cases m) auto

lemma sbind_OkD:
  "sbind m f s = (Ok y, t) \<Longrightarrow> \<exists>x s'. m s = (Ok x, s') \<and> f x s' = (Ok y, t)"
  by (auto simp: sbind_def split: prod.splits outcome.splits)

lemma swrap_OkD: "swrap g m s = (Ok x, t) \<Longrightarrow> m s = (Ok x, t)"
  by (auto simp: swrap_def split: prod.splits)

lemma errors_New_simps [simp]:
  "errors_New [AKind k] = Structured k [] None"
  "errors_New [AStr m] = Structured Unknown m None"
  "errors_New [AKind k, AStr m] = Structured k m None"
  "errors_New [AStr m, AErr (Structured k m' i)] =
     Structured k (if m = [] then m' else m) (Some (Structured k m' i))"
  "errors_New [AStr m, AErr (Plain t)] = Structured Unknown m (Some (Plain t))"
  "errors_New [AKind k, AErr (Plain t)] = Structured k [] (Some (Plain t))"
  by (auto simp: errors_New_def)

text \<open>Wrapping keeps the kind of a structured error, so the status reaches the client.\<close>

lemma Is_wrap_msg [simp]: "k \<noteq> Unknown \<Longrightarrow> errors_Is k (wrap_msg m e) \<longleftrightarrow> errors_Is k e"
  by (cases e) auto

lemma Is_unique: "errors_Is k e \<Longrightarrow> errors_Is l e \<Longrightarrow> k = l"
  by (cases e) auto

lemma response_status_Is: "errors_Is k e \<Longrightarrow> response_status e = kind_status k"
  by (cases e) (auto simp: response_status_def)

subsection \<open>Calls that return\<close>

text \<open>The call neither panics nor hangs.\<close>

fun returns :: "'a outcome \<Rightarrow> bool" where
  "returns (Ok _) = True"
| "returns (Err _) = True"
| "returns (Panic _) = False"
| "returns Blocked = False"

lemma returns_cases:
  assumes "returns r"
  obtains x where "r = Ok x" | e where "r = Err e"
  using assms by (cases r) auto

lemma returns_owrap [simp]: "returns (owrap g r) = returns r"
  by (cases r) auto

lemma returns_obind [intro]: "returns r \<Longrightarrow> (\<And>x. r = Ok x \<Longrightarrow> returns (f x)) \<Longrightarrow> returns (obind r f)"
  by (cases r) auto

end
