(* ===== verification/Storage_Interface.thy ===== *)
theory Storage_Interface
  imports Go_Errors
begin

text \<open>
  The data the service stores (\<^verbatim>\<open>internal/storage/types.go\<close>) and the interfaces through which the
  other components reach it: \<^verbatim>\<open>policy.Storage\<close> (\<^verbatim>\<open>internal/service/policy/storage.go\<close>) as the record of
  operations \<open>storage_ops\<close>, and what its clients rely on as the locales \<open>policy_store\<close>, \<open>data_store\<close>
  and \<open>autoimport_store\<close>.
\<close>

section \<open>Stored data\<close>

record policy =
  p_MongoID :: nat
  p_Filename :: string
  p_Repository :: string
  p_Name :: string
  p_Group :: string
  p_Version :: string
  p_Rego :: string
  p_Data :: string
  p_DataConfig :: string
  p_OutputSchema :: string
  p_ExportConfig :: string
  p_Locked :: bool
  p_LastUpdate :: time
  p_NextDataRefreshTime :: time

definition pid_of :: "policy \<Rightarrow> polid" where
  "pid_of p = (p_Repository p, p_Group p, p_Name p, p_Version p)"

lemma pid_of_updates [simp]:
  "pid_of (p\<lparr>p_Locked := b\<rparr>) = pid_of p"
  "pid_of (p\<lparr>p_LastUpdate := t\<rparr>) = pid_of p"
  "pid_of (p\<lparr>p_NextDataRefreshTime := t\<rparr>) = pid_of p"
  "pid_of (p\<lparr>p_Data := d\<rparr>) = pid_of p"
  by (simp_all add: pid_of_def)

text \<open>The zero value of the Go struct.\<close>

definition zero_policy :: policy where
  "zero_policy =
     \<lparr>p_MongoID = 0, p_Filename = [], p_Repository = [], p_Name = [], p_Group = [], p_Version = [],
      p_Rego = [], p_Data = [], p_DataConfig = [], p_OutputSchema = [], p_ExportConfig = [],
      p_Locked = False, p_LastUpdate = zero_time, p_NextDataRefreshTime = zero_time\<rparr>"

record subscriber =
  sub_Name :: string
  sub_WebhookURL :: string
  sub_PolicyRepository :: string
  sub_PolicyName :: string
  sub_PolicyGroup :: string
  sub_PolicyVersion :: string
  sub_CreatedAt :: time
  sub_UpdatedAt :: time

record autoimport =
  ai_PolicyURL :: string
  ai_Interval :: duration
  ai_NextImport :: time

text \<open>\<^verbatim>\<open>5 * time.Minute\<close>\<close>

definition RefreshPostponePeriod :: duration where
  "RefreshPostponePeriod = 5 * 60 * 1000000000"

section \<open>The storage interface of the service\<close>

text \<open>
  A Go interface value is the record of its methods.  \<open>'st\<close> is the state the implementation keeps.
  The reading of the clock and the iteration order of maps, which an implementation may use, are
  fixed when the record is built.
\<close>

record 'st storage_ops =
  op_Policy :: "polid \<Rightarrow> 'st \<Rightarrow> policy outcome \<times> 'st"
  op_SavePolicy :: "policy \<Rightarrow> 'st \<Rightarrow> unit outcome \<times> 'st"
  op_SetPolicyLock :: "polid \<Rightarrow> bool \<Rightarrow> 'st \<Rightarrow> unit outcome \<times> 'st"
  op_GetPolicies :: "bool option \<Rightarrow> string option \<Rightarrow> 'st \<Rightarrow> policy list outcome \<times> 'st"
  op_Subscriber :: "polid \<Rightarrow> string \<Rightarrow> string \<Rightarrow> 'st \<Rightarrow> subscriber outcome \<times> 'st"
  op_CreateSubscriber :: "subscriber \<Rightarrow> 'st \<Rightarrow> subscriber outcome \<times> 'st"
  op_GetData :: "string \<Rightarrow> 'st \<Rightarrow> json outcome \<times> 'st"
  op_SetData :: "string \<Rightarrow> (string \<times> json) list \<Rightarrow> 'st \<Rightarrow> unit outcome \<times> 'st"
  op_DeleteData :: "string \<Rightarrow> 'st \<Rightarrow> unit outcome \<times> 'st"
  op_SaveAutoImportConfig :: "autoimport \<Rightarrow> 'st \<Rightarrow> unit outcome \<times> 'st"
  op_AutoImportConfig :: "string \<Rightarrow> 'st \<Rightarrow> autoimport outcome \<times> 'st"
  op_AutoImportConfigs :: "'st \<Rightarrow> autoimport list outcome \<times> 'st"
  op_DeleteAutoImportConfig :: "string \<Rightarrow> 'st \<Rightarrow> unit outcome \<times> 'st"
  op_ActiveImportConfigs :: "'st \<Rightarrow> autoimport list outcome \<times> 'st"

text \<open>
  \<^verbatim>\<open>storage.PolicySubscriber\<close>: a callback that receives the four strings of a changed policy, in the
  order in which the caller passes them, acts on the world and may return an error.
\<close>

type_synonym 'w policy_subscriber =
  "string \<Rightarrow> string \<Rightarrow> string \<Rightarrow> string \<Rightarrow> 'w \<Rightarrow> goerror option \<times> 'w"

section \<open>What the clients rely on\<close>

text \<open>
  A policy store is seen through \<open>lookup\<close>, the map from identifiers to policies.  \<open>wf\<close> are the
  identifiers the store can tell apart.  A store may stamp \<^verbatim>\<open>LastUpdate\<close> when it sets a lock, and may
  keep only part of a saved policy: the laws ask for what the service needs, namely the identity,
  the lock flag, the source, the static data, the data configuration and the output schema.
\<close>

definition evaluation_view :: "policy \<Rightarrow> polid \<times> bool \<times> string \<times> string \<times> string \<times> string" where
  "evaluation_view p = (pid_of p, p_Locked p, p_Rego p, p_Data p, p_DataConfig p, p_OutputSchema p)"

locale policy_store =
  fixes get_policy :: "polid \<Rightarrow> 'st \<Rightarrow> policy outcome \<times> 'st"
    and save_policy :: "policy \<Rightarrow> 'st \<Rightarrow> unit outcome \<times> 'st"
    and set_lock :: "polid \<Rightarrow> bool \<Rightarrow> 'st \<Rightarrow> unit outcome \<times> 'st"
    and lookup :: "'st \<Rightarrow> polid \<Rightarrow> policy option"
    and wf :: "polid \<Rightarrow> bool"
    and invar :: "'st \<Rightarrow> bool"
  assumes get_found:
      "invar s \<Longrightarrow> wf i \<Longrightarrow> lookup s i = Some p \<Longrightarrow> get_policy i s = (Ok p, s)"
    and get_missing:
      "invar s \<Longrightarrow> wf i \<Longrightarrow> lookup s i = None \<Longrightarrow> \<exists>e. get_policy i s = (Err e, s) \<and> errors_Is NotFound e"
    and lookup_pid: "invar s \<Longrightarrow> wf i \<Longrightarrow> lookup s i = Some p \<Longrightarrow> pid_of p = i"
    and set_lock_found:
      "invar s \<Longrightarrow> wf i \<Longrightarrow> lookup s i = Some p \<Longrightarrow>
       \<exists>s' t. set_lock i b s = (Ok (), s') \<and> invar s' \<and>
              lookup s' i = Some (p\<lparr>p_Locked := b, p_LastUpdate := t\<rparr>) \<and>
              (\<forall>j. wf j \<longrightarrow> j \<noteq> i \<longrightarrow> lookup s' j = lookup s j)"
    and save_stores:
      "invar s \<Longrightarrow> wf (pid_of p) \<Longrightarrow>
       \<exists>s' q. save_policy p s = (Ok (), s') \<and> invar s' \<and> lookup s' (pid_of p) = Some q \<and>
              evaluation_view q = evaluation_view p \<and>
              (\<forall>j. wf j \<longrightarrow> j \<noteq> pid_of p \<longrightarrow> lookup s' j = lookup s j)"

text \<open>
  The key-value store behind \<^verbatim>\<open>storage.get\<close>, \<^verbatim>\<open>storage.set\<close> and \<^verbatim>\<open>storage.delete\<close> of a policy.  \<open>invar\<close> is what
  the operations keep.
\<close>

locale data_store =
  fixes get_data :: "string \<Rightarrow> 'st \<Rightarrow> json outcome \<times> 'st"
    and set_data :: "string \<Rightarrow> (string \<times> json) list \<Rightarrow> 'st \<Rightarrow> unit outcome \<times> 'st"
    and delete_data :: "string \<Rightarrow> 'st \<Rightarrow> unit outcome \<times> 'st"
    and contents :: "'st \<Rightarrow> string \<rightharpoonup> json"
    and invar :: "'st \<Rightarrow> bool"
  assumes get_data_found: "invar s \<Longrightarrow> contents s k = Some v \<Longrightarrow> get_data k s = (Ok v, s)"
    and get_data_missing: "invar s \<Longrightarrow> contents s k = None \<Longrightarrow> \<exists>e. get_data k s = (Err e, s)"
    and set_data_stores:
      "invar s \<Longrightarrow> \<exists>s'. set_data k d s = (Ok (), s') \<and> invar s' \<and> contents s' = (contents s)(k \<mapsto> JObj d)"
    and delete_data_found:
      "invar s \<Longrightarrow> contents s k = Some v \<Longrightarrow>
       \<exists>s'. delete_data k s = (Ok (), s') \<and> invar s' \<and> contents s' = (contents s)(k := None)"
    and delete_data_missing:
      "invar s \<Longrightarrow> contents s k = None \<Longrightarrow>
       \<exists>e s'. delete_data k s = (Err e, s') \<and> invar s' \<and> contents s' = contents s"
begin

lemma set_then_get:
  "invar s \<Longrightarrow> set_data k d s = (r, s') \<Longrightarrow> get_data k s' = (Ok (JObj d), s')"
  by (metis fun_upd_same get_data_found prod.inject set_data_stores)

lemma set_keeps_others:
  "invar s \<Longrightarrow> set_data k d s = (r, s') \<Longrightarrow> j \<noteq> k \<Longrightarrow> contents s' j = contents s j"
  by (metis fun_upd_other prod.inject set_data_stores)

lemma delete_after_set:
  assumes "invar s" and "set_data k d s = (r, s1)" and "delete_data k s1 = (r', s2)"
  shows "r' = Ok ()" and "contents s2 = (contents s)(k := None)"
proof -
  have c1: "invar s1" "contents s1 = (contents s)(k \<mapsto> JObj d)"
    using set_data_stores [of s k d] assms(1,2) by auto
  obtain s' where s': "delete_data k s1 = (Ok (), s')" "contents s' = (contents s1)(k := None)"
    using delete_data_found [of s1 k "JObj d"] c1 by auto
  show "r' = Ok ()" using s'(1) assms(3) by simp
  show "contents s2 = (contents s)(k := None)"
    using s' assms(3) c1 by auto
qed

end

text \<open>
  The automatic-import configurations, keyed by the URL of the bundle.  \<open>stored\<close> is the configuration as
  the store keeps it: a database rounds the times.
\<close>

locale autoimport_store =
  fixes save_cfg :: "autoimport \<Rightarrow> 'st \<Rightarrow> unit outcome \<times> 'st"
    and get_cfg :: "string \<Rightarrow> 'st \<Rightarrow> autoimport outcome \<times> 'st"
    and delete_cfg :: "string \<Rightarrow> 'st \<Rightarrow> unit outcome \<times> 'st"
    and cfgs :: "'st \<Rightarrow> string \<rightharpoonup> autoimport"
    and usable :: "'st \<Rightarrow> bool"
    and stored :: "autoimport \<Rightarrow> autoimport"
  assumes save_cfg_stores:
      "usable s \<Longrightarrow>
       \<exists>s'. save_cfg c s = (Ok (), s') \<and> usable s' \<and> cfgs s' = (cfgs s)(ai_PolicyURL c \<mapsto> stored c)"
    and get_cfg_found: "usable s \<Longrightarrow> cfgs s u = Some c \<Longrightarrow> get_cfg u s = (Ok c, s)"
    and get_cfg_missing:
      "usable s \<Longrightarrow> cfgs s u = None \<Longrightarrow> \<exists>e. get_cfg u s = (Err e, s) \<and> errors_Is NotFound e"
    and delete_cfg_found:
      "usable s \<Longrightarrow> cfgs s u = Some c \<Longrightarrow>
       \<exists>s'. delete_cfg u s = (Ok (), s') \<and> usable s' \<and> cfgs s' = (cfgs s)(u := None)"
begin

lemma saved_cfg_is_read:
  assumes "usable s" and "save_cfg c s = (r, s')"
  shows "r = Ok () \<and> get_cfg (ai_PolicyURL c) s' = (Ok (stored c), s')"
proof -
  obtain t where "save_cfg c s = (Ok (), t)" "usable t" "cfgs t = (cfgs s)(ai_PolicyURL c \<mapsto> stored c)"
    using save_cfg_stores [OF assms(1)] by blast
  then show ?thesis using assms(2) get_cfg_found [of t "ai_PolicyURL c"] by simp
qed

lemma deleted_cfg_is_missing:
  assumes "usable s" and "cfgs s u = Some c" and "delete_cfg u s = (r, s')"
  shows "r = Ok () \<and> (\<exists>e. get_cfg u s' = (Err e, s') \<and> errors_Is NotFound e)"
proof -
  obtain t where "delete_cfg u s = (Ok (), t)" "usable t" "cfgs t = (cfgs s)(u := None)"
    using delete_cfg_found [OF assms(1,2)] by blast
  then show ?thesis using assms(3) get_cfg_missing [of t u] by simp
qed

end

end
