(* ===== verification/Rego_Cache.thy ===== *)
theory Rego_Cache
  imports Storage_Interface
begin

text \<open>
  The in-process cache of policies (\<^verbatim>\<open>internal/regocache/regocache.go\<close>), which the service consults
  before the storage and which every policy change purges.
\<close>

type_synonym rego_cache = "string \<rightharpoonup> policy"

definition rc_New :: rego_cache where
  "rc_New = Map.empty"

definition rc_Set :: "string \<Rightarrow> policy \<Rightarrow> rego_cache \<Rightarrow> rego_cache" where
  "rc_Set key p c = c(key \<mapsto> p)"

definition rc_Get :: "string \<Rightarrow> rego_cache \<Rightarrow> policy option" where
  "rc_Get key c = c key"

definition rc_Purge :: "rego_cache \<Rightarrow> rego_cache" where
  "rc_Purge c = Map.empty"

text \<open>The cache is a policy subscriber: it ignores which policy changed.\<close>

definition rc_PolicyDataChange :: "rego_cache policy_subscriber" where
  "rc_PolicyDataChange a b c d cache = (None, rc_Purge cache)"

text \<open>What the service relies on: the interface \<^verbatim>\<open>policy.RegoCache\<close> with the purge that empties it.\<close>

locale policy_cache =
  fixes set_entry :: "string \<Rightarrow> policy \<Rightarrow> 'c \<Rightarrow> 'c"
    and get_entry :: "string \<Rightarrow> 'c \<Rightarrow> policy option"
    and purge :: "'c \<Rightarrow> 'c"
  assumes get_set: "get_entry k (set_entry k p c) = Some p"
    and get_set_other: "j \<noteq> k \<Longrightarrow> get_entry j (set_entry k p c) = get_entry j c"
    and get_purge: "get_entry k (purge c) = None"
begin

lemma get_set_iff: "get_entry j (set_entry k p c) = (if j = k then Some p else get_entry j c)"
  by (simp add: get_set get_set_other)

text \<open>Entries that agree with a reference map keep agreeing when a correct entry is added.\<close>

definition agrees :: "(string \<Rightarrow> policy option) \<Rightarrow> 'c \<Rightarrow> bool" where
  "agrees ref c \<longleftrightarrow> (\<forall>k p. get_entry k c = Some p \<longrightarrow> ref k = Some p)"

lemma agrees_purge: "agrees ref (purge c)"
  by (simp add: agrees_def get_purge)

lemma agrees_set: "agrees ref c \<Longrightarrow> ref k = Some p \<Longrightarrow> agrees ref (set_entry k p c)"
  by (simp add: agrees_def get_set_iff)

end

interpretation rc: policy_cache rc_Set rc_Get rc_Purge
  by unfold_locales (simp_all add: rc_Set_def rc_Get_def rc_Purge_def)

end
