(* ===== verification/Header.thy ===== *)
theory Header
  imports Go_Errors
begin

text \<open>
  Request headers inside a policy: the middleware that puts them into the request context
  (\<^verbatim>\<open>internal/header/header.go\<close>) and the Rego function that reads them
  (\<^verbatim>\<open>internal/regofunc/http_header.go\<close>).
\<close>

section \<open>Canonical header names\<close>

text \<open>
  \<^verbatim>\<open>http.Header.Get\<close> puts the name in canonical form: the first letter and every letter after a
  hyphen in upper case, the others in lower case; a name with a byte that is not a token character is
  left as it is.
\<close>

definition is_lower :: "char \<Rightarrow> bool" where
  "is_lower c \<longleftrightarrow> (97 :: nat) \<le> of_char c \<and> of_char c \<le> (122 :: nat)"

definition is_upper :: "char \<Rightarrow> bool" where
  "is_upper c \<longleftrightarrow> (65 :: nat) \<le> of_char c \<and> of_char c \<le> (90 :: nat)"

definition up :: "char \<Rightarrow> char" where
  "up c = (if is_lower c then char_of (of_char c - (32 :: nat)) else c)"

definition down :: "char \<Rightarrow> char" where
  "down c = (if is_upper c then char_of (of_char c + (32 :: nat)) else c)"

definition is_token :: "char \<Rightarrow> bool" where
  "is_token c \<longleftrightarrow>
     is_lower c \<or> is_upper c \<or> (48 :: nat) \<le> of_char c \<and> of_char c \<le> (57 :: nat) \<or>
     of_char c \<in> {33, 35, 36, 37, 38, 39, 42, 43, 45, 46, 94, 95, 96, 124, 126 :: nat}"

fun canon :: "bool \<Rightarrow> string \<Rightarrow> string" where
  "canon upper [] = []"
| "canon upper (c # cs) =
     (let d = (if upper then up c else down c) in d # canon (c = CHR ''-'') cs)"

definition canonical_key :: "string \<Rightarrow> string" where
  "canonical_key s = (if list_all is_token s then canon True s else s)"

section \<open>The middleware and the Rego function\<close>

record http_request =
  hr_Header :: "string \<rightharpoonup> string list"
  hr_Host :: string

definition header_Get :: "(string \<rightharpoonup> string list) \<Rightarrow> string \<Rightarrow> string" where
  "header_Get h name =
     (case h (canonical_key name) of Some (v # vs) \<Rightarrow> v | _ \<Rightarrow> [])"

text \<open>\<^verbatim>\<open>ToContext\<close>: one entry per header of the request, then the host.\<close>

definition ToContext :: "http_request \<Rightarrow> string \<rightharpoonup> string" where
  "ToContext r =
     (\<lambda>name. if hr_Header r name = None then None else Some (header_Get (hr_Header r) name))
       (''Host'' \<mapsto> hr_Host r)"

text \<open>
  \<^verbatim>\<open>FromContext\<close>: \<open>None\<close> is a context without the value, as on every endpoint the middleware does not
  wrap; the map returned there is nil, and reading it gives the empty string.
\<close>

definition FromContext :: "(string \<rightharpoonup> string) option \<Rightarrow> string \<rightharpoonup> string" where
  "FromContext ctx = (case ctx of None \<Rightarrow> Map.empty | Some h \<Rightarrow> h)"

definition GetHeaderFunc :: "(string \<rightharpoonup> string) \<Rightarrow> string \<Rightarrow> string" where
  "GetHeaderFunc headers name = (case headers name of None \<Rightarrow> [] | Some v \<Rightarrow> v)"

subsection \<open>Facts about canonical names\<close>

lemma of_char_up: "is_lower c \<Longrightarrow> of_char (up c) = of_char c - (32 :: nat)"
  by (auto simp: up_def is_lower_def of_char_of intro!: mod_less)

lemma of_char_down: "is_upper c \<Longrightarrow> of_char (down c) = of_char c + (32 :: nat)"
  by (auto simp: down_def is_upper_def of_char_of intro!: mod_less)

lemma up_other: "\<not> is_lower c \<Longrightarrow> up c = c"
  by (simp add: up_def)

lemma down_other: "\<not> is_upper c \<Longrightarrow> down c = c"
  by (simp add: down_def)

lemma up_is_upper: "is_lower c \<Longrightarrow> is_upper (up c)"
  by (auto simp: is_upper_def of_char_up) (auto simp: is_lower_def)

lemma down_is_lower: "is_upper c \<Longrightarrow> is_lower (down c)"
  by (auto simp: is_lower_def of_char_down) (auto simp: is_upper_def)

lemma upper_not_lower: "is_upper c \<Longrightarrow> \<not> is_lower c"
  by (simp add: is_upper_def is_lower_def)

lemma up_idem [simp]: "up (up c) = up c"
  by (cases "is_lower c") (simp_all add: up_other up_is_upper upper_not_lower)

lemma down_idem [simp]: "down (down c) = down c"
proof (cases "is_upper c")
  case True
  then have "\<not> is_upper (down c)" using down_is_lower upper_not_lower by blast
  then show ?thesis by (simp add: down_other)
qed (simp add: down_other)

lemma not_letter_hyphen: "\<not> is_lower CHR ''-''" "\<not> is_upper CHR ''-''"
  by (simp_all add: is_lower_def is_upper_def)

lemma up_hyphen [simp]: "up c = CHR ''-'' \<longleftrightarrow> c = CHR ''-''"
  using up_is_upper [of c] not_letter_hyphen by (cases "is_lower c") (auto simp: up_other)

lemma down_hyphen [simp]: "down c = CHR ''-'' \<longleftrightarrow> c = CHR ''-''"
  using down_is_lower [of c] not_letter_hyphen by (cases "is_upper c") (auto simp: down_other)

lemma is_token_up_down: "is_token c \<Longrightarrow> is_token (up c) \<and> is_token (down c)"
  using up_is_upper [of c] down_is_lower [of c]
  by (cases "is_lower c"; cases "is_upper c") (auto simp: is_token_def up_other down_other)

lemma canon_idem: "canon b (canon b s) = canon b s"
  by (induction b s rule: canon.induct) (auto simp: Let_def)

lemma canon_tokens: "list_all is_token s \<Longrightarrow> list_all is_token (canon b s)"
  by (induction b s rule: canon.induct) (auto simp: Let_def is_token_up_down)

lemma canonical_key_idem [simp]: "canonical_key (canonical_key s) = canonical_key s"
  by (simp add: canonical_key_def canon_idem canon_tokens)

lemma GetHeader_present:
  assumes "hr_Header r (canonical_key name) = Some (v # vs)" and "canonical_key name \<noteq> ''Host''"
  shows "GetHeaderFunc (FromContext (Some (ToContext r))) (canonical_key name) = v"
  using assms by (simp add: GetHeaderFunc_def FromContext_def ToContext_def header_Get_def)

end
