(* ===== verification/Go_Std.thy ===== *)
theory Go_Std
  imports Go_Errors
begin

text \<open>
  The parts of the Go standard library the service calls that act on the outside world or on encoded
  data: HTTP requests (\<^verbatim>\<open>net/http\<close>), JSON (\<^verbatim>\<open>encoding/json\<close>), base64.  The answers of the network and the
  text form of JSON are parameters (the records \<open>net\<close> and \<open>codec\<close>); decoding into a Go struct and
  base64 are written out.
\<close>

section \<open>HTTP\<close>

record request =
  rq_Method :: string
  rq_URL :: string
  rq_Header :: "(string \<times> string) list"
  rq_Body :: string

text \<open>
  A response: status code, status line, the bytes its body delivers, and the error with which reading
  the body ends, if it does not end normally.
\<close>

record response =
  rs_StatusCode :: int
  rs_Status :: string
  rs_Body :: string
  rs_ReadErr :: "goerror option"

type_synonym hist = "request list"

text \<open>
  \<open>respond\<close> is the network: its answer may depend on all requests sent before.  \<open>badRequest\<close> is the
  error \<^verbatim>\<open>http.NewRequest\<close> gives for a method and URL, if any.
\<close>

record net =
  respond :: "hist \<Rightarrow> request \<Rightarrow> response outcome"
  badRequest :: "string \<Rightarrow> string \<Rightarrow> goerror option"

definition http_NewRequest :: "net \<Rightarrow> string \<Rightarrow> string \<Rightarrow> string \<Rightarrow> request outcome" where
  "http_NewRequest n meth url body =
     (case badRequest n meth url of
        Some e \<Rightarrow> Err e
      | None \<Rightarrow> Ok \<lparr>rq_Method = meth, rq_URL = url, rq_Header = [], rq_Body = body\<rparr>)"

definition http_Do :: "net \<Rightarrow> request \<Rightarrow> hist \<Rightarrow> response outcome \<times> hist" where
  "http_Do n rq h = (respond n h rq, h @ [rq])"

definition io_ReadAll :: "response \<Rightarrow> string outcome" where
  "io_ReadAll r = (case rs_ReadErr r of None \<Rightarrow> Ok (rs_Body r) | Some e \<Rightarrow> Err e)"

lemma returns_http_NewRequest [simp]: "returns (http_NewRequest n m u b)"
  by (auto simp: http_NewRequest_def split: option.splits)

lemma returns_io_ReadAll [simp]: "returns (io_ReadAll resp)"
  by (cases "rs_ReadErr resp") (simp_all add: io_ReadAll_def)

text \<open>The network answers every request, if only with an error.\<close>

definition answering :: "net \<Rightarrow> bool" where
  "answering n \<longleftrightarrow> (\<forall>h rq. returns (respond n h rq))"

lemma answering_cases:
  assumes "answering n"
  obtains r where "respond n h rq = Ok r" | e where "respond n h rq = Err e"
  using assms by (meson answering_def returns_cases)

text \<open>Reading the body of a failed response through \<^verbatim>\<open>io.LimitReader(body, 2<<20)\<close>; an error gives no text.\<close>

definition read_error_body :: "response \<Rightarrow> string" where
  "read_error_body r =
     (if length (rs_Body r) \<ge> 2097152 then take 2097152 (rs_Body r)
      else if rs_ReadErr r \<noteq> None then [] else rs_Body r)"

lemma length_read_error_body: "length (read_error_body r) \<le> 2097152"
  by (auto simp: read_error_body_def)

section \<open>JSON\<close>

text \<open>
  \<open>marshal\<close> and \<open>unmarshal\<close> convert between JSON values and text, \<open>decodeFirst\<close> reads the first value
  of a stream (\<^verbatim>\<open>json.NewDecoder(r).Decode\<close>); \<open>sameFold\<close> is the case folding by
  which \<^verbatim>\<open>encoding/json\<close> matches an object key to a struct field; the time functions are those of
  \<^verbatim>\<open>time.Time\<close>'s JSON form.
\<close>

record codec =
  marshal :: "json \<Rightarrow> string outcome"
  unmarshal :: "string \<Rightarrow> json outcome"
  decodeFirst :: "string \<Rightarrow> json outcome"
  sameFold :: "string \<Rightarrow> string \<Rightarrow> bool"
  formatTime :: "time \<Rightarrow> string outcome"
  parseTime :: "string \<Rightarrow> time outcome"

definition type_mismatch :: goerror where
  "type_mismatch = Plain ''json: cannot unmarshal value into Go struct field''"

text \<open>
  Decoding an object into a struct: the decoder goes through the entries, assigns each to the field
  its key matches, leaves the field alone for \<^verbatim>\<open>null\<close>, and reports a value of another type.
\<close>

fun str_field :: "codec \<Rightarrow> string \<Rightarrow> (string \<times> json) list \<Rightarrow> string \<Rightarrow> string outcome" where
  "str_field C name [] cur = Ok cur"
| "str_field C name ((k, v) # kvs) cur =
     (if sameFold C k name then
        (case v of
           JStr s \<Rightarrow> str_field C name kvs s
         | JNull \<Rightarrow> str_field C name kvs cur
         | _ \<Rightarrow> Err type_mismatch)
      else str_field C name kvs cur)"

fun bool_field :: "codec \<Rightarrow> string \<Rightarrow> (string \<times> json) list \<Rightarrow> bool \<Rightarrow> bool outcome" where
  "bool_field C name [] cur = Ok cur"
| "bool_field C name ((k, v) # kvs) cur =
     (if sameFold C k name then
        (case v of
           JBool b \<Rightarrow> bool_field C name kvs b
         | JNull \<Rightarrow> bool_field C name kvs cur
         | _ \<Rightarrow> Err type_mismatch)
      else bool_field C name kvs cur)"

fun time_field :: "codec \<Rightarrow> string \<Rightarrow> (string \<times> json) list \<Rightarrow> time \<Rightarrow> time outcome" where
  "time_field C name [] cur = Ok cur"
| "time_field C name ((k, v) # kvs) cur =
     (if sameFold C k name then
        (case v of
           JStr s \<Rightarrow> obind (parseTime C s) (\<lambda>t. time_field C name kvs t)
         | JNull \<Rightarrow> time_field C name kvs cur
         | _ \<Rightarrow> Err type_mismatch)
      else time_field C name kvs cur)"

text \<open>The entries a struct is decoded from: \<^verbatim>\<open>null\<close> leaves the struct as it is.\<close>

fun struct_entries :: "json \<Rightarrow> (string \<times> json) list outcome" where
  "struct_entries (JObj kvs) = Ok kvs"
| "struct_entries JNull = Ok []"
| "struct_entries _ = Err type_mismatch"

lemma returns_struct_entries [simp]: "returns (struct_entries v)"
  by (cases v) auto

lemma returns_str_field [simp]: "returns (str_field C name kvs cur)"
  by (induction C name kvs cur rule: str_field.induct) (auto split: json.splits)

lemma returns_bool_field [simp]: "returns (bool_field C name kvs cur)"
  by (induction C name kvs cur rule: bool_field.induct) (auto split: json.splits)

lemma returns_time_field: "\<forall>s. returns (parseTime C s) \<Longrightarrow> returns (time_field C name kvs cur)"
  by (induction C name kvs cur rule: time_field.induct) (auto split: json.splits)

text \<open>The text of a value decodes back to it (true of valid UTF-8 strings and distinct keys).\<close>

definition json_faithful :: "codec \<Rightarrow> json \<Rightarrow> bool" where
  "json_faithful C v \<longleftrightarrow> (case marshal C v of Ok t \<Rightarrow> unmarshal C t = Ok v | _ \<Rightarrow> False)"

lemma json_faithfulE:
  assumes "json_faithful C v"
  obtains t where "marshal C v = Ok t" "unmarshal C t = Ok v"
  using assms by (cases "marshal C v") (auto simp: json_faithful_def)

text \<open>\<^verbatim>\<open>json.NewDecoder(resp.Body).Decode\<close>: a read error matters when no complete value came before it.\<close>

definition decode_body :: "codec \<Rightarrow> response \<Rightarrow> json outcome" where
  "decode_body C r =
     (case decodeFirst C (rs_Body r) of
        Ok v \<Rightarrow> Ok v
      | e \<Rightarrow> (case rs_ReadErr r of None \<Rightarrow> e | Some re \<Rightarrow> Err re))"

section \<open>Numbers in decimal (\<^verbatim>\<open>strconv.Itoa\<close>, \<^verbatim>\<open>%d\<close>)\<close>

definition digit_char :: "nat \<Rightarrow> char" where
  "digit_char d = ''0123456789'' ! d"

fun nat_text :: "nat \<Rightarrow> string" where
  "nat_text n = (if n < 10 then [digit_char n] else nat_text (n div 10) @ [digit_char (n mod 10)])"

declare nat_text.simps [simp del]

definition int_text :: "int \<Rightarrow> string" where
  "int_text i = (if i < 0 then CHR ''-'' # nat_text (nat (- i)) else nat_text (nat i))"

text \<open>Reading a number: the value of the digits, and \<^verbatim>\<open>strconv.ParseInt\<close> with base 10 and 64 bits.\<close>

definition all_digits :: "string \<Rightarrow> bool" where
  "all_digits p = list_all (\<lambda>c. (48 :: nat) \<le> of_char c \<and> of_char c \<le> (57 :: nat)) p"

definition digits_value :: "string \<Rightarrow> nat" where
  "digits_value p = foldl (\<lambda>n c. 10 * n + (of_char c - 48)) 0 p"

lemma digit_char_code: "d < 10 \<Longrightarrow> of_char (digit_char d) = 48 + d"
  unfolding digit_char_def
  by (cases "d = 0"; cases "d = 1"; cases "d = 2"; cases "d = 3"; cases "d = 4"; cases "d = 5"; cases "d = 6";
      cases "d = 7"; cases "d = 8"; cases "d = 9") simp_all

definition ParseInt64 :: "string \<Rightarrow> int option" where
  "ParseInt64 s =
     (let neg = (s \<noteq> [] \<and> s ! 0 = CHR ''-''); ds = (if s \<noteq> [] \<and> (s ! 0 = CHR ''-'' \<or> s ! 0 = CHR ''+'') then tl s else s);
          v = int (digits_value ds); n = (if neg then - v else v)
      in if ds \<noteq> [] \<and> all_digits ds \<and> - (2 ^ 63) \<le> n \<and> n < 2 ^ 63 then Some n else None)"

lemma all_digits_append: "all_digits (a @ b) \<longleftrightarrow> all_digits a \<and> all_digits b"
  by (simp add: all_digits_def)

lemma all_digits_nat_text [simp]: "all_digits (nat_text n)"
proof (induction n rule: nat_text.induct)
  case (1 n)
  have d: "all_digits [digit_char (m mod 10)]" for m
    using digit_char_code [of "m mod 10"] by (simp add: all_digits_def)
  show ?case
    using 1 d [of n] by (subst nat_text.simps) (auto simp: not_less all_digits_append)
qed

lemma digits_value_snoc: "digits_value (p @ [c]) = 10 * digits_value p + (of_char c - 48)"
  by (simp add: digits_value_def)

lemma digits_value_nat_text [simp]: "digits_value (nat_text n) = n"
proof (induction n rule: nat_text.induct)
  case (1 n)
  show ?case
  proof (cases "n < 10")
    case True
    then show ?thesis
      by (subst nat_text.simps) (simp add: digits_value_def digit_char_code)
  next
    case False
    then show ?thesis
      using 1 by (subst nat_text.simps) (simp add: digits_value_snoc digit_char_code)
  qed
qed

lemma nat_text_inj [simp]: "nat_text m = nat_text n \<longleftrightarrow> m = n"
  by (metis digits_value_nat_text)

lemma nat_text_nonempty [simp]: "nat_text n \<noteq> []"
  by (subst nat_text.simps) auto

lemma ParseInt64_text:
  assumes "- (2 ^ 63) \<le> i" and "i < 2 ^ 63"
  shows "ParseInt64 (int_text i) = Some i"
proof (cases "i < 0")
  case True
  then show ?thesis using assms by (simp add: ParseInt64_def int_text_def Let_def)
next
  case False
  have "nat_text n ! 0 \<noteq> CHR ''-'' \<and> nat_text n ! 0 \<noteq> CHR ''+''" for n
  proof -
    obtain c cs where c: "nat_text n = c # cs" by (cases "nat_text n") auto
    then have "(48 :: nat) \<le> of_char c" using all_digits_nat_text [of n] by (simp add: all_digits_def)
    then show ?thesis unfolding c by auto
  qed
  then show ?thesis using False assms by (simp add: ParseInt64_def int_text_def Let_def)
qed

section \<open>Base64 (standard alphabet, padded)\<close>

definition b64_alphabet :: string where
  "b64_alphabet = ''ABCDEFGHIJKLMNOPQRSTUVWXYZabcdefghijklmnopqrstuvwxyz0123456789+/''"

definition b64_char :: "nat \<Rightarrow> char" where
  "b64_char n = b64_alphabet ! n"

fun index_of :: "char \<Rightarrow> string \<Rightarrow> nat option" where
  "index_of c [] = None"
| "index_of c (x # xs) = (if x = c then Some 0 else map_option Suc (index_of c xs))"

definition b64_val :: "char \<Rightarrow> nat option" where
  "b64_val c = index_of c b64_alphabet"

fun b64_encode :: "string \<Rightarrow> string" where
  "b64_encode [] = []"
| "b64_encode [a] =
     (let x = of_char a :: nat in [b64_char (x div 4), b64_char (x mod 4 * 16), CHR ''='', CHR ''=''])"
| "b64_encode [a, b] =
     (let x = of_char a :: nat; y = of_char b :: nat
      in [b64_char (x div 4), b64_char (x mod 4 * 16 + y div 16), b64_char (y mod 16 * 4), CHR ''=''])"
| "b64_encode (a # b # c # s) =
     (let x = of_char a :: nat; y = of_char b :: nat; z = of_char c :: nat
      in b64_char (x div 4) # b64_char (x mod 4 * 16 + y div 16)
         # b64_char (y mod 16 * 4 + z div 64) # b64_char (z mod 64) # b64_encode s)"

definition b64_error :: goerror where
  "b64_error = Plain ''illegal base64 data''"

text \<open>The decoder drops line breaks, and stops at padding, after which nothing may follow.\<close>

fun b64_groups :: "string \<Rightarrow> string outcome" where
  "b64_groups [] = Ok []"
| "b64_groups (p # q # r # s # rest) =
     (case (b64_val p, b64_val q) of
        (Some w, Some x) \<Rightarrow>
          (case (b64_val r, b64_val s) of
             (Some y, Some z) \<Rightarrow>
               obind (b64_groups rest) (\<lambda>t.
                 Ok (char_of (w * 4 + x div 16) # char_of (x mod 16 * 16 + y div 4)
                     # char_of (y mod 4 * 64 + z) # t))
           | (Some y, None) \<Rightarrow>
               if s = CHR ''='' \<and> rest = []
               then Ok [char_of (w * 4 + x div 16), char_of (x mod 16 * 16 + y div 4)]
               else Err b64_error
           | (None, _) \<Rightarrow>
               if r = CHR ''='' \<and> s = CHR ''='' \<and> rest = []
               then Ok [char_of (w * 4 + x div 16)] else Err b64_error)
      | _ \<Rightarrow> Err b64_error)"
| "b64_groups _ = Err b64_error"

definition b64_decode :: "string \<Rightarrow> string outcome" where
  "b64_decode s = b64_groups (filter (\<lambda>c. c \<noteq> CHR 0x0A \<and> c \<noteq> CHR 0x0D) s)"

lemma b64_val_all: "list_all (\<lambda>n. b64_val (b64_char n) = Some n) [0..<64]"
  by code_simp

lemma b64_val_char: "n < 64 \<Longrightarrow> b64_val (b64_char n) = Some n"
  using b64_val_all by (simp add: list_all_iff)

lemma b64_val_pad: "b64_val CHR ''='' = None"
  by code_simp

lemma b64_alphabet_length: "length b64_alphabet = 64"
  by (simp add: b64_alphabet_def)

lemma b64_char_in: "n < 64 \<Longrightarrow> b64_char n \<in> set b64_alphabet"
  using nth_mem [of n b64_alphabet] by (simp only: b64_char_def b64_alphabet_length)

lemma b64_no_breaks: "c \<in> set b64_alphabet \<Longrightarrow> c \<noteq> CHR 0x0A \<and> c \<noteq> CHR 0x0D"
  by (auto simp: b64_alphabet_def)

lemma of_char_lt: "(of_char c :: nat) < 256"
  by simp

lemma pack_div_mod:
  fixes a b m :: nat
  assumes "b < m"
  shows "(a * m + b) div m = a" and "(a * m + b) mod m = b"
  using assms by auto

lemma pack_less: "a < k \<Longrightarrow> b < m \<Longrightarrow> a * m + b < k * (m :: nat)"
  by (metis div_less_iff_less_mult pack_div_mod(1) bot_nat_0.not_eq_extremum less_nat_zero_code)

lemma byte_groups:
  fixes x y z :: nat
  assumes "x < 256" "y < 256" "z < 256"
  shows "x div 4 * 4 + (x mod 4 * 16 + y div 16) div 16 = x"
    and "(x mod 4 * 16 + y div 16) mod 16 * 16 + (y mod 16 * 4 + z div 64) div 4 = y"
    and "(y mod 16 * 4 + z div 64) mod 4 * 64 + z mod 64 = z"
    and "x mod 4 * 16 + y div 16 < 64" and "y mod 16 * 4 + z div 64 < 64"
    and "x mod 4 * 16 < 64" and "y mod 16 * 4 < 64" and "x div 4 < 64"
proof -
  have y16: "y div 16 < 16" and z64: "z div 64 < 4" using assms by auto
  note p = pack_div_mod [OF y16, of "x mod 4"] and q = pack_div_mod [OF z64, of "y mod 16"]
  show "x div 4 * 4 + (x mod 4 * 16 + y div 16) div 16 = x"
    unfolding p(1) by simp
  show "(x mod 4 * 16 + y div 16) mod 16 * 16 + (y mod 16 * 4 + z div 64) div 4 = y"
    unfolding p(2) q(1) by simp
  show "(y mod 16 * 4 + z div 64) mod 4 * 64 + z mod 64 = z"
    unfolding q(2) by simp
  show "x mod 4 * 16 + y div 16 < 64" using pack_less [OF _ y16, of "x mod 4" 4] by simp
  show "y mod 16 * 4 + z div 64 < 64" using pack_less [OF _ z64, of "y mod 16" 16] by simp
  show "x mod 4 * 16 < 64" "y mod 16 * 4 < 64" "x div 4 < 64" using assms(1) by auto
qed

lemma b64_encode_chars: "c \<in> set (b64_encode s) \<Longrightarrow> c \<in> set b64_alphabet \<or> c = CHR ''=''"
proof (induction s rule: b64_encode.induct)
  case (2 a)
  note g = byte_groups [OF of_char_lt [of a] of_char_lt [of a] of_char_lt [of a]]
  show ?case using 2 b64_char_in [OF g(6)] b64_char_in [OF g(8)] by (auto simp: Let_def)
next
  case (3 a b)
  note g = byte_groups [OF of_char_lt [of a] of_char_lt [of b] of_char_lt [of b]]
  show ?case using 3 b64_char_in [OF g(4)] b64_char_in [OF g(7)] b64_char_in [OF g(8)]
    by (auto simp: Let_def)
next
  case (4 a b c s)
  note g = byte_groups [OF of_char_lt [of a] of_char_lt [of b] of_char_lt [of c]]
  have "(of_char c :: nat) mod 64 < 64" by simp
  then show ?case
    using 4 b64_char_in [OF g(4)] b64_char_in [OF g(5)] b64_char_in [OF g(8)] b64_char_in
    by (auto simp: Let_def)
qed simp

lemma b64_groups_encode: "b64_groups (b64_encode s) = Ok s"
proof (induction s rule: b64_encode.induct)
  case (2 a)
  note g = byte_groups [OF of_char_lt [of a] of_char_lt [of a] of_char_lt [of a]]
  show ?case by (simp add: Let_def b64_val_char [OF g(6)] b64_val_char [OF g(8)] b64_val_pad)
next
  case (3 a b)
  note g = byte_groups [OF of_char_lt [of a] of_char_lt [of b] of_char_lt [of b]]
  have "(of_char a mod 4 * 16 + of_char b div 16) mod 16 * 16 + of_char b mod 16 * 4 div 4
      = (of_char b :: nat)"
  proof -
    have "(of_char b :: nat) div 16 < 16" by (rule less_mult_imp_div_less) simp
    from pack_div_mod(2) [OF this, of "of_char a mod 4"] show ?thesis by simp
  qed
  then show ?case
    by (simp add: Let_def b64_val_char [OF g(4)] b64_val_char [OF g(7)] b64_val_char [OF g(8)]
        b64_val_pad g(1))
next
  case (4 a b c s)
  note g = byte_groups [OF of_char_lt [of a] of_char_lt [of b] of_char_lt [of c]]
  show ?case
    using g(1-3) 4
    by (simp add: Let_def b64_val_char b64_val_char [OF g(4)] b64_val_char [OF g(5)]
        b64_val_char [OF g(8)])
qed simp

lemma b64_decode_encode [simp]: "b64_decode (b64_encode s) = Ok s"
proof -
  have "filter (\<lambda>c. c \<noteq> CHR 0x0A \<and> c \<noteq> CHR 0x0D) (b64_encode s) = b64_encode s"
    using b64_encode_chars b64_no_breaks by (fastforce simp: filter_id_conv)
  then show ?thesis by (simp add: b64_decode_def b64_groups_encode)
qed

end
