(* ===== verification/Clients.thy ===== *)
theory Clients
  imports Go_Std
begin

text \<open>
  The clients of the cache, signer and NATS services (\<^verbatim>\<open>internal/clients/*\<close>).  Each call returns its
  outcome and appends the request it sent to the history of requests.
\<close>

section \<open>Cache\<close>

definition cache_headers :: "string \<Rightarrow> string \<Rightarrow> string \<Rightarrow> (string \<times> string) list" where
  "cache_headers key namespace scope =
     [(''x-cache-key'', key), (''x-cache-namespace'', namespace), (''x-cache-scope'', scope)]"

definition unexpected :: "response \<Rightarrow> goerror" where
  "unexpected r =
     errors_New [AKind (GetKind (rs_StatusCode r)),
       AStr (''unexpected response: '' @ int_text (rs_StatusCode r) @ '' '' @ rs_Status r)]"

definition cacheclient_Set ::
  "net \<Rightarrow> string \<Rightarrow> string \<Rightarrow> string \<Rightarrow> string \<Rightarrow> string \<Rightarrow> int \<Rightarrow> hist \<Rightarrow> unit outcome \<times> hist" where
  "cacheclient_Set n addr key namespace scope val ttl =
     (if addr = [] then
        sret (Err (errors_New [AKind ServiceUnavailable,
          AStr ''trying to use cache service, but address is not set'']))
      else
        sbind (sret (http_NewRequest n ''POST'' (addr @ ''/v1/cache'') val)) (\<lambda>rq.
        sbind (http_Do n (rq\<lparr>rq_Header := cache_headers key namespace scope @
            (if ttl \<noteq> 0 then [(''X-Cache-Ttl'', int_text ttl)] else [])\<rparr>)) (\<lambda>resp.
        sret (if rs_StatusCode resp \<noteq> 201 \<and> rs_StatusCode resp \<noteq> 200
              then Err (unexpected resp) else Ok ()))))"

text \<open>\<^verbatim>\<open>Get\<close> sets the headers before it checks the error of \<^verbatim>\<open>NewRequest\<close>, so a bad URL panics.\<close>

definition cacheclient_Get ::
  "net \<Rightarrow> string \<Rightarrow> string \<Rightarrow> string \<Rightarrow> string \<Rightarrow> hist \<Rightarrow> string outcome \<times> hist" where
  "cacheclient_Get n addr key namespace scope =
     (if addr = [] then
        sret (Err (errors_New [AKind ServiceUnavailable,
          AStr ''trying to use cache service, but address is not set'']))
      else
        (case http_NewRequest n ''GET'' (addr @ ''/v1/cache'') [] of
           Ok rq \<Rightarrow>
             sbind (http_Do n (rq\<lparr>rq_Header := cache_headers key namespace scope\<rparr>)) (\<lambda>resp.
             sret (if rs_StatusCode resp \<noteq> 200 then
                     (if rs_StatusCode resp = 404 then Err (errors_New [AKind NotFound])
                      else Err (unexpected resp))
                   else io_ReadAll resp))
         | _ \<Rightarrow> sret (Panic ''nil pointer dereference'')))"

section \<open>Signer\<close>

text \<open>\<^verbatim>\<open>getErrorBody\<close>\<close>

definition signer_getErrorBody :: "response \<Rightarrow> string" where
  "signer_getErrorBody r = read_error_body r"

definition signer_failed :: "response \<Rightarrow> goerror" where
  "signer_failed r =
     errors_New [AKind (GetKind (rs_StatusCode r)), AStr (signer_getErrorBody r)]"

definition sign_request :: "string \<Rightarrow> string \<Rightarrow> string \<Rightarrow> json" where
  "sign_request namespace key data =
     JObj [(''key'', JStr key), (''namespace'', JStr namespace), (''data'', JStr (b64_encode data))]"

definition signer_Sign ::
  "codec \<Rightarrow> net \<Rightarrow> string \<Rightarrow> string \<Rightarrow> string \<Rightarrow> string \<Rightarrow> hist \<Rightarrow> string outcome \<times> hist" where
  "signer_Sign C n addr namespace key data =
     (if addr = [] then
        sret (Err (errors_New [AKind ServiceUnavailable, AStr ''signer address is not set'']))
      else
        sbind (sret (marshal C (sign_request namespace key data))) (\<lambda>payload.
        sbind (sret (http_NewRequest n ''POST'' (addr @ ''/v1/sign'') payload)) (\<lambda>rq.
        sbind (http_Do n rq) (\<lambda>resp.
        sret (if rs_StatusCode resp \<noteq> 200 then Err (signer_failed resp)
              else obind (decode_body C resp) (\<lambda>v.
                   obind (struct_entries v) (\<lambda>kvs.
                   obind (str_field C ''signature'' kvs []) b64_decode)))))))"

text \<open>The public key is returned as the decoded object (a JSON \<^verbatim>\<open>null\<close> leaves the map nil).\<close>

definition signer_Key ::
  "codec \<Rightarrow> net \<Rightarrow> string \<Rightarrow> string \<Rightarrow> string \<Rightarrow> hist \<Rightarrow> json outcome \<times> hist" where
  "signer_Key C n addr namespace key =
     (if addr = [] then
        sret (Err (errors_New [AKind ServiceUnavailable, AStr ''signer address is not set'']))
      else
        sbind (sret (http_NewRequest n ''GET''
          (addr @ ''/v1/jwk/'' @ namespace @ ''/'' @ key) [])) (\<lambda>rq.
        sbind (http_Do n rq) (\<lambda>resp.
        sret (if rs_StatusCode resp \<noteq> 200 then Err (signer_failed resp)
              else obind (decode_body C resp) (\<lambda>v.
                   case v of JObj kvs \<Rightarrow> Ok v | JNull \<Rightarrow> Ok v | _ \<Rightarrow> Err type_mismatch)))))"

section \<open>NATS events\<close>

record event =
  ev_ID :: string
  ev_Source :: string
  ev_Type :: string
  ev_Time :: time
  ev_Data :: string

definition eventType :: string where
  "eventType = ''update_policy''"

definition nats_newEvent :: "codec \<Rightarrow> string \<Rightarrow> time \<Rightarrow> json \<Rightarrow> event outcome" where
  "nats_newEvent C uuid now data =
     obind (marshal C data) (\<lambda>txt.
       Ok \<lparr>ev_ID = uuid, ev_Source = ''policy'', ev_Type = eventType, ev_Time = now, ev_Data = txt\<rparr>)"

text \<open>
  A client holds the sender of its protocol library and the events client made from it, here the
  broker: the reason why an event was not delivered, if it was not.  \<open>shown\<close> is the text \<^verbatim>\<open>%s\<close> prints for
  the data of the event; the event time and the random identifier are arguments.
\<close>

record 's nats_client =
  nc_sender :: 's
  nc_events :: "event \<Rightarrow> goerror option"

definition nats_New ::
  "(string \<Rightarrow> string \<Rightarrow> 's outcome) \<Rightarrow> ('s \<Rightarrow> (event \<Rightarrow> goerror option) outcome) \<Rightarrow>
   string \<Rightarrow> string \<Rightarrow> 's nats_client outcome" where
  "nats_New newSender newClient addr subject =
     obind (newSender addr subject) (\<lambda>sender.
     obind (newClient sender) (\<lambda>events.
       Ok \<lparr>nc_sender = sender, nc_events = events\<rparr>))"

definition nats_Send ::
  "codec \<Rightarrow> (json \<Rightarrow> string) \<Rightarrow> string \<Rightarrow> time \<Rightarrow> 's nats_client \<Rightarrow> json \<Rightarrow> event list \<Rightarrow>
   unit outcome \<times> event list" where
  "nats_Send C shown uuid now c data =
     sbind (sret (nats_newEvent C uuid now data)) (\<lambda>e sent.
       case nc_events c e of
         None \<Rightarrow> (Ok (), sent @ [e])
       | Some reason \<Rightarrow>
           (Err (Plain (''failed to send event for key: '' @ shown data @ '', reason: '' @ err_text reason)),
            sent))"

definition nats_Close :: "('s \<Rightarrow> unit outcome) \<Rightarrow> 's nats_client \<Rightarrow> unit outcome" where
  "nats_Close close c = close (nc_sender c)"

section \<open>Constructors of the HTTP clients\<close>

text \<open>
  The clients of cache and signer are built alike: an address and an HTTP client, which is the default
  one unless an option replaces it.  The operations above take both as arguments.
\<close>

record http_service =
  hs_addr :: string
  hs_httpClient :: net

definition cacheclient_WithHTTPClient :: "net \<Rightarrow> http_service \<Rightarrow> http_service" where
  "cacheclient_WithHTTPClient client c = c\<lparr>hs_httpClient := client\<rparr>"

definition signer_WithHTTPClient :: "net \<Rightarrow> http_service \<Rightarrow> http_service" where
  "signer_WithHTTPClient client c = c\<lparr>hs_httpClient := client\<rparr>"

definition cacheclient_New :: "net \<Rightarrow> string \<Rightarrow> (http_service \<Rightarrow> http_service) list \<Rightarrow> http_service" where
  "cacheclient_New DefaultClient addr opts =
     foldl (\<lambda>c opt. opt c) \<lparr>hs_addr = addr, hs_httpClient = DefaultClient\<rparr> opts"

definition signer_New :: "net \<Rightarrow> string \<Rightarrow> (http_service \<Rightarrow> http_service) list \<Rightarrow> http_service" where
  "signer_New DefaultClient addr opts =
     foldl (\<lambda>c opt. opt c) \<lparr>hs_addr = addr, hs_httpClient = DefaultClient\<rparr> opts"

section \<open>Facts\<close>

lemma cacheclient_no_address:
  "cacheclient_Set n [] key ns sc v ttl h = (r, h') \<Longrightarrow> h' = h \<and> (\<exists>e. r = Err e \<and> errors_Is ServiceUnavailable e)"
  by (auto simp: cacheclient_Set_def)

text \<open>An event is sent once or not at all, and only an undelivered or unencodable one is an error.\<close>

lemma nats_Send_result:
  assumes "nats_Send C shown uuid now c data sent = (r, sent')"
  shows "if r = Ok () then \<exists>t. marshal C data = Ok t \<and>
      sent' = sent @ [\<lparr>ev_ID = uuid, ev_Source = ''policy'', ev_Type = ''update_policy'', ev_Time = now, ev_Data = t\<rparr>]
    else sent' = sent"
proof (cases "marshal C data")
  case (Ok t)
  let ?e = "\<lparr>ev_ID = uuid, ev_Source = ''policy'', ev_Type = eventType, ev_Time = now, ev_Data = t\<rparr>"
  show ?thesis
    using assms by (cases "nc_events c ?e") (auto simp: nats_Send_def nats_newEvent_def Ok eventType_def)
qed (use assms in \<open>auto simp: nats_Send_def nats_newEvent_def\<close>)

text \<open>The constructors keep the address, and the last option decides the HTTP client.\<close>

lemma signer_New_options:
  "signer_New n addr (opts @ [signer_WithHTTPClient client])
    = (signer_New n addr opts)\<lparr>hs_httpClient := client\<rparr>"
  "cacheclient_New n addr (opts @ [cacheclient_WithHTTPClient client])
    = (cacheclient_New n addr opts)\<lparr>hs_httpClient := client\<rparr>"
  by (simp_all add: signer_New_def cacheclient_New_def signer_WithHTTPClient_def cacheclient_WithHTTPClient_def)

end
