(* ===== verification/Bundle.thy ===== *)
theory Bundle
  imports Storage_Interface Go_Std
begin

text \<open>
  Policy bundles (\<^verbatim>\<open>internal/service/policy/bundle.go\<close>, \<^verbatim>\<open>bundle_verify.go\<close>): packing a policy into a ZIP
  archive with its metadata, reading it back, and verifying the signature of an imported bundle.  ZIP
  (\<^verbatim>\<open>archive/zip\<close>), the hash and signature algorithms and the fetching of keys (jwx) are parameters.
\<close>

section \<open>Data and parameters\<close>

record zipfile =
  zf_Name :: string
  zf_Content :: string

record metadata =
  md_Name :: string
  md_Group :: string
  md_Version :: string
  md_Repository :: string
  md_Locked :: bool
  md_LastUpdate :: time
  md_PublicKeyURL :: string

record exportConfig =
  ec_Namespace :: string
  ec_Key :: string

datatype key_type = EC | OKP | RSA | OtherKeyType string

text \<open>
  \<open>'j\<close> are keys as fetched (JWK), \<open>'k\<close> the public keys they are converted to.  \<open>fetchKeys\<close> may send
  HTTP requests; \<open>zipWrite\<close> and \<open>zipRead\<close> are the archive functions on whole lists of files.
\<close>

record ('j, 'k) libs =
  lib_codec :: codec
  zipWrite :: "zipfile list \<Rightarrow> string outcome"
  zipRead :: "string \<Rightarrow> zipfile list outcome"
  sha256 :: "string \<Rightarrow> string"
  fetchKeys :: "string \<Rightarrow> hist \<Rightarrow> 'j list outcome \<times> hist"
  keyType :: "'j \<Rightarrow> key_type"
  rawECDSA :: "'j \<Rightarrow> 'k outcome"
  rawED25519 :: "'j \<Rightarrow> 'k outcome"
  rawRSA :: "'j \<Rightarrow> 'k outcome"
  ecdsaVerifyASN1 :: "'k \<Rightarrow> string \<Rightarrow> string \<Rightarrow> bool"
  ed25519Verify :: "'k \<Rightarrow> string \<Rightarrow> string \<Rightarrow> bool"
  rsaVerifyPSS :: "'k \<Rightarrow> string \<Rightarrow> string \<Rightarrow> goerror option"

definition BundleFilename :: string where "BundleFilename = ''policy_bundle.zip''"
definition BundleSignatureFilename :: string where "BundleSignatureFilename = ''signature.raw''"

section \<open>Packing\<close>

definition policyPublicKeyURL :: "string \<Rightarrow> policy \<Rightarrow> string" where
  "policyPublicKeyURL externalHostname p =
     externalHostname @ ''/policy/'' @ p_Repository p @ ''/'' @ p_Group p @ ''/'' @ p_Name p @ ''/''
     @ p_Version p @ ''/key''"

definition metadata_json :: "metadata \<Rightarrow> string \<Rightarrow> json" where
  "metadata_json m lastUpdate =
     JObj [(''policy'', JObj
              [(''name'', JStr (md_Name m)), (''group'', JStr (md_Group m)),
               (''version'', JStr (md_Version m)), (''repository'', JStr (md_Repository m)),
               (''locked'', JBool (md_Locked m)), (''lastUpdate'', JStr lastUpdate)]),
           (''publicKeyURL'', JStr (md_PublicKeyURL m))]"

definition policy_metadata :: "string \<Rightarrow> policy \<Rightarrow> metadata" where
  "policy_metadata externalHostname p =
     \<lparr>md_Name = p_Name p, md_Group = p_Group p, md_Version = p_Version p,
      md_Repository = p_Repository p, md_Locked = p_Locked p, md_LastUpdate = p_LastUpdate p,
      md_PublicKeyURL = policyPublicKeyURL externalHostname p\<rparr>"

definition createMetadata :: "('j, 'k) libs \<Rightarrow> string \<Rightarrow> policy \<Rightarrow> string outcome" where
  "createMetadata L externalHostname p =
     (let m = policy_metadata externalHostname p in
      obind (formatTime (lib_codec L) (md_LastUpdate m)) (\<lambda>t.
        marshal (lib_codec L) (metadata_json m t)))"

definition optional_file :: "string \<Rightarrow> string \<Rightarrow> zipfile list" where
  "optional_file name content =
     (if blank content then [] else [\<lparr>zf_Name = name, zf_Content = content\<rparr>])"

definition bundle_files :: "string \<Rightarrow> policy \<Rightarrow> zipfile list" where
  "bundle_files meta p =
     [\<lparr>zf_Name = ''metadata.json'', zf_Content = meta\<rparr>,
      \<lparr>zf_Name = ''policy.rego'', zf_Content = p_Rego p\<rparr>]
     @ optional_file ''data.json'' (p_Data p)
     @ optional_file ''data-config.json'' (p_DataConfig p)
     @ optional_file ''output-schema.json'' (p_OutputSchema p)
     @ optional_file ''export-config.json'' (p_ExportConfig p)"

definition createPolicyBundle :: "('j, 'k) libs \<Rightarrow> string \<Rightarrow> policy \<Rightarrow> string outcome" where
  "createPolicyBundle L externalHostname p =
     obind (createMetadata L externalHostname p) (\<lambda>meta. zipWrite L (bundle_files meta p))"

text \<open>\<^verbatim>\<open>errExportConfigNotFound\<close> is told apart from a configuration that does not parse.\<close>

datatype exportError = ExportConfigNotFound | ExportConfigInvalid goerror

definition policyExportConfig :: "codec \<Rightarrow> policy \<Rightarrow> exportError + exportConfig" where
  "policyExportConfig C p =
     (if blank (p_ExportConfig p) then Inl ExportConfigNotFound
      else
        (case obind (unmarshal C (p_ExportConfig p)) (\<lambda>v.
              obind (struct_entries v) (\<lambda>kvs.
              obind (str_field C ''namespace'' kvs []) (\<lambda>ns.
              obind (str_field C ''key'' kvs []) (\<lambda>k.
                Ok \<lparr>ec_Namespace = ns, ec_Key = k\<rparr>)))) of
           Ok c \<Rightarrow> Inr c
         | Err e \<Rightarrow> Inl (ExportConfigInvalid
             (Plain (''cannot unmarshal policy export configuration: '' @ err_text e)))
         | _ \<Rightarrow> Inl (ExportConfigInvalid (Plain ''''))))"

section \<open>Reading\<close>

text \<open>The entries of all objects under a key that matches the name of a nested struct.\<close>

fun sub_entries :: "codec \<Rightarrow> string \<Rightarrow> (string \<times> json) list \<Rightarrow> (string \<times> json) list outcome" where
  "sub_entries C name [] = Ok []"
| "sub_entries C name ((k, v) # kvs) =
     (if sameFold C k name then
        obind (struct_entries v) (\<lambda>es. obind (sub_entries C name kvs) (\<lambda>rest. Ok (es @ rest)))
      else sub_entries C name kvs)"

definition decode_metadata :: "codec \<Rightarrow> string \<Rightarrow> metadata outcome" where
  "decode_metadata C text =
     obind (unmarshal C text) (\<lambda>v.
     obind (struct_entries v) (\<lambda>kvs.
     obind (sub_entries C ''policy'' kvs) (\<lambda>ps.
     obind (str_field C ''name'' ps []) (\<lambda>nm.
     obind (str_field C ''group'' ps []) (\<lambda>gr.
     obind (str_field C ''version'' ps []) (\<lambda>ver.
     obind (str_field C ''repository'' ps []) (\<lambda>repo.
     obind (bool_field C ''locked'' ps False) (\<lambda>lck.
     obind (time_field C ''lastUpdate'' ps zero_time) (\<lambda>upd.
     obind (str_field C ''publicKeyURL'' kvs []) (\<lambda>url.
       Ok \<lparr>md_Name = nm, md_Group = gr, md_Version = ver, md_Repository = repo,
           md_Locked = lck, md_LastUpdate = upd, md_PublicKeyURL = url\<rparr>))))))))))"

definition apply_metadata :: "metadata \<Rightarrow> policy \<Rightarrow> policy" where
  "apply_metadata m p =
     p\<lparr>p_Repository := md_Repository m, p_Group := md_Group m, p_Name := md_Name m,
       p_Version := md_Version m, p_Locked := md_Locked m, p_LastUpdate := md_LastUpdate m,
       p_Filename := md_Group m @ ''/'' @ md_Name m @ ''/'' @ md_Version m @ ''/'' @ ''policy.rego''\<rparr>"

fun bundle_loop :: "codec \<Rightarrow> zipfile list \<Rightarrow> policy \<Rightarrow> policy outcome" where
  "bundle_loop C [] p = Ok p"
| "bundle_loop C (f # fs) p =
     (if zf_Name f = ''metadata.json'' then
        obind (decode_metadata C (zf_Content f)) (\<lambda>m. bundle_loop C fs (apply_metadata m p))
      else if zf_Name f = ''policy.rego'' then bundle_loop C fs (p\<lparr>p_Rego := zf_Content f\<rparr>)
      else if zf_Name f = ''data.json'' then bundle_loop C fs (p\<lparr>p_Data := zf_Content f\<rparr>)
      else if zf_Name f = ''data-config.json'' then
        bundle_loop C fs (p\<lparr>p_DataConfig := zf_Content f\<rparr>)
      else if zf_Name f = ''output-schema.json'' then
        bundle_loop C fs (p\<lparr>p_OutputSchema := zf_Content f\<rparr>)
      else if zf_Name f = ''export-config.json'' then
        bundle_loop C fs (p\<lparr>p_ExportConfig := zf_Content f\<rparr>)
      else bundle_loop C fs p)"

definition policyFromBundle :: "('j, 'k) libs \<Rightarrow> string \<Rightarrow> policy outcome" where
  "policyFromBundle L bundle =
     obind (owrap (wrap_msg ''error unzipping bundle archive'') (zipRead L bundle)) (\<lambda>fs.
       bundle_loop (lib_codec L) fs zero_policy)"

section \<open>Verifying\<close>

definition invalid_signature :: "unit outcome" where
  "invalid_signature = Err (Plain ''invalid signature'')"

definition verifyECDSA :: "('j, 'k) libs \<Rightarrow> string \<Rightarrow> string \<Rightarrow> 'j \<Rightarrow> unit outcome" where
  "verifyECDSA L payload signature key =
     obind (rawECDSA L key) (\<lambda>k.
       if ecdsaVerifyASN1 L k (sha256 L payload) signature then Ok () else invalid_signature)"

definition verifyED25519 :: "('j, 'k) libs \<Rightarrow> string \<Rightarrow> string \<Rightarrow> 'j \<Rightarrow> unit outcome" where
  "verifyED25519 L payload signature key =
     obind (rawED25519 L key) (\<lambda>k.
       if ed25519Verify L k payload signature then Ok () else invalid_signature)"

definition verifyRSA :: "('j, 'k) libs \<Rightarrow> string \<Rightarrow> string \<Rightarrow> 'j \<Rightarrow> unit outcome" where
  "verifyRSA L payload signature key =
     obind (rawRSA L key) (\<lambda>k.
       case rsaVerifyPSS L k (sha256 L payload) signature of
         None \<Rightarrow> Ok ()
       | Some e \<Rightarrow> Err (Plain (''invalid signature: '' @ err_text e)))"

definition verify_with :: "('j, 'k) libs \<Rightarrow> string \<Rightarrow> string \<Rightarrow> 'j \<Rightarrow> unit outcome" where
  "verify_with L payload signature key =
     (case keyType L key of
        EC \<Rightarrow> verifyECDSA L payload signature key
      | OKP \<Rightarrow> verifyED25519 L payload signature key
      | RSA \<Rightarrow> verifyRSA L payload signature key
      | OtherKeyType t \<Rightarrow> Err (Plain (''unsupported public key type: '' @ t)))"

definition verifyBundle :: "('j, 'k) libs \<Rightarrow> zipfile list \<Rightarrow> hist \<Rightarrow> unit outcome \<times> hist" where
  "verifyBundle L fs =
     (case fs of
        bf # sf # _ \<Rightarrow>
          if zf_Name bf \<noteq> BundleFilename then
            sret (Err (Plain (''verify bundle: invalid bundle filename: '' @ quoted (zf_Name bf))))
          else if zf_Name sf \<noteq> BundleSignatureFilename then
            sret (Err (Plain (''verify bundle: invalid signature filename: '' @ quoted (zf_Name sf))))
          else
            sbind (sret (zipRead L (zf_Content bf))) (\<lambda>inner.
              case inner of
                [] \<Rightarrow> sret (Err (Plain ''invalid bundle''))
              | mf # _ \<Rightarrow>
                  if zf_Name mf \<noteq> ''metadata.json'' then sret (Err (Plain ''invalid bundle''))
                  else
                    sbind (sret (owrap (\<lambda>e. Plain (''failed to unmarshal metadata: '' @ err_text e))
                            (decode_metadata (lib_codec L) (zf_Content mf)))) (\<lambda>m.
                    sbind (swrap (\<lambda>e. Plain (''verify bundle: '' @ err_text e))
                            (fetchKeys L (md_PublicKeyURL m))) (\<lambda>keys.
                      case keys of
                        [] \<Rightarrow> sret (Err (Plain ''cannot get bundle verification key''))
                      | key # _ \<Rightarrow>
                          sret (verify_with L (sha256 L (zf_Content bf)) (zf_Content sf) key))))
      | _ \<Rightarrow> sret (Panic ''index out of range''))"

section \<open>Calls that return\<close>

text \<open>The library functions return a value or an error.\<close>

definition total_libs :: "('j, 'k) libs \<Rightarrow> bool" where
  "total_libs L \<longleftrightarrow>
     (\<forall>s. returns (zipRead L s)) \<and> (\<forall>s. returns (unmarshal (lib_codec L) s)) \<and>
     (\<forall>s. returns (parseTime (lib_codec L) s)) \<and> (\<forall>u h. returns (fst (fetchKeys L u h))) \<and>
     (\<forall>k. returns (rawECDSA L k) \<and> returns (rawED25519 L k) \<and> returns (rawRSA L k))"

lemma returns_sub_entries [simp]: "returns (sub_entries C name kvs)"
  by (induction C name kvs rule: sub_entries.induct) (auto intro!: returns_obind)

lemma returns_decode_metadata: "total_libs L \<Longrightarrow> returns (decode_metadata (lib_codec L) s)"
  by (auto simp: decode_metadata_def total_libs_def returns_time_field intro!: returns_obind)

lemma returns_bundle_loop: "total_libs L \<Longrightarrow> returns (bundle_loop (lib_codec L) fs p)"
  by (induction "lib_codec L" fs p rule: bundle_loop.induct) (auto simp: returns_decode_metadata)

lemma returns_policyFromBundle: "total_libs L \<Longrightarrow> returns (policyFromBundle L s)"
  by (auto simp: policyFromBundle_def returns_bundle_loop total_libs_def [of L] intro!: returns_obind)

lemma returns_verify_with: "total_libs L \<Longrightarrow> returns (verify_with L payload sig key)"
  by (auto simp: verify_with_def verifyECDSA_def verifyED25519_def verifyRSA_def total_libs_def invalid_signature_def
      intro!: returns_obind split: key_type.splits option.splits)

lemma returns_sbind:
  "returns (fst (m s)) \<Longrightarrow> (\<And>x t. m s = (Ok x, t) \<Longrightarrow> returns (fst (f x t))) \<Longrightarrow> returns (fst (sbind m f s))"
  by (cases "m s"; cases "fst (m s)") auto

lemma returns_verifyBundle:
  assumes "total_libs L"
  shows "returns (fst (verifyBundle L [bf, sf] h))"
proof -
  have keys: "returns (fst (swrap g (fetchKeys L u) h))" for g u h
  proof -
    have "returns (fst (fetchKeys L u h))" using assms by (simp add: total_libs_def)
    then show ?thesis by (cases "fetchKeys L u h") simp
  qed
  show ?thesis
    using assms returns_decode_metadata [OF assms] keys returns_verify_with [OF assms]
    by (auto simp: verifyBundle_def total_libs_def intro!: returns_sbind split: list.splits)
qed

section \<open>The round trip\<close>

text \<open>The struct fields involved are told apart by the case folding of the decoder.\<close>

definition fields_distinct :: "codec \<Rightarrow> bool" where
  "fields_distinct C \<longleftrightarrow>
     (let names = [''policy'', ''publicKeyURL'', ''name'', ''group'', ''version'', ''repository'',
                   ''locked'', ''lastUpdate'']
      in list_all (\<lambda>a. list_all (\<lambda>b. sameFold C a b = (a = b)) names) names)"

text \<open>What a bundle keeps of a policy.\<close>

definition unblank :: "string \<Rightarrow> string" where
  "unblank s = (if blank s then [] else s)"

definition bundle_image :: "policy \<Rightarrow> policy" where
  "bundle_image p =
     zero_policy
       \<lparr>p_Filename := p_Group p @ ''/'' @ p_Name p @ ''/'' @ p_Version p @ ''/'' @ ''policy.rego'',
        p_Repository := p_Repository p, p_Name := p_Name p, p_Group := p_Group p,
        p_Version := p_Version p, p_Rego := p_Rego p, p_Data := unblank (p_Data p),
        p_DataConfig := unblank (p_DataConfig p), p_OutputSchema := unblank (p_OutputSchema p),
        p_ExportConfig := unblank (p_ExportConfig p), p_Locked := p_Locked p,
        p_LastUpdate := p_LastUpdate p\<rparr>"

text \<open>
  The library functions treat this policy well: its time stamp and metadata survive JSON, and the
  archive of its files can be read back.
\<close>

definition packable :: "('j, 'k) libs \<Rightarrow> string \<Rightarrow> policy \<Rightarrow> string \<Rightarrow> string \<Rightarrow> string \<Rightarrow> bool" where
  "packable L host p stamp meta archive \<longleftrightarrow>
     fields_distinct (lib_codec L) \<and>
     formatTime (lib_codec L) (p_LastUpdate p) = Ok stamp \<and>
     parseTime (lib_codec L) stamp = Ok (p_LastUpdate p) \<and>
     marshal (lib_codec L) (metadata_json (policy_metadata host p) stamp) = Ok meta \<and>
     unmarshal (lib_codec L) meta = Ok (metadata_json (policy_metadata host p) stamp) \<and>
     zipWrite L (bundle_files meta p) = Ok archive \<and>
     zipRead L archive = Ok (bundle_files meta p)"

lemma fields_distinctD:
  assumes "fields_distinct C"
  shows "a \<in> set [''policy'', ''publicKeyURL'', ''name'', ''group'', ''version'', ''repository'',
                   ''locked'', ''lastUpdate''] \<Longrightarrow>
         b \<in> set [''policy'', ''publicKeyURL'', ''name'', ''group'', ''version'', ''repository'',
                   ''locked'', ''lastUpdate''] \<Longrightarrow>
         sameFold C a b = (a = b)"
  using assms unfolding fields_distinct_def Let_def list_all_iff by blast

lemma decode_metadata_json:
  assumes "fields_distinct C" and "parseTime C t = Ok (md_LastUpdate m)"
    and "unmarshal C text = Ok (metadata_json m t)"
  shows "decode_metadata C text = Ok m"
  using assms(2,3) fields_distinctD [OF assms(1)]
  by (simp add: decode_metadata_def metadata_json_def)

lemma bundle_loop_optional:
  "bundle_loop C (optional_file ''data.json'' c @ fs) p =
     bundle_loop C fs (if blank c then p else p\<lparr>p_Data := c\<rparr>)"
  "bundle_loop C (optional_file ''data-config.json'' c @ fs) p =
     bundle_loop C fs (if blank c then p else p\<lparr>p_DataConfig := c\<rparr>)"
  "bundle_loop C (optional_file ''output-schema.json'' c @ fs) p =
     bundle_loop C fs (if blank c then p else p\<lparr>p_OutputSchema := c\<rparr>)"
  "bundle_loop C (optional_file ''export-config.json'' c) p =
     Ok (if blank c then p else p\<lparr>p_ExportConfig := c\<rparr>)"
  by (simp_all add: optional_file_def)

lemma policyFromBundle_image:
  assumes "packable L host p stamp meta archive"
  shows "policyFromBundle L archive = Ok (bundle_image p)"
proof -
  have dm: "decode_metadata (lib_codec L) meta = Ok (policy_metadata host p)"
    using assms by (auto simp: packable_def policy_metadata_def intro!: decode_metadata_json)
  have fs: "zipRead L archive = Ok (bundle_files meta p)"
    using assms by (simp add: packable_def)
  show ?thesis
    by (simp add: policyFromBundle_def fs bundle_files_def dm bundle_loop_optional)
      (auto simp: apply_metadata_def policy_metadata_def bundle_image_def unblank_def zero_policy_def)
qed

lemma createPolicyBundle_archive:
  assumes "packable L host p stamp meta archive"
  shows "createPolicyBundle L host p = Ok archive"
  using assms
  by (simp add: packable_def createPolicyBundle_def createMetadata_def Let_def policy_metadata_def)

lemma bundle_image_idem: "bundle_image (bundle_image p) = bundle_image p"
  by (simp add: bundle_image_def unblank_def zero_policy_def)

text \<open>A verified bundle carries a valid signature of its content.\<close>

definition signature_valid :: "('j, 'k) libs \<Rightarrow> string \<Rightarrow> string \<Rightarrow> 'j \<Rightarrow> bool" where
  "signature_valid L payload sig key \<longleftrightarrow>
     (\<exists>k. keyType L key = EC \<and> rawECDSA L key = Ok k \<and> ecdsaVerifyASN1 L k (sha256 L payload) sig \<or>
          keyType L key = OKP \<and> rawED25519 L key = Ok k \<and> ed25519Verify L k payload sig \<or>
          keyType L key = RSA \<and> rawRSA L key = Ok k \<and> rsaVerifyPSS L k (sha256 L payload) sig = None)"

lemma verify_with_Ok: "verify_with L payload sig key = Ok () \<longleftrightarrow> signature_valid L payload sig key"
  by (cases "keyType L key")
    (auto simp: verify_with_def verifyECDSA_def verifyED25519_def verifyRSA_def signature_valid_def
      invalid_signature_def obind_Ok_iff split: option.splits if_splits)

lemma decode_metadata_url:
  assumes "decode_metadata C s = Ok m"
  shows "\<exists>v kvs. unmarshal C s = Ok v \<and> struct_entries v = Ok kvs \<and>
    str_field C ''publicKeyURL'' kvs [] = Ok (md_PublicKeyURL m)"
  using assms unfolding decode_metadata_def obind_Ok_iff by fastforce

lemma verifyBundle_OkD:
  assumes "verifyBundle L fs h = (Ok (), h')"
  shows "\<exists>bundle sig rest mf inner m key keys.
    fs = bundle # sig # rest \<and> zf_Name bundle = BundleFilename \<and>
    zf_Name sig = BundleSignatureFilename \<and> zipRead L (zf_Content bundle) = Ok (mf # inner) \<and>
    zf_Name mf = ''metadata.json'' \<and> decode_metadata (lib_codec L) (zf_Content mf) = Ok m \<and>
    fetchKeys L (md_PublicKeyURL m) h = (Ok (key # keys), h') \<and>
    signature_valid L (sha256 L (zf_Content bundle)) (zf_Content sig) key"
  using assms
  by (auto simp: verifyBundle_def verify_with_Ok split: list.splits if_splits
      dest!: sbind_OkD swrap_OkD)

lemma verifyBundle_accepts:
  assumes "packable L host p stamp meta archive"
    and "fetchKeys L (policyPublicKeyURL host p) h = (Ok (key # keys), h')"
    and "signature_valid L (sha256 L archive) sig key"
  shows "verifyBundle L [\<lparr>zf_Name = BundleFilename, zf_Content = archive\<rparr>,
                         \<lparr>zf_Name = BundleSignatureFilename, zf_Content = sig\<rparr>] h = (Ok (), h')"
proof -
  have dm: "decode_metadata (lib_codec L) meta = Ok (policy_metadata host p)"
    using assms(1) by (auto simp: packable_def policy_metadata_def intro!: decode_metadata_json)
  have fs: "zipRead L archive = Ok (bundle_files meta p)"
    using assms(1) by (simp add: packable_def)
  have url: "md_PublicKeyURL (policy_metadata host p) = policyPublicKeyURL host p"
    by (simp add: policy_metadata_def)
  show ?thesis
    using assms(2,3) by (simp add: verifyBundle_def fs bundle_files_def dm url verify_with_Ok)
qed

end
