(* ===== verification/Policy_Service.thy ===== *)
theory Policy_Service
  imports Rego_Cache Header Clients Bundle
begin

text \<open>
  The service itself (\<^verbatim>\<open>internal/service/policy/service.go\<close>): evaluation, validation, locking, export
  and import of policies.  The Open Policy Agent engine, the JSON-schema compiler and the random
  identifiers are parameters (record \<open>engine\<close>); the storage, the cache service and the signer are the
  interfaces the Go struct holds (record \<open>service\<close>).
\<close>

section \<open>State and parameters\<close>

record 'st world =
  w_store :: 'st
  w_cache :: rego_cache
  w_http :: hist

definition on_store :: "('st \<Rightarrow> 'a outcome \<times> 'st) \<Rightarrow> 'st world \<Rightarrow> 'a outcome \<times> 'st world" where
  "on_store f w = (let (r, s) = f (w_store w) in (r, w\<lparr>w_store := s\<rparr>))"

definition on_http :: "(hist \<Rightarrow> 'a outcome \<times> hist) \<Rightarrow> 'st world \<Rightarrow> 'a outcome \<times> 'st world" where
  "on_http f w = (let (r, h) = f (w_http w) in (r, w\<lparr>w_http := h\<rparr>))"

record 'st service =
  sv_storage :: "'st storage_ops"
  sv_cacheSet :: "string \<Rightarrow> string \<Rightarrow> string \<Rightarrow> string \<Rightarrow> int \<Rightarrow> hist \<Rightarrow> unit outcome \<times> hist"
  sv_signerKey :: "string \<Rightarrow> string \<Rightarrow> hist \<Rightarrow> json outcome \<times> hist"
  sv_signerSign :: "string \<Rightarrow> string \<Rightarrow> string \<Rightarrow> hist \<Rightarrow> string outcome \<times> hist"
  sv_httpClient :: net
  sv_validationLock :: bool
  sv_externalHostname :: string

text \<open>
  \<^verbatim>\<open>New\<close> also starts the importer of bundles (theory \<open>Auto_Import\<close>) as a goroutine.
\<close>

definition svc_New ::
  "'st storage_ops \<Rightarrow> (string \<Rightarrow> string \<Rightarrow> string \<Rightarrow> string \<Rightarrow> int \<Rightarrow> hist \<Rightarrow> unit outcome \<times> hist) \<Rightarrow>
   (string \<Rightarrow> string \<Rightarrow> hist \<Rightarrow> json outcome \<times> hist) \<Rightarrow>
   (string \<Rightarrow> string \<Rightarrow> string \<Rightarrow> hist \<Rightarrow> string outcome \<times> hist) \<Rightarrow> string \<Rightarrow> bool \<Rightarrow> net \<Rightarrow> 'st service" where
  "svc_New storage cacheSet signerKey signerSign hostname validationLock httpClient =
     \<lparr>sv_storage = storage, sv_cacheSet = cacheSet, sv_signerKey = signerKey, sv_signerSign = signerSign,
      sv_httpClient = httpClient, sv_validationLock = validationLock, sv_externalHostname = hostname\<rparr>"

text \<open>The options \<^verbatim>\<open>rego.New\<close> is given.\<close>

datatype rego_arg =
    Module string string
  | Query string
  | StrictBuiltinErrors bool
  | Extension string
  | Store "(string \<times> json) list"
  | HeaderFunction "string \<rightharpoonup> string"

text \<open>
  \<open>'q\<close> are prepared queries.  Evaluating a query may run extension functions, which act on the world;
  the result set is a list of results, each the list of the values of its expressions.  \<open>schema\<close>
  compiles a JSON schema into its validator, which returns the validation error if there is one.
\<close>

record ('q, 'st) engine =
  en_codec :: codec
  prepareForEval :: "rego_arg list \<Rightarrow> 'q outcome"
  evalQuery :: "'q \<Rightarrow> json \<Rightarrow> 'st world \<Rightarrow> json list list outcome \<times> 'st world"
  extensions :: "string list"
  schema :: "string \<Rightarrow> (json \<Rightarrow> goerror option) outcome"
  newUUID :: string

section \<open>Finding a policy\<close>

definition queryCacheKey :: "polid \<Rightarrow> string" where
  "queryCacheKey i =
     (case i of (repo, grp, name, version) \<Rightarrow>
        repo @ CHR '','' # grp @ CHR '','' # name @ CHR '','' # version)"

definition retrievePolicy :: "'st service \<Rightarrow> polid \<Rightarrow> 'st world \<Rightarrow> policy outcome \<times> 'st world" where
  "retrievePolicy S i w =
     (case rc_Get (queryCacheKey i) (w_cache w) of
        Some p \<Rightarrow> (Ok p, w)
      | None \<Rightarrow>
          sbind
            (swrap (\<lambda>e. if errors_Is NotFound e then e
                        else wrap_msg ''error getting policy from storage'' e)
              (on_store (op_Policy (sv_storage S) i)))
            (\<lambda>p w. (Ok p, w\<lparr>w_cache := rc_Set (queryCacheKey i) p (w_cache w)\<rparr>)) w)"

section \<open>Evaluation\<close>

definition buildRegoArgs ::
  "('q, 'st) engine \<Rightarrow> string \<Rightarrow> string \<Rightarrow> string \<Rightarrow> string \<Rightarrow> rego_arg list outcome" where
  "buildRegoArgs E filename regoPolicy regoQuery regoData =
     (let base = [Module filename regoPolicy, Query regoQuery, StrictBuiltinErrors True]
                 @ map Extension (extensions E)
      in if regoData = [] then Ok base
         else obind (unmarshal (en_codec E) regoData) (\<lambda>v.
              obind (struct_entries v) (\<lambda>kvs. Ok (base @ [Store kvs]))))"

definition locked_error :: goerror where
  "locked_error = errors_New [AKind Forbidden, AStr ''policy is locked'']"

definition regoQueryFor :: "polid \<Rightarrow> string" where
  "regoQueryFor i =
     (case i of (repo, grp, name, version) \<Rightarrow> ''data.'' @ grp @ ''.'' @ name)"

definition prepareQuery ::
  "('q, 'st) engine \<Rightarrow> 'st service \<Rightarrow> polid \<Rightarrow> (string \<rightharpoonup> string) \<Rightarrow> 'st world \<Rightarrow>
   'q outcome \<times> 'st world" where
  "prepareQuery E S i headers =
     sbind (retrievePolicy S i) (\<lambda>pol.
       if p_Locked pol then sret (Err locked_error)
       else
         sbind (sret (owrap (wrap_msg ''error building rego runtime functions'')
                  (buildRegoArgs E (p_Filename pol) (p_Rego pol) (regoQueryFor i) (p_Data pol)))) (\<lambda>args.
         sret (owrap (wrap_msg ''error preparing rego query'')
                 (prepareForEval E (args @ [HeaderFunction headers])))))"

record evaluate_request =
  er_id :: polid
  er_Input :: json
  er_EvaluationID :: "string option"
  er_TTL :: "int option"

record evaluate_result =
  res_Result :: json
  res_ETag :: string

definition evaluation_id :: "('q, 'st) engine \<Rightarrow> evaluate_request \<Rightarrow> string" where
  "evaluation_id E req =
     (case er_EvaluationID req of
        Some i \<Rightarrow> if i \<noteq> [] then i else newUUID E
      | None \<Rightarrow> newUUID E)"

text \<open>
  A result that is an object with the single key \<^verbatim>\<open>$0\<close> (the blank variable) is replaced by the value
  under that key.
\<close>

definition unwrap_result :: "json \<Rightarrow> json" where
  "unwrap_result r =
     (case r of JObj [(k, v)] \<Rightarrow> if k = ''$0'' then v else r | _ \<Rightarrow> r)"

definition store_result ::
  "'st service \<Rightarrow> string \<Rightarrow> string \<Rightarrow> int \<Rightarrow> 'st world \<Rightarrow> unit outcome \<times> 'st world" where
  "store_result S evaluationID jsonValue ttl w =
     (case on_http (sv_cacheSet S evaluationID [] [] jsonValue ttl) w of
        (Err e, w') \<Rightarrow>
          if \<not> errors_Is ServiceUnavailable e
          then (Err (errors_New [AStr ''error storing policy result in cache'']), w')
          else (Ok (), w')
      | rw \<Rightarrow> rw)"

definition svc_Evaluate ::
  "('q, 'st) engine \<Rightarrow> 'st service \<Rightarrow> evaluate_request \<Rightarrow> (string \<rightharpoonup> string) option \<Rightarrow> 'st world \<Rightarrow>
   evaluate_result outcome \<times> 'st world" where
  "svc_Evaluate E S req ctx =
     (let evaluationID = evaluation_id E req; headers = FromContext ctx in
      sbind (swrap (wrap_msg ''error evaluating policy'')
              (prepareQuery E S (er_id req) headers)) (\<lambda>query.
      sbind (swrap (wrap_msg ''error evaluating rego query'')
              (evalQuery E query (er_Input req))) (\<lambda>resultSet.
        case resultSet of
          [] \<Rightarrow> sret (Err (errors_New [AStr ''policy evaluation results are empty'']))
        | first # _ \<Rightarrow>
            (case first of
               [] \<Rightarrow> sret (Err (errors_New [AStr ''policy evaluation result expressions are empty'']))
             | v # _ \<Rightarrow>
                 (let result = unwrap_result v in
                  sbind (sret (owrap (\<lambda>_. errors_New [AStr ''error encoding result to json''])
                           (marshal (en_codec E) result))) (\<lambda>jsonValue.
                  sbind (store_result S evaluationID jsonValue
                           (case er_TTL req of None \<Rightarrow> 0 | Some t \<Rightarrow> t)) (\<lambda>_.
                  sret (Ok \<lparr>res_Result = result, res_ETag = evaluationID\<rparr>))))))))"

section \<open>Locking\<close>

definition svc_lock :: "'st service \<Rightarrow> policy \<Rightarrow> 'st world \<Rightarrow> unit outcome \<times> 'st world" where
  "svc_lock S p =
     (if p_Locked p then sret (Err (errors_New [AKind Forbidden, AStr ''policy is already locked'']))
      else swrap (wrap_msg ''error locking policy'')
             (on_store (op_SetPolicyLock (sv_storage S) (pid_of p) True)))"

definition svc_Lock :: "'st service \<Rightarrow> polid \<Rightarrow> 'st world \<Rightarrow> unit outcome \<times> 'st world" where
  "svc_Lock S i =
     sbind
       (swrap (\<lambda>e. if errors_Is NotFound e then e else wrap_msg ''error locking policy'' e)
         (on_store (op_Policy (sv_storage S) i)))
       (svc_lock S)"

definition svc_Unlock :: "'st service \<Rightarrow> polid \<Rightarrow> 'st world \<Rightarrow> unit outcome \<times> 'st world" where
  "svc_Unlock S i =
     sbind
       (swrap (\<lambda>e. if errors_Is NotFound e then e else wrap_msg ''error unlocking policy'' e)
         (on_store (op_Policy (sv_storage S) i)))
       (\<lambda>pol.
         if \<not> p_Locked pol then sret (Err (errors_New [AKind Forbidden, AStr ''policy is unlocked'']))
         else swrap (wrap_msg ''error unlocking policy'')
                (on_store (op_SetPolicyLock (sv_storage S) i False)))"

section \<open>Validation\<close>

definition validation_failed :: "goerror \<Rightarrow> goerror" where
  "validation_failed e =
     errors_New [AKind Unknown, AStr ''policy output schema validation failed'', AErr e]"

text \<open>The error of locking after a failed validation is only logged; a panic or a hang is not.\<close>

definition lock_after_failure ::
  "'st service \<Rightarrow> policy \<Rightarrow> 'st world \<Rightarrow> unit outcome \<times> 'st world" where
  "lock_after_failure S pol w =
     (if sv_validationLock S then
        (case svc_lock S pol w of (Err e, w') \<Rightarrow> (Ok (), w') | rw \<Rightarrow> rw)
      else (Ok (), w))"

definition svc_Validate ::
  "('q, 'st) engine \<Rightarrow> 'st service \<Rightarrow> evaluate_request \<Rightarrow> (string \<rightharpoonup> string) option \<Rightarrow> 'st world \<Rightarrow>
   evaluate_result outcome \<times> 'st world" where
  "svc_Validate E S req ctx =
     sbind (swrap (wrap_msg ''error retrieving policy'') (retrievePolicy S (er_id req))) (\<lambda>pol.
       if p_OutputSchema pol = [] then
         sret (Err (errors_New [AKind BadRequest,
           AStr ''validation schema for policy output is not found'']))
       else
         sbind (svc_Evaluate E S req ctx) (\<lambda>res.
         sbind (sret (owrap (\<lambda>_. errors_New [AStr ''error compiling output validation schema''])
                  (schema E (p_OutputSchema pol)))) (\<lambda>validator.
           case validator (res_Result res) of
             None \<Rightarrow> sret (Ok res)
           | Some e \<Rightarrow>
               sbind (lock_after_failure S pol) (\<lambda>_. sret (Err (validation_failed e))))))"

section \<open>Export and import\<close>

record export_result =
  ex_ContentType :: string
  ex_ContentLength :: nat
  ex_ContentDisposition :: string
  ex_Body :: string

definition export_error :: "exportError \<Rightarrow> goerror" where
  "export_error e =
     (case e of
        ExportConfigNotFound \<Rightarrow>
          errors_New [AKind Forbidden, AErr (Plain ''policy export configuration is not defined'')]
      | ExportConfigInvalid x \<Rightarrow> x)"

definition svc_exportConfig :: "codec \<Rightarrow> policy \<Rightarrow> exportConfig outcome" where
  "svc_exportConfig C pol =
     (case policyExportConfig C pol of Inl e \<Rightarrow> Err (export_error e) | Inr c \<Rightarrow> Ok c)"

definition signed_files :: "string \<Rightarrow> string \<Rightarrow> zipfile list" where
  "signed_files bundle signature =
     [\<lparr>zf_Name = BundleFilename, zf_Content = bundle\<rparr>,
      \<lparr>zf_Name = BundleSignatureFilename, zf_Content = signature\<rparr>]"

definition export_filename :: "policy \<Rightarrow> string" where
  "export_filename p =
     trim_space (p_Repository p @ ''_'' @ p_Group p @ ''_'' @ p_Name p @ ''_'' @ p_Version p @ ''.zip'')"

definition svc_ExportBundle ::
  "('j, 'k) libs \<Rightarrow> 'st service \<Rightarrow> polid \<Rightarrow> 'st world \<Rightarrow> export_result outcome \<times> 'st world" where
  "svc_ExportBundle L S i =
     sbind (on_store (op_Policy (sv_storage S) i)) (\<lambda>pol.
     sbind (sret (svc_exportConfig (lib_codec L) pol)) (\<lambda>cfg.
     sbind (sret (createPolicyBundle L (sv_externalHostname S) pol)) (\<lambda>bundle.
     sbind (on_http (sv_signerSign S (ec_Namespace cfg) (ec_Key cfg) (sha256 L bundle))) (\<lambda>signature.
     sbind (sret (zipWrite L (signed_files bundle signature))) (\<lambda>signedBundle.
     sret (Ok \<lparr>ex_ContentType = ''application/zip'', ex_ContentLength = length signedBundle,
               ex_ContentDisposition = ''attachment; filename='' @ quoted (export_filename pol),
               ex_Body = signedBundle\<rparr>))))))"

definition svc_PolicyPublicKey ::
  "codec \<Rightarrow> 'st service \<Rightarrow> polid \<Rightarrow> 'st world \<Rightarrow> json outcome \<times> 'st world" where
  "svc_PolicyPublicKey C S i =
     sbind (on_store (op_Policy (sv_storage S) i)) (\<lambda>pol.
     sbind (sret (svc_exportConfig C pol)) (\<lambda>cfg.
       on_http (sv_signerKey S (ec_Namespace cfg) (ec_Key cfg))))"

record import_result =
  im_id :: polid
  im_locked :: bool
  im_lastUpdate :: time

definition bad_payload :: "string \<Rightarrow> goerror \<Rightarrow> goerror" where
  "bad_payload m e = errors_New [AKind BadRequest, AErr (Plain (m @ '': '' @ err_text e))]"

text \<open>\<open>payload\<close> is what \<^verbatim>\<open>io.ReadAll\<close> gives for the request body.\<close>

definition svc_ImportBundle ::
  "('j, 'k) libs \<Rightarrow> 'st service \<Rightarrow> string outcome \<Rightarrow> 'st world \<Rightarrow> import_result outcome \<times> 'st world" where
  "svc_ImportBundle L S payload =
     sbind (sret (owrap (bad_payload ''error reading bundle payload'') payload)) (\<lambda>archive.
     sbind (sret (owrap (bad_payload ''failed to unzip bundle'') (zipRead L archive))) (\<lambda>fs.
       if length fs \<noteq> 2 then
         sret (Err (errors_New [AKind BadRequest, AStr ''invalid bundle'',
           AErr (Plain (''expected to contain two files, but has: '' @ nat_text (length fs)))]))
       else
         sbind (swrap (\<lambda>e. errors_New [AKind Forbidden, AStr ''failed to verify bundle'', AErr e])
                  (on_http (verifyBundle L fs))) (\<lambda>_.
         sbind (sret (owrap (wrap_msg ''cannot make policy from bundle'')
                  (policyFromBundle L (zf_Content (hd fs))))) (\<lambda>pol.
         sbind (swrap (wrap_msg ''error saving imported policy bundle'')
                  (on_store (op_SavePolicy (sv_storage S) pol))) (\<lambda>_.
         sret (Ok \<lparr>im_id = pid_of pol, im_locked = p_Locked pol,
                   im_lastUpdate = p_LastUpdate pol\<rparr>))))))"

section \<open>Automatic-import configurations\<close>

text \<open>\<open>parseDuration\<close> is \<^verbatim>\<open>time.ParseDuration\<close>, \<open>durationText\<close> is \<^verbatim>\<open>Duration.String\<close>.\<close>

definition svc_SetPolicyAutoImport ::
  "(string \<Rightarrow> duration outcome) \<Rightarrow> time \<Rightarrow> 'st service \<Rightarrow> string \<Rightarrow> string \<Rightarrow> 'st world \<Rightarrow>
   (string \<times> string) outcome \<times> 'st world" where
  "svc_SetPolicyAutoImport parseDuration now S policyURL interval =
     sbind (sret (owrap (\<lambda>e. errors_New [AKind BadRequest,
                AStr (''invalid interval definition: '' @ err_text e)])
              (parseDuration interval))) (\<lambda>d.
     sbind (swrap (wrap_msg ''error saving auto import configuration'')
              (on_store (op_SaveAutoImportConfig (sv_storage S)
                 \<lparr>ai_PolicyURL = policyURL, ai_Interval = d, ai_NextImport = now + d\<rparr>))) (\<lambda>_.
     sret (Ok (policyURL, interval))))"

definition svc_PolicyAutoImport ::
  "'st service \<Rightarrow> 'st world \<Rightarrow> autoimport list outcome \<times> 'st world" where
  "svc_PolicyAutoImport S =
     swrap (wrap_msg ''error getting auto import configurations'')
       (on_store (op_AutoImportConfigs (sv_storage S)))"

definition svc_DeletePolicyAutoImport ::
  "(duration \<Rightarrow> string) \<Rightarrow> 'st service \<Rightarrow> string \<Rightarrow> 'st world \<Rightarrow>
   (string \<times> string) outcome \<times> 'st world" where
  "svc_DeletePolicyAutoImport durationText S policyURL =
     sbind (swrap (wrap_msg ''cannot get auto import configuration'')
              (on_store (op_AutoImportConfig (sv_storage S) policyURL))) (\<lambda>cfg.
     sbind (swrap (wrap_msg ''failed to delete auto import configuration'')
              (on_store (op_DeleteAutoImportConfig (sv_storage S) policyURL))) (\<lambda>_.
     sret (Ok (ai_PolicyURL cfg, durationText (ai_Interval cfg)))))"

section \<open>Listing and subscribing\<close>

record policies_request =
  pr_Locked :: "bool option"
  pr_PolicyName :: "string option"
  pr_Rego :: "bool option"
  pr_Data :: "bool option"
  pr_DataConfig :: "bool option"

record policy_item =
  pi_id :: polid
  pi_Locked :: bool
  pi_LastUpdate :: int
  pi_Rego :: "string option"
  pi_Data :: "string option"
  pi_DataConfig :: "string option"

text \<open>\<^verbatim>\<open>time.Time.Unix\<close>: whole seconds since 1970, rounded down; Go's zero time lies 62135596800 s before.\<close>

definition unix_seconds :: "time \<Rightarrow> int" where
  "unix_seconds t = t div 1000000000 - 62135596800"

definition policy_item_of :: "policies_request \<Rightarrow> policy \<Rightarrow> policy_item" where
  "policy_item_of req p =
     \<lparr>pi_id = pid_of p, pi_Locked = p_Locked p, pi_LastUpdate = unix_seconds (p_LastUpdate p),
      pi_Rego = (if pr_Rego req = Some True then Some (p_Rego p) else None),
      pi_Data = (if pr_Data req = Some True then Some (p_Data p) else None),
      pi_DataConfig = (if pr_DataConfig req = Some True then Some (p_DataConfig p) else None)\<rparr>"

definition svc_ListPolicies ::
  "'st service \<Rightarrow> policies_request \<Rightarrow> 'st world \<Rightarrow> policy_item list outcome \<times> 'st world" where
  "svc_ListPolicies S req =
     sbind (swrap (wrap_msg ''error retrieving policies'')
              (on_store (op_GetPolicies (sv_storage S) (pr_Locked req) (pr_PolicyName req)))) (\<lambda>ps.
     sret (Ok (map (policy_item_of req) ps)))"

definition new_subscriber :: "polid \<Rightarrow> string \<Rightarrow> string \<Rightarrow> subscriber" where
  "new_subscriber i webhookURL name =
     (case i of (repo, grp, pname, version) \<Rightarrow>
        \<lparr>sub_Name = name, sub_WebhookURL = webhookURL, sub_PolicyRepository = repo,
         sub_PolicyName = pname, sub_PolicyGroup = grp, sub_PolicyVersion = version,
         sub_CreatedAt = zero_time, sub_UpdatedAt = zero_time\<rparr>)"

definition svc_SubscribeForPolicyChange ::
  "'st service \<Rightarrow> polid \<Rightarrow> string \<Rightarrow> string \<Rightarrow> 'st world \<Rightarrow> subscriber outcome \<times> 'st world" where
  "svc_SubscribeForPolicyChange S i webhookURL name =
     sbind (on_store (op_Policy (sv_storage S) i)) (\<lambda>_ w.
       case on_store (op_Subscriber (sv_storage S) i webhookURL name) w of
         (Ok sub, w1) \<Rightarrow> (Err (errors_New [AKind Exist, AStr ''subscriber already exist'']), w1)
       | (Err e, w1) \<Rightarrow>
           if \<not> errors_Is NotFound e
           then (Err (wrap_msg ''error while retrieving subscriber'' e), w1)
           else on_store (op_CreateSubscriber (sv_storage S) (new_subscriber i webhookURL name)) w1
       | (Panic t, w1) \<Rightarrow> (Panic t, w1)
       | (Blocked, w1) \<Rightarrow> (Blocked, w1))"

end
