(* ===== verification/Clone.thy ===== *)
theory Clone
  imports Storage_Interface
begin

text \<open>
  Package \<^verbatim>\<open>clone\<close> (\<^verbatim>\<open>internal/clone/clone.go\<close>): how the policies are read out of a cloned Git
  repository, and the key under which a policy is filed.  The file system is a parameter: a
  \<^verbatim>\<open>os.ReadFile\<close> function and the list of entries \<^verbatim>\<open>filepath.WalkDir\<close> visits.  The cloning itself (go-git)
  is not modelled.
\<close>

section \<open>Keys\<close>

definition ConstructKey :: "polid \<Rightarrow> string" where
  "ConstructKey i =
     (case i of (repo, grp, name, version) \<Rightarrow>
        repo @ CHR ''.'' # grp @ CHR ''.'' # name @ CHR ''.'' # version)"

text \<open>
  The identifiers that keys tell apart: no dot in the repository, group and policy name (the version
  may contain dots).
\<close>

definition dot_free :: "polid \<Rightarrow> bool" where
  "dot_free i \<longleftrightarrow>
     (case i of (repo, grp, name, version) \<Rightarrow>
        CHR ''.'' \<notin> set repo \<and> CHR ''.'' \<notin> set grp \<and> CHR ''.'' \<notin> set name)"

lemma ConstructKey_inj [key_simps]:
  "dot_free i \<Longrightarrow> dot_free j \<Longrightarrow> ConstructKey i = ConstructKey j \<longleftrightarrow> i = j"
  by (cases i; cases j) (auto simp: ConstructKey_def dot_free_def key_simps)

text \<open>\<^verbatim>\<open>getRepoName\<close>: the last path segment of the clone URL without the suffix \<^verbatim>\<open>.git\<close>.\<close>

definition getRepoName :: "string \<Rightarrow> string" where
  "getRepoName url = last (split_on CHR ''/'' (trim_suffix url ''.git''))"

lemma getRepoName_last:
  assumes "CHR ''/'' \<notin> set name"
  shows "getRepoName (base @ CHR ''/'' # name @ ''.git'') = name"
proof -
  have "split_on CHR ''/'' (base @ CHR ''/'' # name) \<noteq> []" by simp
  moreover have "last (split_on CHR ''/'' (base @ CHR ''/'' # name)) = name"
    using assms
  proof (induction base)
    case Nil
    then show ?case by (simp add: split_on_no_sep)
  next
    case (Cons x base)
    obtain w ws where "split_on CHR ''/'' (base @ CHR ''/'' # name) = w # ws" "ws \<noteq> []"
    proof -
      obtain w ws where sp: "split_on CHR ''/'' (base @ CHR ''/'' # name) = w # ws"
        by (cases "split_on CHR ''/'' (base @ CHR ''/'' # name)") auto
      have "join_with [CHR ''/''] (w # ws) = base @ CHR ''/'' # name"
        using join_split [of "CHR ''/''" "base @ CHR ''/'' # name"] sp by simp
      moreover have "CHR ''/'' \<notin> set w"
        using split_on_sep_free [of w "CHR ''/''" "base @ CHR ''/'' # name"] sp by simp
      ultimately have "ws \<noteq> []" by (cases ws) auto
      then show ?thesis using that sp by blast
    qed
    then show ?case using Cons by auto
  qed
  ultimately show ?thesis
    by (simp add: getRepoName_def trim_suffix_append [of "base @ CHR ''/'' # name", simplified])
qed

section \<open>Reading one policy\<close>

text \<open>
  The result of \<^verbatim>\<open>os.ReadFile\<close>: the contents, a missing file (\<^verbatim>\<open>os.IsNotExist\<close>) or another error.
\<close>

datatype readresult = Contents string | NotExist | ReadError string

definition read_required :: "readresult \<Rightarrow> string outcome" where
  "read_required r =
     (case r of Contents s \<Rightarrow> Ok s | NotExist \<Rightarrow> Err (Plain ''file does not exist'')
              | ReadError e \<Rightarrow> Err (Plain e))"

definition read_optional :: "readresult \<Rightarrow> string outcome" where
  "read_optional r =
     (case r of Contents s \<Rightarrow> Ok s | NotExist \<Rightarrow> Ok [] | ReadError e \<Rightarrow> Err (Plain e))"

definition policyFilename :: string where "policyFilename = ''policy.rego''"
definition dataFilename :: string where "dataFilename = ''data.json''"
definition dataConfigFilename :: string where "dataConfigFilename = ''data-config.json''"
definition jsonSchemaFilename :: string where "jsonSchemaFilename = ''output-schema.json''"
definition exportConfigFilename :: string where "exportConfigFilename = ''export-config.json''"

text \<open>
  \<open>exe\<close> is the result of \<^verbatim>\<open>os.Executable\<close> (its directory), \<open>join\<close> is \<^verbatim>\<open>filepath.Join\<close> of two paths,
  \<open>read\<close> is \<^verbatim>\<open>os.ReadFile\<close>.  The static data is looked up below the directory of the executable, the
  other files relative to the working directory, as the source does.  The warning that is logged when
  both data files exist changes nothing.
\<close>

definition createPolicy ::
  "string outcome \<Rightarrow> (string \<Rightarrow> string \<Rightarrow> string) \<Rightarrow> (string \<Rightarrow> readresult) \<Rightarrow> string \<Rightarrow> string \<Rightarrow>
   policy outcome" where
  "createPolicy exe join read p repository =
     obind (owrap (\<lambda>e. Plain (''error getting executable path: '' @ err_text e)) exe) (\<lambda>exPath.
     let ss = split_on CHR ''/'' p; dir = trim_suffix p policyFilename in
     if length ss < 4 then
       Err (Plain (''failed to get policy filename, name, version and group out of policy path: '' @ p))
     else
       let version = ss ! (length ss - 2);
           name = ss ! (length ss - 3);
           grp = ss ! (length ss - 4)
       in
       obind (read_required (read p)) (\<lambda>regoSrc.
       obind (read_optional (read (join exPath (dir @ dataFilename)))) (\<lambda>dataBytes.
       obind (read_optional (read (dir @ dataConfigFilename))) (\<lambda>configBytes.
       obind (read_optional (read (dir @ jsonSchemaFilename))) (\<lambda>schemaBytes.
       obind (read_optional (read (dir @ exportConfigFilename))) (\<lambda>exportConfigBytes.
         Ok (zero_policy
              \<lparr>p_Repository := repository,
               p_Filename := grp @ ''/'' @ name @ ''/'' @ version @ ''/'' @ policyFilename,
               p_Name := name, p_Group := grp, p_Version := version,
               p_Rego := regoSrc, p_Data := dataBytes, p_DataConfig := configBytes,
               p_OutputSchema := schemaBytes, p_ExportConfig := exportConfigBytes,
               p_Locked := False\<rparr>)))))))"

section \<open>Walking the repository\<close>

text \<open>
  One entry \<^verbatim>\<open>filepath.WalkDir\<close> hands to its callback: the path, the name of the entry, whether it is
  a directory, and the error met on the way.  The walk stops at the first error the callback returns.
\<close>

record dirent =
  d_path :: string
  d_name :: string
  d_isdir :: bool
  d_err :: "goerror option"

fun walk ::
  "(string \<Rightarrow> policy outcome) \<Rightarrow> dirent list \<Rightarrow> (string \<rightharpoonup> policy) \<Rightarrow> (string \<rightharpoonup> policy) outcome" where
  "walk create [] m = Ok m"
| "walk create (d # ds) m =
     (case d_err d of
        Some e \<Rightarrow> Err e
      | None \<Rightarrow>
          if \<not> d_isdir d \<and> d_name d = policyFilename
          then obind (create (d_path d)) (\<lambda>p. walk create ds (m(ConstructKey (pid_of p) \<mapsto> p)))
          else walk create ds m)"

definition IterateRepo ::
  "(string \<Rightarrow> policy outcome) \<Rightarrow> dirent list \<Rightarrow> (string \<rightharpoonup> policy) outcome" where
  "IterateRepo create entries = walk create entries Map.empty"

subsection \<open>Properties of the walk\<close>

text \<open>Policies are filed under the key of their own identity.\<close>

definition keyed :: "(polid \<Rightarrow> string) \<Rightarrow> (string \<rightharpoonup> policy) \<Rightarrow> bool" where
  "keyed kc m \<longleftrightarrow> (\<forall>k p. m k = Some p \<longrightarrow> k = kc (pid_of p))"

lemma keyed_empty [simp]: "keyed kc Map.empty"
  by (simp add: keyed_def)

lemma keyed_upd [intro]: "keyed kc m \<Longrightarrow> k = kc (pid_of p) \<Longrightarrow> keyed kc (m(k \<mapsto> p))"
  by (auto simp: keyed_def)

lemma walk_keyed:
  "walk create ds m = Ok m' \<Longrightarrow> keyed ConstructKey m \<Longrightarrow> keyed ConstructKey m'"
proof (induction ds arbitrary: m)
  case (Cons d ds)
  then show ?case
    by (auto simp: obind_Ok_iff keyed_upd split: option.splits if_splits)
qed simp

lemma createPolicy_pid:
  assumes "createPolicy exe join read p repository = Ok q"
  shows "p_Repository q = repository" and "\<not> p_Locked q" and "p_NextDataRefreshTime q = zero_time"
    and "p_LastUpdate q = zero_time"
  using assms
  by (auto simp: createPolicy_def obind_Ok_iff Let_def zero_policy_def split: if_splits)

lemma walk_created:
  "walk create ds m = Ok m' \<Longrightarrow> (\<And>f p. create f = Ok p \<Longrightarrow> P p) \<Longrightarrow> (\<And>k p. m k = Some p \<Longrightarrow> P p) \<Longrightarrow>
   m' k = Some p \<Longrightarrow> P p"
proof (induction ds arbitrary: m)
  case (Cons d ds)
  show ?case
  proof (cases "d_err d = None \<and> \<not> d_isdir d \<and> d_name d = policyFilename")
    case True
    then obtain q where q: "create (d_path d) = Ok q" "walk create ds (m(ConstructKey (pid_of q) \<mapsto> q)) = Ok m'"
      using Cons.prems(1) by (auto simp: obind_Ok_iff)
    show ?thesis
      by (rule Cons.IH [OF q(2)]) (use Cons.prems q(1) in \<open>auto split: if_splits\<close>)
  next
    case False
    then have "walk create ds m = Ok m'" using Cons.prems(1) by (auto split: option.splits if_splits)
    from Cons.IH [OF this] show ?thesis using Cons.prems by blast
  qed
qed simp

lemma IterateRepo_filed:
  assumes "IterateRepo (\<lambda>f. createPolicy exe join read f repo) entries = Ok m"
  shows "keyed ConstructKey m \<and>
    (\<forall>k p. m k = Some p \<longrightarrow> p_Repository p = repo \<and> \<not> p_Locked p \<and> p_NextDataRefreshTime p = zero_time)"
proof -
  have "p_Repository p = repo \<and> \<not> p_Locked p \<and> p_NextDataRefreshTime p = zero_time" if "m k = Some p" for k p
    by (rule walk_created [OF assms [unfolded IterateRepo_def], where P = "\<lambda>p. p_Repository p = repo \<and>
          \<not> p_Locked p \<and> p_NextDataRefreshTime p = zero_time"])
      (use createPolicy_pid that in auto)
  then show ?thesis
    using walk_keyed [OF assms [unfolded IterateRepo_def]] by simp
qed

text \<open>A path with the layout the documentation asks for gives the policy it names.\<close>

lemma split_path:
  assumes "CHR ''/'' \<notin> set g" "CHR ''/'' \<notin> set n" "CHR ''/'' \<notin> set v"
  shows "split_on CHR ''/'' (pre @ CHR ''/'' # g @ CHR ''/'' # n @ CHR ''/'' # v @ ''/policy.rego'')
         = split_on CHR ''/'' pre @ [g, n, v, ''policy.rego'']"
proof -
  let ?ws = "split_on CHR ''/'' pre @ [g, n, v, ''policy.rego'']"
  have tail: "join_with [CHR ''/''] (ws @ [g, n, v, ''policy.rego'']) =
      join_with [CHR ''/''] ws @ CHR ''/'' # g @ CHR ''/'' # n @ CHR ''/'' # v @ ''/policy.rego''"
    if "ws \<noteq> []" for ws :: "string list"
    using that
  proof (induction ws)
    case (Cons w ws)
    then show ?case by (cases ws) auto
  qed simp
  have "join_with [CHR ''/''] ?ws =
      pre @ CHR ''/'' # g @ CHR ''/'' # n @ CHR ''/'' # v @ ''/policy.rego''"
    using tail [OF split_on_nonempty, of "CHR ''/''" pre] by simp
  moreover have "\<forall>w \<in> set ?ws. CHR ''/'' \<notin> set w"
    using assms split_on_sep_free by auto
  ultimately show ?thesis
    using split_join [of ?ws "CHR ''/''"] by simp
qed

end
