(* ===== verification/Memory_Storage.thy ===== *)
theory Memory_Storage
  imports Clone
begin

text \<open>
  The in-memory storage (\<^verbatim>\<open>internal/storage/memory/storage.go\<close>).  A Go map is a HOL map; \<open>autoImport\<close>
  is optional because the constructor leaves that map nil.  Mutex sections run as one step;
  \<open>autoImportLocked\<close> records a \<^verbatim>\<open>muAutoImport\<close> that was locked by a call that panicked before its
  \<^verbatim>\<open>Unlock\<close>.  \<open>changes\<close> lists the policies whose change notification a goroutine is waiting to send.
  The clock reading and the iteration order (a function that lists the keys of the map a loop ranges
  over) are arguments of the operations that use them; \<open>lower\<close> is \<^verbatim>\<open>strings.ToLower\<close> (the Unicode
  case tables).
\<close>

type_synonym 'v range_order = "(string \<rightharpoonup> 'v) \<Rightarrow> string list"

record mem =
  policies :: "string \<rightharpoonup> policy"
  policySubscribers :: "string \<rightharpoonup> subscriber"
  commonStorage :: "string \<rightharpoonup> json"
  autoImport :: "(string \<rightharpoonup> autoimport) option"
  autoImportLocked :: bool
  changes :: "policy list"

definition mem_New :: "(string \<rightharpoonup> policy) \<Rightarrow> mem" where
  "mem_New p =
     \<lparr>policies = p, policySubscribers = Map.empty, commonStorage = Map.empty, autoImport = None,
      autoImportLocked = False, changes = []\<rparr>"

section \<open>Policies\<close>

abbreviation mem_not_found :: goerror where
  "mem_not_found \<equiv> errors_New [AKind NotFound, AStr ''policy not found in memory storage'']"

definition mem_Policy :: "(polid \<Rightarrow> string) \<Rightarrow> polid \<Rightarrow> mem \<Rightarrow> policy outcome \<times> mem" where
  "mem_Policy kc i s =
     (case policies s (kc i) of None \<Rightarrow> (Err mem_not_found, s) | Some p \<Rightarrow> (Ok p, s))"

definition mem_SavePolicy :: "(polid \<Rightarrow> string) \<Rightarrow> policy \<Rightarrow> mem \<Rightarrow> unit outcome \<times> mem" where
  "mem_SavePolicy kc p s =
     (Ok (), s\<lparr>policies := (policies s)(kc (pid_of p) \<mapsto> p), changes := changes s @ [p]\<rparr>)"

definition mem_SetPolicyLock ::
  "(polid \<Rightarrow> string) \<Rightarrow> polid \<Rightarrow> bool \<Rightarrow> mem \<Rightarrow> unit outcome \<times> mem" where
  "mem_SetPolicyLock kc i lock s =
     (case policies s (kc i) of
        None \<Rightarrow> (Err mem_not_found, s)
      | Some p \<Rightarrow>
          let p' = p\<lparr>p_Locked := lock\<rparr>
          in (Ok (), s\<lparr>policies := (policies s)(kc i \<mapsto> p'), changes := changes s @ [p']\<rparr>))"

definition policy_filter ::
  "(string \<Rightarrow> string) \<Rightarrow> bool option \<Rightarrow> string option \<Rightarrow> policy \<Rightarrow> bool" where
  "policy_filter lower locked policyName p \<longleftrightarrow>
     (case locked of None \<Rightarrow> True | Some b \<Rightarrow> b = p_Locked p) \<and>
     (case policyName of None \<Rightarrow> True
      | Some n \<Rightarrow> contains (lower (p_Name p)) (lower (trim_space n)))"

definition mem_GetPolicies ::
  "(string \<Rightarrow> string) \<Rightarrow> policy range_order \<Rightarrow> bool option \<Rightarrow> string option \<Rightarrow> mem \<Rightarrow> policy list outcome \<times> mem"
where
  "mem_GetPolicies lower order locked policyName s =
     (Ok (filter (policy_filter lower locked policyName) (range_values (order (policies s)) (policies s))), s)"

text \<open>
  \<^verbatim>\<open>GetRefreshPolicies\<close>: every policy whose refresh time is set and has passed is returned as it was
  and postponed in the map.
\<close>

definition refresh_due :: "time \<Rightarrow> policy \<Rightarrow> bool" where
  "refresh_due now p \<longleftrightarrow> p_NextDataRefreshTime p < now \<and> p_NextDataRefreshTime p > zero_time"

fun mem_refresh_loop ::
  "time \<Rightarrow> string list \<Rightarrow> (string \<rightharpoonup> policy) \<Rightarrow> policy list \<times> (string \<rightharpoonup> policy)" where
  "mem_refresh_loop now [] m = ([], m)"
| "mem_refresh_loop now (k # ks) m =
     (case m k of
        None \<Rightarrow> mem_refresh_loop now ks m
      | Some p \<Rightarrow>
          if refresh_due now p then
            (let (res, m') = mem_refresh_loop now ks
                   (m(k \<mapsto> p\<lparr>p_NextDataRefreshTime := now + RefreshPostponePeriod\<rparr>))
             in (p # res, m'))
          else mem_refresh_loop now ks m)"

definition mem_GetRefreshPolicies ::
  "time \<Rightarrow> policy range_order \<Rightarrow> mem \<Rightarrow> policy list outcome \<times> mem" where
  "mem_GetRefreshPolicies now order s =
     (let (res, m) = mem_refresh_loop now (order (policies s)) (policies s) in (Ok res, s\<lparr>policies := m\<rparr>))"

definition mem_UpdateNextRefreshTime ::
  "(polid \<Rightarrow> string) \<Rightarrow> policy \<Rightarrow> time \<Rightarrow> mem \<Rightarrow> unit outcome \<times> mem" where
  "mem_UpdateNextRefreshTime kc p t s =
     (let key = kc (pid_of p) in
      case policies s key of
        None \<Rightarrow> (Err mem_not_found, s)
      | Some q \<Rightarrow>
          (Ok (), s\<lparr>policies := (policies s)(key \<mapsto> q\<lparr>p_NextDataRefreshTime := t\<rparr>)\<rparr>))"

text \<open>
  One change received by \<^verbatim>\<open>ListenPolicyDataChanges\<close>: the subscribers are called in order, with the
  arguments as the source orders them (repository, name, version, group); the first error ends the
  listener.
\<close>

fun mem_notify :: "'w policy_subscriber list \<Rightarrow> policy \<Rightarrow> 'w \<Rightarrow> goerror option \<times> 'w" where
  "mem_notify [] p w = (None, w)"
| "mem_notify (f # fs) p w =
     (case f (p_Repository p) (p_Name p) (p_Version p) (p_Group p) w of
        (Some e, w') \<Rightarrow> (Some e, w')
      | (None, w') \<Rightarrow> mem_notify fs p w')"

section \<open>Common storage\<close>

definition no_such_key :: "string \<Rightarrow> goerror" where
  "no_such_key key = Plain (''key: '' @ key @ '' doesn'' @ [CHR 0x27] @ ''t exist'')"

definition mem_GetData :: "string \<Rightarrow> mem \<Rightarrow> json outcome \<times> mem" where
  "mem_GetData key s =
     (case commonStorage s key of None \<Rightarrow> (Err (no_such_key key), s) | Some d \<Rightarrow> (Ok d, s))"

definition mem_SetData :: "string \<Rightarrow> (string \<times> json) list \<Rightarrow> mem \<Rightarrow> unit outcome \<times> mem" where
  "mem_SetData key data s =
     (Ok (), s\<lparr>commonStorage := (commonStorage s)(key \<mapsto> JObj data)\<rparr>)"

definition mem_DeleteData :: "string \<Rightarrow> mem \<Rightarrow> unit outcome \<times> mem" where
  "mem_DeleteData key s =
     (if commonStorage s key = None then (Err (no_such_key key), s)
      else (Ok (), s\<lparr>commonStorage := (commonStorage s)(key := None)\<rparr>))"

section \<open>Subscribers\<close>

text \<open>The key is the plain concatenation of the six strings.\<close>

definition subscriber_key :: "polid \<Rightarrow> string \<Rightarrow> string \<Rightarrow> string" where
  "subscriber_key i webhookURL name =
     (case i of (repo, grp, pname, version) \<Rightarrow> repo @ grp @ pname @ version @ webhookURL @ name)"

definition sub_pid :: "subscriber \<Rightarrow> polid" where
  "sub_pid b = (sub_PolicyRepository b, sub_PolicyGroup b, sub_PolicyName b, sub_PolicyVersion b)"

definition mem_CreateSubscriber :: "subscriber \<Rightarrow> mem \<Rightarrow> subscriber outcome \<times> mem" where
  "mem_CreateSubscriber b s =
     (Ok b, s\<lparr>policySubscribers :=
        (policySubscribers s)(subscriber_key (sub_pid b) (sub_WebhookURL b) (sub_Name b) \<mapsto> b)\<rparr>)"

definition mem_Subscriber :: "polid \<Rightarrow> string \<Rightarrow> string \<Rightarrow> mem \<Rightarrow> subscriber outcome \<times> mem" where
  "mem_Subscriber i webhookURL name s =
     (case policySubscribers s (subscriber_key i webhookURL name) of
        None \<Rightarrow> (Err (errors_New [AKind NotFound, AStr ''subscriber not found in memory storage'']), s)
      | Some b \<Rightarrow> (Ok b, s))"

section \<open>Automatic import\<close>

text \<open>
  \<open>locked_section\<close> is a section under \<^verbatim>\<open>muAutoImport\<close>: it blocks for ever when the mutex was left
  locked.  Writing to the nil map panics; \<^verbatim>\<open>SaveAutoImportConfig\<close> unlocks without \<^verbatim>\<open>defer\<close>, so its panic
  leaves the mutex locked.
\<close>

definition locked_section :: "(mem \<Rightarrow> 'a outcome \<times> mem) \<Rightarrow> mem \<Rightarrow> 'a outcome \<times> mem" where
  "locked_section f s = (if autoImportLocked s then (Blocked, s) else f s)"

definition mem_SaveAutoImportConfig :: "autoimport \<Rightarrow> mem \<Rightarrow> unit outcome \<times> mem" where
  "mem_SaveAutoImportConfig c = locked_section (\<lambda>s.
     case autoImport s of
       None \<Rightarrow> (Panic ''assignment to entry in nil map'', s\<lparr>autoImportLocked := True\<rparr>)
     | Some m \<Rightarrow> (Ok (), s\<lparr>autoImport := Some (m(ai_PolicyURL c \<mapsto> c))\<rparr>))"

fun mem_active_loop ::
  "time \<Rightarrow> string list \<Rightarrow> (string \<rightharpoonup> autoimport) \<Rightarrow> autoimport list \<times> (string \<rightharpoonup> autoimport)" where
  "mem_active_loop now [] m = ([], m)"
| "mem_active_loop now (k # ks) m =
     (case m k of
        None \<Rightarrow> mem_active_loop now ks m
      | Some cfg \<Rightarrow>
          if ai_NextImport cfg > now then
            (let c = cfg\<lparr>ai_NextImport := ai_NextImport cfg + ai_Interval cfg\<rparr>;
                 (active, m') = mem_active_loop now ks (m(k \<mapsto> c))
             in (c # active, m'))
          else mem_active_loop now ks m)"

definition autoimport_map :: "mem \<Rightarrow> string \<rightharpoonup> autoimport" where
  "autoimport_map s = (case autoImport s of None \<Rightarrow> Map.empty | Some m \<Rightarrow> m)"

definition mem_ActiveImportConfigs ::
  "time \<Rightarrow> autoimport range_order \<Rightarrow> mem \<Rightarrow> autoimport list outcome \<times> mem" where
  "mem_ActiveImportConfigs now order = locked_section (\<lambda>s.
     case autoImport s of
       None \<Rightarrow> (Ok [], s)
     | Some m \<Rightarrow>
         (let (active, m') = mem_active_loop now (order m) m in (Ok active, s\<lparr>autoImport := Some m'\<rparr>)))"

definition mem_AutoImportConfigs :: "autoimport range_order \<Rightarrow> mem \<Rightarrow> autoimport list outcome \<times> mem" where
  "mem_AutoImportConfigs order = locked_section (\<lambda>s.
     (Ok (range_values (order (autoimport_map s)) (autoimport_map s)), s))"

definition mem_AutoImportConfig :: "autoimport range_order \<Rightarrow> string \<Rightarrow> mem \<Rightarrow> autoimport outcome \<times> mem" where
  "mem_AutoImportConfig order url = locked_section (\<lambda>s.
     case find (\<lambda>c. ai_PolicyURL c = url) 
             (range_values (order (autoimport_map s)) (autoimport_map s)) of
       None \<Rightarrow> (Err (errors_New [AKind NotFound]), s)
     | Some c \<Rightarrow> (Ok c, s))"

definition mem_DeleteAutoImportConfig :: "string \<Rightarrow> mem \<Rightarrow> unit outcome \<times> mem" where
  "mem_DeleteAutoImportConfig url = locked_section (\<lambda>s.
     (Ok (), s\<lparr>autoImport := map_option (\<lambda>m. m(url := None)) (autoImport s)\<rparr>))"

section \<open>The storage as an interface value\<close>

definition mem_ops ::
  "(polid \<Rightarrow> string) \<Rightarrow> (string \<Rightarrow> string) \<Rightarrow> policy range_order \<Rightarrow> autoimport range_order \<Rightarrow> time \<Rightarrow>
   mem storage_ops" where
  "mem_ops kc lower order aorder now =
     \<lparr>op_Policy = mem_Policy kc, op_SavePolicy = mem_SavePolicy kc,
      op_SetPolicyLock = mem_SetPolicyLock kc,
      op_GetPolicies = mem_GetPolicies lower order,
      op_Subscriber = mem_Subscriber, op_CreateSubscriber = mem_CreateSubscriber,
      op_GetData = mem_GetData, op_SetData = mem_SetData, op_DeleteData = mem_DeleteData,
      op_SaveAutoImportConfig = mem_SaveAutoImportConfig,
      op_AutoImportConfig = mem_AutoImportConfig aorder,
      op_AutoImportConfigs = mem_AutoImportConfigs aorder,
      op_DeleteAutoImportConfig = mem_DeleteAutoImportConfig,
      op_ActiveImportConfigs = mem_ActiveImportConfigs now aorder\<rparr>"

declare mem_Policy_def [op_defs] mem_SavePolicy_def [op_defs] mem_SetPolicyLock_def [op_defs]
  mem_GetPolicies_def [op_defs] mem_UpdateNextRefreshTime_def [op_defs]
  mem_GetRefreshPolicies_def [op_defs] mem_GetData_def [op_defs] mem_SetData_def [op_defs]
  mem_DeleteData_def [op_defs] mem_CreateSubscriber_def [op_defs] mem_Subscriber_def [op_defs]

end
