(* ===== verification/Memory_Laws.thy ===== *)
theory Memory_Laws
  imports Memory_Storage "HOL-Library.List_Lexorder" "HOL-Library.Char_ord"
begin

text \<open>
  What the in-memory storage promises: it satisfies the interfaces \<open>policy_store\<close> and \<open>data_store\<close>
  (interpretations \<open>mem_pol\<close>, \<open>mem_dat\<close>), the loops over its maps do what their filters say, and the
  states reachable through its operations keep their invariant.
\<close>

section \<open>Loops over the maps\<close>

definition postponed :: "time \<Rightarrow> policy \<Rightarrow> policy" where
  "postponed now p =
     (if refresh_due now p then p\<lparr>p_NextDataRefreshTime := now + RefreshPostponePeriod\<rparr> else p)"

lemma mem_refresh_loop_eq:
  "distinct ks \<Longrightarrow>
   mem_refresh_loop now ks m =
     (filter (refresh_due now) (range_values ks m),
      \<lambda>k. if k \<in> set ks then map_option (postponed now) (m k) else m k)"
proof (induction ks arbitrary: m)
  case (Cons k ks)
  have others: "range_values ks (m(k \<mapsto> q)) = range_values ks m" if "k \<notin> set ks" for q
    using that by (induction ks) (auto split: option.splits)
  show ?case
    using Cons others
    by (auto simp: Let_def postponed_def fun_eq_iff split: option.splits)
qed auto

lemma mem_GetRefreshPolicies_eq:
  assumes "is_order (order (policies s)) (policies s)"
  shows "mem_GetRefreshPolicies now order s =
    (Ok (filter (refresh_due now) (range_values (order (policies s)) (policies s))),
     s\<lparr>policies := \<lambda>k. map_option (postponed now) (policies s k)\<rparr>)"
proof -
  have "(\<lambda>k. if k \<in> set (order (policies s)) then map_option (postponed now) (policies s k)
              else policies s k) = (\<lambda>k. map_option (postponed now) (policies s k))"
    using assms by (auto simp: is_order_def fun_eq_iff domIff)
  then show ?thesis
    using assms by (simp add: mem_GetRefreshPolicies_def is_order_def mem_refresh_loop_eq)
qed

definition rescheduled :: "time \<Rightarrow> autoimport \<Rightarrow> autoimport" where
  "rescheduled now c =
     (if ai_NextImport c > now then c\<lparr>ai_NextImport := ai_NextImport c + ai_Interval c\<rparr> else c)"

lemma mem_active_loop_eq:
  "distinct ks \<Longrightarrow>
   mem_active_loop now ks m =
     (map (rescheduled now) (filter (\<lambda>c. ai_NextImport c > now) (range_values ks m)),
      \<lambda>k. if k \<in> set ks then map_option (rescheduled now) (m k) else m k)"
proof (induction ks arbitrary: m)
  case (Cons k ks)
  have others: "range_values ks (m(k \<mapsto> q)) = range_values ks m" if "k \<notin> set ks" for q
    using that by (induction ks) (auto split: option.splits)
  show ?case
    using Cons others
    by (auto simp: Let_def rescheduled_def fun_eq_iff split: option.splits)
qed auto

section \<open>The policy store\<close>

text \<open>
  A state is well-formed when every policy is filed under the key of its identity and no identity is
  ambiguous.
\<close>

definition mem_inv :: "mem \<Rightarrow> bool" where
  "mem_inv s \<longleftrightarrow>
     keyed ConstructKey (policies s) \<and> (\<forall>k p. policies s k = Some p \<longrightarrow> dot_free (pid_of p))"

definition mem_lookup :: "mem \<Rightarrow> polid \<Rightarrow> policy option" where
  "mem_lookup s i = policies s (ConstructKey i)"

lemma mem_inv_pid:
  assumes "mem_inv s" "dot_free i" "mem_lookup s i = Some p"
  shows "pid_of p = i"
proof -
  have "ConstructKey i = ConstructKey (pid_of p)" "dot_free (pid_of p)"
    using assms by (auto simp: mem_inv_def keyed_def mem_lookup_def)
  then show ?thesis using assms(2) by (simp add: key_simps)
qed

lemma mem_inv_upd:
  assumes "mem_inv s" "dot_free (pid_of p)" "policies s' = (policies s)(ConstructKey (pid_of p) \<mapsto> p)"
  shows "mem_inv s'"
  using assms by (auto simp: mem_inv_def keyed_def)

lemma mem_lookup_upd:
  assumes "dot_free i" "dot_free j" "policies s' = (policies s)(ConstructKey i \<mapsto> p)"
  shows "mem_lookup s' j = (if j = i then Some p else mem_lookup s j)"
  using assms by (auto simp: mem_lookup_def key_simps)

lemma mem_set_lock_law:
  assumes inv: "mem_inv s" and wf: "dot_free i" and found: "mem_lookup s i = Some p"
  shows "\<exists>s' t. mem_SetPolicyLock ConstructKey i b s = (Ok (), s') \<and> mem_inv s' \<and>
           mem_lookup s' i = Some (p\<lparr>p_Locked := b, p_LastUpdate := t\<rparr>) \<and>
           (\<forall>j. dot_free j \<longrightarrow> j \<noteq> i \<longrightarrow> mem_lookup s' j = mem_lookup s j)"
proof -
  define q where "q = p\<lparr>p_Locked := b\<rparr>"
  define s' where "s' = s\<lparr>policies := (policies s)(ConstructKey i \<mapsto> q), changes := changes s @ [q]\<rparr>"
  have pid: "pid_of q = i"
    using mem_inv_pid [OF inv wf found] by (simp add: q_def)
  have "mem_SetPolicyLock ConstructKey i b s = (Ok (), s')"
    using found by (simp add: mem_SetPolicyLock_def mem_lookup_def Let_def q_def s'_def)
  moreover have "mem_inv s'"
    using mem_inv_upd [OF inv, of q s'] wf pid by (simp add: s'_def)
  moreover have "mem_lookup s' i = Some (p\<lparr>p_Locked := b, p_LastUpdate := p_LastUpdate p\<rparr>)"
    by (simp add: s'_def mem_lookup_def q_def)
  moreover have "\<forall>j. dot_free j \<longrightarrow> j \<noteq> i \<longrightarrow> mem_lookup s' j = mem_lookup s j"
    using mem_lookup_upd [OF wf, of _ s' s q] by (simp add: s'_def)
  ultimately show ?thesis by blast
qed

lemma mem_save_law:
  assumes inv: "mem_inv s" and wf: "dot_free (pid_of p)"
  shows "\<exists>s' q. mem_SavePolicy ConstructKey p s = (Ok (), s') \<and> mem_inv s' \<and>
           mem_lookup s' (pid_of p) = Some q \<and> evaluation_view q = evaluation_view p \<and>
           (\<forall>j. dot_free j \<longrightarrow> j \<noteq> pid_of p \<longrightarrow> mem_lookup s' j = mem_lookup s j)"
proof -
  define s' where
    "s' = s\<lparr>policies := (policies s)(ConstructKey (pid_of p) \<mapsto> p), changes := changes s @ [p]\<rparr>"
  have "mem_SavePolicy ConstructKey p s = (Ok (), s')"
    by (simp add: mem_SavePolicy_def s'_def)
  moreover have "mem_inv s'"
    using mem_inv_upd [OF inv wf] by (simp add: s'_def)
  moreover have "mem_lookup s' (pid_of p) = Some p"
    by (simp add: s'_def mem_lookup_def)
  moreover have "\<forall>j. dot_free j \<longrightarrow> j \<noteq> pid_of p \<longrightarrow> mem_lookup s' j = mem_lookup s j"
    using mem_lookup_upd [OF wf, of _ s' s p] by (simp add: s'_def)
  ultimately show ?thesis by blast
qed

interpretation mem_pol: policy_store
  "mem_Policy ConstructKey" "mem_SavePolicy ConstructKey" "mem_SetPolicyLock ConstructKey"
  mem_lookup dot_free mem_inv
proof (unfold_locales, goal_cases)
  case 1
  then show ?case by (simp add: mem_Policy_def mem_lookup_def)
next
  case 2
  then show ?case by (simp add: mem_Policy_def mem_lookup_def)
qed (fact mem_inv_pid mem_set_lock_law mem_save_law)+

interpretation mem_dat: data_store mem_GetData mem_SetData mem_DeleteData commonStorage "\<lambda>s. True"
  by unfold_locales (auto simp: op_defs)

section \<open>The automatic-import store\<close>

text \<open>
  The operations do what their interface says in a state whose map exists (which the constructor
  does not establish, see below).  The iteration order is fixed to the sorted one here; a lookup by
  URL does not depend on it.
\<close>

definition sorted_order :: "autoimport range_order" where
  "sorted_order m = sorted_list_of_set (dom m)"

lemma is_order_sorted: "finite (dom m) \<Longrightarrow> is_order (sorted_order m) m"
  by (simp add: is_order_def sorted_order_def)

definition autoimport_usable :: "mem \<Rightarrow> bool" where
  "autoimport_usable s \<longleftrightarrow>
     \<not> autoImportLocked s \<and>
     (\<exists>m. autoImport s = Some m \<and> finite (dom m) \<and> (\<forall>u c. m u = Some c \<longrightarrow> ai_PolicyURL c = u))"

lemma find_by_url:
  assumes "is_order ks m" and "\<forall>u c. m u = Some c \<longrightarrow> ai_PolicyURL c = u"
  shows "find (\<lambda>c. ai_PolicyURL c = url) (range_values ks m) = m url"
proof (cases "m url")
  case None
  then have "\<forall>c \<in> set (range_values ks m). ai_PolicyURL c \<noteq> url"
    using assms(2) by (auto simp: in_range_values)
  then show ?thesis using None by (auto simp: find_None_iff)
next
  case (Some c)
  have "c \<in> set (range_values ks m)"
    using Some assms(1) by (auto simp: in_range_values is_order_def)
  moreover have "ai_PolicyURL c = url" using Some assms(2) by simp
  ultimately obtain d where d: "find (\<lambda>c. ai_PolicyURL c = url) (range_values ks m) = Some d"
    by (metis (mono_tags, lifting) find_None_iff not_None_eq)
  then have "d \<in> set (range_values ks m)" "ai_PolicyURL d = url"
    by (auto simp: find_Some_iff)
  then have "m url = Some d" using assms(2) by (auto simp: in_range_values)
  then show ?thesis using d by simp
qed

lemma mem_AutoImportConfig_usable:
  "autoimport_usable s \<Longrightarrow>
   mem_AutoImportConfig sorted_order u s =
     (case autoimport_map s u of
        None \<Rightarrow> (Err (errors_New [AKind NotFound]), s) | Some c \<Rightarrow> (Ok c, s))"
  by (auto simp: mem_AutoImportConfig_def locked_section_def autoimport_usable_def autoimport_map_def
      find_by_url [OF is_order_sorted])

interpretation mem_auto: autoimport_store
  mem_SaveAutoImportConfig "mem_AutoImportConfig sorted_order" mem_DeleteAutoImportConfig
  autoimport_map autoimport_usable "\<lambda>c. c"
proof unfold_locales
  fix s and c :: autoimport
  assume "autoimport_usable s"
  then show "\<exists>s'. mem_SaveAutoImportConfig c s = (Ok (), s') \<and> autoimport_usable s' \<and>
      autoimport_map s' = (autoimport_map s)(ai_PolicyURL c \<mapsto> c)"
    by (auto simp: mem_SaveAutoImportConfig_def locked_section_def autoimport_usable_def
        autoimport_map_def)
next
  fix s u c
  assume "autoimport_usable s" "autoimport_map s u = Some c"
  then show "\<exists>s'. mem_DeleteAutoImportConfig u s = (Ok (), s') \<and> autoimport_usable s' \<and>
      autoimport_map s' = (autoimport_map s)(u := None)"
    by (auto simp: mem_DeleteAutoImportConfig_def locked_section_def autoimport_usable_def
        autoimport_map_def)
qed (auto simp: mem_AutoImportConfig_usable)

section \<open>Reachable states\<close>

text \<open>One call of an operation that changes the state of the storage.\<close>

inductive mem_step :: "(polid \<Rightarrow> string) \<Rightarrow> mem \<Rightarrow> mem \<Rightarrow> bool" for kc where
  save: "mem_SavePolicy kc p s = (r, t) \<Longrightarrow> mem_step kc s t"
| lock: "mem_SetPolicyLock kc i b s = (r, t) \<Longrightarrow> mem_step kc s t"
| get_refresh: "is_order (order (policies s)) (policies s) \<Longrightarrow>
    mem_GetRefreshPolicies now order s = (r, t) \<Longrightarrow> mem_step kc s t"
| update_refresh: "mem_UpdateNextRefreshTime kc p nxt s = (r, t) \<Longrightarrow> mem_step kc s t"
| set_data: "mem_SetData key d s = (r, t) \<Longrightarrow> mem_step kc s t"
| delete_data: "mem_DeleteData key s = (r, t) \<Longrightarrow> mem_step kc s t"
| subscribe: "mem_CreateSubscriber b s = (r, t) \<Longrightarrow> mem_step kc s t"
| save_cfg: "mem_SaveAutoImportConfig c s = (r, t) \<Longrightarrow> mem_step kc s t"
| active_cfg: "mem_ActiveImportConfigs now aorder s = (r, t) \<Longrightarrow> mem_step kc s t"
| delete_cfg: "mem_DeleteAutoImportConfig u s = (r, t) \<Longrightarrow> mem_step kc s t"
| received: "changes s = pre @ p # post \<Longrightarrow> mem_step kc s (s\<lparr>changes := pre @ post\<rparr>)"

inductive mem_reachable :: "(polid \<Rightarrow> string) \<Rightarrow> (string \<rightharpoonup> policy) \<Rightarrow> mem \<Rightarrow> bool" for kc p0 where
  new: "mem_reachable kc p0 (mem_New p0)"
| step: "mem_reachable kc p0 s \<Longrightarrow> mem_step kc s t \<Longrightarrow> mem_reachable kc p0 t"

lemma pid_of_postponed [simp]: "pid_of (postponed now p) = pid_of p"
  by (simp add: postponed_def)

lemma mem_step_keyed:
  assumes "mem_step kc s t" and k: "keyed kc (policies s)"
  shows "keyed kc (policies t)"
  using assms(1)
proof cases
  case (lock i b r)
  then show ?thesis
    using k by (auto simp: keyed_def mem_SetPolicyLock_def Let_def split: option.splits if_splits)
next
  case (update_refresh p nxt r)
  then show ?thesis
    using k by (auto simp: keyed_def mem_UpdateNextRefreshTime_def Let_def split: option.splits if_splits)
next
  case (get_refresh order now r)
  then show ?thesis
    using k by (auto simp: keyed_def mem_GetRefreshPolicies_eq)
qed (use k in \<open>auto simp: keyed_def mem_SavePolicy_def mem_SetData_def mem_DeleteData_def
      mem_CreateSubscriber_def mem_SaveAutoImportConfig_def mem_ActiveImportConfigs_def
      mem_DeleteAutoImportConfig_def locked_section_def
      split: option.splits if_splits prod.splits\<close>)

lemma mem_step_no_autoimport:
  assumes "mem_step kc s t" and "autoImport s = None"
  shows "autoImport t = None"
  using assms
  by (cases rule: mem_step.cases)
    (auto simp: mem_SavePolicy_def mem_SetPolicyLock_def mem_GetRefreshPolicies_eq
      mem_UpdateNextRefreshTime_def mem_SetData_def mem_DeleteData_def mem_CreateSubscriber_def
      mem_SaveAutoImportConfig_def mem_ActiveImportConfigs_def mem_DeleteAutoImportConfig_def
      locked_section_def Let_def split: option.splits if_splits)

lemma mem_reachable_inv:
  assumes "mem_reachable kc p0 s" and "keyed kc p0"
  shows "keyed kc (policies s) \<and> autoImport s = None"
  using assms(1)
proof induction
  case new
  then show ?case using assms(2) by (simp add: mem_New_def)
next
  case (step s t)
  then show ?case using mem_step_keyed mem_step_no_autoimport by blast
qed

end
