(* ===== verification/Service_Laws.thy ===== *)
theory Service_Laws
  imports Policy_Service Memory_Laws
begin

text \<open>
  What the service guarantees over any storage that satisfies the interface \<open>policy_store\<close>: the lock
  protocol, the guard of the evaluation and the effects of a bundle import.  The lemmas are proved once
  inside the locale and are available for the in-memory storage through its interpretation.
\<close>

section \<open>Moving between the world and its parts\<close>

lemma on_store_eq: "f (w_store w) = (r, s) \<Longrightarrow> on_store f w = (r, w\<lparr>w_store := s\<rparr>)"
  by (simp add: on_store_def)

lemma on_http_eq: "f (w_http w) = (r, h) \<Longrightarrow> on_http f w = (r, w\<lparr>w_http := h\<rparr>)"
  by (simp add: on_http_def)

lemma on_store_same [simp]: "f (w_store w) = (r, w_store w) \<Longrightarrow> on_store f w = (r, w)"
  by (simp add: on_store_def)

lemma on_storeD: "on_store f w = (r, w') \<Longrightarrow> \<exists>s. f (w_store w) = (r, s) \<and> w' = w\<lparr>w_store := s\<rparr>"
  by (auto simp: on_store_def split: prod.splits)

lemma on_httpD: "on_http f w = (r, w') \<Longrightarrow> \<exists>h. f (w_http w) = (r, h) \<and> w' = w\<lparr>w_http := h\<rparr>"
  by (auto simp: on_http_def split: prod.splits)

lemma sbind_ErrD:
  "sbind m f s = (Err e, t) \<Longrightarrow> m s = (Err e, t) \<or> (\<exists>x s'. m s = (Ok x, s') \<and> f x s' = (Err e, t))"
  by (auto simp: sbind_def split: prod.splits outcome.splits)

text \<open>The service uses these storage operations.\<close>

definition uses_store ::
  "'st service \<Rightarrow> (polid \<Rightarrow> 'st \<Rightarrow> policy outcome \<times> 'st) \<Rightarrow> (policy \<Rightarrow> 'st \<Rightarrow> unit outcome \<times> 'st) \<Rightarrow>
   (polid \<Rightarrow> bool \<Rightarrow> 'st \<Rightarrow> unit outcome \<times> 'st) \<Rightarrow> bool" where
  "uses_store S g sv l \<longleftrightarrow>
     op_Policy (sv_storage S) = g \<and> op_SavePolicy (sv_storage S) = sv \<and>
     op_SetPolicyLock (sv_storage S) = l"

lemma uses_mem:
  "sv_storage S = mem_ops ConstructKey lower order aorder now \<Longrightarrow>
   uses_store S (mem_Policy ConstructKey) (mem_SavePolicy ConstructKey) (mem_SetPolicyLock ConstructKey)"
  by (simp add: uses_store_def mem_ops_def)

section \<open>Retrieval and evaluation, independent of the storage\<close>

lemma retrievePolicy_cached:
  "w_cache w (queryCacheKey i) = Some p \<Longrightarrow> retrievePolicy S i w = (Ok p, w)"
  by (simp add: retrievePolicy_def rc_Get_def)

lemma prepareQuery_locked:
  "retrievePolicy S i w = (Ok p, w') \<Longrightarrow> p_Locked p \<Longrightarrow> prepareQuery E S i hdrs w = (Err locked_error, w')"
  by (simp add: prepareQuery_def)

lemma locked_error_Forbidden [simp]: "errors_Is Forbidden locked_error"
  by (simp add: locked_error_def)

lemma Evaluate_locked:
  assumes "retrievePolicy S (er_id req) w = (Ok p, w')" and "p_Locked p"
  shows "\<exists>e. svc_Evaluate E S req ctx w = (Err e, w') \<and> errors_Is Forbidden e"
  using prepareQuery_locked [OF assms, of E "FromContext ctx"] by (simp add: svc_Evaluate_def Let_def)

lemma Evaluate_not_found:
  assumes "retrievePolicy S (er_id req) w = (Err e, w')" and "errors_Is NotFound e"
  shows "\<exists>e'. svc_Evaluate E S req ctx w = (Err e', w') \<and> errors_Is NotFound e'"
  using assms by (simp add: svc_Evaluate_def prepareQuery_def Let_def)

text \<open>Everything a successful evaluation went through.\<close>

lemma Evaluate_OkD:
  assumes "svc_Evaluate E S req ctx w = (Ok r, w')"
  shows "\<exists>p w1 args q v vs rs w2 txt.
    retrievePolicy S (er_id req) w = (Ok p, w1) \<and> \<not> p_Locked p \<and>
    buildRegoArgs E (p_Filename p) (p_Rego p) (regoQueryFor (er_id req)) (p_Data p) = Ok args \<and>
    prepareForEval E (args @ [HeaderFunction (FromContext ctx)]) = Ok q \<and>
    evalQuery E q (er_Input req) w1 = (Ok ((v # vs) # rs), w2) \<and>
    res_Result r = unwrap_result v \<and> res_ETag r = evaluation_id E req \<and>
    marshal (en_codec E) (unwrap_result v) = Ok txt \<and>
    store_result S (evaluation_id E req) txt (case er_TTL req of None \<Rightarrow> 0 | Some t \<Rightarrow> t) w2 = (Ok (), w')"
  using assms
  by (auto simp: svc_Evaluate_def prepareQuery_def Let_def split: list.splits if_splits
      dest!: sbind_OkD swrap_OkD)

text \<open>The same with the steps spelled out.\<close>

lemma unwrap_result_cases:
  "(\<exists>u. v = JObj [(''$0'', u)] \<and> unwrap_result v = u) \<or> (\<forall>u. v \<noteq> JObj [(''$0'', u)]) \<and> unwrap_result v = v"
  by (auto simp: unwrap_result_def split: json.splits list.splits)

lemma buildRegoArgs_OkD:
  assumes "buildRegoArgs E f pol query data = Ok args"
  shows "\<exists>store. args = [Module f pol, Query query, StrictBuiltinErrors True] @ map Extension (extensions E) @ store \<and>
    (if data = [] then store = []
     else \<exists>d kvs. unmarshal (en_codec E) data = Ok d \<and> struct_entries d = Ok kvs \<and> store = [Store kvs])"
  using assms by (auto simp: buildRegoArgs_def Let_def obind_Ok_iff split: if_splits)

lemma store_result_OkD:
  assumes "store_result S i txt ttl w = (Ok (), w')"
  shows "\<exists>answer. sv_cacheSet S i [] [] txt ttl (w_http w) = (answer, w_http w') \<and>
    (answer = Ok () \<or> (\<exists>e. answer = Err e \<and> errors_Is ServiceUnavailable e)) \<and>
    w_store w' = w_store w \<and> w_cache w' = w_cache w"
  using assms
  by (cases "sv_cacheSet S i [] [] txt ttl (w_http w)")
    (auto simp: store_result_def on_http_eq split: outcome.splits if_splits)

lemma retrievePolicy_OkD:
  assumes "retrievePolicy S i w = (Ok p, w')"
  shows "w_http w' = w_http w \<and>
    (case rc_Get (queryCacheKey i) (w_cache w) of
       Some q \<Rightarrow> p = q \<and> w' = w
     | None \<Rightarrow> op_Policy (sv_storage S) i (w_store w) = (Ok p, w_store w') \<and>
         w_cache w' = (w_cache w)(queryCacheKey i \<mapsto> p))"
  using assms
  by (cases "op_Policy (sv_storage S) i (w_store w)")
    (auto simp: retrievePolicy_def on_store_eq rc_Set_def split: option.splits dest!: sbind_OkD swrap_OkD)

section \<open>The lock protocol\<close>

context policy_store
begin

lemma retrieve_fresh:
  assumes use: "uses_store S get_policy save_policy set_lock"
    and inv: "invar (w_store w)" and wf: "wf i"
    and nocache: "w_cache w (queryCacheKey i) = None" and found: "lookup (w_store w) i = Some p"
  shows "retrievePolicy S i w = (Ok p, w\<lparr>w_cache := (w_cache w)(queryCacheKey i \<mapsto> p)\<rparr>)"
proof -
  have "on_store (op_Policy (sv_storage S) i) w = (Ok p, w)"
    using get_found [OF inv wf found] use by (simp add: uses_store_def)
  then show ?thesis
    using nocache by (simp add: retrievePolicy_def rc_Get_def rc_Set_def)
qed

lemma retrieve_missing:
  assumes use: "uses_store S get_policy save_policy set_lock"
    and inv: "invar (w_store w)" and wf: "wf i"
    and nocache: "w_cache w (queryCacheKey i) = None" and missing: "lookup (w_store w) i = None"
  shows "\<exists>e. retrievePolicy S i w = (Err e, w) \<and> errors_Is NotFound e"
proof -
  obtain e where e: "get_policy i (w_store w) = (Err e, w_store w)" "errors_Is NotFound e"
    using get_missing [OF inv wf missing] by blast
  then have "on_store (op_Policy (sv_storage S) i) w = (Err e, w)"
    using use by (simp add: uses_store_def)
  then show ?thesis
    using nocache e(2) by (simp add: retrievePolicy_def rc_Get_def)
qed

lemma set_lock_world:
  assumes "invar (w_store w)" "wf i" "lookup (w_store w) i = Some p"
  obtains s' t where "set_lock i b (w_store w) = (Ok (), s')" "invar s'"
    "lookup s' i = Some (p\<lparr>p_Locked := b, p_LastUpdate := t\<rparr>)"
    "\<forall>j. wf j \<longrightarrow> j \<noteq> i \<longrightarrow> lookup s' j = lookup (w_store w) j"
  using set_lock_found [OF assms, of b] by blast

lemma Lock_unlocked:
  assumes use: "uses_store S get_policy save_policy set_lock"
    and inv: "invar (w_store w)" and wf: "wf i"
    and found: "lookup (w_store w) i = Some p" and free: "\<not> p_Locked p"
  shows "\<exists>s' t. svc_Lock S i w = (Ok (), w\<lparr>w_store := s'\<rparr>) \<and> invar s' \<and>
           lookup s' i = Some (p\<lparr>p_Locked := True, p_LastUpdate := t\<rparr>) \<and>
           (\<forall>j. wf j \<longrightarrow> j \<noteq> i \<longrightarrow> lookup s' j = lookup (w_store w) j)"
proof -
  obtain s' t where s': "set_lock i True (w_store w) = (Ok (), s')" "invar s'"
    "lookup s' i = Some (p\<lparr>p_Locked := True, p_LastUpdate := t\<rparr>)"
    "\<forall>j. wf j \<longrightarrow> j \<noteq> i \<longrightarrow> lookup s' j = lookup (w_store w) j"
    using set_lock_world [OF inv wf found] by blast
  have "on_store (op_Policy (sv_storage S) i) w = (Ok p, w)"
    using get_found [OF inv wf found] use by (simp add: uses_store_def)
  moreover have "svc_lock S p w = (Ok (), w\<lparr>w_store := s'\<rparr>)"
    using free s'(1) use lookup_pid [OF inv wf found]
    by (simp add: svc_lock_def uses_store_def on_store_eq)
  ultimately have "svc_Lock S i w = (Ok (), w\<lparr>w_store := s'\<rparr>)"
    by (simp add: svc_Lock_def)
  then show ?thesis using s' by blast
qed

lemma Lock_locked:
  assumes use: "uses_store S get_policy save_policy set_lock"
    and inv: "invar (w_store w)" and wf: "wf i"
    and found: "lookup (w_store w) i = Some p" and locked: "p_Locked p"
  shows "\<exists>e. svc_Lock S i w = (Err e, w) \<and> errors_Is Forbidden e"
proof -
  have "on_store (op_Policy (sv_storage S) i) w = (Ok p, w)"
    using get_found [OF inv wf found] use by (simp add: uses_store_def)
  then show ?thesis using locked by (simp add: svc_Lock_def svc_lock_def)
qed

lemma lock_missing_error:
  assumes use: "uses_store S get_policy save_policy set_lock"
    and inv: "invar (w_store w)" and wf: "wf i" and missing: "lookup (w_store w) i = None"
  shows "\<exists>e. svc_Lock S i w = (Err e, w) \<and> svc_Unlock S i w = (Err e, w) \<and> errors_Is NotFound e"
proof -
  obtain e where e: "get_policy i (w_store w) = (Err e, w_store w)" "errors_Is NotFound e"
    using get_missing [OF inv wf missing] by blast
  then have "on_store (op_Policy (sv_storage S) i) w = (Err e, w)"
    using use by (simp add: uses_store_def)
  then show ?thesis using e(2) by (simp add: svc_Lock_def svc_Unlock_def)
qed

lemma Unlock_locked:
  assumes use: "uses_store S get_policy save_policy set_lock"
    and inv: "invar (w_store w)" and wf: "wf i"
    and found: "lookup (w_store w) i = Some p" and locked: "p_Locked p"
  shows "\<exists>s' t. svc_Unlock S i w = (Ok (), w\<lparr>w_store := s'\<rparr>) \<and> invar s' \<and>
           lookup s' i = Some (p\<lparr>p_Locked := False, p_LastUpdate := t\<rparr>) \<and>
           (\<forall>j. wf j \<longrightarrow> j \<noteq> i \<longrightarrow> lookup s' j = lookup (w_store w) j)"
proof -
  obtain s' t where s': "set_lock i False (w_store w) = (Ok (), s')" "invar s'"
    "lookup s' i = Some (p\<lparr>p_Locked := False, p_LastUpdate := t\<rparr>)"
    "\<forall>j. wf j \<longrightarrow> j \<noteq> i \<longrightarrow> lookup s' j = lookup (w_store w) j"
    using set_lock_world [OF inv wf found] by blast
  have "on_store (op_Policy (sv_storage S) i) w = (Ok p, w)"
    using get_found [OF inv wf found] use by (simp add: uses_store_def)
  moreover have "on_store (op_SetPolicyLock (sv_storage S) i False) w = (Ok (), w\<lparr>w_store := s'\<rparr>)"
    using s'(1) use by (simp add: uses_store_def on_store_eq)
  ultimately have "svc_Unlock S i w = (Ok (), w\<lparr>w_store := s'\<rparr>)"
    using locked by (simp add: svc_Unlock_def)
  then show ?thesis using s' by blast
qed

lemma Unlock_unlocked:
  assumes use: "uses_store S get_policy save_policy set_lock"
    and inv: "invar (w_store w)" and wf: "wf i"
    and found: "lookup (w_store w) i = Some p" and free: "\<not> p_Locked p"
  shows "\<exists>e. svc_Unlock S i w = (Err e, w) \<and> errors_Is Forbidden e"
proof -
  have "on_store (op_Policy (sv_storage S) i) w = (Ok p, w)"
    using get_found [OF inv wf found] use by (simp add: uses_store_def)
  then show ?thesis using free by (simp add: svc_Unlock_def)
qed

text \<open>
  Lock, then evaluate with a cache that does not hold the policy: forbidden, and neither the engine
  nor the cache service is called.
\<close>

lemma Lock_then_Evaluate:
  assumes use: "uses_store S get_policy save_policy set_lock"
    and inv: "invar (w_store w)" and wf: "wf (er_id req)"
    and found: "lookup (w_store w) (er_id req) = Some p"
    and ok: "svc_Lock S (er_id req) w = (Ok (), w1)"
    and nocache: "w_cache w2 (queryCacheKey (er_id req)) = None" and same: "w_store w2 = w_store w1"
  shows "\<exists>e w3. svc_Evaluate E S req ctx w2 = (Err e, w3) \<and> errors_Is Forbidden e \<and>
           w_store w3 = w_store w1 \<and> w_http w3 = w_http w2"
proof -
  have free: "\<not> p_Locked p"
    using Lock_locked [OF use inv wf found] ok by auto
  obtain s' t where s': "w1 = w\<lparr>w_store := s'\<rparr>" "invar s'"
    "lookup s' (er_id req) = Some (p\<lparr>p_Locked := True, p_LastUpdate := t\<rparr>)"
    using Lock_unlocked [OF use inv wf found free] ok by auto
  let ?q = "p\<lparr>p_Locked := True, p_LastUpdate := t\<rparr>"
  have "retrievePolicy S (er_id req) w2
      = (Ok ?q, w2\<lparr>w_cache := (w_cache w2)(queryCacheKey (er_id req) \<mapsto> ?q)\<rparr>)"
    using retrieve_fresh [OF use _ wf nocache] s' same by simp
  from Evaluate_locked [OF this, of E ctx] obtain e where
    "svc_Evaluate E S req ctx w2 = (Err e, w2\<lparr>w_cache := (w_cache w2)(queryCacheKey (er_id req) \<mapsto> ?q)\<rparr>)"
    "errors_Is Forbidden e" by auto
  then show ?thesis using same by simp
qed

text \<open>Locking and unlocking again changes nothing but the time stamp.\<close>

lemma Lock_Unlock:
  assumes use: "uses_store S get_policy save_policy set_lock"
    and inv: "invar (w_store w)" and wf: "wf i"
    and found: "lookup (w_store w) i = Some p" and free: "\<not> p_Locked p"
  shows "\<exists>w1 w2 t. svc_Lock S i w = (Ok (), w1) \<and> svc_Unlock S i w1 = (Ok (), w2) \<and>
           lookup (w_store w2) i = Some (p\<lparr>p_LastUpdate := t\<rparr>) \<and>
           (\<forall>j. wf j \<longrightarrow> j \<noteq> i \<longrightarrow> lookup (w_store w2) j = lookup (w_store w) j)"
proof -
  obtain s1 t where s1: "svc_Lock S i w = (Ok (), w\<lparr>w_store := s1\<rparr>)" "invar s1"
    "lookup s1 i = Some (p\<lparr>p_Locked := True, p_LastUpdate := t\<rparr>)"
    "\<forall>j. wf j \<longrightarrow> j \<noteq> i \<longrightarrow> lookup s1 j = lookup (w_store w) j"
    using Lock_unlocked [OF use inv wf found free] by blast
  let ?w1 = "w\<lparr>w_store := s1\<rparr>" and ?q = "p\<lparr>p_Locked := True, p_LastUpdate := t\<rparr>"
  obtain s2 t2 where s2: "svc_Unlock S i ?w1 = (Ok (), ?w1\<lparr>w_store := s2\<rparr>)"
    "lookup s2 i = Some (?q\<lparr>p_Locked := False, p_LastUpdate := t2\<rparr>)"
    "\<forall>j. wf j \<longrightarrow> j \<noteq> i \<longrightarrow> lookup s2 j = lookup s1 j"
    using Unlock_locked [OF use, of ?w1 i ?q] s1 wf by auto
  have "?q\<lparr>p_Locked := False, p_LastUpdate := t2\<rparr> = p\<lparr>p_LastUpdate := t2\<rparr>"
    using free by (cases p) simp
  then show ?thesis using s1(1,4) s2 by (intro exI [of _ ?w1] exI [of _ "?w1\<lparr>w_store := s2\<rparr>"]) auto
qed

text \<open>A failed validation locks the policy when the service is configured so.\<close>

lemma lock_after_failure_locks:
  assumes use: "uses_store S get_policy save_policy set_lock"
    and inv: "invar (w_store w)" and wf: "wf i" and pid: "pid_of pol = i" and free: "\<not> p_Locked pol"
    and found: "lookup (w_store w) i = Some p" and conf: "sv_validationLock S"
  shows "\<exists>s' q. lock_after_failure S pol w = (Ok (), w\<lparr>w_store := s'\<rparr>) \<and> invar s' \<and>
           lookup s' i = Some q \<and> p_Locked q"
proof -
  obtain s' t where s': "set_lock i True (w_store w) = (Ok (), s')" "invar s'"
    "lookup s' i = Some (p\<lparr>p_Locked := True, p_LastUpdate := t\<rparr>)"
    using set_lock_world [OF inv wf found] by blast
  have "svc_lock S pol w = (Ok (), w\<lparr>w_store := s'\<rparr>)"
    using free s'(1) use pid by (simp add: svc_lock_def uses_store_def on_store_eq)
  then show ?thesis
    using conf s'(2,3)
    by (intro exI [of _ s'] exI [of _ "p\<lparr>p_Locked := True, p_LastUpdate := t\<rparr>"])
      (simp add: lock_after_failure_def)
qed

end

section \<open>Validation\<close>

lemma Validate_OkD:
  assumes "svc_Validate E S req ctx w = (Ok r, w')"
  shows "\<exists>p w1 validator. retrievePolicy S (er_id req) w = (Ok p, w1) \<and> p_OutputSchema p \<noteq> [] \<and>
    svc_Evaluate E S req ctx w1 = (Ok r, w') \<and> schema E (p_OutputSchema p) = Ok validator \<and>
    validator (res_Result r) = None"
  using assms
  by (auto simp: svc_Validate_def split: if_splits option.splits dest!: sbind_OkD swrap_OkD)

lemma Validate_fails:
  assumes "retrievePolicy S (er_id req) w = (Ok p, w1)" and "p_OutputSchema p \<noteq> []"
    and "svc_Evaluate E S req ctx w1 = (Ok r, w2)" and "schema E (p_OutputSchema p) = Ok validator"
    and "validator (res_Result r) = Some e" and "lock_after_failure S p w2 = (Ok (), w3)"
  shows "svc_Validate E S req ctx w = (Err (validation_failed e), w3)"
  using assms by (simp add: svc_Validate_def)

section \<open>Import\<close>

text \<open>Everything a successful import went through: a valid signature, then one save.\<close>

lemma ImportBundle_OkD:
  assumes "svc_ImportBundle L S payload w = (Ok r, w')"
  shows "\<exists>archive bf sf mf rest v kvs url key keys h pol s.
    payload = Ok archive \<and> zipRead L archive = Ok [bf, sf] \<and>
    zf_Name bf = BundleFilename \<and> zf_Name sf = BundleSignatureFilename \<and>
    zipRead L (zf_Content bf) = Ok (mf # rest) \<and> zf_Name mf = ''metadata.json'' \<and>
    unmarshal (lib_codec L) (zf_Content mf) = Ok v \<and> struct_entries v = Ok kvs \<and>
    str_field (lib_codec L) ''publicKeyURL'' kvs [] = Ok url \<and>
    fetchKeys L url (w_http w) = (Ok (key # keys), h) \<and>
    signature_valid L (sha256 L (zf_Content bf)) (zf_Content sf) key \<and>
    policyFromBundle L (zf_Content bf) = Ok pol \<and>
    op_SavePolicy (sv_storage S) pol (w_store w) = (Ok (), s) \<and>
    w' = w\<lparr>w_http := h, w_store := s\<rparr> \<and> im_id r = pid_of pol \<and> im_locked r = p_Locked pol"
proof -
  obtain archive fs where
    unzip: "payload = Ok archive" "zipRead L archive = Ok fs" "length fs = 2"
    and rest: "sbind (swrap (\<lambda>e. errors_New [AKind Forbidden, AStr ''failed to verify bundle'', AErr e])
          (on_http (verifyBundle L fs))) (\<lambda>_.
        sbind (sret (owrap (wrap_msg ''cannot make policy from bundle'')
          (policyFromBundle L (zf_Content (hd fs))))) (\<lambda>pol.
        sbind (swrap (wrap_msg ''error saving imported policy bundle'')
          (on_store (op_SavePolicy (sv_storage S) pol))) (\<lambda>_.
        sret (Ok \<lparr>im_id = pid_of pol, im_locked = p_Locked pol, im_lastUpdate = p_LastUpdate pol\<rparr>)))) w
      = (Ok r, w')"
    using assms by (auto simp: svc_ImportBundle_def split: if_splits dest!: sbind_OkD)
  obtain h pol s where
    save: "verifyBundle L fs (w_http w) = (Ok (), h)" "policyFromBundle L (zf_Content (hd fs)) = Ok pol"
      "op_SavePolicy (sv_storage S) pol (w_store w) = (Ok (), s)"
      "w' = w\<lparr>w_http := h, w_store := s\<rparr>" "im_id r = pid_of pol" "im_locked r = p_Locked pol"
    using rest by (auto dest!: sbind_OkD swrap_OkD on_httpD on_storeD)
  obtain bf sf rest mf inner m key keys where
    v: "fs = bf # sf # rest" "zf_Name bf = BundleFilename" "zf_Name sf = BundleSignatureFilename"
      "zipRead L (zf_Content bf) = Ok (mf # inner)" "zf_Name mf = ''metadata.json''"
      "decode_metadata (lib_codec L) (zf_Content mf) = Ok m"
      "fetchKeys L (md_PublicKeyURL m) (w_http w) = (Ok (key # keys), h)"
      "signature_valid L (sha256 L (zf_Content bf)) (zf_Content sf) key"
    using verifyBundle_OkD [OF save(1)] by blast
  have fs: "fs = [bf, sf]" using unzip(3) v(1) by simp
  have "zipRead L archive = Ok [bf, sf]" "policyFromBundle L (zf_Content bf) = Ok pol"
    using unzip(2) save(2) by (simp_all add: fs)
  then show ?thesis
    using unzip(1) v(2-5,7,8) decode_metadata_url [OF v(6)] save(3-6) by blast
qed

text \<open>
  An import whose archive cannot be opened, has the wrong number of files, is not validly signed or does
  not hold a policy changes neither the storage nor the policy cache.
\<close>

lemma ImportBundle_rejected:
  assumes "svc_ImportBundle L S payload w = (Err e, w')"
    and saves: "\<forall>p s. fst (op_SavePolicy (sv_storage S) p s) = Ok ()"
  shows "w_store w' = w_store w \<and> w_cache w' = w_cache w"
proof -
  have "r = Ok ()" if "op_SavePolicy (sv_storage S) p s = (r, t)" for p s r t
    using saves that by (metis fst_conv)
  then show ?thesis
    using assms(1)
    by (auto simp: svc_ImportBundle_def sbind_def swrap_def on_http_def on_store_def sret_def
        split: outcome.splits if_splits prod.splits) fastforce+
qed

lemma ImportBundle_exported:
  assumes pk: "packable L host p stamp meta archive"
    and payload: "zipRead L outer = Ok (signed_files archive sig)"
    and keys: "fetchKeys L (policyPublicKeyURL host p) (w_http w) = (Ok (key # keys), h)"
    and valid: "signature_valid L (sha256 L archive) sig key"
    and save: "op_SavePolicy (sv_storage S) (bundle_image p) (w_store w) = (Ok (), s)"
  shows "svc_ImportBundle L S (Ok outer) w =
    (Ok \<lparr>im_id = pid_of p, im_locked = p_Locked p, im_lastUpdate = p_LastUpdate p\<rparr>,
     w\<lparr>w_http := h, w_store := s\<rparr>)"
proof -
  have v: "on_http (verifyBundle L (signed_files archive sig)) w = (Ok (), w\<lparr>w_http := h\<rparr>)"
    using verifyBundle_accepts [OF pk keys valid] by (simp add: on_http_eq signed_files_def)
  have len: "length (signed_files archive sig) = 2"
    and hdrs: "zf_Content (hd (signed_files archive sig)) = archive"
    by (simp_all add: signed_files_def)
  have im: "pid_of (bundle_image p) = pid_of p" "p_Locked (bundle_image p) = p_Locked p"
    "p_LastUpdate (bundle_image p) = p_LastUpdate p"
    by (simp_all add: bundle_image_def pid_of_def zero_policy_def)
  have sv: "on_store (op_SavePolicy (sv_storage S) (bundle_image p)) (w\<lparr>w_http := h\<rparr>)
      = (Ok (), w\<lparr>w_http := h, w_store := s\<rparr>)"
    using save by (simp add: on_store_eq)
  show ?thesis
    by (simp add: svc_ImportBundle_def payload len v hdrs policyFromBundle_image [OF pk] sv im)
qed

end
