(* ===== verification/Coherence.thy ===== *)
theory Coherence
  imports Service_Laws
begin

text \<open>
  How the policy cache of the service and the in-memory storage stay in step.  A write to the storage
  leaves a change notification to be sent; the listener goroutine
  (\<^verbatim>\<open>ListenPolicyDataChanges\<close>, started by \<^verbatim>\<open>cmd/policy/main.go\<close>) receives it and calls the
  subscribers, the first of which purges the cache.  The steps of the goroutines interleave: a retrieval
  can be overtaken between reading the storage and filling the cache, and a notification can be dropped.
\<close>

section \<open>Unambiguous identifiers\<close>

text \<open>
  The storage joins the parts of an identifier by dots, the cache by commas.  The service can tell
  identifiers apart whose first three parts contain neither.
\<close>

definition comma_free :: "polid \<Rightarrow> bool" where
  "comma_free i \<longleftrightarrow>
     (case i of (repo, grp, name, version) \<Rightarrow>
        CHR '','' \<notin> set repo \<and> CHR '','' \<notin> set grp \<and> CHR '','' \<notin> set name)"

definition plain_id :: "polid \<Rightarrow> bool" where
  "plain_id i \<longleftrightarrow> dot_free i \<and> comma_free i"

lemma queryCacheKey_inj [key_simps]:
  "comma_free i \<Longrightarrow> comma_free j \<Longrightarrow> queryCacheKey i = queryCacheKey j \<longleftrightarrow> i = j"
  by (cases i; cases j) (auto simp: queryCacheKey_def comma_free_def key_simps)

section \<open>The state machine\<close>

text \<open>\<open>sy_purging\<close>: the listener has received a change and not yet called the cache.\<close>

record sys =
  sy_world :: "mem world"
  sy_purging :: bool

definition sys_init :: "(string \<rightharpoonup> policy) \<Rightarrow> hist \<Rightarrow> sys" where
  "sys_init p0 h =
     \<lparr>sy_world = \<lparr>w_store = mem_New p0, w_cache = rc_New, w_http = h\<rparr>, sy_purging = False\<rparr>"

definition receive_change :: "policy list \<Rightarrow> policy list \<Rightarrow> sys \<Rightarrow> sys" where
  "receive_change pre post y =
     y\<lparr>sy_world := (sy_world y)\<lparr>w_store := (w_store (sy_world y))\<lparr>changes := pre @ post\<rparr>\<rparr>,
       sy_purging := True\<rparr>"

text \<open>The listener passes repository, name, version and group; the cache ignores them.\<close>

definition purge_cache :: "policy \<Rightarrow> sys \<Rightarrow> sys" where
  "purge_cache p y =
     y\<lparr>sy_world := (sy_world y)\<lparr>w_cache := snd (mem_notify [rc_PolicyDataChange] p (w_cache (sy_world y)))\<rparr>,
       sy_purging := False\<rparr>"

text \<open>
  \<^verbatim>\<open>retrievePolicy\<close> reads the storage and fills the cache in two steps; the listener can run between them.
\<close>

definition retrieve_load :: "'st service \<Rightarrow> polid \<Rightarrow> 'st world \<Rightarrow> policy outcome \<times> 'st world" where
  "retrieve_load S i =
     swrap (\<lambda>e. if errors_Is NotFound e then e else wrap_msg ''error getting policy from storage'' e)
       (on_store (op_Policy (sv_storage S) i))"

definition retrieve_fill :: "polid \<Rightarrow> policy \<Rightarrow> 'st world \<Rightarrow> 'st world" where
  "retrieve_fill i p w = w\<lparr>w_cache := rc_Set (queryCacheKey i) p (w_cache w)\<rparr>"

lemma retrievePolicy_split:
  "rc_Get (queryCacheKey i) (w_cache w) = None \<Longrightarrow>
   retrievePolicy S i w = sbind (retrieve_load S i) (\<lambda>p w. (Ok p, retrieve_fill i p w)) w"
  by (simp add: retrievePolicy_def retrieve_load_def retrieve_fill_def)

text \<open>
  The goroutine that sends a change gives up when the request's context is done, which it is as soon as
  the handler has returned, or after ten seconds.  The cache is then never told.
\<close>

definition lose_change :: "policy list \<Rightarrow> policy list \<Rightarrow> sys \<Rightarrow> sys" where
  "lose_change pre post y =
     y\<lparr>sy_world := (sy_world y)\<lparr>w_store := (w_store (sy_world y))\<lparr>changes := pre @ post\<rparr>\<rparr>\<rparr>"

text \<open>
  The steps.  \<open>S\<close> is the service, over the in-memory storage.  First the calls that work on the storage
  under its mutex.  \<open>elsewhere\<close> is any call that touches neither the policies nor the cache nor the
  pending changes (subscribers, key-value data, import configurations, requests to other services).
\<close>

inductive store_step :: "mem service \<Rightarrow> mem world \<Rightarrow> mem world \<Rightarrow> bool" for S where
  st_save: "dot_free (pid_of p) \<Longrightarrow> on_store (op_SavePolicy (sv_storage S) p) w = (r, w') \<Longrightarrow>
    store_step S w w'"
| st_lock: "dot_free i \<Longrightarrow> on_store (op_SetPolicyLock (sv_storage S) i b) w = (r, w') \<Longrightarrow>
    store_step S w w'"
| st_refresh: "is_order (order (policies (w_store w))) (policies (w_store w)) \<Longrightarrow>
    on_store (mem_GetRefreshPolicies now order) w = (r, w') \<Longrightarrow> store_step S w w'"
| st_update: "dot_free (pid_of p) \<Longrightarrow>
    on_store (mem_UpdateNextRefreshTime ConstructKey p t) w = (r, w') \<Longrightarrow> store_step S w w'"
| st_elsewhere: "policies (w_store w') = policies (w_store w) \<Longrightarrow>
    changes (w_store w') = changes (w_store w) \<Longrightarrow> w_cache w' = w_cache w \<Longrightarrow> store_step S w w'"

text \<open>
  A retrieval that has missed the cache reads the storage and later fills the cache.  Between the two
  \<open>rt_policy\<close> is the policy it has read.  A run carries, beside the system, these retrievals and what an
  observer notes down: whether the cache was purged after the read (\<open>rt_overtaken\<close>), whether a change
  was dropped since the last purge (\<open>ru_lost\<close>), and the keys of the cache that were last filled by an
  overtaken retrieval (\<open>ru_late\<close>).  No step depends on the notes.
\<close>

record retrieval =
  rt_id :: polid
  rt_policy :: policy
  rt_overtaken :: bool

record run =
  ru_sys :: sys
  ru_retrievals :: "retrieval list"
  ru_lost :: bool
  ru_late :: "string set"

abbreviation ru_world :: "run \<Rightarrow> mem world" where
  "ru_world u \<equiv> sy_world (ru_sys u)"

definition run_init :: "(string \<rightharpoonup> policy) \<Rightarrow> hist \<Rightarrow> run" where
  "run_init p0 h = \<lparr>ru_sys = sys_init p0 h, ru_retrievals = [], ru_lost = False, ru_late = {}\<rparr>"

definition run_store :: "mem world \<Rightarrow> run \<Rightarrow> run" where
  "run_store w u = u\<lparr>ru_sys := (ru_sys u)\<lparr>sy_world := w\<rparr>\<rparr>"

definition run_read :: "polid \<Rightarrow> policy \<Rightarrow> run \<Rightarrow> run" where
  "run_read i p u =
     u\<lparr>ru_retrievals := \<lparr>rt_id = i, rt_policy = p, rt_overtaken = False\<rparr> # ru_retrievals u\<rparr>"

definition run_fill :: "retrieval \<Rightarrow> run \<Rightarrow> run" where
  "run_fill e u =
     (run_store (retrieve_fill (rt_id e) (rt_policy e) (ru_world u)) u)
       \<lparr>ru_retrievals := remove1 e (ru_retrievals u),
        ru_late := (if rt_overtaken e then insert (queryCacheKey (rt_id e)) (ru_late u)
                    else ru_late u - {queryCacheKey (rt_id e)})\<rparr>"

definition run_receive :: "policy list \<Rightarrow> policy list \<Rightarrow> run \<Rightarrow> run" where
  "run_receive pre post u = u\<lparr>ru_sys := receive_change pre post (ru_sys u)\<rparr>"

definition run_lose :: "policy list \<Rightarrow> policy list \<Rightarrow> run \<Rightarrow> run" where
  "run_lose pre post u = u\<lparr>ru_sys := lose_change pre post (ru_sys u), ru_lost := True\<rparr>"

definition run_purge :: "policy \<Rightarrow> run \<Rightarrow> run" where
  "run_purge p u =
     u\<lparr>ru_sys := purge_cache p (ru_sys u),
       ru_retrievals := map (\<lambda>e. e\<lparr>rt_overtaken := True\<rparr>) (ru_retrievals u), ru_lost := False, ru_late := {}\<rparr>"

text \<open>The goroutines that send the changes wait side by side, so any waiting change can be the next to
  go, to the listener or nowhere.\<close>

inductive run_step :: "mem service \<Rightarrow> run \<Rightarrow> run \<Rightarrow> bool" for S where
  ru_store: "store_step S (ru_world u) w \<Longrightarrow> run_step S u (run_store w u)"
| ru_read: "plain_id i \<Longrightarrow> retrieve_load S i (ru_world u) = (Ok p, ru_world u) \<Longrightarrow>
    run_step S u (run_read i p u)"
| ru_fill: "e \<in> set (ru_retrievals u) \<Longrightarrow> run_step S u (run_fill e u)"
| ru_receive: "\<not> sy_purging (ru_sys u) \<Longrightarrow> changes (w_store (ru_world u)) = pre @ p # post \<Longrightarrow>
    run_step S u (run_receive pre post u)"
| ru_lose: "changes (w_store (ru_world u)) = pre @ p # post \<Longrightarrow> run_step S u (run_lose pre post u)"
| ru_purge: "sy_purging (ru_sys u) \<Longrightarrow> run_step S u (run_purge p u)"

inductive run_reachable :: "mem service \<Rightarrow> (string \<rightharpoonup> policy) \<Rightarrow> run \<Rightarrow> bool" for S p0 where
  ru_start: "run_reachable S p0 (run_init p0 h)"
| ru_next: "run_reachable S p0 u \<Longrightarrow> run_step S u v \<Longrightarrow> run_reachable S p0 v"

section \<open>The invariant\<close>

text \<open>No change is waiting and the listener is idle.\<close>

definition quiet :: "sys \<Rightarrow> bool" where
  "quiet y \<longleftrightarrow> changes (w_store (sy_world y)) = [] \<and> \<not> sy_purging y"

text \<open>
  A cached policy is the stored one, up to the time of the next data refresh, which the storage
  updates without telling anybody.
\<close>

definition same_content :: "policy \<Rightarrow> policy \<Rightarrow> bool" where
  "same_content p q \<longleftrightarrow> p\<lparr>p_NextDataRefreshTime := zero_time\<rparr> = q\<lparr>p_NextDataRefreshTime := zero_time\<rparr>"

definition stored :: "mem world \<Rightarrow> policy \<Rightarrow> bool" where
  "stored w p \<longleftrightarrow> (\<exists>q. mem_lookup (w_store w) (pid_of p) = Some q \<and> same_content p q)"

text \<open>Nothing is on its way to the cache, and nothing got lost.\<close>

definition settled :: "run \<Rightarrow> bool" where
  "settled u \<longleftrightarrow> quiet (ru_sys u) \<and> \<not> ru_lost u"

text \<open>
  Whatever happens, the cache and the retrievals under way hold policies under their own identifiers.
  When the run is settled these are the stored policies, except where a retrieval was overtaken.
\<close>

definition run_inv :: "run \<Rightarrow> bool" where
  "run_inv u \<longleftrightarrow>
     mem_inv (w_store (ru_world u)) \<and>
     (\<forall>k p. rc_Get k (w_cache (ru_world u)) = Some p \<longrightarrow>
        k = queryCacheKey (pid_of p) \<and> plain_id (pid_of p) \<and>
        (settled u \<longrightarrow> k \<notin> ru_late u \<longrightarrow> stored (ru_world u) p)) \<and>
     (\<forall>e \<in> set (ru_retrievals u).
        pid_of (rt_policy e) = rt_id e \<and> plain_id (rt_id e) \<and>
        (settled u \<longrightarrow> \<not> rt_overtaken e \<longrightarrow> stored (ru_world u) (rt_policy e)))"

lemmas run_defs = run_store_def run_read_def run_fill_def run_receive_def run_lose_def run_purge_def
  retrieve_fill_def receive_change_def lose_change_def purge_cache_def

lemma same_content_refl [simp]: "same_content p p"
  by (simp add: same_content_def)

lemma same_content_trans: "same_content p q \<Longrightarrow> same_content q r \<Longrightarrow> same_content p r"
  by (simp add: same_content_def)

lemma same_content_refresh [simp]: "same_content p (p\<lparr>p_NextDataRefreshTime := t\<rparr>)"
  by (simp add: same_content_def)

lemma same_content_postponed [simp]: "same_content p (postponed now p)"
  by (simp add: postponed_def)

lemma same_contentD:
  assumes "same_content p q"
  shows "p_Locked p = p_Locked q" and "pid_of p = pid_of q" and "p_Rego p = p_Rego q"
    and "p_Data p = p_Data q"
  using assms by (cases p; cases q; simp add: same_content_def pid_of_def)+

lemma mem_refresh_content:
  assumes "is_order (order (policies s)) (policies s)"
    and "mem_GetRefreshPolicies now order s = (r, s')" and "mem_lookup s i = Some p"
  shows "\<exists>q. mem_lookup s' i = Some q \<and> same_content p q"
  using assms by (auto simp: mem_GetRefreshPolicies_eq mem_lookup_def)

lemma mem_update_content:
  assumes "mem_UpdateNextRefreshTime kc pol t s = (r, s')" and "mem_lookup s i = Some p"
  shows "\<exists>q. mem_lookup s' i = Some q \<and> same_content p q"
  using assms
  by (auto simp: mem_UpdateNextRefreshTime_def mem_lookup_def Let_def split: option.splits)

lemma mem_inv_refresh:
  assumes "mem_inv s" "is_order (order (policies s)) (policies s)"
    "mem_GetRefreshPolicies now order s = (r, s')"
  shows "mem_inv s'"
  using assms by (auto simp: mem_GetRefreshPolicies_eq mem_inv_def keyed_def)

lemma mem_inv_update:
  assumes "mem_inv s" "mem_UpdateNextRefreshTime ConstructKey p t s = (r, s')"
  shows "mem_inv s'"
  using assms
  by (auto simp: mem_UpdateNextRefreshTime_def Let_def mem_inv_def keyed_def
      split: option.splits if_splits)

lemma mem_inv_lock:
  assumes "mem_inv s" "mem_SetPolicyLock ConstructKey i b s = (r, s')"
  shows "mem_inv s'"
  using assms
  by (auto simp: mem_SetPolicyLock_def Let_def mem_inv_def keyed_def split: option.splits if_splits)

lemma mem_inv_cong: "policies s' = policies s \<Longrightarrow> mem_inv s \<Longrightarrow> mem_inv s'"
  by (simp add: mem_inv_def)

section \<open>Every step keeps the invariant\<close>

lemma mem_inv_save:
  assumes "mem_inv s" "dot_free (pid_of p)" "mem_SavePolicy ConstructKey p s = (r, s')"
  shows "mem_inv s'"
  using mem_inv_upd [OF assms(1), of p s'] assms(2,3) by (auto simp: mem_SavePolicy_def)

text \<open>
  A call on the storage leaves the cache alone.  Either it leaves a change to be sent, or every policy
  keeps its content.
\<close>

lemma store_step_effect:
  assumes S: "sv_storage S = mem_ops ConstructKey lower order0 aorder now0"
    and step: "store_step S w w'" and inv: "mem_inv (w_store w)"
  shows "mem_inv (w_store w') \<and> w_cache w' = w_cache w \<and>
    (changes (w_store w') \<noteq> [] \<or>
     changes (w_store w) = [] \<and> (\<forall>p. dot_free (pid_of p) \<longrightarrow> stored w p \<longrightarrow> stored w' p))"
  using step
proof cases
  case (st_save p r)
  obtain s' where s': "mem_SavePolicy ConstructKey p (w_store w) = (r, s')" "w' = w\<lparr>w_store := s'\<rparr>"
    using st_save(2) S by (auto simp: on_store_def mem_ops_def split: prod.splits)
  have "changes s' \<noteq> []" using s'(1) by (auto simp: mem_SavePolicy_def)
  then show ?thesis using mem_inv_save [OF inv st_save(1) s'(1)] s'(2) by simp
next
  case (st_lock i b r)
  obtain s' where s': "mem_SetPolicyLock ConstructKey i b (w_store w) = (r, s')" "w' = w\<lparr>w_store := s'\<rparr>"
    using st_lock(2) S by (auto simp: on_store_def mem_ops_def split: prod.splits)
  have "s' = w_store w \<or> changes s' \<noteq> []"
    using s'(1) by (auto simp: mem_SetPolicyLock_def Let_def split: option.splits)
  then show ?thesis using mem_inv_lock [OF inv s'(1)] s'(2) by (auto simp: stored_def)
next
  case (st_refresh order now r)
  obtain s' where s': "mem_GetRefreshPolicies now order (w_store w) = (r, s')" "w' = w\<lparr>w_store := s'\<rparr>"
    using st_refresh(2) by (auto simp: on_store_def split: prod.splits)
  have ch: "changes s' = changes (w_store w)" using s'(1) st_refresh(1) by (auto simp: mem_GetRefreshPolicies_eq)
  have "stored w p \<Longrightarrow> stored w' p" for p
    using mem_refresh_content [OF st_refresh(1) s'(1)] s'(2) same_content_trans
    unfolding stored_def by fastforce
  then show ?thesis using mem_inv_refresh [OF inv st_refresh(1) s'(1)] s'(2) ch by auto
next
  case (st_update p t r)
  obtain s' where s': "mem_UpdateNextRefreshTime ConstructKey p t (w_store w) = (r, s')" "w' = w\<lparr>w_store := s'\<rparr>"
    using st_update(2) by (auto simp: on_store_def split: prod.splits)
  have ch: "changes s' = changes (w_store w)"
    using s'(1) by (auto simp: mem_UpdateNextRefreshTime_def Let_def split: option.splits)
  have "stored w q \<Longrightarrow> stored w' q" for q
    using mem_update_content [OF s'(1)] s'(2) same_content_trans unfolding stored_def by fastforce
  then show ?thesis using mem_inv_update [OF inv s'(1)] s'(2) ch by auto
next
  case st_elsewhere
  then have "mem_inv (w_store w')" using mem_inv_cong inv by blast
  then show ?thesis using st_elsewhere by (simp add: stored_def mem_lookup_def)
qed

lemma run_inv_store:
  assumes S: "sv_storage S = mem_ops ConstructKey lower order0 aorder now0"
    and inv: "run_inv u" and step: "store_step S (ru_world u) w"
  shows "run_inv (run_store w u)"
proof -
  have e: "mem_inv (w_store w)" "w_cache w = w_cache (ru_world u)"
    "changes (w_store w) \<noteq> [] \<or> changes (w_store (ru_world u)) = [] \<and>
       (\<forall>p. dot_free (pid_of p) \<longrightarrow> stored (ru_world u) p \<longrightarrow> stored w p)"
    using store_step_effect [OF S step] inv by (auto simp: run_inv_def)
  have "settled u \<and> (\<forall>p. plain_id (pid_of p) \<longrightarrow> stored (ru_world u) p \<longrightarrow> stored w p)"
    if "settled (run_store w u)"
    using that e(3) by (auto simp: settled_def quiet_def run_store_def plain_id_def)
  then show ?thesis
    using inv e(1,2) unfolding run_inv_def by (simp add: run_store_def)
qed

lemma run_inv_read:
  assumes S: "sv_storage S = mem_ops ConstructKey lower order0 aorder now0"
    and inv: "run_inv u" and i: "plain_id i" and load: "retrieve_load S i (ru_world u) = (Ok p, ru_world u)"
  shows "run_inv (run_read i p u)"
proof -
  have found: "mem_lookup (w_store (ru_world u)) i = Some p"
    using load S
    by (auto simp: retrieve_load_def swrap_def on_store_def mem_ops_def mem_Policy_def mem_lookup_def
        split: option.splits)
  then have "pid_of p = i" using mem_inv_pid inv i unfolding run_inv_def plain_id_def by blast
  then show ?thesis using inv found i
    by (auto simp: run_inv_def run_read_def settled_def stored_def)
qed

lemma run_inv_fill:
  assumes inv: "run_inv u" and e: "e \<in> set (ru_retrievals u)"
  shows "run_inv (run_fill e u)"
proof -
  have p: "pid_of (rt_policy e) = rt_id e" "plain_id (rt_id e)"
    "settled u \<Longrightarrow> \<not> rt_overtaken e \<Longrightarrow> stored (ru_world u) (rt_policy e)"
    using inv e by (auto simp: run_inv_def)
  have same: "settled (run_fill e u) = settled u" "stored (ru_world (run_fill e u)) = stored (ru_world u)"
    by (auto simp: run_fill_def run_store_def retrieve_fill_def settled_def quiet_def stored_def fun_eq_iff)
  have rest: "d \<in> set (ru_retrievals u)" if "d \<in> set (ru_retrievals (run_fill e u))" for d
    using that notin_set_remove1 by (fastforce simp: run_fill_def)
  have cache: "rc_Get k (w_cache (ru_world (run_fill e u))) = Some q \<longleftrightarrow>
      (if k = queryCacheKey (rt_id e) then q = rt_policy e else rc_Get k (w_cache (ru_world u)) = Some q)" for k q
    by (auto simp: run_fill_def run_store_def retrieve_fill_def rc.get_set_iff)
  have late: "k \<in> ru_late (run_fill e u) \<longleftrightarrow>
      (if k = queryCacheKey (rt_id e) then rt_overtaken e else k \<in> ru_late u)" for k
    by (simp add: run_fill_def)
  have store: "w_store (ru_world (run_fill e u)) = w_store (ru_world u)"
    by (simp add: run_fill_def run_store_def retrieve_fill_def)
  show ?thesis
    unfolding run_inv_def same cache late store
    using inv p rest unfolding run_inv_def by auto
qed

lemma run_inv_step:
  assumes S: "sv_storage S = mem_ops ConstructKey lower order0 aorder now0"
    and step: "run_step S u v" and inv: "run_inv u"
  shows "run_inv v"
  using step
proof cases
  case (ru_store w)
  then show ?thesis using run_inv_store [OF S inv] by simp
next
  case (ru_read i p)
  then show ?thesis using run_inv_read [OF S inv] by simp
next
  case (ru_fill e)
  then show ?thesis using run_inv_fill [OF inv] by simp
next
  case (ru_receive pre p post)
  then show ?thesis
    using inv by (simp add: run_inv_def run_receive_def receive_change_def settled_def quiet_def mem_inv_def)
next
  case (ru_lose pre p post)
  then show ?thesis
    using inv by (simp add: run_inv_def run_lose_def lose_change_def settled_def mem_inv_def)
next
  case (ru_purge p)
  then show ?thesis
    using inv by (simp add: run_inv_def run_purge_def purge_cache_def rc_PolicyDataChange_def rc.get_purge)
qed

lemma run_reachable_inv:
  assumes S: "sv_storage S = mem_ops ConstructKey lower order0 aorder now0"
    and "run_reachable S p0 u" and "mem_inv (mem_New p0)"
  shows "run_inv u"
  using assms(2)
proof induction
  case (ru_start h)
  then show ?case
    using assms(3) by (simp add: run_inv_def run_init_def sys_init_def rc_New_def rc_Get_def)
next
  case (ru_next u v)
  then show ?case using run_inv_step [OF S] by blast
qed

section \<open>What the cache gives in a settled state\<close>

lemma retrieve_missed:
  assumes S: "sv_storage S = mem_ops ConstructKey lower order0 aorder now0"
    and "rc_Get (queryCacheKey i) (w_cache w) = None" and found: "mem_lookup (w_store w) i = Some p"
  shows "\<exists>w'. retrievePolicy S i w = (Ok p, w')"
  using assms by (simp add: retrievePolicy_def on_store_def mem_ops_def mem_Policy_def mem_lookup_def)

lemma settled_retrieve:
  assumes S: "sv_storage S = mem_ops ConstructKey lower order0 aorder now0"
    and inv: "run_inv u" and settled: "settled u" and wf: "plain_id i" and on_time: "queryCacheKey i \<notin> ru_late u"
    and found: "mem_lookup (w_store (ru_world u)) i = Some p"
  shows "\<exists>q w'. retrievePolicy S i (ru_world u) = (Ok q, w') \<and> same_content q p"
proof (cases "rc_Get (queryCacheKey i) (w_cache (ru_world u))")
  case None
  then show ?thesis using retrieve_missed [OF S _ found] same_content_refl by blast
next
  case (Some q)
  then have q: "queryCacheKey i = queryCacheKey (pid_of q)" "plain_id (pid_of q)" "stored (ru_world u) q"
    using inv settled on_time unfolding run_inv_def by blast+
  then have "pid_of q = i" using wf by (simp add: plain_id_def key_simps)
  then show ?thesis using q(3) found Some by (simp add: retrievePolicy_def stored_def)
qed

lemma settled_locked_forbidden:
  assumes S: "sv_storage S = mem_ops ConstructKey lower order0 aorder now0"
    and inv: "run_inv u" and settled: "settled u" and wf: "plain_id (er_id req)"
    and on_time: "queryCacheKey (er_id req) \<notin> ru_late u"
    and found: "mem_lookup (w_store (ru_world u)) (er_id req) = Some p" and locked: "p_Locked p"
  shows "\<exists>e w'. svc_Evaluate E S req ctx (ru_world u) = (Err e, w') \<and> errors_Is Forbidden e"
proof -
  obtain q w' where q: "retrievePolicy S (er_id req) (ru_world u) = (Ok q, w')" "same_content q p"
    using settled_retrieve [OF S inv settled wf on_time found] by blast
  then have "p_Locked q" using same_contentD(1) locked by blast
  from Evaluate_locked [OF q(1) this, of E ctx] show ?thesis by blast
qed

section \<open>What it does not give\<close>

text \<open>
  Before the notification has arrived the cache may still hold the policy as it was: locking it has no
  effect on an evaluation.
\<close>

lemma svc_Lock_mem:
  assumes S: "sv_storage S = mem_ops ConstructKey lower order0 aorder now0"
    and inv: "mem_inv (w_store w)" and wf: "dot_free i"
    and found: "mem_lookup (w_store w) i = Some p" and free: "\<not> p_Locked p"
  shows "svc_Lock S i w = (Ok (), w\<lparr>w_store := (w_store w)\<lparr>
      policies := (policies (w_store w))(ConstructKey i \<mapsto> p\<lparr>p_Locked := True\<rparr>),
      changes := changes (w_store w) @ [p\<lparr>p_Locked := True\<rparr>]\<rparr>\<rparr>)"
proof -
  have "pid_of p = i" using mem_inv_pid [OF inv wf found] .
  then show ?thesis
    using assms by (simp add: svc_Lock_def svc_lock_def mem_ops_def on_store_def mem_Policy_def
        mem_SetPolicyLock_def mem_lookup_def Let_def)
qed

lemma stale_after_lock:
  assumes S: "sv_storage S = mem_ops ConstructKey lower order0 aorder now0"
    and inv: "mem_inv (w_store w)" and wf: "dot_free i"
    and found: "mem_lookup (w_store w) i = Some p" and free: "\<not> p_Locked p"
    and cached: "rc_Get (queryCacheKey i) (w_cache w) = Some p"
  shows "\<exists>w1. svc_Lock S i w = (Ok (), w1) \<and> retrievePolicy S i w1 = (Ok p, w1)"
  using svc_Lock_mem [OF S inv wf found free] cached by (simp add: retrievePolicy_def)

text \<open>
  An evaluation reads the unlocked policy; the policy is locked; the listener receives the change and
  purges the cache; the evaluation fills the cache.  Nothing is pending, the policy is locked in the
  storage, and every evaluation to come takes the unlocked one from the cache.
\<close>

definition race :: "polid \<Rightarrow> policy \<Rightarrow> mem world \<Rightarrow> mem world \<Rightarrow> sys" where
  "race i p w w1 =
     (let locked = \<lparr>sy_world = w1, sy_purging = False\<rparr>;
          purged = purge_cache p (receive_change [] [] locked)
      in purged\<lparr>sy_world := retrieve_fill i p (sy_world purged)\<rparr>)"

lemma stale_after_race:
  assumes S: "sv_storage S = mem_ops ConstructKey lower order0 aorder now0"
    and inv: "mem_inv (w_store w)" and wf: "dot_free i"
    and found: "mem_lookup (w_store w) i = Some p" and free: "\<not> p_Locked p"
    and idle: "changes (w_store w) = []"
  shows "retrieve_load S i w = (Ok p, w) \<and>
    (\<exists>w1. svc_Lock S i w = (Ok (), w1) \<and> changes (w_store w1) = [p\<lparr>p_Locked := True\<rparr>] \<and>
      (let y = race i p w w1 in
         quiet y \<and> mem_lookup (w_store (sy_world y)) i = Some (p\<lparr>p_Locked := True\<rparr>) \<and>
         retrievePolicy S i (sy_world y) = (Ok p, sy_world y)))"
proof -
  have load: "retrieve_load S i w = (Ok p, w)"
    using S found
    by (simp add: retrieve_load_def on_store_def mem_ops_def mem_Policy_def mem_lookup_def)
  show ?thesis
    unfolding svc_Lock_mem [OF S inv wf found free]
    using load idle
    by (simp add: race_def Let_def quiet_def purge_cache_def receive_change_def retrieve_fill_def
        mem_lookup_def retrievePolicy_def rc.get_set)
qed

lemma stale_after_loss:
  assumes S: "sv_storage S = mem_ops ConstructKey lower order0 aorder now0"
    and inv: "mem_inv (w_store w)" and wf: "dot_free i"
    and found: "mem_lookup (w_store w) i = Some p" and free: "\<not> p_Locked p"
    and idle: "changes (w_store w) = []" and cached: "rc_Get (queryCacheKey i) (w_cache w) = Some p"
  shows "\<exists>w1. svc_Lock S i w = (Ok (), w1) \<and>
      (let y = lose_change [] [] \<lparr>sy_world = w1, sy_purging = False\<rparr> in
         quiet y \<and> mem_lookup (w_store (sy_world y)) i = Some (p\<lparr>p_Locked := True\<rparr>) \<and>
         retrievePolicy S i (sy_world y) = (Ok p, sy_world y))"
  unfolding svc_Lock_mem [OF S inv wf found free]
  using idle cached
  by (simp add: lose_change_def Let_def quiet_def mem_lookup_def retrievePolicy_def)

end
