(* ===== verification/Auto_Import.thy ===== *)
theory Auto_Import
  imports Service_Laws
begin

text \<open>
  The automatic importer (\<^verbatim>\<open>internal/service/policy/autoimport.go\<close>): a background loop that asks the
  storage for the active import configurations, downloads each bundle and imports it.
\<close>

section \<open>One round\<close>

definition importer_getErrorBody :: "response \<Rightarrow> string" where
  "importer_getErrorBody resp = read_error_body resp"

definition fetchBundle :: "net \<Rightarrow> string \<Rightarrow> hist \<Rightarrow> response outcome \<times> hist" where
  "fetchBundle n url =
     sbind (sret (http_NewRequest n ''GET'' url [])) (\<lambda>rq.
     sbind (http_Do n rq) (\<lambda>resp.
     sret (if rs_StatusCode resp \<noteq> 200
           then Err (errors_New [AKind (GetKind (rs_StatusCode resp)), AStr (importer_getErrorBody resp)])
           else Ok resp)))"

text \<open>
  Errors are logged and the loop goes on with the next configuration; \<open>imported\<close> is the counter of the
  source.  A panic or a call that never returns ends the loop.
\<close>

fun doImport_loop ::
  "('j, 'k) libs \<Rightarrow> 'st service \<Rightarrow> nat \<Rightarrow> autoimport list \<Rightarrow> 'st world \<Rightarrow> nat outcome \<times> 'st world" where
  "doImport_loop L S imported [] w = (Ok imported, w)"
| "doImport_loop L S imported (c # cs) w =
     (case on_http (fetchBundle (sv_httpClient S) (ai_PolicyURL c)) w of
        (Ok resp, w1) \<Rightarrow>
          (case svc_ImportBundle L S (io_ReadAll resp) w1 of
             (Ok _, w2) \<Rightarrow> doImport_loop L S (Suc imported) cs w2
           | (Err _, w2) \<Rightarrow> doImport_loop L S imported cs w2
           | (Panic t, w2) \<Rightarrow> (Panic t, w2)
           | (Blocked, w2) \<Rightarrow> (Blocked, w2))
      | (Err _, w1) \<Rightarrow> doImport_loop L S imported cs w1
      | (Panic t, w1) \<Rightarrow> (Panic t, w1)
      | (Blocked, w1) \<Rightarrow> (Blocked, w1))"

definition doImport ::
  "('j, 'k) libs \<Rightarrow> 'st service \<Rightarrow> autoimport list \<Rightarrow> 'st world \<Rightarrow> nat outcome \<times> 'st world" where
  "doImport L S configs = doImport_loop L S 0 configs"

text \<open>What happens when the poll interval has passed once.\<close>

definition autoimport_tick ::
  "('j, 'k) libs \<Rightarrow> 'st service \<Rightarrow> 'st world \<Rightarrow> unit outcome \<times> 'st world" where
  "autoimport_tick L S w =
     (case on_store (op_ActiveImportConfigs (sv_storage S)) w of
        (Ok configs, w1) \<Rightarrow>
          if configs = [] then (Ok (), w1)
          else
            (case doImport L S configs w1 of
               (Panic t, w2) \<Rightarrow> (Panic t, w2)
             | (Blocked, w2) \<Rightarrow> (Blocked, w2)
             | (_, w2) \<Rightarrow> (Ok (), w2))
      | (Err _, w1) \<Rightarrow> (Ok (), w1)
      | (Panic t, w1) \<Rightarrow> (Panic t, w1)
      | (Blocked, w1) \<Rightarrow> (Blocked, w1))"

text \<open>
  The loop up to the cancellation of its context: \<open>ticks\<close> are the clock readings of its rounds, and
  \<open>svcAt\<close> is the service whose storage reads that clock.
\<close>

fun StartAutoImporter ::
  "('j, 'k) libs \<Rightarrow> (time \<Rightarrow> 'st service) \<Rightarrow> time list \<Rightarrow> 'st world \<Rightarrow> unit outcome \<times> 'st world" where
  "StartAutoImporter L svcAt [] w = (Ok (), w)"
| "StartAutoImporter L svcAt (now # ticks) w =
     sbind (autoimport_tick L (svcAt now)) (\<lambda>_. StartAutoImporter L svcAt ticks) w"

section \<open>Facts\<close>

lemma fetchBundle_OkD:
  assumes "fetchBundle n url h = (Ok resp, h')"
  shows "rs_StatusCode resp = 200 \<and>
    (\<exists>rq. http_NewRequest n ''GET'' url [] = Ok rq \<and> respond n h rq = Ok resp \<and> h' = h @ [rq])"
  using assms
  by (auto simp: fetchBundle_def http_Do_def split: if_splits dest!: sbind_OkD)

text \<open>The counter never exceeds the number of configurations, and it counts the saved bundles.\<close>

lemma doImport_loop_count:
  "doImport_loop L S k cs w = (Ok n, w') \<Longrightarrow> k \<le> n \<and> n \<le> k + length cs"
proof (induction cs arbitrary: k w)
  case (Cons c cs)
  then show ?case
    by (fastforce split: prod.splits outcome.splits)
qed simp

text \<open>The rounds in which the bundle of a configuration was fetched and imported.\<close>

fun imports_ok :: "('j, 'k) libs \<Rightarrow> 'st service \<Rightarrow> autoimport list \<Rightarrow> 'st world \<Rightarrow> bool list" where
  "imports_ok L S [] w = []"
| "imports_ok L S (c # cs) w =
     (case on_http (fetchBundle (sv_httpClient S) (ai_PolicyURL c)) w of
        (Ok resp, w1) \<Rightarrow>
          (case svc_ImportBundle L S (io_ReadAll resp) w1 of
             (r, w2) \<Rightarrow> (case r of Ok _ \<Rightarrow> True | _ \<Rightarrow> False) # imports_ok L S cs w2)
      | (_, w1) \<Rightarrow> False # imports_ok L S cs w1)"

lemma doImport_loop_imports:
  "doImport_loop L S k cs w = (Ok n, w') \<Longrightarrow> n = k + length (filter id (imports_ok L S cs w))"
proof (induction cs arbitrary: k w)
  case (Cons c cs)
  from Cons.prems show ?case
    by (auto split: prod.splits outcome.splits dest!: Cons.IH)
qed simp

text \<open>A round never stops on an error: an \<open>Err\<close> cannot come out.\<close>

lemma doImport_loop_no_error: "doImport_loop L S k cs w \<noteq> (Err e, w')"
proof (induction cs arbitrary: k w)
  case (Cons c cs)
  then show ?case by (auto split: prod.splits outcome.splits)
qed simp

lemma autoimport_tick_no_error: "autoimport_tick L S w \<noteq> (Err e, w')"
  by (auto simp: autoimport_tick_def split: prod.splits outcome.splits)

lemma StartAutoImporter_no_error: "StartAutoImporter L svcAt ticks w \<noteq> (Err e, w')"
  by (induction ticks arbitrary: w)
    (auto simp: autoimport_tick_no_error dest!: sbind_ErrD)

section \<open>What a round saves\<close>

text \<open>The archive holds a bundle and its signature, and the policy is the one in the bundle.\<close>

definition archive_policy :: "('j, 'k) libs \<Rightarrow> string \<Rightarrow> zipfile \<Rightarrow> zipfile \<Rightarrow> policy \<Rightarrow> bool" where
  "archive_policy L outer bf sf pol \<longleftrightarrow> zipRead L outer = Ok [bf, sf] \<and> policyFromBundle L (zf_Content bf) = Ok pol"

text \<open>
  \<open>offers\<close>: at the address there is a bundle of the policy whose signature verifies.  \<open>may_offer\<close>: some
  answer of the address would be an archive of the policy, verified or not.
\<close>

definition offers :: "('j, 'k) libs \<Rightarrow> net \<Rightarrow> string \<Rightarrow> policy \<Rightarrow> bool" where
  "offers L n url pol \<longleftrightarrow>
     (\<exists>outer bf sf. archive_policy L outer bf sf pol \<and>
        (\<forall>h. \<exists>resp h'. fetchBundle n url h = (Ok resp, h') \<and> io_ReadAll resp = Ok outer) \<and>
        (\<forall>h. fst (verifyBundle L [bf, sf] h) = Ok ()))"

definition may_offer :: "('j, 'k) libs \<Rightarrow> net \<Rightarrow> string \<Rightarrow> policy \<Rightarrow> bool" where
  "may_offer L n url pol \<longleftrightarrow>
     (\<exists>h resp h' outer bf sf. fetchBundle n url h = (Ok resp, h') \<and> io_ReadAll resp = Ok outer \<and>
        archive_policy L outer bf sf pol)"

lemma offers_may_offer: "offers L n url pol \<Longrightarrow> may_offer L n url pol"
  unfolding offers_def may_offer_def by blast

text \<open>No other address offers the same policy with other content.\<close>

definition agreed :: "('j, 'k) libs \<Rightarrow> net \<Rightarrow> autoimport list \<Rightarrow> policy \<Rightarrow> bool" where
  "agreed L n cs pol \<longleftrightarrow>
     (\<forall>c p. c \<in> set cs \<and> may_offer L n (ai_PolicyURL c) p \<and> pid_of p = pid_of pol \<longrightarrow>
        evaluation_view p = evaluation_view pol)"

text \<open>The calls of an import return a value or an error.\<close>

definition import_returns :: "('j, 'k) libs \<Rightarrow> net \<Rightarrow> bool" where
  "import_returns L n \<longleftrightarrow> total_libs L \<and> answering n"

lemma returns_fetchBundle:
  assumes "answering n"
  shows "returns (fst (fetchBundle n url h))"
proof -
  have "returns (fst (http_Do n rq h))" for rq using assms by (simp add: http_Do_def answering_def)
  then show ?thesis
    by (auto simp: fetchBundle_def intro!: returns_sbind)
qed

context policy_store
begin

lemma save_world:
  assumes "uses_store S get_policy save_policy set_lock" and "invar (w_store w)" and "wf (pid_of p)"
  shows "\<exists>s q. on_store (op_SavePolicy (sv_storage S) p) w = (Ok (), w\<lparr>w_store := s\<rparr>) \<and>
    save_policy p (w_store w) = (Ok (), s) \<and> invar s \<and> lookup s (pid_of p) = Some q \<and>
    evaluation_view q = evaluation_view p \<and> (\<forall>j. wf j \<longrightarrow> j \<noteq> pid_of p \<longrightarrow> lookup s j = lookup (w_store w) j)"
proof -
  obtain s q where "save_policy p (w_store w) = (Ok (), s)" "invar s" "lookup s (pid_of p) = Some q"
    "evaluation_view q = evaluation_view p" "\<forall>j. wf j \<longrightarrow> j \<noteq> pid_of p \<longrightarrow> lookup s j = lookup (w_store w) j"
    using save_stores [OF assms(2,3)] by blast
  then show ?thesis using assms(1) by (auto simp: uses_store_def on_store_eq)
qed

text \<open>An import either leaves the storage alone or saves the policy of the archive.\<close>

definition saves_one :: "('j, 'k) libs \<Rightarrow> string outcome \<Rightarrow> 'st \<Rightarrow> 'st \<Rightarrow> bool" where
  "saves_one L payload s s' \<longleftrightarrow>
     (\<exists>outer bf sf pol q. payload = Ok outer \<and> archive_policy L outer bf sf pol \<and> save_policy pol s = (Ok (), s') \<and>
        invar s' \<and> lookup s' (pid_of pol) = Some q \<and> evaluation_view q = evaluation_view pol \<and>
        (\<forall>j. j \<noteq> pid_of pol \<longrightarrow> lookup s' j = lookup s j))"

lemma ImportBundle_effect:
  assumes uses: "uses_store S get_policy save_policy set_lock" and inv: "invar (w_store w)" and wf: "\<And>i. wf i"
    and lib: "import_returns L n" and payload: "returns payload"
  shows "\<exists>r w'. svc_ImportBundle L S payload w = (r, w') \<and> returns r \<and> w_cache w' = w_cache w \<and>
    (w_store w' = w_store w \<or> saves_one L payload (w_store w) (w_store w'))"
proof -
  consider e where "payload = Err e" | outer e where "payload = Ok outer" "zipRead L outer = Err e"
    | outer fs where "payload = Ok outer" "zipRead L outer = Ok fs"
  proof (cases rule: returns_cases [OF payload])
    case (1 outer)
    have "returns (zipRead L outer)" using lib by (simp add: import_returns_def total_libs_def)
    then show thesis using 1 that by (cases rule: returns_cases) auto
  qed
  then show ?thesis
  proof cases
    case (3 outer fs)
    obtain v h where v: "verifyBundle L fs (w_http w) = (v, h)" by fastforce
    have v_ret: "returns v" if "length fs = 2"
    proof -
      obtain bf sf where "fs = [bf, sf]" using \<open>length fs = 2\<close> by (auto simp: length_Suc_conv numeral_2_eq_2)
      then show ?thesis using returns_verifyBundle [of L bf sf "w_http w"] lib v by (simp add: import_returns_def)
    qed
    consider "length fs \<noteq> 2" | e where "length fs = 2" "v = Err e"
      | e where "length fs = 2" "v = Ok ()" "policyFromBundle L (zf_Content (hd fs)) = Err e"
      | pol where "length fs = 2" "v = Ok ()" "policyFromBundle L (zf_Content (hd fs)) = Ok pol"
    proof -
      have "returns (policyFromBundle L (zf_Content (hd fs)))"
        using lib returns_policyFromBundle [of L] by (simp add: import_returns_def)
      then show thesis using that v_ret by (cases v; cases "policyFromBundle L (zf_Content (hd fs))") auto
    qed
    then show ?thesis
    proof cases
      case (4 pol)
      obtain bf sf where fs: "fs = [bf, sf]" using 4(1) by (auto simp: length_Suc_conv numeral_2_eq_2)
      obtain s q where s: "on_store (op_SavePolicy (sv_storage S) pol) (w\<lparr>w_http := h\<rparr>) = (Ok (), w\<lparr>w_http := h, w_store := s\<rparr>)"
        "save_policy pol (w_store w) = (Ok (), s)" "invar s" "lookup s (pid_of pol) = Some q"
        "evaluation_view q = evaluation_view pol" "\<forall>j. wf j \<longrightarrow> j \<noteq> pid_of pol \<longrightarrow> lookup s j = lookup (w_store w) j"
        using save_world [OF uses, of "w\<lparr>w_http := h\<rparr>" pol] inv wf by auto
      have "\<exists>r. svc_ImportBundle L S payload w = (Ok r, w\<lparr>w_http := h, w_store := s\<rparr>)"
        using 3 4 v s(1) by (simp add: svc_ImportBundle_def on_http_eq)
      moreover have "archive_policy L outer bf sf pol" using 3(2) 4(3) by (simp add: archive_policy_def fs)
      then have "saves_one L payload (w_store w) s" using 3(1) s(2-6) wf unfolding saves_one_def by blast
      ultimately show ?thesis by fastforce
    qed (use 3 v in \<open>auto simp: svc_ImportBundle_def on_http_eq\<close>)
  qed (auto simp: svc_ImportBundle_def)
qed

text \<open>What is offered is saved.\<close>

lemma ImportBundle_offered:
  assumes uses: "uses_store S get_policy save_policy set_lock" and inv: "invar (w_store w)" and wf: "\<And>i. wf i"
    and arch: "archive_policy L outer bf sf pol" and valid: "fst (verifyBundle L [bf, sf] (w_http w)) = Ok ()"
  shows "\<exists>r w' q. svc_ImportBundle L S (Ok outer) w = (Ok r, w') \<and> lookup (w_store w') (pid_of pol) = Some q \<and>
    evaluation_view q = evaluation_view pol"
proof -
  obtain h where h: "verifyBundle L [bf, sf] (w_http w) = (Ok (), h)" using valid by (metis prod.collapse)
  obtain s q where s: "on_store (op_SavePolicy (sv_storage S) pol) (w\<lparr>w_http := h\<rparr>) = (Ok (), w\<lparr>w_http := h, w_store := s\<rparr>)"
    "lookup s (pid_of pol) = Some q" "evaluation_view q = evaluation_view pol"
    using save_world [OF uses, of "w\<lparr>w_http := h\<rparr>" pol] inv wf by auto
  have "\<exists>r. svc_ImportBundle L S (Ok outer) w = (Ok r, w\<lparr>w_http := h, w_store := s\<rparr>)"
    using arch h s(1) by (simp add: archive_policy_def svc_ImportBundle_def on_http_eq)
  then show ?thesis using s(2,3) by fastforce
qed

text \<open>
  A round over the configurations \<open>cs\<close>: nothing but offered policies changes, and an offered policy is there
  afterwards unless another address offers the same policy with other content.
\<close>

definition holds_policy :: "'st \<Rightarrow> policy \<Rightarrow> bool" where
  "holds_policy s pol \<longleftrightarrow> (\<exists>q. lookup s (pid_of pol) = Some q \<and> evaluation_view q = evaluation_view pol)"

lemma import_step:
  assumes uses: "uses_store S get_policy save_policy set_lock" and inv: "invar (w_store w)" and wf: "\<And>i. wf i"
    and lib: "import_returns L (sv_httpClient S)"
    and frame: "\<forall>p s s'. save_policy p s = (Ok (), s') \<longrightarrow> frame s' = frame s"
  shows "\<exists>k' w1. doImport_loop L S k (c # cs) w = doImport_loop L S k' cs w1 \<and> invar (w_store w1) \<and>
    frame (w_store w1) = frame (w_store w) \<and> w_cache w1 = w_cache w \<and>
    (\<forall>j. (\<forall>p. may_offer L (sv_httpClient S) (ai_PolicyURL c) p \<longrightarrow> pid_of p \<noteq> j) \<longrightarrow>
       lookup (w_store w1) j = lookup (w_store w) j) \<and>
    (\<forall>pol. agreed L (sv_httpClient S) [c] pol \<longrightarrow>
       holds_policy (w_store w) pol \<or> offers L (sv_httpClient S) (ai_PolicyURL c) pol \<longrightarrow> holds_policy (w_store w1) pol)"
proof -
  let ?n = "sv_httpClient S" and ?url = "ai_PolicyURL c"
  obtain f h where f: "fetchBundle ?n ?url (w_http w) = (f, h)" by fastforce
  have "returns f" using returns_fetchBundle [of ?n ?url "w_http w"] lib f by (simp add: import_returns_def)
  then show ?thesis
  proof (cases rule: returns_cases)
    case (2 e)
    have "\<not> offers L ?n ?url pol" for pol
      using f 2 unfolding offers_def by (metis outcome.distinct(1) prod.inject)
    moreover have "doImport_loop L S k (c # cs) w = doImport_loop L S k cs (w\<lparr>w_http := h\<rparr>)"
      using f 2 by (simp add: on_http_eq)
    ultimately show ?thesis using inv
      by (intro exI [of _ k] exI [of _ "w\<lparr>w_http := h\<rparr>"]) simp
  next
    case (1 resp)
    let ?w = "w\<lparr>w_http := h\<rparr>"
    have inv': "invar (w_store ?w)" using inv by simp
    obtain r w1 where imp: "svc_ImportBundle L S (io_ReadAll resp) ?w = (r, w1)" "returns r" "w_cache w1 = w_cache w"
      and eff: "w_store w1 = w_store w \<or> saves_one L (io_ReadAll resp) (w_store w) (w_store w1)"
      using ImportBundle_effect [OF uses inv' wf lib returns_io_ReadAll, of resp] by auto
    have step: "\<exists>k'. doImport_loop L S k (c # cs) w = doImport_loop L S k' cs w1"
      using f 1 imp(1,2) by (cases r) (auto simp: on_http_eq)
    have saved: "\<exists>p q. may_offer L ?n ?url p \<and> save_policy p (w_store w) = (Ok (), w_store w1) \<and> invar (w_store w1) \<and>
        lookup (w_store w1) (pid_of p) = Some q \<and> evaluation_view q = evaluation_view p \<and>
        (\<forall>j. j \<noteq> pid_of p \<longrightarrow> lookup (w_store w1) j = lookup (w_store w) j)"
      if "saves_one L (io_ReadAll resp) (w_store w) (w_store w1)"
      using that f 1 unfolding saves_one_def may_offer_def by blast
    have keep: "invar (w_store w1) \<and> frame (w_store w1) = frame (w_store w)" using eff inv frame saved by metis
    have others: "lookup (w_store w1) j = lookup (w_store w) j" if "\<forall>p. may_offer L ?n ?url p \<longrightarrow> pid_of p \<noteq> j" for j
      using eff saved that by metis
    have held: "holds_policy (w_store w1) pol" if agr: "agreed L ?n [c] pol" and old: "holds_policy (w_store w) pol" for pol
      using eff
    proof
      assume "w_store w1 = w_store w"
      then show ?thesis using old by simp
    next
      assume "saves_one L (io_ReadAll resp) (w_store w) (w_store w1)"
      then obtain p q where p: "may_offer L ?n ?url p" "lookup (w_store w1) (pid_of p) = Some q"
        "evaluation_view q = evaluation_view p" "\<forall>j. j \<noteq> pid_of p \<longrightarrow> lookup (w_store w1) j = lookup (w_store w) j"
        using saved by blast
      show ?thesis
      proof (cases "pid_of p = pid_of pol")
        case True
        then show ?thesis using p(1-3) agr unfolding agreed_def holds_policy_def by (metis list.set_intros(1))
      next
        case False
        then show ?thesis using p(4) old unfolding holds_policy_def by metis
      qed
    qed
    have offered: "holds_policy (w_store w1) pol" if off: "offers L ?n ?url pol" for pol
    proof -
      obtain outer bf sf where o: "archive_policy L outer bf sf pol" "io_ReadAll resp = Ok outer"
        "\<forall>h. fst (verifyBundle L [bf, sf] h) = Ok ()"
        using off f 1 unfolding offers_def by (metis outcome.inject(1) prod.inject)
      then show ?thesis
        using ImportBundle_offered [OF uses inv' wf o(1)] imp(1) unfolding holds_policy_def o(2) by fastforce
    qed
    obtain k' where "doImport_loop L S k (c # cs) w = doImport_loop L S k' cs w1" using step by blast
    then show ?thesis using keep others held offered imp(3) by (intro exI [of _ k'] exI [of _ w1]) blast
  qed
qed

lemma doImport_saves:
  assumes uses: "uses_store S get_policy save_policy set_lock" and wf: "\<And>i. wf i"
    and lib: "import_returns L (sv_httpClient S)"
    and frame: "\<forall>p s s'. save_policy p s = (Ok (), s') \<longrightarrow> frame s' = frame s"
  shows "invar (w_store w) \<Longrightarrow>
    \<exists>m w'. doImport_loop L S k cs w = (Ok m, w') \<and> frame (w_store w') = frame (w_store w) \<and> w_cache w' = w_cache w \<and>
    (\<forall>j. (\<forall>c p. c \<in> set cs \<and> may_offer L (sv_httpClient S) (ai_PolicyURL c) p \<longrightarrow> pid_of p \<noteq> j) \<longrightarrow>
       lookup (w_store w') j = lookup (w_store w) j) \<and>
    (\<forall>pol. agreed L (sv_httpClient S) cs pol \<longrightarrow>
       holds_policy (w_store w) pol \<or> (\<exists>c \<in> set cs. offers L (sv_httpClient S) (ai_PolicyURL c) pol) \<longrightarrow>
       holds_policy (w_store w') pol)"
proof (induction cs arbitrary: k w)
  case (Cons c cs)
  let ?n = "sv_httpClient S"
  obtain k' w1 where w1: "doImport_loop L S k (c # cs) w = doImport_loop L S k' cs w1" "invar (w_store w1)"
    "frame (w_store w1) = frame (w_store w)" "w_cache w1 = w_cache w"
    "\<forall>j. (\<forall>p. may_offer L ?n (ai_PolicyURL c) p \<longrightarrow> pid_of p \<noteq> j) \<longrightarrow> lookup (w_store w1) j = lookup (w_store w) j"
    "\<forall>pol. agreed L ?n [c] pol \<longrightarrow> holds_policy (w_store w) pol \<or> offers L ?n (ai_PolicyURL c) pol \<longrightarrow>
      holds_policy (w_store w1) pol"
    using import_step [where frame = frame and k = k and c = c and cs = cs, OF uses Cons.prems wf lib frame] by blast
  obtain m w' where w': "doImport_loop L S k' cs w1 = (Ok m, w')" "frame (w_store w') = frame (w_store w1)"
    "w_cache w' = w_cache w1"
    "\<forall>j. (\<forall>c p. c \<in> set cs \<and> may_offer L ?n (ai_PolicyURL c) p \<longrightarrow> pid_of p \<noteq> j) \<longrightarrow>
       lookup (w_store w') j = lookup (w_store w1) j"
    "\<forall>pol. agreed L ?n cs pol \<longrightarrow> holds_policy (w_store w1) pol \<or> (\<exists>c \<in> set cs. offers L ?n (ai_PolicyURL c) pol) \<longrightarrow>
      holds_policy (w_store w') pol"
    using Cons.IH [OF w1(2)] by blast
  have "agreed L ?n [c] pol" "agreed L ?n cs pol" if "agreed L ?n (c # cs) pol" for pol
    using that unfolding agreed_def by (auto 4 4)
  then have saved: "holds_policy (w_store w') pol" if "agreed L ?n (c # cs) pol"
    "holds_policy (w_store w) pol \<or> (\<exists>c \<in> set (c # cs). offers L ?n (ai_PolicyURL c) pol)" for pol
    using that w1(6) w'(5) by (metis set_ConsD)
  have others: "lookup (w_store w') j = lookup (w_store w) j"
    if "\<forall>d p. d \<in> set (c # cs) \<and> may_offer L ?n (ai_PolicyURL d) p \<longrightarrow> pid_of p \<noteq> j" for j
    using that w1(5) w'(4) by (metis list.set_intros)
  show ?case
    using w1(1,3,4) w'(1-3) saved others by (intro exI [of _ m] exI [of _ w'] conjI) (metis | simp)+
qed simp

end

end
