(* ===== verification/Refresher.thy ===== *)
theory Refresher
  imports Service_Laws
begin

text \<open>
  The data refresher (\<^verbatim>\<open>internal/service/policy/policydata\<close>): a background loop that downloads the
  static data of the policies whose refresh is due, as their data configuration says.
\<close>

section \<open>The data configuration\<close>

record dataConfig =
  dc_URL :: string
  dc_Method :: string
  dc_Period :: duration
  dc_Body :: json

text \<open>
  \<open>parseDuration\<close> is \<^verbatim>\<open>time.ParseDuration\<close>; \<open>numDuration\<close> converts a JSON number, read as a \<^verbatim>\<open>float64\<close>, to
  nanoseconds; the others are \<^verbatim>\<open>url.Parse\<close>, the field \<^verbatim>\<open>Scheme\<close> of its result and \<^verbatim>\<open>URL.String\<close>.
\<close>

record 'u refresh_lib =
  rl_codec :: codec
  parseDuration :: "string \<Rightarrow> duration outcome"
  numDuration :: "string \<Rightarrow> duration"
  urlParse :: "string \<Rightarrow> 'u outcome"
  urlScheme :: "'u \<Rightarrow> string"
  urlSetScheme :: "string \<Rightarrow> 'u \<Rightarrow> 'u"
  urlString :: "'u \<Rightarrow> string"

fun Duration_UnmarshalJSON :: "'u refresh_lib \<Rightarrow> json \<Rightarrow> duration outcome" where
  "Duration_UnmarshalJSON L (JNum n) = Ok (numDuration L n)"
| "Duration_UnmarshalJSON L (JStr s) = parseDuration L s"
| "Duration_UnmarshalJSON L _ = Err (errors_New [AStr ''invalid duration''])"

text \<open>
  The field \<^verbatim>\<open>Period\<close> is decoded by its own method, which is called for \<^verbatim>\<open>null\<close> too; \<^verbatim>\<open>Body\<close> takes any value.
\<close>

fun duration_field ::
  "'u refresh_lib \<Rightarrow> string \<Rightarrow> (string \<times> json) list \<Rightarrow> duration \<Rightarrow> duration outcome" where
  "duration_field L name [] cur = Ok cur"
| "duration_field L name ((k, v) # kvs) cur =
     (if sameFold (rl_codec L) k name
      then obind (Duration_UnmarshalJSON L v) (\<lambda>d. duration_field L name kvs d)
      else duration_field L name kvs cur)"

fun any_field :: "codec \<Rightarrow> string \<Rightarrow> (string \<times> json) list \<Rightarrow> json \<Rightarrow> json" where
  "any_field C name [] cur = cur"
| "any_field C name ((k, v) # kvs) cur =
     (if sameFold C k name then any_field C name kvs v else any_field C name kvs cur)"

definition decode_dataConfig :: "'u refresh_lib \<Rightarrow> string \<Rightarrow> dataConfig outcome" where
  "decode_dataConfig L text =
     obind (unmarshal (rl_codec L) text) (\<lambda>v.
     obind (struct_entries v) (\<lambda>kvs.
     obind (str_field (rl_codec L) ''URL'' kvs []) (\<lambda>u.
     obind (str_field (rl_codec L) ''Method'' kvs []) (\<lambda>m.
     obind (duration_field L ''Period'' kvs 0) (\<lambda>d.
     Ok \<lparr>dc_URL = u, dc_Method = m, dc_Period = d,
         dc_Body = any_field (rl_codec L) ''Body'' kvs JNull\<rparr>)))))"

section \<open>One refresh\<close>

definition createHTTPRequest :: "'u refresh_lib \<Rightarrow> net \<Rightarrow> dataConfig \<Rightarrow> request outcome" where
  "createHTTPRequest L n config =
     obind (owrap (\<lambda>_. errors_New [AStr ''error marshaling data configuration body''])
              (marshal (rl_codec L) (dc_Body config))) (\<lambda>bodyBytes.
     obind (owrap (\<lambda>_. errors_New [AStr ''invalid data configuration url''])
              (urlParse L (dc_URL config))) (\<lambda>u.
     let url = (if urlScheme L u = [] then urlSetScheme L ''https'' u else u) in
       if dc_Method config = ''POST''
       then http_NewRequest n (dc_Method config) (urlString L url) bodyBytes
       else http_NewRequest n (dc_Method config) (urlString L url) []))"

text \<open>The storage of the refresher.\<close>

record 'st refresh_storage =
  rf_GetRefreshPolicies :: "'st \<Rightarrow> policy list outcome \<times> 'st"
  rf_UpdateNextRefreshTime :: "policy \<Rightarrow> time \<Rightarrow> 'st \<Rightarrow> unit outcome \<times> 'st"

text \<open>The result of \<^verbatim>\<open>UpdateNextRefreshTime\<close> is dropped or logged; a panic or a hang is passed on.\<close>

definition set_next_refresh ::
  "'st refresh_storage \<Rightarrow> policy \<Rightarrow> time \<Rightarrow> 'st world \<Rightarrow> unit outcome \<times> 'st world" where
  "set_next_refresh R p t w =
     (case on_store (rf_UpdateNextRefreshTime R p t) w of (Err _, w') \<Rightarrow> (Ok (), w') | rw \<Rightarrow> rw)"

definition refresh_Execute ::
  "'u refresh_lib \<Rightarrow> net \<Rightarrow> 'st refresh_storage \<Rightarrow> time \<Rightarrow> policy \<Rightarrow> 'st world \<Rightarrow>
   unit outcome \<times> 'st world" where
  "refresh_Execute L n R now p w =
     (case decode_dataConfig L (p_DataConfig p) of
        Ok config \<Rightarrow>
          if dc_URL config = [] \<or> dc_Period config = 0 \<or> dc_Method config = [] then
            set_next_refresh R p zero_time w
          else
            (case createHTTPRequest L n config of
               Ok req \<Rightarrow>
                 (case on_http (http_Do n req) w of
                    (Ok resp, w1) \<Rightarrow>
                      if rs_StatusCode resp \<noteq> 200 then
                        set_next_refresh R p (now + dc_Period config) w1
                      else
                        (case io_ReadAll resp of
                           Ok dataBytes \<Rightarrow>
                             set_next_refresh R (p\<lparr>p_Data := dataBytes\<rparr>) (now + dc_Period config) w1
                         | Err _ \<Rightarrow> set_next_refresh R p (now + dc_Period config) w1
                         | Panic t \<Rightarrow> (Panic t, w1)
                         | Blocked \<Rightarrow> (Blocked, w1))
                  | (Err _, w1) \<Rightarrow> set_next_refresh R p (now + dc_Period config) w1
                  | (Panic t, w1) \<Rightarrow> (Panic t, w1)
                  | (Blocked, w1) \<Rightarrow> (Blocked, w1))
             | Err _ \<Rightarrow> set_next_refresh R p zero_time w
             | Panic t \<Rightarrow> (Panic t, w)
             | Blocked \<Rightarrow> (Blocked, w))
      | Err _ \<Rightarrow> set_next_refresh R p zero_time w
      | Panic t \<Rightarrow> (Panic t, w)
      | Blocked \<Rightarrow> (Blocked, w))"

section \<open>The loop\<close>

fun refresh_all ::
  "'u refresh_lib \<Rightarrow> net \<Rightarrow> 'st refresh_storage \<Rightarrow> time \<Rightarrow> policy list \<Rightarrow> 'st world \<Rightarrow>
   unit outcome \<times> 'st world" where
  "refresh_all L n R now [] w = (Ok (), w)"
| "refresh_all L n R now (p # ps) w =
     sbind (refresh_Execute L n R now p) (\<lambda>_. refresh_all L n R now ps) w"

definition refresh_tick ::
  "'u refresh_lib \<Rightarrow> net \<Rightarrow> 'st refresh_storage \<Rightarrow> time \<Rightarrow> 'st world \<Rightarrow> unit outcome \<times> 'st world" where
  "refresh_tick L n R now w =
     (case on_store (rf_GetRefreshPolicies R) w of
        (Ok ps, w1) \<Rightarrow> refresh_all L n R now ps w1
      | (Err _, w1) \<Rightarrow> (Ok (), w1)
      | (Panic t, w1) \<Rightarrow> (Panic t, w1)
      | (Blocked, w1) \<Rightarrow> (Blocked, w1))"

text \<open>\<^verbatim>\<open>Start\<close> up to the cancellation of its context; \<open>R now\<close> is the storage at that clock reading.\<close>

fun refresher_Start ::
  "'u refresh_lib \<Rightarrow> net \<Rightarrow> (time \<Rightarrow> 'st refresh_storage) \<Rightarrow> time list \<Rightarrow> 'st world \<Rightarrow>
   unit outcome \<times> 'st world" where
  "refresher_Start L n R [] w = (Err (Plain ''context canceled''), w)"
| "refresher_Start L n R (now # ticks) w =
     sbind (refresh_tick L n (R now) now) (\<lambda>_. refresher_Start L n R ticks) w"

definition mem_refresh_storage :: "time \<Rightarrow> policy range_order \<Rightarrow> mem refresh_storage" where
  "mem_refresh_storage now order =
     \<lparr>rf_GetRefreshPolicies = mem_GetRefreshPolicies now order,
      rf_UpdateNextRefreshTime = mem_UpdateNextRefreshTime ConstructKey\<rparr>"

section \<open>Facts\<close>

lemma Duration_not_time:
  "Duration_UnmarshalJSON L v = Ok d \<Longrightarrow>
   (\<exists>n. v = JNum n \<and> d = numDuration L n) \<or> (\<exists>s. v = JStr s \<and> parseDuration L s = Ok d)"
  by (cases v) auto

text \<open>
  A configuration is usable when it can be decoded, has its required fields and makes a request.
\<close>

definition usable_config :: "'u refresh_lib \<Rightarrow> net \<Rightarrow> policy \<Rightarrow> (dataConfig \<times> request) option" where
  "usable_config L n p =
     (case decode_dataConfig L (p_DataConfig p) of
        Ok config \<Rightarrow>
          if dc_URL config = [] \<or> dc_Period config = 0 \<or> dc_Method config = [] then None
          else (case createHTTPRequest L n config of Ok req \<Rightarrow> Some (config, req) | _ \<Rightarrow> None)
      | _ \<Rightarrow> None)"

lemma Execute_usable:
  assumes "usable_config L n p = Some (config, req)"
    and "respond n (w_http w) req = Ok resp" and "rs_StatusCode resp = 200" and "io_ReadAll resp = Ok d"
  shows "refresh_Execute L n R now p w =
    set_next_refresh R (p\<lparr>p_Data := d\<rparr>) (now + dc_Period config) (w\<lparr>w_http := w_http w @ [req]\<rparr>)"
  using assms
  by (auto simp: usable_config_def refresh_Execute_def on_http_def http_Do_def
      split: outcome.splits if_splits)

text \<open>A refresh that fails keeps the data and tries again after the period.\<close>

definition refresh_failed :: "response outcome \<Rightarrow> bool" where
  "refresh_failed r =
     (case r of Err _ \<Rightarrow> True | Ok resp \<Rightarrow> rs_StatusCode resp \<noteq> 200 \<or> rs_ReadErr resp \<noteq> None | _ \<Rightarrow> False)"

lemma Execute_failed:
  assumes "usable_config L n p = Some (config, req)" and "refresh_failed (respond n (w_http w) req)"
  shows "refresh_Execute L n R now p w =
    set_next_refresh R p (now + dc_Period config) (w\<lparr>w_http := w_http w @ [req]\<rparr>)"
  using assms
  by (auto simp: usable_config_def refresh_Execute_def on_http_def http_Do_def refresh_failed_def io_ReadAll_def
      split: outcome.splits if_splits)

text \<open>The library functions return a value or an error.\<close>

definition total_lib :: "'u refresh_lib \<Rightarrow> bool" where
  "total_lib L \<longleftrightarrow>
     (\<forall>s. returns (unmarshal (rl_codec L) s)) \<and> (\<forall>v. returns (marshal (rl_codec L) v)) \<and>
     (\<forall>s. returns (parseDuration L s)) \<and> (\<forall>s. returns (urlParse L s))"

lemma returns_duration_field:
  "total_lib L \<Longrightarrow> returns (duration_field L name kvs cur)"
proof (induction L name kvs cur rule: duration_field.induct)
  case (2 L name k v kvs cur)
  have "returns (Duration_UnmarshalJSON L v)"
    using 2(3) by (cases v) (auto simp: total_lib_def)
  then show ?case using 2 by auto
qed simp

lemma returns_decode_dataConfig: "total_lib L \<Longrightarrow> returns (decode_dataConfig L text)"
  by (auto simp: decode_dataConfig_def total_lib_def [of L] returns_duration_field intro!: returns_obind)

lemma returns_createHTTPRequest: "total_lib L \<Longrightarrow> returns (createHTTPRequest L n config)"
  by (auto simp: createHTTPRequest_def total_lib_def Let_def intro!: returns_obind)

lemma Execute_unusable:
  assumes "total_lib L" and "usable_config L n p = None"
  shows "refresh_Execute L n R now p w = set_next_refresh R p zero_time w"
proof (cases rule: returns_cases [OF returns_decode_dataConfig [OF assms(1), of "p_DataConfig p"]])
  case (1 config)
  show ?thesis
  proof (cases rule: returns_cases [OF returns_createHTTPRequest [OF assms(1), of n config]])
    case (1 req)
    then show ?thesis
      using \<open>decode_dataConfig L (p_DataConfig p) = Ok config\<close> assms(2)
      by (auto simp: usable_config_def refresh_Execute_def split: if_splits)
  next
    case (2 e)
    then show ?thesis
      using \<open>decode_dataConfig L (p_DataConfig p) = Ok config\<close>
      by (auto simp: refresh_Execute_def)
  qed
qed (simp add: refresh_Execute_def)

text \<open>
  The in-memory storage keeps the policies' data whatever the refresher does: the downloaded data is
  dropped by \<^verbatim>\<open>UpdateNextRefreshTime\<close>.
\<close>

definition stored_data :: "mem \<Rightarrow> string \<Rightarrow> string option" where
  "stored_data s k = map_option p_Data (policies s k)"

lemma set_next_refresh_mem:
  assumes "set_next_refresh (mem_refresh_storage clk order) p t w = (r, w')"
  shows "stored_data (w_store w') = stored_data (w_store w)"
  using assms
  by (auto simp: set_next_refresh_def on_store_def mem_refresh_storage_def stored_data_def
      mem_UpdateNextRefreshTime_def Let_def fun_eq_iff split: option.splits outcome.splits prod.splits)

lemma Execute_mem_data:
  assumes "refresh_Execute L n (mem_refresh_storage clk order) now p w = (r, w')"
  shows "stored_data (w_store w') = stored_data (w_store w)"
  using assms
  by (auto simp: refresh_Execute_def on_http_def
      split: outcome.splits if_splits prod.splits dest!: set_next_refresh_mem)

lemma refresh_all_mem_data:
  "refresh_all L n (mem_refresh_storage clk order) now ps w = (r, w') \<Longrightarrow>
   stored_data (w_store w') = stored_data (w_store w)"
proof (induction ps arbitrary: w)
  case (Cons p ps)
  then show ?case
    by (auto simp: sbind_def split: prod.splits outcome.splits dest!: Execute_mem_data)
qed simp

lemma mem_refresh_loop_data:
  "mem_refresh_loop now ks m = (res, m') \<Longrightarrow> map_option p_Data (m' k) = map_option p_Data (m k)"
  by (induction now ks m arbitrary: res m' rule: mem_refresh_loop.induct)
    (fastforce simp: Let_def split: option.splits if_splits prod.splits)+

lemma mem_GetRefreshPolicies_data:
  "mem_GetRefreshPolicies clk order s = (r, s') \<Longrightarrow> stored_data s' = stored_data s"
  by (auto simp: mem_GetRefreshPolicies_def stored_data_def fun_eq_iff split: prod.splits
      dest: mem_refresh_loop_data)

lemma refresh_tick_mem_data:
  assumes "refresh_tick L n (mem_refresh_storage clk order) now w = (r, w')"
  shows "stored_data (w_store w') = stored_data (w_store w)"
proof -
  obtain ps s' where s': "mem_GetRefreshPolicies clk order (w_store w) = (Ok ps, s')"
    by (cases "mem_refresh_loop clk (order (policies (w_store w))) (policies (w_store w))")
      (simp add: mem_GetRefreshPolicies_def)
  then have "on_store (rf_GetRefreshPolicies (mem_refresh_storage clk order)) w = (Ok ps, w\<lparr>w_store := s'\<rparr>)"
    by (simp add: mem_refresh_storage_def on_store_eq)
  then have "refresh_all L n (mem_refresh_storage clk order) now ps (w\<lparr>w_store := s'\<rparr>) = (r, w')"
    using assms by (simp add: refresh_tick_def)
  from refresh_all_mem_data [OF this] show ?thesis
    using mem_GetRefreshPolicies_data [OF s'] by simp
qed

lemma refresher_mem_data:
  "refresher_Start L n (\<lambda>now. mem_refresh_storage now order) ticks w = (r, w') \<Longrightarrow>
   stored_data (w_store w') = stored_data (w_store w)"
proof (induction ticks arbitrary: w)
  case (Cons now ticks)
  then show ?case
    by (auto simp: sbind_def split: prod.splits outcome.splits dest!: refresh_tick_mem_data)
qed simp

end
