(* ===== verification/Notify.thy ===== *)
theory Notify
  imports Clients Memory_Storage
begin

text \<open>
  The notifier (\<^verbatim>\<open>internal/notify/notify.go\<close>): a policy subscriber that publishes every change as an
  event and posts it to the web hooks of the policy's subscribers.
\<close>

section \<open>The notifier\<close>

record change_event =
  ce_Repository :: string
  ce_Name :: string
  ce_Version :: string
  ce_Group :: string

definition event_json :: "change_event \<Rightarrow> json" where
  "event_json e =
     JObj [(''repository'', JStr (ce_Repository e)), (''name'', JStr (ce_Name e)),
           (''version'', JStr (ce_Version e)), (''group'', JStr (ce_Group e))]"

text \<open>
  \<open>no_PolicySubscribers\<close> is the storage's \<^verbatim>\<open>PolicySubscribers\<close> with its arguments in the order of the
  interface: repository, name, group, version.  \<open>no_Send\<close> is \<^verbatim>\<open>Events.Send\<close>.
\<close>

record notifier =
  no_PolicySubscribers :: "string \<Rightarrow> string \<Rightarrow> string \<Rightarrow> string \<Rightarrow> subscriber list outcome"
  no_Send :: "json \<Rightarrow> event list \<Rightarrow> goerror option \<times> event list"
  no_client :: net
  no_codec :: codec

definition notify_New ::
  "(json \<Rightarrow> event list \<Rightarrow> goerror option \<times> event list) \<Rightarrow>
   (string \<Rightarrow> string \<Rightarrow> string \<Rightarrow> string \<Rightarrow> subscriber list outcome) \<Rightarrow> net \<Rightarrow> codec \<Rightarrow> notifier" where
  "notify_New events storage client C =
     \<lparr>no_PolicySubscribers = storage, no_Send = events, no_client = client, no_codec = C\<rparr>"

definition notify_getErrorBody :: "response \<Rightarrow> string" where
  "notify_getErrorBody resp = read_error_body resp"

definition notifySubscriber :: "notifier \<Rightarrow> subscriber \<Rightarrow> string \<Rightarrow> hist \<Rightarrow> unit outcome \<times> hist" where
  "notifySubscriber N b eventJSON =
     sbind (sret (http_NewRequest (no_client N) ''POST'' (sub_WebhookURL b) eventJSON)) (\<lambda>rq.
     sbind (http_Do (no_client N) (rq\<lparr>rq_Header := [(''Content-Type'', ''application/json'')]\<rparr>)) (\<lambda>res.
     sret (if rs_StatusCode res \<noteq> 200
           then Err (errors_New [AKind (GetKind (rs_StatusCode res)), AStr (notify_getErrorBody res)])
           else Ok ())))"

text \<open>An error is logged and the next subscriber follows.\<close>

fun notify_loop :: "notifier \<Rightarrow> subscriber list \<Rightarrow> string \<Rightarrow> hist \<Rightarrow> unit outcome \<times> hist" where
  "notify_loop N [] eventJSON h = (Ok (), h)"
| "notify_loop N (b # bs) eventJSON h =
     (case notifySubscriber N b eventJSON h of
        (Ok _, h') \<Rightarrow> notify_loop N bs eventJSON h'
      | (Err _, h') \<Rightarrow> notify_loop N bs eventJSON h'
      | (Panic t, h') \<Rightarrow> (Panic t, h')
      | (Blocked, h') \<Rightarrow> (Blocked, h'))"

definition notifySubscribers :: "notifier \<Rightarrow> change_event \<Rightarrow> hist \<Rightarrow> unit outcome \<times> hist" where
  "notifySubscribers N e =
     sbind (sret (no_PolicySubscribers N (ce_Repository e) (ce_Name e) (ce_Group e) (ce_Version e))) (\<lambda>bs.
     sbind (sret (marshal (no_codec N) (event_json e))) (\<lambda>eventJSON.
       notify_loop N bs eventJSON))"

text \<open>
  \<^verbatim>\<open>PolicyDataChange\<close> starts the goroutine that notifies the subscribers, which is kept with the pending
  notifications, and sends the event.
\<close>

record outbox =
  ob_events :: "event list"
  ob_pending :: "change_event list"

definition notifier_PolicyDataChange :: "notifier \<Rightarrow> outbox policy_subscriber" where
  "notifier_PolicyDataChange N policyRepository policyName policyGroup policyVersion ob =
     (let e = \<lparr>ce_Repository = policyRepository, ce_Name = policyName, ce_Version = policyVersion,
               ce_Group = policyGroup\<rparr>;
          (r, evs) = no_Send N (event_json e) (ob_events ob)
      in (r, \<lparr>ob_events = evs, ob_pending = ob_pending ob @ [e]\<rparr>))"

section \<open>Facts\<close>

definition webhook_request :: "subscriber \<Rightarrow> string \<Rightarrow> request" where
  "webhook_request b eventJSON =
     \<lparr>rq_Method = ''POST'', rq_URL = sub_WebhookURL b,
      rq_Header = [(''Content-Type'', ''application/json'')], rq_Body = eventJSON\<rparr>"

lemma notifySubscriber_request:
  assumes "answering (no_client N)"
  shows "\<exists>r. notifySubscriber N b eventJSON h =
      (r, if badRequest (no_client N) ''POST'' (sub_WebhookURL b) = None
          then h @ [webhook_request b eventJSON] else h) \<and> (r = Ok () \<or> (\<exists>e. r = Err e))"
proof (cases "badRequest (no_client N) ''POST'' (sub_WebhookURL b)")
  case None
  then have req: "http_NewRequest (no_client N) ''POST'' (sub_WebhookURL b) eventJSON
      = Ok \<lparr>rq_Method = ''POST'', rq_URL = sub_WebhookURL b, rq_Header = [], rq_Body = eventJSON\<rparr>"
    by (simp add: http_NewRequest_def)
  from assms show ?thesis
    by (rule answering_cases [where h = h and rq = "webhook_request b eventJSON"])
      (simp_all add: notifySubscriber_def req None http_Do_def webhook_request_def)
qed (simp add: notifySubscriber_def http_NewRequest_def)

text \<open>Every subscriber whose web hook is a URL gets the event, whatever happens to the others.\<close>

lemma notify_loop_requests:
  assumes "answering (no_client N)"
  shows "notify_loop N bs eventJSON h =
    (Ok (), h @ map (\<lambda>b. webhook_request b eventJSON)
       (filter (\<lambda>b. badRequest (no_client N) ''POST'' (sub_WebhookURL b) = None) bs))"
proof (induction bs arbitrary: h)
  case (Cons b bs)
  show ?case using notifySubscriber_request [OF assms, of b eventJSON h] Cons by auto
qed simp

text \<open>
  The listener of the in-memory storage calls its subscribers with version and group exchanged, so a
  notifier behind it would publish them exchanged.
\<close>

lemma memory_listener_swaps:
  "ob_pending (snd (mem_notify [notifier_PolicyDataChange N] p ob)) =
   ob_pending ob @ [\<lparr>ce_Repository = p_Repository p, ce_Name = p_Name p, ce_Version = p_Group p,
                      ce_Group = p_Version p\<rparr>]"
  by (auto simp: notifier_PolicyDataChange_def Let_def split: prod.splits option.splits)

end
