(* ===== verification/Did_Web.thy ===== *)
theory Did_Web
  imports Header
begin

text \<open>
  The Rego functions that convert between did:web identifiers and URLs
  (\<^verbatim>\<open>internal/regofunc/did_web.go\<close>), with the percent encoding they use (\<^verbatim>\<open>url.QueryEscape\<close>,
  \<^verbatim>\<open>url.PathUnescape\<close>) written out.  \<^verbatim>\<open>url.Parse\<close> and \<^verbatim>\<open>URL.String\<close> are parameters.
\<close>

section \<open>Percent encoding\<close>

definition is_digit :: "char \<Rightarrow> bool" where
  "is_digit c \<longleftrightarrow> (48 :: nat) \<le> of_char c \<and> of_char c \<le> (57 :: nat)"

definition unreserved :: "char \<Rightarrow> bool" where
  "unreserved c \<longleftrightarrow> is_lower c \<or> is_upper c \<or> is_digit c \<or> c \<in> {CHR ''-'', CHR ''_'', CHR ''.'', CHR ''~''}"

definition hex_char :: "nat \<Rightarrow> char" where
  "hex_char n = ''0123456789ABCDEF'' ! n"

fun QueryEscape :: "string \<Rightarrow> string" where
  "QueryEscape [] = []"
| "QueryEscape (c # s) =
     (if unreserved c then c # QueryEscape s
      else if c = CHR '' '' then CHR ''+'' # QueryEscape s
      else CHR ''%'' # hex_char (of_char c div 16) # hex_char (of_char c mod 16) # QueryEscape s)"

definition unhex :: "char \<Rightarrow> nat option" where
  "unhex c =
     (let n = of_char c in
      if 48 \<le> n \<and> n \<le> 57 then Some (n - 48)
      else if 97 \<le> n \<and> n \<le> 102 then Some (n - 87)
      else if 65 \<le> n \<and> n \<le> 70 then Some (n - 55)
      else None)"

definition escape_error :: goerror where
  "escape_error = Plain ''invalid URL escape''"

fun PathUnescape :: "string \<Rightarrow> string outcome" where
  "PathUnescape [] = Ok []"
| "PathUnescape (c # s) =
     (if c = CHR ''%'' then
        (case s of
           a # b # t \<Rightarrow>
             (case (unhex a, unhex b) of
                (Some x, Some y) \<Rightarrow> obind (PathUnescape t) (\<lambda>r. Ok (char_of (x * 16 + y) # r))
              | _ \<Rightarrow> Err escape_error)
         | _ \<Rightarrow> Err escape_error)
      else obind (PathUnescape s) (\<lambda>r. Ok (c # r)))"

section \<open>The conversions\<close>

record url =
  url_Scheme :: string
  url_Host :: string
  url_Path :: string

record did =
  did_scheme :: string
  did_method :: string
  did_path :: string

definition defaultURLPath :: string where
  "defaultURLPath = ''.well-known''"

definition did_json :: string where
  "did_json = ''did.json''"

fun path_of :: "string \<Rightarrow> string list \<Rightarrow> string" where
  "path_of path [] = path"
| "path_of path (v # vs) = path_of (path @ ''/'' @ v) vs"

definition didToURL :: "string \<Rightarrow> url outcome" where
  "didToURL did =
     (let ss = split_on CHR '':'' did in
      if length ss < 3 then Err (errors_New [AStr ''invalid DID, host is not found''])
      else if ss ! 0 \<noteq> ''did'' \<or> ss ! 1 \<noteq> ''web'' then
        Err (errors_New [AStr ''invalid DID, method is unknown''])
      else
        (let path = (if length ss > 3 then path_of [] (drop 3 ss) else defaultURLPath)
         in obind (owrap (\<lambda>_. errors_New [AStr ''failed to url decode host from DID''])
                     (PathUnescape (ss ! 2))) (\<lambda>host.
              Ok \<lparr>url_Scheme = ''https'', url_Host = host, url_Path = path @ ''/'' @ did_json\<rparr>)))"

fun did_segments :: "string \<Rightarrow> string list \<Rightarrow> string" where
  "did_segments path [] = path"
| "did_segments path (v # vs) =
     (if v = defaultURLPath then path
      else if v = [] then did_segments path vs
      else did_segments (path @ '':'' @ QueryEscape v) vs)"

definition urlToDID :: "url \<Rightarrow> did" where
  "urlToDID uri =
     (let sp = split_on CHR ''/'' (trim_suffix (url_Path uri) did_json);
          path = did_segments (QueryEscape (url_Host uri)) sp
      in \<lparr>did_scheme = ''did'', did_method = ''web'', did_path = trim_char CHR '':'' path\<rparr>)"

definition DID_String :: "did \<Rightarrow> string" where
  "DID_String d = did_scheme d @ '':'' @ did_method d @ '':'' @ did_path d"

text \<open>The Rego functions; their argument is the string the term holds.\<close>

definition DIDToURLFunc :: "(url \<Rightarrow> string) \<Rightarrow> string \<Rightarrow> string outcome" where
  "DIDToURLFunc urlString d =
     (if d = [] then Err (errors_New [AStr ''DID cannot be empty''])
      else obind (didToURL d) (\<lambda>u. Ok (urlString u)))"

definition URLToDIDFunc :: "(string \<Rightarrow> url outcome) \<Rightarrow> string \<Rightarrow> string outcome" where
  "URLToDIDFunc urlParse u =
     (if u = [] then Err (errors_New [AStr ''URL cannot be empty''])
      else obind (owrap (\<lambda>_. errors_New [AStr ''cannot parse URL'']) (urlParse u)) (\<lambda>uri.
        if url_Host uri = [] \<or> url_Scheme uri \<noteq> ''https''
        then Err (errors_New [AStr ''invalid URL for did:web method''])
        else Ok (DID_String (urlToDID uri))))"

section \<open>Facts about the encoding\<close>

lemma unhex_all: "list_all (\<lambda>n. unhex (hex_char n) = Some n) [0..<16]"
  by code_simp

lemma unhex_hex: "n < 16 \<Longrightarrow> unhex (hex_char n) = Some n"
  using unhex_all by (simp add: list_all_iff)

lemma hex_not_colon_all: "list_all (\<lambda>n. hex_char n \<noteq> CHR '':'') [0..<16]"
  by code_simp

lemma hex_not_colon: "n < 16 \<Longrightarrow> hex_char n \<noteq> CHR '':''"
  using hex_not_colon_all by (simp add: list_all_iff)

lemma unreserved_not: "\<not> unreserved CHR '':''" "\<not> unreserved CHR ''%''" "\<not> unreserved CHR ''/''"
  by code_simp+

lemma byte_halves: "(of_char c :: nat) div 16 < 16" "(of_char c :: nat) mod 16 < 16"
  by (rule less_mult_imp_div_less) simp_all

lemma QueryEscape_no_colon: "CHR '':'' \<notin> set (QueryEscape s)"
proof (induction s)
  case (Cons c s)
  have "c \<noteq> CHR '':''" if "unreserved c" using that unreserved_not by auto
  moreover have "hex_char (of_char c div 16) \<noteq> CHR '':''" "hex_char (of_char c mod 16) \<noteq> CHR '':''"
    using hex_not_colon byte_halves by blast+
  ultimately show ?case using Cons by auto
qed simp

lemma QueryEscape_Nil_iff [simp]: "QueryEscape s = [] \<longleftrightarrow> s = []"
  by (cases s) auto

text \<open>Decoding undoes encoding, except that a space has become a plus sign.\<close>

lemma PathUnescape_QueryEscape:
  "CHR '' '' \<notin> set s \<Longrightarrow> PathUnescape (QueryEscape s) = Ok s"
proof (induction s)
  case (Cons c s)
  have "c \<noteq> CHR ''%''" if "unreserved c" using that unreserved_not by auto
  moreover have "(of_char c :: nat) div 16 * 16 + of_char c mod 16 = of_char c"
    by (rule div_mult_mod_eq)
  ultimately show ?case
    using Cons by (auto simp: unhex_hex byte_halves)
qed simp

lemma QueryEscape_id: "list_all unreserved s \<Longrightarrow> QueryEscape s = s"
  by (induction s) auto

section \<open>The round trip\<close>

text \<open>
  Path segments that survive: not empty, not the well-known segment, and made of unreserved
  characters (\<^verbatim>\<open>didToURL\<close> decodes the host but not the path).
\<close>

definition plain_segment :: "string \<Rightarrow> bool" where
  "plain_segment v \<longleftrightarrow> v \<noteq> [] \<and> v \<noteq> defaultURLPath \<and> list_all unreserved v"

lemma unreserved_no_sep:
  "list_all unreserved v \<Longrightarrow> CHR '':'' \<notin> set v \<and> CHR ''/'' \<notin> set v"
  using unreserved_not by (auto simp: list_all_iff)

lemma path_of_append: "path_of path vs = path @ concat (map (\<lambda>v. ''/'' @ v) vs)"
  by (induction vs arbitrary: path) auto

lemma did_segments_plain:
  "list_all plain_segment vs \<Longrightarrow>
   did_segments path (vs @ [[]]) = path @ concat (map (\<lambda>v. '':'' @ v) vs)"
  by (induction vs arbitrary: path) (auto simp: plain_segment_def QueryEscape_id defaultURLPath_def)

lemma concat_join: "concat (map (\<lambda>v. c # v) vs) = (if vs = [] then [] else c # join_with [c] vs)"
proof (induction vs)
  case (Cons v vs)
  then show ?case by (cases vs) auto
qed simp

definition segments_path :: "string list \<Rightarrow> string" where
  "segments_path vs = concat (map (\<lambda>v. ''/'' @ v) vs) @ ''/'' @ did_json"

lemma split_segments_path:
  assumes "list_all plain_segment vs"
  shows "split_on CHR ''/'' (concat (map (\<lambda>v. ''/'' @ v) vs) @ ''/'') = [] # vs @ [[]]"
proof -
  have "concat (map (\<lambda>v. ''/'' @ v) vs) @ ''/'' = join_with ''/'' ([] # vs @ [[]])"
  proof (cases vs)
    case (Cons w ws)
    have "join_with ''/'' (vs @ [[]]) = join_with ''/'' vs @ ''/''"
      using join_snoc [of vs "''/''" "[]"] Cons by simp
    then show ?thesis using Cons concat_join [of "CHR ''/''" vs] by (simp add: join_Cons)
  qed simp
  moreover have "\<forall>w \<in> set ([] # vs @ [[]]). CHR ''/'' \<notin> set w"
    using assms unreserved_no_sep by (auto simp: list_all_iff plain_segment_def)
  ultimately show ?thesis using split_join [of "[] # vs @ [[]]" "CHR ''/''"] by simp
qed

lemma urlToDID_segments:
  assumes "list_all plain_segment vs" and "host \<noteq> []"
  shows "DID_String (urlToDID \<lparr>url_Scheme = sch, url_Host = host, url_Path = segments_path vs\<rparr>)
    = join_with '':'' (''did'' # ''web'' # QueryEscape host # vs)"
proof -
  have trim: "trim_suffix (segments_path vs) did_json = concat (map (\<lambda>v. ''/'' @ v) vs) @ ''/''"
    using trim_suffix_append [of "concat (map (\<lambda>v. ''/'' @ v) vs) @ ''/''" did_json]
    by (simp add: segments_path_def)
  define path where "path = QueryEscape host @ concat (map (\<lambda>v. '':'' @ v) vs)"
  have segs: "did_segments (QueryEscape host) ([] # vs @ [[]]) = path"
    using did_segments_plain [OF assms(1), of "QueryEscape host"]
    by (simp add: path_def defaultURLPath_def)
  have ends: "path \<noteq> []" "hd path \<noteq> CHR '':''" "last path \<noteq> CHR '':''"
  proof -
    have q: "QueryEscape host \<noteq> []" "CHR '':'' \<notin> set (QueryEscape host)"
      using assms(2) QueryEscape_no_colon by auto
    show "path \<noteq> []" using q by (simp add: path_def)
    show "hd path \<noteq> CHR '':''" using q by (cases "QueryEscape host") (auto simp: path_def)
    show "last path \<noteq> CHR '':''"
    proof (cases vs rule: rev_cases)
      case Nil
      then show ?thesis using q by (metis append_Nil2 concat.simps(1) last_in_set list.simps(8) path_def)
    next
      case (snoc us v)
      then have "v \<noteq> []" "CHR '':'' \<notin> set v"
        using assms(1) unreserved_no_sep by (auto simp: plain_segment_def)
      then have "last v \<noteq> CHR '':''" by (metis last_in_set)
      then show ?thesis using snoc \<open>v \<noteq> []\<close> by (simp add: path_def)
    qed
  qed
  have join: "path = join_with '':'' (QueryEscape host # vs)"
    using concat_join [of "CHR '':''" vs] by (cases vs) (simp_all add: path_def)
  have "urlToDID \<lparr>url_Scheme = sch, url_Host = host, url_Path = segments_path vs\<rparr>
      = \<lparr>did_scheme = ''did'', did_method = ''web'', did_path = trim_char CHR '':'' path\<rparr>"
    by (simp only: urlToDID_def Let_def url.simps trim split_segments_path [OF assms(1)] segs)
  then show ?thesis
    using trim_char_id [OF ends] join by (simp add: DID_String_def)
qed

lemma didToURL_segments:
  assumes "list_all plain_segment vs" and "vs \<noteq> []" and "CHR '' '' \<notin> set host"
  shows "didToURL (join_with '':'' (''did'' # ''web'' # QueryEscape host # vs))
    = Ok \<lparr>url_Scheme = ''https'', url_Host = host, url_Path = segments_path vs\<rparr>"
proof -
  have "\<forall>w \<in> set (''did'' # ''web'' # QueryEscape host # vs). CHR '':'' \<notin> set w"
    using assms(1) unreserved_no_sep QueryEscape_no_colon by (auto simp: list_all_iff plain_segment_def)
  then have sp: "split_on CHR '':'' (join_with '':'' (''did'' # ''web'' # QueryEscape host # vs))
      = ''did'' # ''web'' # QueryEscape host # vs"
    by (intro split_join) auto
  show ?thesis
    unfolding didToURL_def sp
    using assms(2,3)
    by (cases vs)
      (simp_all add: PathUnescape_QueryEscape path_of_append segments_path_def Let_def del: join_with.simps)
qed

lemma didToURL_host:
  assumes "CHR '' '' \<notin> set host"
  shows "didToURL (join_with '':'' [''did'', ''web'', QueryEscape host])
    = Ok \<lparr>url_Scheme = ''https'', url_Host = host, url_Path = defaultURLPath @ ''/'' @ did_json\<rparr>"
proof -
  have sp: "split_on CHR '':'' (join_with '':'' [''did'', ''web'', QueryEscape host])
      = [''did'', ''web'', QueryEscape host]"
    using QueryEscape_no_colon by (intro split_join) auto
  show ?thesis
    unfolding didToURL_def sp using assms by (simp add: PathUnescape_QueryEscape Let_def)
qed

text \<open>A path segment that needs encoding comes back encoded.\<close>

lemma didToURL_path_not_decoded:
  "didToURL ''did:web:example.com:a%20b'' =
     Ok \<lparr>url_Scheme = ''https'', url_Host = ''example.com'', url_Path = ''/a%20b/did.json''\<rparr>"
  by code_simp

end
