(* ===== verification/Rego_Funcs.thy ===== *)
theory Rego_Funcs
  imports Go_Std Storage_Interface Memory_Laws
begin

text \<open>
  The extension functions of the policy language (\<^verbatim>\<open>internal/regofunc\<close>): the registry, the key-value
  storage, the cache service, tasks, the DID resolver and the credential manager.  A Rego term is its
  JSON value (sets, which have none, are not considered); a function takes terms and gives a term or
  an error, acting on the history of requests or on the storage.
\<close>

section \<open>Terms\<close>

text \<open>
  \<^verbatim>\<open>ast.As\<close> decodes a term into a Go value.  A map is kept as the JSON value: \<open>JNull\<close> is the nil map.
\<close>

fun as_string :: "json \<Rightarrow> string outcome" where
  "as_string (JStr s) = Ok s"
| "as_string JNull = Ok []"
| "as_string _ = Err type_mismatch"

fun as_map :: "json \<Rightarrow> json outcome" where
  "as_map (JObj kvs) = Ok (JObj kvs)"
| "as_map JNull = Ok JNull"
| "as_map _ = Err type_mismatch"

fun as_strings :: "json list \<Rightarrow> string list outcome" where
  "as_strings [] = Ok []"
| "as_strings (v # vs) = obind (as_string v) (\<lambda>s. obind (as_strings vs) (\<lambda>ss. Ok (s # ss)))"

fun as_string_list :: "json \<Rightarrow> string list outcome" where
  "as_string_list (JArr vs) = as_strings vs"
| "as_string_list JNull = Ok []"
| "as_string_list _ = Err type_mismatch"

fun as_entries :: "(string \<times> json) list \<Rightarrow> (string \<times> string) list outcome" where
  "as_entries [] = Ok []"
| "as_entries ((k, v) # kvs) =
     obind (as_string v) (\<lambda>s. obind (as_entries kvs) (\<lambda>m. Ok ((k, s) # m)))"

fun as_string_map :: "json \<Rightarrow> (string \<times> string) list outcome" where
  "as_string_map (JObj kvs) = as_entries kvs"
| "as_string_map JNull = Ok []"
| "as_string_map _ = Err type_mismatch"

definition as_arg :: "string \<Rightarrow> 'a outcome \<Rightarrow> 'a outcome" where
  "as_arg what r = owrap (\<lambda>e. Plain (''invalid '' @ what @ '': '' @ err_text e)) r"

text \<open>Indexing a decoded map; the last entry of a key counts, and a missing key gives nil.\<close>

definition map_index :: "json \<Rightarrow> string \<Rightarrow> json" where
  "map_index m k =
     (case m of JObj kvs \<Rightarrow> (case map_of (rev kvs) k of Some v \<Rightarrow> v | None \<Rightarrow> JNull) | _ \<Rightarrow> JNull)"

definition address_not_set :: "string \<Rightarrow> string \<Rightarrow> goerror" where
  "address_not_set f service =
     Plain (''trying to use '' @ f @ '' Rego function, but '' @ service @ '' address is not set'')"

section \<open>The registry\<close>

text \<open>\<open>'f\<close> are the functions; \<open>None\<close> is the nil function.\<close>

definition regofunc_Register ::
  "string \<Rightarrow> 'f option \<Rightarrow> (string \<rightharpoonup> 'f) \<Rightarrow> unit outcome \<times> (string \<rightharpoonup> 'f)" where
  "regofunc_Register name fn registry =
     (case fn of
        None \<Rightarrow> (Panic (''cannot register nil Rego function: '' @ name), registry)
      | Some f \<Rightarrow>
          (case registry name of
             None \<Rightarrow> (Ok (), registry(name \<mapsto> f))
           | Some _ \<Rightarrow> (Ok (), registry)))"

definition regofunc_List :: "string list \<Rightarrow> (string \<rightharpoonup> 'f) \<Rightarrow> 'f list" where
  "regofunc_List order registry = range_values order registry"

text \<open>What \<^verbatim>\<open>main\<close> registers: the name in the registry and the name policies use.\<close>

definition main_registrations :: "(string \<times> string) list" where
  "main_registrations =
     [(''cacheGet'', ''cache.get''), (''cacheSet'', ''cache.set''), (''didResolve'', ''did.resolve''),
      (''taskCreate'', ''task.create''), (''taskListCreate'', ''tasklist.create''),
      (''verificationMethod'', ''verification_method''),
      (''verificationMethods'', ''verification_methods''),
      (''addVCProof'', ''add_vc_proof''), (''addVPProof'', ''add_vp_proof''),
      (''verifyProof'', ''proof.verify''),
      (''ocmLoginProofInvitation'', ''ocm.getLoginProofInvitation''),
      (''ocmSendPresentationRequest'', ''ocm.sendPresentationRequest''),
      (''ocmLoginProofResult'', ''ocm.getLoginProofResult''),
      (''ocmRawProofResult'', ''ocm.getRawProofResult''),
      (''didToURL'', ''did_to_url''), (''urlToDID'', ''url_to_did''),
      (''storageGet'', ''storage.get''), (''storageSet'', ''storage.set''),
      (''storageDelete'', ''storage.delete'')]"

fun register_all :: "(string \<times> 'f) list \<Rightarrow> (string \<rightharpoonup> 'f) \<Rightarrow> (string \<rightharpoonup> 'f)" where
  "register_all [] registry = registry"
| "register_all ((name, f) # rs) registry =
     register_all rs (snd (regofunc_Register name (Some f) registry))"

section \<open>Key-value storage\<close>

definition storage_key :: "json \<Rightarrow> string outcome" where
  "storage_key aKey =
     obind (as_arg ''key'' (as_string aKey)) (\<lambda>key.
       if blank key then Err (errors_New [AStr ''key cannot be empty'']) else Ok key)"

definition storage_get :: "(string \<Rightarrow> 'st \<Rightarrow> json outcome \<times> 'st) \<Rightarrow> json \<Rightarrow> 'st \<Rightarrow> json outcome \<times> 'st" where
  "storage_get get_data aKey =
     sbind (sret (storage_key aKey)) (\<lambda>key. get_data key)"

definition storage_set ::
  "(string \<Rightarrow> (string \<times> json) list \<Rightarrow> 'st \<Rightarrow> unit outcome \<times> 'st) \<Rightarrow> json \<Rightarrow> json \<Rightarrow> 'st \<Rightarrow>
   json outcome \<times> 'st" where
  "storage_set set_data aKey aData =
     sbind (sret (storage_key aKey)) (\<lambda>key.
     sbind (sret (as_arg ''data'' (struct_entries aData))) (\<lambda>data.
     sbind (set_data key data) (\<lambda>_. sret (Ok JNull))))"

definition storage_delete :: "(string \<Rightarrow> 'st \<Rightarrow> unit outcome \<times> 'st) \<Rightarrow> json \<Rightarrow> 'st \<Rightarrow> json outcome \<times> 'st" where
  "storage_delete delete_data aKey =
     sbind (sret (storage_key aKey)) (\<lambda>key.
     sbind (delete_data key) (\<lambda>_. sret (Ok JNull)))"

section \<open>Cache service\<close>

definition regocache_headers :: "string \<Rightarrow> string \<Rightarrow> string \<Rightarrow> (string \<times> string) list" where
  "regocache_headers key namespace scope =
     [(''x-cache-key'', key), (''x-cache-namespace'', namespace), (''x-cache-scope'', scope)]"

text \<open>Like the client, \<^verbatim>\<open>cache.get\<close> uses the request before it checks whether there is one.\<close>

definition rego_CacheGet ::
  "codec \<Rightarrow> net \<Rightarrow> string \<Rightarrow> json \<Rightarrow> json \<Rightarrow> json \<Rightarrow> hist \<Rightarrow> json outcome \<times> hist" where
  "rego_CacheGet C n addr a b c =
     (if addr = [] then sret (Err (address_not_set ''cache.get'' ''cache''))
      else
        sbind (sret (as_arg ''key'' (as_string a))) (\<lambda>key.
        sbind (sret (as_arg ''namespace'' (as_string b))) (\<lambda>namespace.
        sbind (sret (as_arg ''scope'' (as_string c))) (\<lambda>scope.
          case http_NewRequest n ''GET'' (addr @ ''/v1/cache'') [] of
            Ok rq \<Rightarrow>
              sbind (http_Do n (rq\<lparr>rq_Header := regocache_headers key namespace scope\<rparr>)) (\<lambda>resp.
                if rs_StatusCode resp \<noteq> 200 \<and> rs_StatusCode resp \<noteq> 404 then
                  sret (Err (Plain (''unexpected response: '' @ int_text (rs_StatusCode resp) @ '' ''
                    @ rs_Status resp)))
                else sret (decode_body C resp))
          | _ \<Rightarrow> sret (Panic ''nil pointer dereference'')))))"

definition unexpected_code :: "response \<Rightarrow> goerror" where
  "unexpected_code resp = Plain (''unexpected response code: '' @ int_text (rs_StatusCode resp))"

definition rego_CacheSet ::
  "codec \<Rightarrow> net \<Rightarrow> string \<Rightarrow> json \<Rightarrow> json \<Rightarrow> json \<Rightarrow> json \<Rightarrow> hist \<Rightarrow> json outcome \<times> hist" where
  "rego_CacheSet C n addr k ns sc d =
     (if addr = [] then sret (Err (address_not_set ''cache.set'' ''cache''))
      else
        sbind (sret (as_arg ''key'' (as_string k))) (\<lambda>key.
        sbind (sret (as_arg ''namespace'' (as_string ns))) (\<lambda>namespace.
        sbind (sret (as_arg ''scope'' (as_string sc))) (\<lambda>scope.
        sbind (sret (as_arg ''data'' (as_map d))) (\<lambda>data.
        sbind (sret (marshal C data)) (\<lambda>jsonData.
        sbind (sret (http_NewRequest n ''POST'' (addr @ ''/v1/cache'') jsonData)) (\<lambda>rq.
        sbind (http_Do n (rq\<lparr>rq_Header := regocache_headers key namespace scope\<rparr>)) (\<lambda>resp.
          if rs_StatusCode resp \<noteq> 201 \<and> rs_StatusCode resp \<noteq> 200 then sret (Err (unexpected_code resp))
          else sret (Ok (JStr ''success''))))))))))"

section \<open>Tasks\<close>

text \<open>\<open>requestURI\<close> is \<^verbatim>\<open>url.ParseRequestURI\<close> followed by \<^verbatim>\<open>URL.String\<close>.\<close>

definition create_task ::
  "codec \<Rightarrow> net \<Rightarrow> (string \<Rightarrow> string outcome) \<Rightarrow> string \<Rightarrow> string \<Rightarrow> string \<Rightarrow> string \<Rightarrow> json \<Rightarrow> json \<Rightarrow>
   hist \<Rightarrow> json outcome \<times> hist" where
  "create_task C n requestURI func path what addr aName aData =
     (if addr = [] then sret (Err (address_not_set func ''task''))
      else
        sbind (sret (as_arg what (as_string aName))) (\<lambda>name.
        sbind (sret (as_arg ''data'' (as_map aData))) (\<lambda>data.
        sbind (sret (marshal C data)) (\<lambda>jsonData.
        sbind (sret (requestURI (addr @ path @ name))) (\<lambda>u.
        sbind (sret (http_NewRequest n ''POST'' u jsonData)) (\<lambda>rq.
        sbind (http_Do n rq) (\<lambda>resp.
          if rs_StatusCode resp \<noteq> 201 \<and> rs_StatusCode resp \<noteq> 200 then sret (Err (unexpected_code resp))
          else sret (decode_body C resp))))))))"

definition rego_CreateTask ::
  "codec \<Rightarrow> net \<Rightarrow> (string \<Rightarrow> string outcome) \<Rightarrow> string \<Rightarrow> json \<Rightarrow> json \<Rightarrow> hist \<Rightarrow> json outcome \<times> hist" where
  "rego_CreateTask C n requestURI = create_task C n requestURI ''task.create'' ''/v1/task/'' ''task name''"

definition rego_CreateTaskList ::
  "codec \<Rightarrow> net \<Rightarrow> (string \<Rightarrow> string outcome) \<Rightarrow> string \<Rightarrow> json \<Rightarrow> json \<Rightarrow> hist \<Rightarrow> json outcome \<times> hist" where
  "rego_CreateTaskList C n requestURI =
     create_task C n requestURI ''tasklist.create'' ''/v1/taskList/'' ''taskList name''"

section \<open>DID resolver\<close>

text \<open>The status of the response is not looked at.\<close>

definition rego_DIDResolve ::
  "codec \<Rightarrow> net \<Rightarrow> string \<Rightarrow> json \<Rightarrow> hist \<Rightarrow> json outcome \<times> hist" where
  "rego_DIDResolve C n addr a =
     sbind (sret (as_arg ''DID'' (as_string a))) (\<lambda>DID.
       if DID = [] then sret (Err (errors_New [AStr ''DID cannot be empty'']))
       else
         sbind (sret (http_NewRequest n ''GET'' (addr @ ''/1.0/identifiers/'' @ DID) [])) (\<lambda>rq.
         sbind (http_Do n rq) (\<lambda>resp. sret (decode_body C resp))))"

section \<open>Credential manager\<close>

text \<open>
  The client library is a parameter: its calls give the link and the identifier of an invitation, the
  claims of the presentations, or the raw result.
\<close>

record ocm_client =
  oc_GetLoginProofInvitation :: "string list \<Rightarrow> hist \<Rightarrow> (string \<times> string) outcome \<times> hist"
  oc_SendOutOfBandRequest :: "json \<Rightarrow> hist \<Rightarrow> (string \<times> string) outcome \<times> hist"
  oc_GetLoginProofResult :: "string \<Rightarrow> hist \<Rightarrow> (string \<times> json) list list outcome \<times> hist"
  oc_GetRawLoginProofResult :: "string \<Rightarrow> hist \<Rightarrow> json outcome \<times> hist"

fun cred_types_loop ::
  "(string \<times> string) list \<Rightarrow> string list \<Rightarrow> string list \<Rightarrow> string list \<Rightarrow> string list outcome" where
  "cred_types_loop scopeToType distinctTypes credTypes [] = Ok credTypes"
| "cred_types_loop scopeToType distinctTypes credTypes (scope # scopes) =
     (case map_of (rev scopeToType) scope of
        None \<Rightarrow> Err (Plain (''scope not found in scope to type map: '' @ scope))
      | Some credType \<Rightarrow>
          cred_types_loop scopeToType (credType # distinctTypes)
            (if credType \<noteq> [] \<and> credType \<notin> set distinctTypes then credTypes @ [credType] else credTypes)
            scopes)"

text \<open>\<^verbatim>\<open>fmt\<close> prints a map with its keys sorted.\<close>

definition map_text :: "(string \<times> string) list \<Rightarrow> string" where
  "map_text m = ''map['' @ join_with '' '' (map (\<lambda>(k, v). k @ '':'' @ v) (sort_key fst m)) @ '']''"

definition invitation_value :: "string \<times> string \<Rightarrow> json" where
  "invitation_value r = JObj [(''link'', JStr (fst r)), (''requestId'', JStr (snd r))]"

definition ocm_GetLoginProofInvitation ::
  "ocm_client \<Rightarrow> string \<Rightarrow> json \<Rightarrow> json \<Rightarrow> hist \<Rightarrow> json outcome \<times> hist" where
  "ocm_GetLoginProofInvitation M addr rScopes scopesMap =
     (if addr = [] then sret (Err (address_not_set ''ocm.getLoginProofInvitation'' ''ocm''))
      else
        sbind (sret (as_arg ''scopes array'' (as_string_list rScopes))) (\<lambda>scopes.
        sbind (sret (as_arg ''scope to credential type map'' (as_string_map scopesMap))) (\<lambda>scopeToType.
        sbind (sret (cred_types_loop scopeToType [] [] scopes)) (\<lambda>credTypes.
          if credTypes = [] then
            sret (Err (Plain (''no credential types found in the scope to type map: '' @ map_text scopeToType)))
          else
            sbind (oc_GetLoginProofInvitation M credTypes) (\<lambda>r. sret (Ok (invitation_value r)))))))"

definition ocm_SendPresentationRequest ::
  "ocm_client \<Rightarrow> string \<Rightarrow> json \<Rightarrow> hist \<Rightarrow> json outcome \<times> hist" where
  "ocm_SendPresentationRequest M addr request =
     (if addr = [] then sret (Err (address_not_set ''ocm.sendPresentationRequest'' ''ocm''))
      else
        sbind (sret (as_arg ''request map'' (as_map request))) (\<lambda>req.
        sbind (oc_SendOutOfBandRequest M req) (\<lambda>r. sret (Ok (invitation_value r)))))"

text \<open>The claims of all presentations in one map; a later presentation overwrites an earlier one.\<close>

fun collect_claims :: "(string \<rightharpoonup> json) \<Rightarrow> (string \<times> json) list list \<Rightarrow> (string \<rightharpoonup> json)" where
  "collect_claims claims [] = claims"
| "collect_claims claims (pres # ps) = collect_claims (claims ++ map_of pres) ps"

definition ocm_GetLoginProofResult ::
  "ocm_client \<Rightarrow> string \<Rightarrow> json \<Rightarrow> hist \<Rightarrow> (string \<rightharpoonup> json) outcome \<times> hist" where
  "ocm_GetLoginProofResult M addr pid =
     (if addr = [] then sret (Err (address_not_set ''ocm.getLoginProofResult'' ''ocm''))
      else
        sbind (sret (as_arg ''presentationId'' (as_string pid))) (\<lambda>presentationID.
        sbind (oc_GetLoginProofResult M presentationID) (\<lambda>ps.
          sret (Ok (collect_claims Map.empty ps)))))"

definition ocm_GetRawProofResult ::
  "ocm_client \<Rightarrow> string \<Rightarrow> json \<Rightarrow> hist \<Rightarrow> json outcome \<times> hist" where
  "ocm_GetRawProofResult M addr pid =
     (if addr = [] then sret (Err (address_not_set ''ocm.getRawProofResult'' ''ocm''))
      else
        sbind (sret (as_arg ''presentationId'' (as_string pid))) (\<lambda>presentationID.
          oc_GetRawLoginProofResult M presentationID))"

section \<open>Facts\<close>

lemma Register_keeps: "registry name = Some f \<Longrightarrow> snd (regofunc_Register name g registry) = registry"
  by (auto simp: regofunc_Register_def split: option.splits)

lemma register_all_apply:
  "register_all rs registry name =
     (case registry name of Some f \<Rightarrow> Some f | None \<Rightarrow> map_of rs name)"
proof (induction rs arbitrary: registry)
  case Nil
  then show ?case by (simp split: option.splits)
next
  case (Cons r rs)
  then show ?case
    by (cases r) (auto simp: regofunc_Register_def split: option.splits)
qed

lemma main_registrations_distinct:
  "distinct (map fst main_registrations) \<and> distinct (map snd main_registrations)"
  by code_simp

text \<open>The types requested are the non-empty types of the scopes, each once, in order of appearance.\<close>

fun first_occurrences :: "'a list \<Rightarrow> 'a list" where
  "first_occurrences [] = []"
| "first_occurrences (x # xs) = x # filter (\<lambda>y. y \<noteq> x) (first_occurrences xs)"

lemma set_first_occurrences [simp]: "set (first_occurrences xs) = set xs"
  by (induction xs) auto

lemma distinct_first_occurrences [simp]: "distinct (first_occurrences xs)"
  by (induction xs) auto

lemma cred_types_loop_eq:
  assumes "list_all (\<lambda>s. map_of (rev m) s \<noteq> None) scopes"
  shows "cred_types_loop m seen acc scopes =
    Ok (acc @ filter (\<lambda>t. t \<noteq> [] \<and> t \<notin> set seen)
          (first_occurrences (map (\<lambda>s. the (map_of (rev m) s)) scopes)))"
  using assms
proof (induction scopes arbitrary: seen acc)
  case (Cons s scopes)
  then obtain t where t: "map_of (rev m) s = Some t" by auto
  have "filter (\<lambda>u. u \<noteq> [] \<and> u \<notin> set (t # seen)) xs =
      filter (\<lambda>u. u \<noteq> [] \<and> u \<notin> set seen) (filter (\<lambda>y. y \<noteq> t) xs)" for xs
    by (induction xs) auto
  then show ?case using Cons t by auto
qed simp

lemma cred_types_loop_missing:
  assumes "\<not> list_all (\<lambda>s. map_of (rev m) s \<noteq> None) scopes"
  shows "\<exists>e. cred_types_loop m seen acc scopes = Err e"
  using assms
  by (induction scopes arbitrary: seen acc) (auto split: option.splits)

section \<open>Storage functions over any data store\<close>

context data_store
begin

lemma storage_set_then_get:
  assumes "invar s" and "storage_key k = Ok key" and "storage_set set_data k (JObj d) s = (r, s')"
  shows "r = Ok JNull \<and> storage_get get_data k s' = (Ok (JObj d), s')"
proof -
  obtain t where t: "set_data key d s = (Ok (), t)" "invar t" "contents t = (contents s)(key \<mapsto> JObj d)"
    using set_data_stores [OF assms(1)] by blast
  then have "r = Ok JNull" "s' = t"
    using assms by (auto simp: storage_set_def as_arg_def)
  then show ?thesis using assms(2) t by (simp add: storage_get_def get_data_found)
qed

lemma storage_delete_then_get:
  assumes "invar s" and "storage_key k = Ok key" and "contents s key \<noteq> None" and "storage_delete delete_data k s = (r, s')"
  shows "r = Ok JNull \<and> (\<exists>e. storage_get get_data k s' = (Err e, s'))"
proof -
  obtain v where "contents s key = Some v" using assms(3) by auto
  then obtain t where t: "delete_data key s = (Ok (), t)" "invar t" "contents t = (contents s)(key := None)"
    using delete_data_found [OF assms(1)] by blast
  then have "r = Ok JNull" "s' = t"
    using assms by (auto simp: storage_delete_def)
  moreover obtain e where "get_data key t = (Err e, t)"
    using t(2,3) get_data_missing [of t key] by auto
  ultimately show ?thesis using assms(2) by (simp add: storage_get_def)
qed

lemma storage_other_keys:
  assumes "invar s" "storage_key k = Ok key" "storage_key k' = Ok key'" "key \<noteq> key'"
    and "storage_set set_data k v s = (Ok r, s')" and "contents s key' = Some x"
  shows "storage_get get_data k' s' = (Ok x, s')"
proof -
  obtain d where d: "struct_entries v = Ok d"
    using assms(2,5) by (cases v) (auto simp: storage_set_def as_arg_def)
  obtain t where t: "set_data key d s = (Ok (), t)" "invar t" "contents t = (contents s)(key \<mapsto> JObj d)"
    using set_data_stores [OF assms(1)] by blast
  then have "s' = t" using assms(2,5) d by (simp add: storage_set_def as_arg_def)
  then show ?thesis using assms(3,4,6) t by (simp add: storage_get_def get_data_found)
qed

end

end
