(* ===== verification/Rego_Signer.thy ===== *)
theory Rego_Signer
  imports Rego_Funcs
begin

text \<open>
  The extension functions that talk to the signer (\<^verbatim>\<open>internal/regofunc/signer.go\<close>): verification
  methods, proofs for verifiable credentials and presentations, and their verification.
\<close>

section \<open>Checks\<close>

text \<open>The three kinds of string arguments and the text of the error when one is blank.\<close>

definition nonblank :: "string \<Rightarrow> string \<Rightarrow> unit outcome" where
  "nonblank what s = (if blank s then Err (Plain (''empty '' @ what)) else Ok ())"

text \<open>The member \<^verbatim>\<open>type\<close> of a credential or presentation must be present and a string.\<close>

definition string_type :: "goerror \<Rightarrow> goerror \<Rightarrow> json \<Rightarrow> string outcome" where
  "string_type missing not_string cred =
     (case map_index cred ''type'' of
        JNull \<Rightarrow> Err missing
      | JStr t \<Rightarrow> Ok t
      | _ \<Rightarrow> Err not_string)"

definition signer_unexpected :: "response \<Rightarrow> goerror" where
  "signer_unexpected resp = Plain (''unexpected response from signer: '' @ rs_Status resp)"

definition signer_get :: "codec \<Rightarrow> net \<Rightarrow> (string \<Rightarrow> string outcome) \<Rightarrow> string \<Rightarrow> hist \<Rightarrow> json outcome \<times> hist" where
  "signer_get C n requestURI url =
     sbind (sret (requestURI url)) (\<lambda>u.
     sbind (sret (http_NewRequest n ''GET'' u [])) (\<lambda>rq.
     sbind (http_Do n rq) (\<lambda>resp.
       if rs_StatusCode resp \<noteq> 200 then sret (Err (signer_unexpected resp))
       else sret (decode_body C resp))))"

definition signer_post :: "codec \<Rightarrow> net \<Rightarrow> string \<Rightarrow> json \<Rightarrow> hist \<Rightarrow> response outcome \<times> hist" where
  "signer_post C n url payload =
     sbind (sret (marshal C payload)) (\<lambda>payloadJSON.
     sbind (sret (http_NewRequest n ''POST'' url payloadJSON)) (\<lambda>rq.
     sbind (http_Do n rq) (\<lambda>resp.
       if rs_StatusCode resp \<noteq> 200 then sret (Err (signer_unexpected resp)) else sret (Ok resp))))"

section \<open>Verification methods\<close>

definition rego_VerificationMethod ::
  "codec \<Rightarrow> net \<Rightarrow> (string \<Rightarrow> string outcome) \<Rightarrow> string \<Rightarrow> json \<Rightarrow> json \<Rightarrow> json \<Rightarrow> hist \<Rightarrow>
   json outcome \<times> hist" where
  "rego_VerificationMethod C n requestURI addr aDID aNamespace aKey =
     (if addr = [] then sret (Err (address_not_set ''verification_method'' ''signer''))
      else
        sbind (sret (as_arg ''did'' (as_string aDID))) (\<lambda>did.
        sbind (sret (as_arg ''key namespace'' (as_string aNamespace))) (\<lambda>namespace.
        sbind (sret (as_arg ''key name'' (as_string aKey))) (\<lambda>key.
        sbind (sret (nonblank ''did'' did)) (\<lambda>_.
        sbind (sret (nonblank ''key namespace'' namespace)) (\<lambda>_.
        sbind (sret (nonblank ''keyname'' key)) (\<lambda>_.
          signer_get C n requestURI
            (addr @ ''/v1/verification-methods/'' @ namespace @ ''/'' @ key @ ''/'' @ did))))))))"

definition rego_VerificationMethods ::
  "codec \<Rightarrow> net \<Rightarrow> (string \<Rightarrow> string outcome) \<Rightarrow> string \<Rightarrow> json \<Rightarrow> json \<Rightarrow> hist \<Rightarrow> json outcome \<times> hist" where
  "rego_VerificationMethods C n requestURI addr aDID aNamespace =
     (if addr = [] then sret (Err (address_not_set ''verification_methods'' ''signer''))
      else
        sbind (sret (as_arg ''did'' (as_string aDID))) (\<lambda>did.
        sbind (sret (as_arg ''key namespace'' (as_string aNamespace))) (\<lambda>namespace.
        sbind (sret (nonblank ''did'' did)) (\<lambda>_.
        sbind (sret (nonblank ''key namespace'' namespace)) (\<lambda>_.
          signer_get C n requestURI (addr @ ''/v1/verification-methods/'' @ namespace @ ''/'' @ did))))))"

section \<open>Adding proofs\<close>

definition vc_type :: "json \<Rightarrow> unit outcome" where
  "vc_type cred =
     obind (string_type
         (Plain ''credential data does not specify type: must be VerifiableCredential'')
         (Plain ''invalid credential type: string is expected'') cred) (\<lambda>t.
       if t \<noteq> ''VerifiableCredential'' then Err (Plain (''unknown credential type: '' @ quoted t))
       else Ok ())"

definition rego_AddVCProof ::
  "codec \<Rightarrow> net \<Rightarrow> string \<Rightarrow> json \<Rightarrow> json \<Rightarrow> json \<Rightarrow> hist \<Rightarrow> json outcome \<times> hist" where
  "rego_AddVCProof C n addr aNamespace aKey credential =
     (if addr = [] then sret (Err (address_not_set ''add_vc_proof'' ''signer''))
      else
        sbind (sret (as_arg ''key namespace'' (as_string aNamespace))) (\<lambda>namespace.
        sbind (sret (as_arg ''key name'' (as_string aKey))) (\<lambda>key.
        sbind (sret (nonblank ''key namespace'' namespace)) (\<lambda>_.
        sbind (sret (nonblank ''keyname'' key)) (\<lambda>_.
        sbind (sret (as_arg ''credential'' (as_map credential))) (\<lambda>cred.
        sbind (sret (vc_type cred)) (\<lambda>_.
        sbind (signer_post C n (addr @ ''/v1/credential/proof'')
                 (JObj [(''credential'', cred), (''key'', JStr key), (''namespace'', JStr namespace)]))
          (\<lambda>resp. sret (decode_body C resp)))))))))"

definition vp_type :: "json \<Rightarrow> unit outcome" where
  "vp_type pres =
     obind (string_type
         (Plain ''presentation data does not specify type: must be VerifiablePresentation'')
         (Plain ''invalid presentation type: string is expected'') pres) (\<lambda>t.
       if t \<noteq> ''VerifiablePresentation'' then Err (Plain (''unknown presentation type: '' @ quoted t))
       else Ok ())"

definition rego_AddVPProof ::
  "codec \<Rightarrow> net \<Rightarrow> string \<Rightarrow> json \<Rightarrow> json \<Rightarrow> json \<Rightarrow> json \<Rightarrow> hist \<Rightarrow> json outcome \<times> hist" where
  "rego_AddVPProof C n addr aDID aNamespace aKey presentation =
     (if addr = [] then sret (Err (address_not_set ''add_vp_proof'' ''signer''))
      else
        sbind (sret (as_arg ''did'' (as_string aDID))) (\<lambda>did.
        sbind (sret (as_arg ''key namespace'' (as_string aNamespace))) (\<lambda>namespace.
        sbind (sret (as_arg ''key name'' (as_string aKey))) (\<lambda>key.
        sbind (sret (nonblank ''did'' did)) (\<lambda>_.
        sbind (sret (nonblank ''key namespace'' namespace)) (\<lambda>_.
        sbind (sret (nonblank ''keyname'' key)) (\<lambda>_.
        sbind (sret (as_arg ''presentation'' (as_map presentation))) (\<lambda>pres.
        sbind (sret (vp_type pres)) (\<lambda>_.
        sbind (signer_post C n (addr @ ''/v1/presentation/proof'')
                 (JObj [(''issuer'', JStr did), (''key'', JStr key), (''namespace'', JStr namespace),
                        (''presentation'', pres)]))
          (\<lambda>resp. sret (decode_body C resp)))))))))))"

section \<open>Verifying proofs\<close>

definition verify_path :: "string \<Rightarrow> string outcome" where
  "verify_path credType =
     (if credType = ''VerifiableCredential'' then Ok ''/v1/credential/verify''
      else if credType = ''VerifiablePresentation'' then Ok ''/v1/presentation/verify''
      else Err (Plain (''unknown credential type: '' @ quoted credType)))"

definition proof_type :: "json \<Rightarrow> string outcome" where
  "proof_type cred =
     string_type
       (Plain ''credential data does not specify type: must be VerifiablePresentation or VerifiableCredential'')
       (Plain ''invalid credential type, string is expected'') cred"

definition rego_VerifyProof ::
  "codec \<Rightarrow> net \<Rightarrow> string \<Rightarrow> json \<Rightarrow> hist \<Rightarrow> json outcome \<times> hist" where
  "rego_VerifyProof C n addr credential =
     (if addr = [] then sret (Err (address_not_set ''proof.verify'' ''signer''))
      else
        sbind (sret (as_arg ''credential'' (as_map credential))) (\<lambda>cred.
        sbind (sret (proof_type cred)) (\<lambda>credType.
          if map_index cred ''proof'' = JNull then
            sret (Err (Plain ''credential data does contain proof section''))
          else
            sbind (sret (verify_path credType)) (\<lambda>path.
            sbind (signer_post C n (addr @ path) cred) (\<lambda>resp.
            sbind (sret (owrap (\<lambda>e. Plain (''failed to decode response from signer: '' @ err_text e))
                     (obind (decode_body C resp) (\<lambda>v.
                      obind (struct_entries v) (\<lambda>kvs. bool_field C ''valid'' kvs False))))) (\<lambda>valid.
              if \<not> valid then sret (Err (Plain ''proof is invalid''))
              else sret (Ok (JBool True))))))))"

section \<open>Facts\<close>

lemma signer_post_OkD:
  assumes "signer_post C n url payload h = (Ok resp, h')"
  shows "\<exists>txt rq. marshal C payload = Ok txt \<and> http_NewRequest n ''POST'' url txt = Ok rq \<and>
    respond n h rq = Ok resp \<and> rs_StatusCode resp = 200 \<and> h' = h @ [rq]"
  using assms
  by (auto simp: signer_post_def http_Do_def split: if_splits dest!: sbind_OkD)

text \<open>A proof counts as valid only if the signer said so.\<close>

lemma VerifyProof_OkD:
  assumes "rego_VerifyProof C n addr credential h = (Ok v, h')"
  shows "v = JBool True \<and> (\<exists>cred t path txt rq resp kvs.
    as_map credential = Ok cred \<and> map_index cred ''type'' = JStr t \<and> verify_path t = Ok path \<and>
    map_index cred ''proof'' \<noteq> JNull \<and> marshal C cred = Ok txt \<and>
    http_NewRequest n ''POST'' (addr @ path) txt = Ok rq \<and> h' = h @ [rq] \<and>
    respond n h rq = Ok resp \<and> rs_StatusCode resp = 200 \<and>
    decode_body C resp = Ok kvs \<and> obind (struct_entries kvs) (\<lambda>kvs. bool_field C ''valid'' kvs False) = Ok True)"
  using assms
  by (auto simp: rego_VerifyProof_def as_arg_def proof_type_def string_type_def obind_Ok_iff
      split: if_splits json.splits dest!: sbind_OkD signer_post_OkD)

text \<open>Nothing is sent for a credential of another type.\<close>

lemma AddVCProof_other_type:
  assumes "as_map credential = Ok cred" and "map_index cred ''type'' \<noteq> JStr ''VerifiableCredential''"
  shows "\<exists>e. rego_AddVCProof C n addr aNamespace aKey credential h = (e, h) \<and> (\<forall>v. e \<noteq> Ok v)"
proof -
  have "\<exists>e. vc_type cred = Err e"
    using assms(2) by (auto simp: vc_type_def string_type_def split: json.splits)
  then show ?thesis
    using assms(1)
    by (auto simp: rego_AddVCProof_def sbind_def sret_def as_arg_def split: outcome.splits)
qed

lemma AddVPProof_other_type:
  assumes "as_map presentation = Ok pres" and "map_index pres ''type'' \<noteq> JStr ''VerifiablePresentation''"
  shows "\<exists>e. rego_AddVPProof C n addr aDID aNamespace aKey presentation h = (e, h) \<and> (\<forall>v. e \<noteq> Ok v)"
proof -
  have "\<exists>e. vp_type pres = Err e"
    using assms(2) by (auto simp: vp_type_def string_type_def split: json.splits)
  then show ?thesis
    using assms(1)
    by (auto simp: rego_AddVPProof_def sbind_def sret_def as_arg_def split: outcome.splits)
qed

end
