(* ===== verification/Mongo_Collection.thy ===== *)
theory Mongo_Collection
  imports Storage_Interface "HOL-Library.Multiset"
begin

text \<open>
  The part of the MongoDB driver the program uses.  The driver and the server are parameters: a record
  of the calls on a collection, with \<open>coll_ok\<close> stating the documented effect of the calls as used here.
  Filters and updates are the documents the code builds.
\<close>

section \<open>Filters and updates\<close>

datatype bval = BStr string | BBool bool | BTime time | BDur duration | BId nat | BData "(string \<times> json) list"

text \<open>
  Equality, \<^verbatim>\<open>$in\<close> on identifiers, \<^verbatim>\<open>$gt\<close>/\<^verbatim>\<open>$lte\<close> on times, and a case-insensitive regular expression.
\<close>

datatype cond = Eq bval | InIds "nat list" | Later_upto time time | Upto time | RegexI string

type_synonym bfilter = "(string \<times> cond) list"
type_synonym update = "(string \<times> bval) list"

text \<open>\<open>re\<close> matches a pattern (with option \<^verbatim>\<open>i\<close>) against a text.\<close>

fun cond_holds :: "(string \<Rightarrow> string \<Rightarrow> bool) \<Rightarrow> cond \<Rightarrow> bval \<Rightarrow> bool" where
  "cond_holds re (Eq v) w = (v = w)"
| "cond_holds re (InIds is) (BId i) = (i \<in> set is)"
| "cond_holds re (Later_upto a b) (BTime t) = (a < t \<and> t \<le> b)"
| "cond_holds re (Upto b) (BTime t) = (t \<le> b)"
| "cond_holds re (RegexI pat) (BStr s) = re pat s"
| "cond_holds re _ _ = False"

definition matches ::
  "(string \<Rightarrow> string \<Rightarrow> bool) \<Rightarrow> (string \<Rightarrow> 'd \<Rightarrow> bval) \<Rightarrow> bfilter \<Rightarrow> 'd \<Rightarrow> bool" where
  "matches re get f d \<longleftrightarrow> list_all (\<lambda>(k, c). cond_holds re c (get k d)) f"

fun apply_set :: "(string \<Rightarrow> bval \<Rightarrow> 'd \<Rightarrow> 'd) \<Rightarrow> update \<Rightarrow> 'd \<Rightarrow> 'd" where
  "apply_set put [] d = d"
| "apply_set put ((k, v) # u) d = apply_set put u (put k v d)"

text \<open>What an upsert takes from its filter.\<close>

fun equalities :: "bfilter \<Rightarrow> update" where
  "equalities [] = []"
| "equalities ((k, Eq v) # f) = (k, v) # equalities f"
| "equalities (_ # f) = equalities f"

section \<open>A collection\<close>

text \<open>
  \<open>'c\<close> is the state of the collection, \<open>'d\<close> the Go type its documents are decoded into.  \<open>FindOne\<close> gives
  \<open>None\<close> for \<^verbatim>\<open>ErrNoDocuments\<close>; \<open>DeleteOne\<close> gives the number of deleted documents.
\<close>

record ('c, 'd) coll =
  co_FindOne :: "bfilter \<Rightarrow> 'c \<Rightarrow> 'd option outcome"
  co_Find :: "bfilter \<Rightarrow> 'c \<Rightarrow> 'd list outcome"
  co_UpdateOne :: "bool \<Rightarrow> bfilter \<Rightarrow> update \<Rightarrow> 'c \<Rightarrow> unit outcome \<times> 'c"
  co_UpdateMany :: "bfilter \<Rightarrow> update \<Rightarrow> 'c \<Rightarrow> unit outcome \<times> 'c"
  co_InsertOne :: "'d \<Rightarrow> 'c \<Rightarrow> unit outcome \<times> 'c"
  co_DeleteOne :: "bfilter \<Rightarrow> 'c \<Rightarrow> nat outcome \<times> 'c"
  co_BulkWrite :: "(bfilter \<times> update) list \<Rightarrow> 'c \<Rightarrow> unit outcome \<times> 'c"

text \<open>Upserts one after the other, as an ordered bulk write does them.\<close>

fun bulk_upsert :: "('c, 'd) coll \<Rightarrow> (bfilter \<times> update) list \<Rightarrow> 'c \<Rightarrow> unit outcome \<times> 'c" where
  "bulk_upsert K [] c = (Ok (), c)"
| "bulk_upsert K ((f, u) # ops) c = sbind (co_UpdateOne K True f u) (\<lambda>_. bulk_upsert K ops) c"

text \<open>The effect of an update on the list of documents.\<close>

definition updated ::
  "(string \<Rightarrow> string \<Rightarrow> bool) \<Rightarrow> (string \<Rightarrow> 'd \<Rightarrow> bval) \<Rightarrow> (string \<Rightarrow> bval \<Rightarrow> 'd \<Rightarrow> 'd) \<Rightarrow> (nat \<Rightarrow> 'd) \<Rightarrow>
   bool \<Rightarrow> bfilter \<Rightarrow> update \<Rightarrow> 'd list \<Rightarrow> 'd list \<Rightarrow> bool" where
  "updated re get put mk upsert f u ds ds' \<longleftrightarrow>
     (if \<exists>d \<in> set ds. matches re get f d then
        \<exists>pre d post. ds = pre @ d # post \<and> matches re get f d \<and> ds' = pre @ apply_set put u d # post
      else if upsert then
        \<exists>oid. (\<forall>d \<in> set ds. get ''_id'' d \<noteq> BId oid) \<and>
              ds' = ds @ [apply_set put u (apply_set put (equalities f) (mk oid))]
      else ds' = ds)"

text \<open>
  The documented behaviour of a reachable collection: \<open>contents\<close> are its documents, \<open>get\<close> and \<open>put\<close> the
  fields by their BSON names, \<open>mk oid\<close> an empty document with that identifier.
\<close>

definition coll_ok ::
  "(string \<Rightarrow> string \<Rightarrow> bool) \<Rightarrow> (string \<Rightarrow> 'd \<Rightarrow> bval) \<Rightarrow> (string \<Rightarrow> bval \<Rightarrow> 'd \<Rightarrow> 'd) \<Rightarrow> (nat \<Rightarrow> 'd) \<Rightarrow>
   ('c \<Rightarrow> 'd list) \<Rightarrow> ('c, 'd) coll \<Rightarrow> bool" where
  "coll_ok re get put mk contents K \<longleftrightarrow>
     (\<forall>f c. (co_FindOne K f c = Ok None \<and> (\<forall>d \<in> set (contents c). \<not> matches re get f d)) \<or>
            (\<exists>d \<in> set (contents c). matches re get f d \<and> co_FindOne K f c = Ok (Some d))) \<and>
     (\<forall>f c. \<exists>ds. co_Find K f c = Ok ds \<and> mset ds = filter_mset (matches re get f) (mset (contents c))) \<and>
     (\<forall>upsert f u c. \<exists>c'. co_UpdateOne K upsert f u c = (Ok (), c') \<and>
        updated re get put mk upsert f u (contents c) (contents c')) \<and>
     (\<forall>f u c. \<exists>c'. co_UpdateMany K f u c = (Ok (), c') \<and>
        contents c' = map (\<lambda>d. if matches re get f d then apply_set put u d else d) (contents c)) \<and>
     (\<forall>d c. \<exists>c'. co_InsertOne K d c = (Ok (), c') \<and> contents c' = contents c @ [d]) \<and>
     (\<forall>f c. \<exists>n c'. co_DeleteOne K f c = (Ok n, c') \<and>
        (if \<exists>d \<in> set (contents c). matches re get f d then
           n = 1 \<and> (\<exists>pre d post. contents c = pre @ d # post \<and> matches re get f d \<and>
                      contents c' = pre @ post)
         else n = 0 \<and> contents c' = contents c)) \<and>
     (\<forall>ops c. co_BulkWrite K ops c = bulk_upsert K ops c)"

lemma coll_ok_FindOne:
  assumes "coll_ok re get put mk contents K"
  shows "(co_FindOne K f c = Ok None \<and> (\<forall>d \<in> set (contents c). \<not> matches re get f d)) \<or>
         (\<exists>d \<in> set (contents c). matches re get f d \<and> co_FindOne K f c = Ok (Some d))"
  using assms unfolding coll_ok_def by blast

lemma coll_ok_Find:
  assumes "coll_ok re get put mk contents K"
  obtains ds where "co_Find K f c = Ok ds" "mset ds = filter_mset (matches re get f) (mset (contents c))"
  using assms unfolding coll_ok_def by blast

lemma coll_ok_UpdateOne:
  assumes "coll_ok re get put mk contents K"
  obtains c' where "co_UpdateOne K upsert f u c = (Ok (), c')"
    "updated re get put mk upsert f u (contents c) (contents c')"
  using assms unfolding coll_ok_def by blast

lemma coll_ok_UpdateMany:
  assumes "coll_ok re get put mk contents K"
  obtains c' where "co_UpdateMany K f u c = (Ok (), c')"
    "contents c' = map (\<lambda>d. if matches re get f d then apply_set put u d else d) (contents c)"
  using assms unfolding coll_ok_def by blast

lemma coll_ok_DeleteOne:
  assumes "coll_ok re get put mk contents K"
  shows "\<exists>n c'. co_DeleteOne K f c = (Ok n, c') \<and>
    (if \<exists>d \<in> set (contents c). matches re get f d then
       n = 1 \<and> (\<exists>pre d post. contents c = pre @ d # post \<and> matches re get f d \<and> contents c' = pre @ post)
     else n = 0 \<and> contents c' = contents c)"
  using assms unfolding coll_ok_def by blast

lemma coll_ok_BulkWrite:
  "coll_ok re get put mk contents K \<Longrightarrow> co_BulkWrite K ops c = bulk_upsert K ops c"
  unfolding coll_ok_def by blast

section \<open>Collections with a key\<close>

text \<open>
  Where the code finds a document by a field, or several, that no two documents share, a collection is a
  map from keys to documents, and the calls are the operations of the map.
\<close>

definition by_key :: "('d \<Rightarrow> 'k) \<Rightarrow> 'd list \<Rightarrow> 'k \<rightharpoonup> 'd" where
  "by_key key ds = map_of (map (\<lambda>d. (key d, d)) ds)"

lemma by_key_Nil [simp]: "by_key key [] = Map.empty"
  by (simp add: by_key_def)

lemma by_key_Cons [simp]: "by_key key (d # ds) = (by_key key ds)(key d \<mapsto> d)"
  by (simp add: by_key_def)

lemma by_key_append: "by_key key (xs @ ys) = by_key key ys ++ by_key key xs"
  by (simp add: by_key_def)

lemma by_key_key: "by_key key ds i = Some d \<Longrightarrow> key d = i"
  by (induction ds) (auto split: if_splits)

lemma by_key_in: "by_key key ds i = Some d \<Longrightarrow> d \<in> set ds"
  by (induction ds) (auto split: if_splits)

lemma by_key_None_iff: "by_key key ds i = None \<longleftrightarrow> i \<notin> key ` set ds"
  by (induction ds) auto

lemma by_key_unique: "distinct (map key ds) \<Longrightarrow> d \<in> set ds \<Longrightarrow> by_key key ds (key d) = Some d"
  by (auto simp: by_key_def comp_def intro!: map_of_is_SomeI)

lemma by_key_split:
  assumes "distinct (map key (pre @ d # post))"
  shows "by_key key pre (key d) = None" and "by_key key post (key d) = None"
  using assms by (auto simp: by_key_None_iff)

lemma updated_by_key:
  assumes upd: "updated re get put mk upsert f u ds ds'" and m: "\<And>d. matches re get f d \<longleftrightarrow> key d = i"
    and uniq: "distinct (map key ds)" and keep: "\<And>d. key d = i \<Longrightarrow> key (apply_set put u d) = i"
    and new: "\<And>oid. key (apply_set put (equalities f) (mk oid)) = i"
  shows "distinct (map key ds') \<and>
    (case by_key key ds i of
       Some d \<Rightarrow> by_key key ds' = (by_key key ds)(i \<mapsto> apply_set put u d)
     | None \<Rightarrow>
         if upsert then \<exists>oid. by_key key ds' =
           (by_key key ds)(i \<mapsto> apply_set put u (apply_set put (equalities f) (mk oid)))
         else ds' = ds)"
proof (cases "by_key key ds i")
  case None
  then have no: "\<not> (\<exists>d \<in> set ds. key d = i)" by (auto simp: by_key_None_iff)
  show ?thesis
  proof (cases upsert)
    case True
    let ?new = "\<lambda>oid. apply_set put u (apply_set put (equalities f) (mk oid))"
    obtain oid where ds': "ds' = ds @ [?new oid]"
      using upd no True by (auto simp: updated_def m)
    have key: "key (?new oid) = i" by (simp add: keep new)
    have "distinct (map key ds')" using uniq no key unfolding ds' by auto
    moreover have "by_key key ds' = (by_key key ds)(i \<mapsto> ?new oid)"
      using None key unfolding ds' by (auto simp: by_key_append map_add_def fun_eq_iff split: option.splits)
    ultimately show ?thesis using None True by auto
  next
    case False
    then have "ds' = ds" using upd no by (auto simp: updated_def m)
    then show ?thesis using uniq None False by simp
  qed
next
  case (Some e)
  then have "\<exists>d \<in> set ds. key d = i" using by_key_in by_key_key by metis
  then obtain pre d post where d: "ds = pre @ d # post" "key d = i" "ds' = pre @ apply_set put u d # post"
    using upd by (auto simp: updated_def m)
  have notin: "by_key key pre i = None" "by_key key post i = None"
    using by_key_split [of key pre d post] uniq d(1,2) by simp_all
  have "e = d" using Some d notin by (simp add: by_key_append map_add_def)
  moreover have "distinct (map key ds')" using uniq d keep by auto
  moreover have "by_key key ds' = (by_key key ds)(i \<mapsto> apply_set put u d)"
    using d keep notin by (auto simp: by_key_append map_add_def fun_eq_iff split: option.splits)
  ultimately show ?thesis using Some by simp
qed

lemma updated_map:
  assumes upd: "updated re get put mk False f u ds ds'" and m: "\<And>d. matches re get f d \<longleftrightarrow> key d = i"
    and uniq: "distinct (map key ds)"
  shows "ds' = map (\<lambda>d. if key d = i then apply_set put u d else d) ds"
proof (cases "\<exists>d \<in> set ds. key d = i")
  case True
  then obtain pre d post where d: "ds = pre @ d # post" "key d = i" "ds' = pre @ apply_set put u d # post"
    using upd by (auto simp: updated_def m)
  have "key e \<noteq> i" if "e \<in> set pre \<or> e \<in> set post" for e
    using uniq d(1,2) that by (metis by_key_None_iff by_key_split imageI)
  then show ?thesis using d by (auto intro!: map_idI [symmetric])
next
  case False
  then show ?thesis using upd by (auto simp: updated_def m intro!: map_idI [symmetric])
qed

lemma find_by_key:
  assumes ok: "coll_ok re get put mk contents K" and m: "\<And>d. matches re get f d \<longleftrightarrow> key d = i"
    and uniq: "distinct (map key (contents c))"
  shows "co_FindOne K f c = Ok (by_key key (contents c) i)"
proof (cases "co_FindOne K f c = Ok None")
  case True
  then have "by_key key (contents c) i = None"
    using coll_ok_FindOne [OF ok, of f c] m by (auto simp: by_key_None_iff)
  then show ?thesis using True by simp
next
  case False
  then obtain d where "d \<in> set (contents c)" "key d = i" "co_FindOne K f c = Ok (Some d)"
    using coll_ok_FindOne [OF ok, of f c] m by auto
  then show ?thesis using by_key_unique [OF uniq] by auto
qed

lemma delete_by_key:
  assumes ok: "coll_ok re get put mk contents K" and m: "\<And>d. matches re get f d \<longleftrightarrow> key d = i"
    and uniq: "distinct (map key (contents c))"
  shows "\<exists>c'. co_DeleteOne K f c = (Ok (if by_key key (contents c) i = None then 0 else 1), c') \<and>
    distinct (map key (contents c')) \<and> by_key key (contents c') = (by_key key (contents c))(i := None)"
proof (cases "by_key key (contents c) i")
  case None
  then have "\<not> (\<exists>d \<in> set (contents c). matches re get f d)" by (auto simp: by_key_None_iff m)
  then obtain c' where "co_DeleteOne K f c = (Ok 0, c')" "contents c' = contents c"
    using coll_ok_DeleteOne [OF ok, of f c] by auto
  then show ?thesis using None uniq by (auto simp: fun_upd_idem)
next
  case (Some e)
  then have "\<exists>d \<in> set (contents c). matches re get f d" using by_key_in by_key_key m by metis
  then obtain c' pre d post where c': "co_DeleteOne K f c = (Ok 1, c')" "contents c = pre @ d # post" "key d = i"
    "contents c' = pre @ post"
    using coll_ok_DeleteOne [OF ok, of f c] m by auto
  have notin: "by_key key pre i = None" "by_key key post i = None"
    using by_key_split [of key pre d post] uniq c'(2,3) by simp_all
  have "by_key key (contents c') = (by_key key (contents c))(i := None)"
    using c'(2-4) notin by (auto simp: by_key_append map_add_def fun_eq_iff split: option.splits)
  then show ?thesis using c'(1,2,4) uniq Some by auto
qed

section \<open>Collections that are lists\<close>

text \<open>
  A list of documents behaves as required, so the hypothesis is satisfiable; \<open>idof\<close> reads a document's
  identifier.
\<close>

fun update_first ::
  "(string \<Rightarrow> string \<Rightarrow> bool) \<Rightarrow> (string \<Rightarrow> 'd \<Rightarrow> bval) \<Rightarrow> (string \<Rightarrow> bval \<Rightarrow> 'd \<Rightarrow> 'd) \<Rightarrow> bfilter \<Rightarrow> update \<Rightarrow>
   'd list \<Rightarrow> 'd list option" where
  "update_first re get put f u [] = None"
| "update_first re get put f u (d # ds) =
     (if matches re get f d then Some (apply_set put u d # ds)
      else map_option ((#) d) (update_first re get put f u ds))"

fun delete_first ::
  "(string \<Rightarrow> string \<Rightarrow> bool) \<Rightarrow> (string \<Rightarrow> 'd \<Rightarrow> bval) \<Rightarrow> bfilter \<Rightarrow> 'd list \<Rightarrow> 'd list option" where
  "delete_first re get f [] = None"
| "delete_first re get f (d # ds) =
     (if matches re get f d then Some ds else map_option ((#) d) (delete_first re get f ds))"

definition fresh_id :: "('d \<Rightarrow> nat) \<Rightarrow> 'd list \<Rightarrow> nat" where
  "fresh_id idof ds = Suc (sum_list (map idof ds))"

definition list_update_one ::
  "(string \<Rightarrow> string \<Rightarrow> bool) \<Rightarrow> (string \<Rightarrow> 'd \<Rightarrow> bval) \<Rightarrow> (string \<Rightarrow> bval \<Rightarrow> 'd \<Rightarrow> 'd) \<Rightarrow> (nat \<Rightarrow> 'd) \<Rightarrow>
   ('d \<Rightarrow> nat) \<Rightarrow> bool \<Rightarrow> bfilter \<Rightarrow> update \<Rightarrow> 'd list \<Rightarrow> unit outcome \<times> 'd list" where
  "list_update_one re get put mk idof upsert f u ds =
     (Ok (), case update_first re get put f u ds of
        Some ds' \<Rightarrow> ds'
      | None \<Rightarrow>
          if upsert then ds @ [apply_set put u (apply_set put (equalities f) (mk (fresh_id idof ds)))]
          else ds)"

fun list_bulk ::
  "(bool \<Rightarrow> bfilter \<Rightarrow> update \<Rightarrow> 'c \<Rightarrow> unit outcome \<times> 'c) \<Rightarrow> (bfilter \<times> update) list \<Rightarrow> 'c \<Rightarrow> unit outcome \<times> 'c"
where
  "list_bulk upd [] c = (Ok (), c)"
| "list_bulk upd ((f, u) # ops) c = sbind (upd True f u) (\<lambda>_. list_bulk upd ops) c"

definition list_coll ::
  "(string \<Rightarrow> string \<Rightarrow> bool) \<Rightarrow> (string \<Rightarrow> 'd \<Rightarrow> bval) \<Rightarrow> (string \<Rightarrow> bval \<Rightarrow> 'd \<Rightarrow> 'd) \<Rightarrow> (nat \<Rightarrow> 'd) \<Rightarrow>
   ('d \<Rightarrow> nat) \<Rightarrow> ('d list, 'd) coll" where
  "list_coll re get put mk idof =
     \<lparr>co_FindOne = (\<lambda>f ds. Ok (find (matches re get f) ds)),
      co_Find = (\<lambda>f ds. Ok (filter (matches re get f) ds)),
      co_UpdateOne = list_update_one re get put mk idof,
      co_UpdateMany = (\<lambda>f u ds. (Ok (), map (\<lambda>d. if matches re get f d then apply_set put u d else d) ds)),
      co_InsertOne = (\<lambda>d ds. (Ok (), ds @ [d])),
      co_DeleteOne = (\<lambda>f ds. case delete_first re get f ds of Some ds' \<Rightarrow> (Ok 1, ds') | None \<Rightarrow> (Ok 0, ds)),
      co_BulkWrite = list_bulk (list_update_one re get put mk idof)\<rparr>"

lemma update_first_None: "update_first re get put f u ds = None \<longleftrightarrow> (\<forall>d \<in> set ds. \<not> matches re get f d)"
  by (induction ds) auto

lemma update_first_Some:
  "update_first re get put f u ds = Some ds' \<Longrightarrow>
   \<exists>pre d post. ds = pre @ d # post \<and> matches re get f d \<and> ds' = pre @ apply_set put u d # post"
proof (induction ds arbitrary: ds')
  case (Cons d ds)
  show ?case
  proof (cases "matches re get f d")
    case True
    then show ?thesis using Cons.prems by (intro exI [of _ "[]"]) auto
  next
    case False
    then obtain es where es: "update_first re get put f u ds = Some es" "ds' = d # es"
      using Cons.prems by auto
    from Cons.IH [OF es(1)] obtain pre e post where
      "ds = pre @ e # post" "matches re get f e" "es = pre @ apply_set put u e # post" by blast
    then show ?thesis using es(2) by (intro exI [of _ "d # pre"]) auto
  qed
qed simp

lemma delete_first_None: "delete_first re get f ds = None \<longleftrightarrow> (\<forall>d \<in> set ds. \<not> matches re get f d)"
  by (induction ds) auto

lemma delete_first_Some:
  "delete_first re get f ds = Some ds' \<Longrightarrow>
   \<exists>pre d post. ds = pre @ d # post \<and> matches re get f d \<and> ds' = pre @ post"
proof (induction ds arbitrary: ds')
  case (Cons d ds)
  show ?case
  proof (cases "matches re get f d")
    case True
    then show ?thesis using Cons.prems by (intro exI [of _ "[]"]) auto
  next
    case False
    then obtain es where es: "delete_first re get f ds = Some es" "ds' = d # es"
      using Cons.prems by auto
    from Cons.IH [OF es(1)] obtain pre e post where
      "ds = pre @ e # post" "matches re get f e" "es = pre @ post" by blast
    then show ?thesis using es(2) by (intro exI [of _ "d # pre"]) auto
  qed
qed simp

lemma list_update_one_updated:
  assumes "\<And>d oid. get ''_id'' d = BId oid \<Longrightarrow> idof d = oid"
  shows "updated re get put mk upsert f u ds (snd (list_update_one re get put mk idof upsert f u ds))"
proof (cases "update_first re get put f u ds")
  case None
  have "idof d < fresh_id idof ds" if "d \<in> set ds" for d
    using that by (auto simp: fresh_id_def member_le_sum_list less_Suc_eq_le)
  then have "\<forall>d \<in> set ds. get ''_id'' d \<noteq> BId (fresh_id idof ds)"
    using assms by fastforce
  moreover have "\<forall>d \<in> set ds. \<not> matches re get f d"
    using None update_first_None by metis
  ultimately show ?thesis
    using None by (auto simp: updated_def list_update_one_def)
next
  case (Some ds')
  from update_first_Some [OF this] obtain pre d post where
    d: "ds = pre @ d # post" "matches re get f d" "ds' = pre @ apply_set put u d # post" by blast
  then have "\<exists>d \<in> set ds. matches re get f d" by auto
  then show ?thesis using Some d unfolding updated_def list_update_one_def by auto
qed

lemma list_bulk_upsert:
  "list_bulk (list_update_one re get put mk idof) ops c = bulk_upsert (list_coll re get put mk idof) ops c"
proof (induction ops arbitrary: c)
  case (Cons op ops)
  then show ?case by (cases op) (simp add: list_coll_def sbind_def list_update_one_def)
qed simp

lemma coll_ok_list:
  assumes "\<And>d oid. get ''_id'' d = BId oid \<Longrightarrow> idof d = oid"
  shows "coll_ok re get put mk (\<lambda>ds. ds) (list_coll re get put mk idof)"
proof -
  let ?K = "list_coll re get put mk idof"
  have find1: "(co_FindOne ?K f c = Ok None \<and> (\<forall>d \<in> set c. \<not> matches re get f d)) \<or>
            (\<exists>d \<in> set c. matches re get f d \<and> co_FindOne ?K f c = Ok (Some d))" for f c
    by (cases "find (matches re get f) c") (auto simp: list_coll_def find_None_iff find_Some_iff)
  have upd: "\<exists>c'. co_UpdateOne ?K upsert f u c = (Ok (), c') \<and> updated re get put mk upsert f u c c'" for upsert f u c
    using list_update_one_updated [of get idof re put mk upsert f u c] assms
    by (auto simp: list_coll_def list_update_one_def)
  have del: "\<exists>n c'. co_DeleteOne ?K f c = (Ok n, c') \<and>
        (if \<exists>d \<in> set c. matches re get f d then
           n = 1 \<and> (\<exists>pre d post. c = pre @ d # post \<and> matches re get f d \<and> c' = pre @ post)
         else n = 0 \<and> c' = c)" for f c
  proof (cases "delete_first re get f c")
    case None
    then show ?thesis by (simp add: list_coll_def delete_first_None [THEN iffD1, OF None])
  next
    case (Some c')
    from delete_first_Some [OF this] show ?thesis using Some by (auto simp: list_coll_def)
  qed
  have bulk: "co_BulkWrite ?K ops c = bulk_upsert ?K ops c" for ops c
    using list_bulk_upsert [of re get put mk idof ops c] by (simp add: list_coll_def)
  show ?thesis
    unfolding coll_ok_def
    using find1 upd del bulk by (auto simp: list_coll_def)
qed

end
