(* ===== verification/Mongo_Storage.thy ===== *)
theory Mongo_Storage
  imports Mongo_Collection
begin

text \<open>
  The MongoDB storage (\<^verbatim>\<open>internal/storage/mongodb/storage.go\<close>): each operation builds a filter and an
  update and calls the driver.  The driver is the record \<open>coll\<close> of each collection; the clock reading is
  an argument.
\<close>

section \<open>Documents\<close>

text \<open>BSON dates have milliseconds.\<close>

definition bson_ms :: "time \<Rightarrow> time" where
  "bson_ms t = t div 1000000 * 1000000"

fun policy_get :: "string \<Rightarrow> policy \<Rightarrow> bval" where
  "policy_get k p =
     (if k = ''_id'' then BId (p_MongoID p)
      else if k = ''filename'' then BStr (p_Filename p)
      else if k = ''repository'' then BStr (p_Repository p)
      else if k = ''name'' then BStr (p_Name p)
      else if k = ''group'' then BStr (p_Group p)
      else if k = ''version'' then BStr (p_Version p)
      else if k = ''rego'' then BStr (p_Rego p)
      else if k = ''data'' then BStr (p_Data p)
      else if k = ''dataConfig'' then BStr (p_DataConfig p)
      else if k = ''outputSchema'' then BStr (p_OutputSchema p)
      else if k = ''exportConfig'' then BStr (p_ExportConfig p)
      else if k = ''locked'' then BBool (p_Locked p)
      else if k = ''lastUpdate'' then BTime (p_LastUpdate p)
      else BTime (p_NextDataRefreshTime p))"

fun policy_put :: "string \<Rightarrow> bval \<Rightarrow> policy \<Rightarrow> policy" where
  "policy_put k (BStr s) p =
     (if k = ''filename'' then p\<lparr>p_Filename := s\<rparr>
      else if k = ''repository'' then p\<lparr>p_Repository := s\<rparr>
      else if k = ''name'' then p\<lparr>p_Name := s\<rparr>
      else if k = ''group'' then p\<lparr>p_Group := s\<rparr>
      else if k = ''version'' then p\<lparr>p_Version := s\<rparr>
      else if k = ''rego'' then p\<lparr>p_Rego := s\<rparr>
      else if k = ''data'' then p\<lparr>p_Data := s\<rparr>
      else if k = ''dataConfig'' then p\<lparr>p_DataConfig := s\<rparr>
      else if k = ''outputSchema'' then p\<lparr>p_OutputSchema := s\<rparr>
      else if k = ''exportConfig'' then p\<lparr>p_ExportConfig := s\<rparr> else p)"
| "policy_put k (BBool b) p = (if k = ''locked'' then p\<lparr>p_Locked := b\<rparr> else p)"
| "policy_put k (BTime t) p =
     (if k = ''lastUpdate'' then p\<lparr>p_LastUpdate := bson_ms t\<rparr>
      else if k = ''nextDataRefreshTime'' then p\<lparr>p_NextDataRefreshTime := bson_ms t\<rparr> else p)"
| "policy_put k _ p = p"

definition policy_mk :: "nat \<Rightarrow> policy" where
  "policy_mk oid = zero_policy\<lparr>p_MongoID := oid\<rparr>"

section \<open>Policies\<close>

definition pid_filter :: "polid \<Rightarrow> bfilter" where
  "pid_filter i =
     (case i of (repo, grp, name, version) \<Rightarrow>
        [(''repository'', Eq (BStr repo)), (''group'', Eq (BStr grp)), (''name'', Eq (BStr name)),
         (''version'', Eq (BStr version))])"

definition mongo_Policy :: "('c, policy) coll \<Rightarrow> polid \<Rightarrow> 'c \<Rightarrow> policy outcome \<times> 'c" where
  "mongo_Policy K i c =
     (obind (co_FindOne K (pid_filter i) c) (\<lambda>r.
        case r of None \<Rightarrow> Err (errors_New [AKind NotFound, AStr ''policy not found'']) | Some p \<Rightarrow> Ok p), c)"

definition save_update :: "time \<Rightarrow> policy \<Rightarrow> update" where
  "save_update now p =
     [(''locked'', BBool (p_Locked p)), (''rego'', BStr (p_Rego p)), (''data'', BStr (p_Data p)),
      (''dataConfig'', BStr (p_DataConfig p)), (''outputSchema'', BStr (p_OutputSchema p)),
      (''lastUpdate'', BTime now), (''nextDataRefreshTime'', BTime zero_time)]"

definition mongo_SavePolicy :: "('c, policy) coll \<Rightarrow> time \<Rightarrow> policy \<Rightarrow> 'c \<Rightarrow> unit outcome \<times> 'c" where
  "mongo_SavePolicy K now p = co_UpdateOne K True (pid_filter (pid_of p)) (save_update now p)"

definition mongo_SetPolicyLock ::
  "('c, policy) coll \<Rightarrow> time \<Rightarrow> polid \<Rightarrow> bool \<Rightarrow> 'c \<Rightarrow> unit outcome \<times> 'c" where
  "mongo_SetPolicyLock K now i lock =
     co_UpdateOne K False (pid_filter i) [(''locked'', BBool lock), (''lastUpdate'', BTime now)]"

definition mongo_GetPolicies ::
  "('c, policy) coll \<Rightarrow> bool option \<Rightarrow> string option \<Rightarrow> 'c \<Rightarrow> policy list outcome \<times> 'c" where
  "mongo_GetPolicies K locked policyName c =
     (co_Find K
        ((case locked of None \<Rightarrow> [] | Some b \<Rightarrow> [(''locked'', Eq (BBool b))]) @
         (case policyName of None \<Rightarrow> [] | Some n \<Rightarrow> [(''name'', RegexI n)])) c, c)"

text \<open>One event of the change stream: every subscriber is called, errors are logged.\<close>

fun mongo_notify :: "'w policy_subscriber list \<Rightarrow> policy \<Rightarrow> 'w \<Rightarrow> 'w" where
  "mongo_notify [] p w = w"
| "mongo_notify (f # fs) p w =
     mongo_notify fs p (snd (f (p_Repository p) (p_Name p) (p_Group p) (p_Version p) w))"

subsection \<open>Transactions\<close>

text \<open>
  \<open>tx_start\<close> and \<open>tx_commit\<close> are the errors of starting the session and of committing.  The callbacks of
  the storage do not use the session context they are given, so their operations take effect outside
  the transaction.
\<close>

record transaction =
  tx_start :: "goerror option"
  tx_commit :: "goerror option"

definition mongo_Transaction ::
  "transaction \<Rightarrow> ('c \<Rightarrow> 'a outcome \<times> 'c) \<Rightarrow> 'c \<Rightarrow> 'a outcome \<times> 'c" where
  "mongo_Transaction T callback =
     (case tx_start T of
        Some e \<Rightarrow> sret (Err (wrap_msg ''failed creating session'' e))
      | None \<Rightarrow>
          swrap (wrap_msg ''failed executing transaction'')
            (sbind callback (\<lambda>x. sret (case tx_commit T of None \<Rightarrow> Ok x | Some e \<Rightarrow> Err e))))"

subsection \<open>Data refresh\<close>

definition mongo_postponeRefresh :: "('c, policy) coll \<Rightarrow> time \<Rightarrow> policy list \<Rightarrow> 'c \<Rightarrow> unit outcome \<times> 'c" where
  "mongo_postponeRefresh K now ps =
     co_UpdateMany K [(''_id'', InIds (map p_MongoID ps))]
       [(''nextDataRefreshTime'', BTime (now + RefreshPostponePeriod))]"

definition mongo_GetRefreshPolicies ::
  "transaction \<Rightarrow> ('c, policy) coll \<Rightarrow> time \<Rightarrow> 'c \<Rightarrow> policy list outcome \<times> 'c" where
  "mongo_GetRefreshPolicies T K now =
     mongo_Transaction T (\<lambda>c.
       sbind (\<lambda>c. (co_Find K [(''nextDataRefreshTime'', Later_upto zero_time now)] c, c)) (\<lambda>policies.
         if policies = [] then
           sret (Err (errors_New [AKind NotFound, AStr ''policies for data refresh not found'']))
         else sbind (mongo_postponeRefresh K now policies) (\<lambda>_. sret (Ok policies))) c)"

definition mongo_UpdateNextRefreshTime ::
  "('c, policy) coll \<Rightarrow> policy \<Rightarrow> time \<Rightarrow> 'c \<Rightarrow> unit outcome \<times> 'c" where
  "mongo_UpdateNextRefreshTime K p t =
     co_UpdateOne K False [(''_id'', Eq (BId (p_MongoID p)))]
       [(''nextDataRefreshTime'', BTime t), (''data'', BStr (p_Data p))]"

section \<open>Subscribers\<close>

text \<open>A stored subscriber or configuration is kept with its identifier.\<close>

fun sub_get :: "string \<Rightarrow> nat \<times> subscriber \<Rightarrow> bval" where
  "sub_get k (i, b) =
     (if k = ''_id'' then BId i
      else if k = ''name'' then BStr (sub_Name b)
      else if k = ''webhookurl'' then BStr (sub_WebhookURL b)
      else if k = ''policyrepository'' then BStr (sub_PolicyRepository b)
      else if k = ''policyname'' then BStr (sub_PolicyName b)
      else if k = ''policygroup'' then BStr (sub_PolicyGroup b)
      else BStr (sub_PolicyVersion b))"

definition mongo_CreateSubscriber ::
  "('c, nat \<times> subscriber) coll \<Rightarrow> nat \<Rightarrow> time \<Rightarrow> subscriber \<Rightarrow> 'c \<Rightarrow> subscriber outcome \<times> 'c" where
  "mongo_CreateSubscriber K oid now b =
     (let b' = b\<lparr>sub_CreatedAt := now, sub_UpdatedAt := now\<rparr>
      in sbind (co_InsertOne K (oid, b')) (\<lambda>_. sret (Ok b')))"

definition mongo_PolicySubscribers ::
  "('c, nat \<times> subscriber) coll \<Rightarrow> string \<Rightarrow> string \<Rightarrow> string \<Rightarrow> string \<Rightarrow> 'c \<Rightarrow> subscriber list outcome \<times> 'c" where
  "mongo_PolicySubscribers K repo name grp version c =
     (obind (co_Find K
        [(''policyrepository'', Eq (BStr repo)), (''policyname'', Eq (BStr name)),
         (''policygroup'', Eq (BStr grp)), (''policyversion'', Eq (BStr version))] c)
        (\<lambda>bs. Ok (map snd bs)), c)"

definition mongo_Subscriber ::
  "('c, nat \<times> subscriber) coll \<Rightarrow> polid \<Rightarrow> string \<Rightarrow> string \<Rightarrow> 'c \<Rightarrow> subscriber outcome \<times> 'c" where
  "mongo_Subscriber K i webhookURL name c =
     (case i of (repo, grp, pname, version) \<Rightarrow>
        (obind (co_FindOne K
          [(''webhookurl'', Eq (BStr webhookURL)), (''name'', Eq (BStr name)),
           (''policyrepository'', Eq (BStr repo)), (''policygroup'', Eq (BStr grp)),
           (''policyname'', Eq (BStr pname)), (''policyversion'', Eq (BStr version))] c)
          (\<lambda>r. case r of None \<Rightarrow> Err (errors_New [AKind NotFound, AStr ''subscriber not found''])
              | Some (oid, b) \<Rightarrow> Ok b), c))"

section \<open>Common storage\<close>

definition mongo_SetData ::
  "('c, string \<times> (string \<times> json) list) coll \<Rightarrow> string \<Rightarrow> (string \<times> json) list \<Rightarrow> 'c \<Rightarrow> unit outcome \<times> 'c" where
  "mongo_SetData K key data =
     co_UpdateOne K True [(''key'', Eq (BStr key))] [(''key'', BStr key), (''data'', BData data)]"

text \<open>\<open>noDocuments\<close> is \<^verbatim>\<open>mongo.ErrNoDocuments\<close>.\<close>

definition noDocuments :: goerror where
  "noDocuments = Plain ''mongo: no documents in result''"

definition mongo_GetData ::
  "('c, string \<times> (string \<times> json) list) coll \<Rightarrow> string \<Rightarrow> 'c \<Rightarrow> json outcome \<times> 'c" where
  "mongo_GetData K key c =
     (obind (co_FindOne K [(''key'', Eq (BStr key))] c) (\<lambda>r.
        case r of None \<Rightarrow> Err noDocuments | Some (k, d) \<Rightarrow> Ok (JObj d)), c)"

text \<open>The count is read before the error: the driver gives no result with an error.\<close>

definition mongo_DeleteData ::
  "('c, string \<times> (string \<times> json) list) coll \<Rightarrow> string \<Rightarrow> 'c \<Rightarrow> unit outcome \<times> 'c" where
  "mongo_DeleteData K key c =
     (case co_DeleteOne K [(''key'', Eq (BStr key))] c of
        (Ok n, c') \<Rightarrow>
          (if n < 1 then Err (Plain (''this key doesn'' @ [CHR 0x27] @ ''t exist'')) else Ok (), c')
      | (Err e, c') \<Rightarrow> (Panic ''nil pointer dereference'', c')
      | (Panic t, c') \<Rightarrow> (Panic t, c')
      | (Blocked, c') \<Rightarrow> (Blocked, c'))"

section \<open>Automatic import\<close>

fun ai_get :: "string \<Rightarrow> nat \<times> autoimport \<Rightarrow> bval" where
  "ai_get k (i, a) =
     (if k = ''_id'' then BId i
      else if k = ''policyURL'' then BStr (ai_PolicyURL a)
      else if k = ''interval'' then BDur (ai_Interval a)
      else BTime (ai_NextImport a))"

fun ai_put :: "string \<Rightarrow> bval \<Rightarrow> nat \<times> autoimport \<Rightarrow> nat \<times> autoimport" where
  "ai_put k (BStr s) (i, a) = (i, if k = ''policyURL'' then a\<lparr>ai_PolicyURL := s\<rparr> else a)"
| "ai_put k (BDur d) (i, a) = (i, if k = ''interval'' then a\<lparr>ai_Interval := d\<rparr> else a)"
| "ai_put k (BTime t) (i, a) = (i, if k = ''nextImport'' then a\<lparr>ai_NextImport := bson_ms t\<rparr> else a)"
| "ai_put k _ d = d"

definition ai_mk :: "nat \<Rightarrow> nat \<times> autoimport" where
  "ai_mk oid = (oid, \<lparr>ai_PolicyURL = [], ai_Interval = 0, ai_NextImport = zero_time\<rparr>)"

definition mongo_SaveAutoImportConfig ::
  "('c, nat \<times> autoimport) coll \<Rightarrow> autoimport \<Rightarrow> 'c \<Rightarrow> unit outcome \<times> 'c" where
  "mongo_SaveAutoImportConfig K a =
     co_UpdateOne K True [(''policyURL'', Eq (BStr (ai_PolicyURL a)))]
       [(''interval'', BDur (ai_Interval a)), (''nextImport'', BTime (ai_NextImport a))]"

definition mongo_updateNextInterval ::
  "('c, nat \<times> autoimport) coll \<Rightarrow> time \<Rightarrow> nat \<times> autoimport \<Rightarrow> 'c \<Rightarrow> unit outcome \<times> 'c" where
  "mongo_updateNextInterval K now d =
     co_UpdateOne K False [(''_id'', Eq (BId (fst d)))] [(''nextImport'', BTime (now + ai_Interval (snd d)))]"

text \<open>An update that fails is logged.\<close>

fun mongo_reschedule ::
  "('c, nat \<times> autoimport) coll \<Rightarrow> time \<Rightarrow> (nat \<times> autoimport) list \<Rightarrow> 'c \<Rightarrow> unit outcome \<times> 'c" where
  "mongo_reschedule K now [] c = (Ok (), c)"
| "mongo_reschedule K now (d # ds) c =
     (case mongo_updateNextInterval K now d c of
        (Ok _, c') \<Rightarrow> mongo_reschedule K now ds c'
      | (Err _, c') \<Rightarrow> mongo_reschedule K now ds c'
      | (Panic t, c') \<Rightarrow> (Panic t, c')
      | (Blocked, c') \<Rightarrow> (Blocked, c'))"

definition mongo_ActiveImportConfigs ::
  "transaction \<Rightarrow> ('c, nat \<times> autoimport) coll \<Rightarrow> time \<Rightarrow> 'c \<Rightarrow> autoimport list outcome \<times> 'c" where
  "mongo_ActiveImportConfigs T K now =
     mongo_Transaction T
       (sbind (\<lambda>c. (co_Find K [(''nextImport'', Upto now)] c, c)) (\<lambda>configs.
        sbind (mongo_reschedule K now configs) (\<lambda>_. sret (Ok (map snd configs)))))"

definition mongo_AutoImportConfigs ::
  "('c, nat \<times> autoimport) coll \<Rightarrow> 'c \<Rightarrow> autoimport list outcome \<times> 'c" where
  "mongo_AutoImportConfigs K c = (obind (co_Find K [] c) (\<lambda>ds. Ok (map snd ds)), c)"

definition mongo_AutoImportConfig ::
  "('c, nat \<times> autoimport) coll \<Rightarrow> string \<Rightarrow> 'c \<Rightarrow> autoimport outcome \<times> 'c" where
  "mongo_AutoImportConfig K url c =
     (obind (co_FindOne K [(''policyURL'', Eq (BStr url))] c) (\<lambda>r.
        case r of None \<Rightarrow> Err (errors_New [AKind NotFound, AErr noDocuments]) | Some (i, a) \<Rightarrow> Ok a), c)"

definition mongo_DeleteAutoImportConfig ::
  "('c, nat \<times> autoimport) coll \<Rightarrow> string \<Rightarrow> 'c \<Rightarrow> unit outcome \<times> 'c" where
  "mongo_DeleteAutoImportConfig K url =
     sbind (co_DeleteOne K [(''policyURL'', Eq (BStr url))]) (\<lambda>n.
       sret (if n = 0 then Err (errors_New [AKind NotFound]) else Ok ()))"

end
