(* ===== verification/Mongo_Laws.thy ===== *)
theory Mongo_Laws
  imports Mongo_Storage
begin

text \<open>
  What the MongoDB storage promises over a collection that behaves as documented (\<open>coll_ok\<close>): it is a
  \<open>policy_store\<close>, so everything the service proves about its storage holds for it.
\<close>

section \<open>Collections of policies as maps\<close>

abbreviation dir :: "policy list \<Rightarrow> polid \<rightharpoonup> policy" where
  "dir \<equiv> by_key pid_of"

definition unique_pids :: "policy list \<Rightarrow> bool" where
  "unique_pids ds \<longleftrightarrow> distinct (map pid_of ds)"

lemmas dir_pid = by_key_key [of pid_of]
  and dir_in = by_key_in [of pid_of]
  and dir_None_iff = by_key_None_iff [of pid_of]
  and dir_unique = by_key_unique [of pid_of, folded unique_pids_def]

abbreviation policy_coll_ok :: "(string \<Rightarrow> string \<Rightarrow> bool) \<Rightarrow> ('c \<Rightarrow> policy list) \<Rightarrow> ('c, policy) coll \<Rightarrow> bool" where
  "policy_coll_ok re contents K \<equiv> coll_ok re policy_get policy_put policy_mk contents K"

lemma matches_pid [simp]: "matches re policy_get (pid_filter i) p \<longleftrightarrow> pid_of p = i"
  by (cases i) (auto simp: matches_def pid_filter_def pid_of_def)

text \<open>An update that leaves the identity alone.\<close>

definition keeps_pid :: "update \<Rightarrow> bool" where
  "keeps_pid u \<longleftrightarrow> list_all (\<lambda>(k, v). k \<notin> {''repository'', ''group'', ''name'', ''version''}) u"

lemma pid_policy_put:
  "k \<notin> {''repository'', ''group'', ''name'', ''version''} \<Longrightarrow> pid_of (policy_put k v p) = pid_of p"
  by (cases v) (auto simp: pid_of_def)

lemma pid_apply_set: "keeps_pid u \<Longrightarrow> pid_of (apply_set policy_put u p) = pid_of p"
proof (induction u arbitrary: p)
  case (Cons kv u)
  then show ?case
    using pid_policy_put [of "fst kv" "snd kv"] by (cases kv) (auto simp: keeps_pid_def)
qed simp

lemma pid_upserted:
  "pid_of (apply_set policy_put (equalities (pid_filter i)) (policy_mk oid)) = i"
  by (cases i) (auto simp: pid_filter_def pid_of_def)

text \<open>The effect of an update by identity on the map.\<close>

lemma updated_dir:
  assumes upd: "updated re policy_get policy_put policy_mk upsert (pid_filter i) u ds ds'"
    and uniq: "unique_pids ds" and keep: "keeps_pid u"
  shows "unique_pids ds' \<and> (\<forall>j. j \<noteq> i \<longrightarrow> dir ds' j = dir ds j) \<and>
    (case dir ds i of
       Some p \<Rightarrow> dir ds' i = Some (apply_set policy_put u p)
     | None \<Rightarrow>
         if upsert then \<exists>oid. dir ds' i =
           Some (apply_set policy_put u (apply_set policy_put (equalities (pid_filter i)) (policy_mk oid)))
         else dir ds' i = None)"
proof -
  note eff = updated_by_key [OF upd matches_pid uniq [unfolded unique_pids_def] _ pid_upserted]
  show ?thesis
    using eff by (cases "dir ds i"; cases upsert) (auto simp: unique_pids_def pid_apply_set [OF keep])
qed

section \<open>The policy operations\<close>

lemma mongo_Policy_dir:
  assumes "policy_coll_ok re contents K" and "unique_pids (contents c)"
  shows "mongo_Policy K i c =
    (case dir (contents c) i of
       Some p \<Rightarrow> Ok p | None \<Rightarrow> Err (errors_New [AKind NotFound, AStr ''policy not found'']), c)"
  using find_by_key [OF assms(1) matches_pid] assms(2)
  by (simp add: mongo_Policy_def unique_pids_def split: option.splits)

lemma keeps_pid_updates [simp]:
  "keeps_pid (save_update now p)"
  "keeps_pid [(''locked'', BBool b), (''lastUpdate'', BTime now)]"
  by (simp_all add: keeps_pid_def save_update_def)

lemma mongo_save_effect:
  assumes ok: "policy_coll_ok re contents K" and uniq: "unique_pids (contents c)"
  shows "\<exists>c' q. mongo_SavePolicy K now p c = (Ok (), c') \<and> unique_pids (contents c') \<and>
    (\<forall>j. j \<noteq> pid_of p \<longrightarrow> dir (contents c') j = dir (contents c) j) \<and>
    dir (contents c') (pid_of p) = Some q \<and> evaluation_view q = evaluation_view p \<and>
    p_DataConfig q = p_DataConfig p \<and> p_NextDataRefreshTime q = zero_time \<and>
    p_LastUpdate q = bson_ms now \<and>
    (case dir (contents c) (pid_of p) of
       None \<Rightarrow> p_ExportConfig q = [] \<and> p_Filename q = []
     | Some old \<Rightarrow> p_ExportConfig q = p_ExportConfig old \<and> p_Filename q = p_Filename old)"
proof -
  obtain c' where c': "mongo_SavePolicy K now p c = (Ok (), c')"
    "updated re policy_get policy_put policy_mk True (pid_filter (pid_of p)) (save_update now p)
      (contents c) (contents c')"
    unfolding mongo_SavePolicy_def by (rule coll_ok_UpdateOne [OF ok])
  note eff = updated_dir [OF c'(2) uniq keeps_pid_updates(1)]
  show ?thesis
  proof (cases "dir (contents c) (pid_of p)")
    case None
    then obtain oid where q: "dir (contents c') (pid_of p) = Some (apply_set policy_put (save_update now p)
        (apply_set policy_put (equalities (pid_filter (pid_of p))) (policy_mk oid)))"
      using eff by auto
    then show ?thesis
      using c'(1) eff None
      by (auto simp: evaluation_view_def save_update_def pid_filter_def pid_of_def policy_mk_def
          zero_policy_def bson_ms_def)
  next
    case (Some old)
    then have q: "dir (contents c') (pid_of p) = Some (apply_set policy_put (save_update now p) old)"
      using eff by auto
    have "pid_of old = pid_of p" using dir_pid [OF Some] .
    then show ?thesis
      using c'(1) eff Some q
      by (auto simp: evaluation_view_def save_update_def pid_of_def bson_ms_def)
  qed
qed

lemma mongo_lock_effect:
  assumes ok: "policy_coll_ok re contents K" and uniq: "unique_pids (contents c)"
  shows "\<exists>c'. mongo_SetPolicyLock K now i b c = (Ok (), c') \<and> unique_pids (contents c') \<and>
    (\<forall>j. j \<noteq> i \<longrightarrow> dir (contents c') j = dir (contents c) j) \<and>
    dir (contents c') i =
      map_option (\<lambda>p. p\<lparr>p_Locked := b, p_LastUpdate := bson_ms now\<rparr>) (dir (contents c) i)"
proof -
  obtain c' where c': "mongo_SetPolicyLock K now i b c = (Ok (), c')"
    "updated re policy_get policy_put policy_mk False (pid_filter i)
      [(''locked'', BBool b), (''lastUpdate'', BTime now)] (contents c) (contents c')"
    unfolding mongo_SetPolicyLock_def by (rule coll_ok_UpdateOne [OF ok])
  from updated_dir [OF c'(2) uniq keeps_pid_updates(2)] show ?thesis
    using c'(1) by (auto split: option.splits)
qed

lemma mongo_policy_store:
  assumes ok: "policy_coll_ok re contents K"
  shows "policy_store (mongo_Policy K) (mongo_SavePolicy K now) (mongo_SetPolicyLock K now)
    (\<lambda>c. dir (contents c)) (\<lambda>i. True) (\<lambda>c. unique_pids (contents c))"
proof unfold_locales
  fix c i p b
  assume inv: "unique_pids (contents c)" and found: "dir (contents c) i = Some p"
  then show "mongo_Policy K i c = (Ok p, c)" by (simp add: mongo_Policy_dir [OF ok])
  show "pid_of p = i" using dir_pid [OF found] .
  show "\<exists>c' t. mongo_SetPolicyLock K now i b c = (Ok (), c') \<and> unique_pids (contents c') \<and>
      dir (contents c') i = Some (p\<lparr>p_Locked := b, p_LastUpdate := t\<rparr>) \<and>
      (\<forall>j. True \<longrightarrow> j \<noteq> i \<longrightarrow> dir (contents c') j = dir (contents c) j)"
    using mongo_lock_effect [OF ok inv, of now i b] found by auto
next
  fix c i
  assume "unique_pids (contents c)" "dir (contents c) i = None"
  then show "\<exists>e. mongo_Policy K i c = (Err e, c) \<and> errors_Is NotFound e"
    by (simp add: mongo_Policy_dir [OF ok])
next
  fix c p
  assume inv: "unique_pids (contents c)"
  show "\<exists>c' q. mongo_SavePolicy K now p c = (Ok (), c') \<and> unique_pids (contents c') \<and>
      dir (contents c') (pid_of p) = Some q \<and> evaluation_view q = evaluation_view p \<and>
      (\<forall>j. True \<longrightarrow> j \<noteq> pid_of p \<longrightarrow> dir (contents c') j = dir (contents c) j)"
    using mongo_save_effect [OF ok inv, of now p] by blast
qed

section \<open>Data refresh\<close>

lemma mongo_update_refresh:
  assumes ok: "policy_coll_ok re contents K" and ids: "distinct (map p_MongoID (contents c))"
    and p: "p0 \<in> set (contents c)" "p_MongoID p = p_MongoID p0"
  shows "\<exists>c'. mongo_UpdateNextRefreshTime K p t c = (Ok (), c') \<and>
    p0\<lparr>p_NextDataRefreshTime := bson_ms t, p_Data := p_Data p\<rparr> \<in> set (contents c')"
proof -
  let ?f = "[(''_id'', Eq (BId (p_MongoID p)))]"
  have m: "matches re policy_get ?f d \<longleftrightarrow> p_MongoID d = p_MongoID p" for d
    by (auto simp: matches_def)
  obtain c' where c': "mongo_UpdateNextRefreshTime K p t c = (Ok (), c')"
    "updated re policy_get policy_put policy_mk False ?f
      [(''nextDataRefreshTime'', BTime t), (''data'', BStr (p_Data p))] (contents c) (contents c')"
    unfolding mongo_UpdateNextRefreshTime_def by (rule coll_ok_UpdateOne [OF ok])
  have "\<exists>d \<in> set (contents c). matches re policy_get ?f d" unfolding m using p by auto
  then obtain pre d post where d: "contents c = pre @ d # post" "p_MongoID d = p_MongoID p"
    "contents c' = pre @ d\<lparr>p_NextDataRefreshTime := bson_ms t, p_Data := p_Data p\<rparr> # post"
    using c'(2) by (auto simp: updated_def m)
  have "d = p0" using ids p d(1,2) by (auto simp: distinct_map inj_on_def)
  then show ?thesis using c'(1) d(3) by auto
qed

text \<open>A round hands out exactly the due policies and postpones them.\<close>

lemma mongo_refresh_round:
  assumes ok: "policy_coll_ok re contents K" and tx: "tx_start T = None" "tx_commit T = None"
    and ids: "distinct (map p_MongoID (contents c))"
    and got: "mongo_GetRefreshPolicies T K now c = (Ok ps, c')"
  shows "mset ps = filter_mset (\<lambda>p. zero_time < p_NextDataRefreshTime p \<and> p_NextDataRefreshTime p \<le> now)
      (mset (contents c)) \<and>
    contents c' = map (\<lambda>p. if zero_time < p_NextDataRefreshTime p \<and> p_NextDataRefreshTime p \<le> now
        then p\<lparr>p_NextDataRefreshTime := bson_ms (now + RefreshPostponePeriod)\<rparr> else p) (contents c)"
proof -
  let ?due = "\<lambda>p :: policy. zero_time < p_NextDataRefreshTime p \<and> p_NextDataRefreshTime p \<le> now"
  let ?f = "[(''nextDataRefreshTime'', Later_upto zero_time now)]"
  have m: "matches re policy_get ?f = ?due"
    by (auto simp: matches_def fun_eq_iff)
  obtain ds where find: "co_Find K ?f c = Ok ds"
    "mset ds = filter_mset (matches re policy_get ?f) (mset (contents c))"
    by (rule coll_ok_Find [OF ok])
  note ds = find(1) find(2) [unfolded m]
  obtain c1 where c1: "mongo_postponeRefresh K now ds c = (Ok (), c1)"
    "contents c1 = map (\<lambda>d. if matches re policy_get [(''_id'', InIds (map p_MongoID ds))] d
        then apply_set policy_put [(''nextDataRefreshTime'', BTime (now + RefreshPostponePeriod))] d else d)
        (contents c)"
    unfolding mongo_postponeRefresh_def by (rule coll_ok_UpdateMany [OF ok])
  have out: "ps = ds" "c' = c1"
    using got
    unfolding mongo_GetRefreshPolicies_def mongo_Transaction_def swrap_def sbind_def sret_def
    by (simp_all add: ds(1) c1(1) tx split: if_splits)
  have due: "matches re policy_get [(''_id'', InIds (map p_MongoID ds))] d \<longleftrightarrow> ?due d"
    if "d \<in> set (contents c)" for d
  proof -
    have "set ds = {p \<in> set (contents c). ?due p}"
      using ds(2) by (metis set_mset_filter set_mset_mset)
    moreover have "p_MongoID d = p_MongoID e \<longleftrightarrow> d = e" if "e \<in> set (contents c)" for e
      using that ids \<open>d \<in> set (contents c)\<close> by (auto simp: distinct_map inj_on_def)
    ultimately show ?thesis
      using that by (auto simp: matches_def image_iff)
  qed
  have "contents c1 = map (\<lambda>p. if ?due p
      then p\<lparr>p_NextDataRefreshTime := bson_ms (now + RefreshPostponePeriod)\<rparr> else p) (contents c)"
    unfolding c1(2) using due by (intro map_cong refl) simp
  then show ?thesis using ds(2) out by simp
qed

end
