(* ===== verification/Sync.thy ===== *)
theory Sync
  imports Mongo_Laws Clone
begin

text \<open>
  The synchronisation program (\<^verbatim>\<open>cmd/sync/main.go\<close>): it clones the policy repository, reads its policies,
  compares them with the database and writes the new and changed ones.
\<close>

section \<open>Comparing\<close>

definition policies_equal :: "policy \<Rightarrow> policy \<Rightarrow> bool" where
  "policies_equal p1 p2 \<longleftrightarrow>
     p_Rego p1 = p_Rego p2 \<and> p_Data p1 = p_Data p2 \<and> p_DataConfig p1 = p_DataConfig p2 \<and>
     p_OutputSchema p1 = p_OutputSchema p2 \<and> p_ExportConfig p1 = p_ExportConfig p2 \<and>
     p_Repository p1 = p_Repository p2 \<and> p_Name p1 = p_Name p2 \<and> p_Version p1 = p_Version p2 \<and>
     p_Filename p1 = p_Filename p2 \<and> p_Group p1 = p_Group p2"

fun compare_loop ::
  "(string \<rightharpoonup> policy) \<Rightarrow> (string \<rightharpoonup> policy) \<Rightarrow> string list \<Rightarrow> policy list" where
  "compare_loop currPolicies repoPolicies [] = []"
| "compare_loop currPolicies repoPolicies (k # ks) =
     (case repoPolicies k of
        None \<Rightarrow> compare_loop currPolicies repoPolicies ks
      | Some rPolicy \<Rightarrow>
          (case currPolicies k of
             Some cPolicy \<Rightarrow>
               if \<not> policies_equal cPolicy rPolicy
               then rPolicy\<lparr>p_Locked := p_Locked cPolicy\<rparr> # compare_loop currPolicies repoPolicies ks
               else compare_loop currPolicies repoPolicies ks
           | None \<Rightarrow> rPolicy # compare_loop currPolicies repoPolicies ks))"

definition sync_compare ::
  "((string \<rightharpoonup> policy) \<Rightarrow> string list) \<Rightarrow> (string \<rightharpoonup> policy) \<Rightarrow> (string \<rightharpoonup> policy) \<Rightarrow> policy list" where
  "sync_compare order currPolicies repoPolicies =
     compare_loop currPolicies repoPolicies (order repoPolicies)"

section \<open>Reading and writing the database\<close>

definition key_policies :: "policy list \<Rightarrow> (string \<rightharpoonup> policy)" where
  "key_policies ds = foldl (\<lambda>m p. m(ConstructKey (pid_of p) \<mapsto> p)) Map.empty ds"

definition fetchCurrPolicies :: "('c, policy) coll \<Rightarrow> 'c \<Rightarrow> (string \<rightharpoonup> policy) outcome \<times> 'c" where
  "fetchCurrPolicies K c = (obind (co_Find K [] c) (\<lambda>ds. Ok (key_policies ds)), c)"

definition sync_nextDataRefreshTime :: "time \<Rightarrow> policy \<Rightarrow> time" where
  "sync_nextDataRefreshTime now p = (if p_DataConfig p \<noteq> [] then now else zero_time)"

definition sync_update :: "time \<Rightarrow> policy \<Rightarrow> update" where
  "sync_update now p =
     [(''filename'', BStr (p_Filename p)), (''locked'', BBool (p_Locked p)), (''rego'', BStr (p_Rego p)),
      (''data'', BStr (p_Data p)), (''dataConfig'', BStr (p_DataConfig p)),
      (''outputSchema'', BStr (p_OutputSchema p)), (''exportConfig'', BStr (p_ExportConfig p)),
      (''lastUpdate'', BTime now), (''nextDataRefreshTime'', BTime (sync_nextDataRefreshTime now p))]"

definition sync_upsert :: "('c, policy) coll \<Rightarrow> time \<Rightarrow> policy list \<Rightarrow> 'c \<Rightarrow> unit outcome \<times> 'c" where
  "sync_upsert K now ps =
     co_BulkWrite K (map (\<lambda>p. (pid_filter (pid_of p), sync_update now p)) ps)"

definition upsertPolicies ::
  "('c, policy) coll \<Rightarrow> time \<Rightarrow> ((string \<rightharpoonup> policy) \<Rightarrow> string list) \<Rightarrow> (string \<rightharpoonup> policy) \<Rightarrow> 'c \<Rightarrow>
   unit outcome \<times> 'c" where
  "upsertPolicies K now order repoPolicies =
     sbind (fetchCurrPolicies K) (\<lambda>currPolicies.
       let forUpsert = sync_compare order currPolicies repoPolicies in
       if forUpsert \<noteq> [] then sync_upsert K now forUpsert else sret (Ok ()))"

section \<open>One synchronisation\<close>

text \<open>
  What the file system and git give: the errors of the three removals of the clone folder and of the
  clone, the entries of the walk, and the reading of one policy.
\<close>

record sync_env =
  se_removeBefore :: "goerror option"
  se_cleanup :: "goerror option"
  se_clone :: "string \<Rightarrow> goerror option"
  se_entries :: "dirent list"
  se_create :: "string \<Rightarrow> string \<Rightarrow> policy outcome"
  se_removeAfter :: "goerror option"

definition check_err :: "string \<Rightarrow> goerror option \<Rightarrow> unit outcome" where
  "check_err what r =
     (case r of None \<Rightarrow> Ok () | Some e \<Rightarrow> Err (Plain (what @ err_text e)))"

definition sync_run ::
  "('c, policy) coll \<Rightarrow> time \<Rightarrow> ((string \<rightharpoonup> policy) \<Rightarrow> string list) \<Rightarrow> sync_env \<Rightarrow> string \<Rightarrow> 'c \<Rightarrow>
   unit outcome \<times> 'c" where
  "sync_run K now order V repoURL =
     sbind (sret (check_err ''failed to remove clone folder: '' (se_removeBefore V))) (\<lambda>_.
     sbind (sret (check_err [] (se_cleanup V))) (\<lambda>_.
     sbind (sret (check_err ''error cloning repo: '' (se_clone V repoURL))) (\<lambda>_.
     sbind (sret (owrap (\<lambda>e. Plain (''error iterating repo: '' @ err_text e))
              (IterateRepo (se_create V (getRepoName repoURL)) (se_entries V)))) (\<lambda>policies.
     sbind (swrap (\<lambda>e. Plain (''error updating policies: '' @ err_text e))
              (upsertPolicies K now order policies)) (\<lambda>_.
     sret (check_err ''error deleting policy repo folder: '' (se_removeAfter V)))))))"

section \<open>Facts about the pieces\<close>

lemma policies_equal_Locked [simp]: "policies_equal q (p\<lparr>p_Locked := b\<rparr>) = policies_equal q p"
  by (simp add: policies_equal_def)

lemma policies_equal_pid: "policies_equal q p \<Longrightarrow> pid_of q = pid_of p"
  by (simp add: policies_equal_def pid_of_def)

lemma policies_equal_content:
  "policies_equal q p \<longleftrightarrow>
     pid_of q = pid_of p \<and> p_Rego q = p_Rego p \<and> p_Data q = p_Data p \<and> p_DataConfig q = p_DataConfig p \<and>
     p_OutputSchema q = p_OutputSchema p \<and> p_ExportConfig q = p_ExportConfig p \<and> p_Filename q = p_Filename p"
  by (auto simp: policies_equal_def pid_of_def)

lemma foldl_map_of:
  "foldl (\<lambda>m p. m(f p \<mapsto> p)) m0 ds = m0 ++ map_of (rev (map (\<lambda>p. (f p, p)) ds))"
proof (induction ds arbitrary: m0)
  case (Cons d ds)
  have "m0(f d \<mapsto> d) ++ m = m0 ++ ([f d \<mapsto> d] ++ m)" for m
    by (simp add: map_add_assoc [symmetric] map_add_upd)
  then show ?case by (simp only: foldl.simps Cons.IH list.map rev.simps map_of_append map_of.simps) simp
qed simp

lemma key_policies_dir:
  assumes uniq: "unique_pids ds" and free: "\<forall>p \<in> set ds. dot_free (pid_of p)" and i: "dot_free i"
  shows "key_policies ds (ConstructKey i) = dir ds i"
proof -
  define kvs where "kvs = rev (map (\<lambda>p. (ConstructKey (pid_of p), p)) ds)"
  have "inj_on (\<lambda>p. ConstructKey (pid_of p)) (set ds)"
    using uniq free by (auto simp: inj_on_def key_simps unique_pids_def distinct_map)
  then have "distinct (map fst kvs)"
    using uniq by (simp add: kvs_def unique_pids_def distinct_map comp_def rev_map [symmetric])
  note get = map_of_is_SomeI [OF this]
  have eq: "key_policies ds = map_of kvs"
    by (simp add: key_policies_def foldl_map_of kvs_def)
  show ?thesis
  proof (cases "dir ds i")
    case None
    then have "\<forall>p \<in> set ds. ConstructKey (pid_of p) \<noteq> ConstructKey i"
      using free i by (auto simp: dir_None_iff key_simps)
    then have "map_of kvs (ConstructKey i) = None"
      by (auto simp: map_of_eq_None_iff kvs_def)
    then show ?thesis using None eq by simp
  next
    case (Some p)
    then have "(ConstructKey i, p) \<in> set kvs"
      using dir_in [OF Some] dir_pid [OF Some] by (auto simp: kvs_def)
    then show ?thesis using Some eq get by simp
  qed
qed

lemma dir_mset:
  assumes "mset ds = mset es" and "unique_pids es"
  shows "unique_pids ds \<and> dir ds = dir es \<and> set ds = set es"
proof -
  have set: "set ds = set es" using assms(1) by (metis set_mset_mset)
  have uniq: "unique_pids ds"
    using assms unfolding unique_pids_def by (metis distinct_map mset_eq_imp_distinct_iff set)
  have "dir ds i = dir es i" for i
  proof (cases "dir es i")
    case None
    then show ?thesis using set dir_None_iff [of ds i] dir_None_iff [of es i] by simp
  next
    case (Some p)
    then show ?thesis using set uniq dir_unique dir_in dir_pid by metis
  qed
  then show ?thesis using set uniq by auto
qed

lemma fetch_dir:
  assumes ok: "policy_coll_ok re contents K" and uniq: "unique_pids (contents c)"
    and free: "\<forall>p \<in> set (contents c). dot_free (pid_of p)"
  shows "\<exists>m. fetchCurrPolicies K c = (Ok m, c) \<and>
           (\<forall>i. dot_free i \<longrightarrow> m (ConstructKey i) = dir (contents c) i)"
proof -
  have m: "matches re policy_get [] = (\<lambda>_. True)" by (simp add: matches_def fun_eq_iff)
  obtain ds where find: "co_Find K [] c = Ok ds"
    "mset ds = filter_mset (matches re policy_get []) (mset (contents c))"
    by (rule coll_ok_Find [OF ok])
  then have "mset ds = mset (contents c)" by (simp add: m)
  from dir_mset [OF this uniq] show ?thesis
    using find(1) key_policies_dir [of ds] free by (auto simp: fetchCurrPolicies_def)
qed

subsection \<open>The list of changes\<close>

lemma compare_loop_in:
  "p \<in> set (compare_loop cur repo ks) \<Longrightarrow>
   \<exists>k r. k \<in> set ks \<and> repo k = Some r \<and>
     (case cur k of None \<Rightarrow> p = r
      | Some q \<Rightarrow> \<not> policies_equal q r \<and> p = r\<lparr>p_Locked := p_Locked q\<rparr>)"
proof (induction ks)
  case (Cons k ks)
  show ?case
  proof (cases "p \<in> set (compare_loop cur repo ks)")
    case True
    then show ?thesis using Cons.IH by (meson list.set_intros(2))
  next
    case False
    then show ?thesis
      using Cons.prems by (intro exI [of _ k]) (auto split: option.splits if_splits)
  qed
qed simp

lemma compare_loop_has:
  assumes "k \<in> set ks" "repo k = Some r"
  shows "case cur k of
      None \<Rightarrow> r \<in> set (compare_loop cur repo ks)
    | Some q \<Rightarrow> policies_equal q r \<or> r\<lparr>p_Locked := p_Locked q\<rparr> \<in> set (compare_loop cur repo ks)"
  using assms by (induction ks) (auto split: option.splits)

lemma compare_loop_Nil_iff:
  "compare_loop cur repo ks = [] \<longleftrightarrow>
   (\<forall>k \<in> set ks. \<forall>r. repo k = Some r \<longrightarrow> (\<exists>q. cur k = Some q \<and> policies_equal q r))"
  by (induction ks) (auto split: option.splits)

lemma compare_pids_distinct:
  assumes "keyed ConstructKey repo" "distinct ks"
  shows "distinct (map pid_of (compare_loop cur repo ks))"
  using assms(2)
proof (induction ks)
  case (Cons k ks)
  have "pid_of r \<notin> pid_of ` set (compare_loop cur repo ks)" if r: "repo k = Some r" for r
  proof
    assume "pid_of r \<in> pid_of ` set (compare_loop cur repo ks)"
    then obtain p where p: "p \<in> set (compare_loop cur repo ks)" "pid_of p = pid_of r" by auto
    from compare_loop_in [OF p(1)] obtain k' r' where
      "k' \<in> set ks" "repo k' = Some r'" "pid_of p = pid_of r'"
      by (auto split: option.splits)
    then have "k' = k" using assms(1) r p(2) unfolding keyed_def by metis
    then show False using \<open>k' \<in> set ks\<close> Cons.prems by simp
  qed
  then show ?case using Cons by (auto split: option.splits)
qed simp

subsection \<open>Writing the changes\<close>

lemma keeps_pid_sync [simp]: "keeps_pid (sync_update now p)"
  by (simp add: keeps_pid_def sync_update_def)

lemma sync_update_equal:
  "pid_of q = pid_of p \<Longrightarrow>
   policies_equal (apply_set policy_put (sync_update now p) q) p \<and>
   p_Locked (apply_set policy_put (sync_update now p) q) = p_Locked p"
  by (simp add: sync_update_def policies_equal_def pid_of_def)

lemma bulk_effect:
  assumes ok: "policy_coll_ok re contents K"
  shows "unique_pids (contents c) \<Longrightarrow> distinct (map pid_of ps) \<Longrightarrow>
    \<exists>c'. bulk_upsert K (map (\<lambda>p. (pid_filter (pid_of p), sync_update now p)) ps) c = (Ok (), c') \<and>
      unique_pids (contents c') \<and>
      (\<forall>j. j \<notin> pid_of ` set ps \<longrightarrow> dir (contents c') j = dir (contents c) j) \<and>
      (\<forall>p \<in> set ps. \<exists>q. dir (contents c') (pid_of p) = Some q \<and> policies_equal q p \<and>
         p_Locked q = p_Locked p)"
proof (induction ps arbitrary: c)
  case (Cons p ps)
  obtain c1 where c1: "co_UpdateOne K True (pid_filter (pid_of p)) (sync_update now p) c = (Ok (), c1)"
    "updated re policy_get policy_put policy_mk True (pid_filter (pid_of p)) (sync_update now p)
      (contents c) (contents c1)"
    by (rule coll_ok_UpdateOne [OF ok])
  note eff = updated_dir [OF c1(2) Cons.prems(1) keeps_pid_sync]
  have stored: "\<exists>q. dir (contents c1) (pid_of p) = Some q \<and> policies_equal q p \<and> p_Locked q = p_Locked p"
  proof (cases "dir (contents c) (pid_of p)")
    case None
    then show ?thesis
      using eff sync_update_equal [OF pid_upserted] by auto
  next
    case (Some q)
    then show ?thesis
      using eff sync_update_equal [OF dir_pid [OF Some]] by auto
  qed
  obtain c' where c': "bulk_upsert K (map (\<lambda>p. (pid_filter (pid_of p), sync_update now p)) ps) c1 = (Ok (), c')"
    "unique_pids (contents c')"
    "\<forall>j. j \<notin> pid_of ` set ps \<longrightarrow> dir (contents c') j = dir (contents c1) j"
    "\<forall>p \<in> set ps. \<exists>q. dir (contents c') (pid_of p) = Some q \<and> policies_equal q p \<and> p_Locked q = p_Locked p"
    using Cons.IH [of c1] eff Cons.prems(2) by auto
  have "pid_of p \<notin> pid_of ` set ps" using Cons.prems(2) by simp
  then have "\<exists>q. dir (contents c') (pid_of p) = Some q \<and> policies_equal q p \<and> p_Locked q = p_Locked p"
    using stored c'(3) by metis
  then show ?case using c1(1) c' eff by auto
qed simp

section \<open>What a synchronisation achieves\<close>

text \<open>The repository and the database hold unambiguous identifiers.\<close>

definition sync_ready :: "policy list \<Rightarrow> (string \<rightharpoonup> policy) \<Rightarrow> string list \<Rightarrow> bool" where
  "sync_ready ds repo ks \<longleftrightarrow>
     unique_pids ds \<and> list_all (\<lambda>p. dot_free (pid_of p)) ds \<and> keyed ConstructKey repo \<and>
     is_order ks repo \<and> (\<forall>k r. repo k = Some r \<longrightarrow> dot_free (pid_of r))"

lemma upsertPolicies_effect:
  assumes ok: "policy_coll_ok re contents K" and ready: "sync_ready (contents c) repo (order repo)"
  shows "\<exists>c'. upsertPolicies K now order repo c = (Ok (), c') \<and> unique_pids (contents c') \<and>
    (\<forall>j. (\<forall>r. repo (ConstructKey j) = Some r \<longrightarrow> pid_of r \<noteq> j) \<longrightarrow>
        dir (contents c') j = dir (contents c) j) \<and>
    (\<forall>k r. repo k = Some r \<longrightarrow> (\<exists>q. dir (contents c') (pid_of r) = Some q \<and> policies_equal q r \<and>
        p_Locked q = (case dir (contents c) (pid_of r) of None \<Rightarrow> p_Locked r | Some old \<Rightarrow> p_Locked old)))"
proof -
  have r: "unique_pids (contents c)" "\<forall>p \<in> set (contents c). dot_free (pid_of p)"
    "keyed ConstructKey repo" "is_order (order repo) repo" "\<And>k r. repo k = Some r \<Longrightarrow> dot_free (pid_of r)"
    using ready by (auto simp: sync_ready_def list_all_iff)
  obtain cur where cur: "fetchCurrPolicies K c = (Ok cur, c)"
    "\<And>i. dot_free i \<Longrightarrow> cur (ConstructKey i) = dir (contents c) i"
    using fetch_dir [OF ok r(1,2)] by blast
  define ps where "ps = compare_loop cur repo (order repo)"
  have dist: "distinct (map pid_of ps)"
    using compare_pids_distinct [OF r(3), of "order repo" cur] r(4) by (simp add: ps_def is_order_def)
  obtain c' where c': "bulk_upsert K (map (\<lambda>p. (pid_filter (pid_of p), sync_update now p)) ps) c = (Ok (), c')"
    "unique_pids (contents c')"
    "\<And>j. j \<notin> pid_of ` set ps \<Longrightarrow> dir (contents c') j = dir (contents c) j"
    "\<And>p. p \<in> set ps \<Longrightarrow> \<exists>q. dir (contents c') (pid_of p) = Some q \<and> policies_equal q p \<and> p_Locked q = p_Locked p"
    using bulk_effect [OF ok r(1) dist, of now] by blast
  have run: "upsertPolicies K now order repo c = (Ok (), c')"
    using cur(1) c'(1) coll_ok_BulkWrite [OF ok]
    by (cases "ps = []") (simp_all add: upsertPolicies_def sync_compare_def ps_def [symmetric] Let_def sync_upsert_def)
  have key: "k = ConstructKey (pid_of x)" if "repo k = Some x" for k x
    using r(3) that by (simp add: keyed_def)
  have pid_in: "\<exists>x. repo (ConstructKey (pid_of p)) = Some x \<and> pid_of x = pid_of p" if "p \<in> set ps" for p
    using compare_loop_in [OF that [unfolded ps_def]] key by (auto split: option.splits)
  have untouched: "dir (contents c') j = dir (contents c) j"
    if "\<forall>x. repo (ConstructKey j) = Some x \<longrightarrow> pid_of x \<noteq> j" for j
  proof (rule c'(3))
    show "j \<notin> pid_of ` set ps" using pid_in that by auto
  qed
  have stored: "\<exists>q. dir (contents c') (pid_of x) = Some q \<and> policies_equal q x \<and>
        p_Locked q = (case dir (contents c) (pid_of x) of None \<Rightarrow> p_Locked x | Some old \<Rightarrow> p_Locked old)"
    if x: "repo k = Some x" for k x
  proof -
    have k: "k \<in> set (order repo)" using r(4) x by (auto simp: is_order_def)
    have ck: "cur k = dir (contents c) (pid_of x)" using cur(2) r(5) [OF x] key [OF x] by simp
    show ?thesis
    proof (cases "dir (contents c) (pid_of x)")
      case None
      then have "x \<in> set ps" using compare_loop_has [of k "order repo" repo x cur, OF k x] ck by (simp add: ps_def)
      then show ?thesis using c'(4) None by auto
    next
      case (Some old)
      let ?x = "x\<lparr>p_Locked := p_Locked old\<rparr>"
      show ?thesis
      proof (cases "?x \<in> set ps")
        case True
        then show ?thesis using c'(4) [OF True] Some by auto
      next
        case False
        then have eq: "policies_equal old x"
          using compare_loop_has [of k "order repo" repo x cur, OF k x] ck Some by (simp add: ps_def)
        have "pid_of x \<notin> pid_of ` set ps"
        proof
          assume "pid_of x \<in> pid_of ` set ps"
          then obtain p where p: "p \<in> set ps" "pid_of p = pid_of x" by auto
          from compare_loop_in [OF p(1) [unfolded ps_def]] obtain k' y where
            y: "repo k' = Some y" "case cur k' of None \<Rightarrow> p = y
              | Some q \<Rightarrow> \<not> policies_equal q y \<and> p = y\<lparr>p_Locked := p_Locked q\<rparr>" by blast
          then have "pid_of y = pid_of p" by (auto split: option.splits)
          then have "k' = k" using key [OF y(1)] key [OF x] p(2) by simp
          then show False using y x ck Some eq by simp
        qed
        then show ?thesis using c'(3) Some eq by auto
      qed
    qed
  qed
  show ?thesis using run c'(2) untouched stored by blast
qed

text \<open>A second run finds nothing to do.\<close>

lemma upsertPolicies_again:
  assumes ok: "policy_coll_ok re contents K" and ready: "sync_ready (contents c) repo (order repo)"
    and agreed: "\<forall>k r. repo k = Some r \<longrightarrow> (\<exists>q. dir (contents c) (pid_of r) = Some q \<and> policies_equal q r)"
  shows "upsertPolicies K now order repo c = (Ok (), c)"
proof -
  have r: "unique_pids (contents c)" "\<forall>p \<in> set (contents c). dot_free (pid_of p)"
    "keyed ConstructKey repo" "\<And>k r. repo k = Some r \<Longrightarrow> dot_free (pid_of r)"
    using ready by (auto simp: sync_ready_def list_all_iff)
  obtain cur where cur: "fetchCurrPolicies K c = (Ok cur, c)"
    "\<And>i. dot_free i \<Longrightarrow> cur (ConstructKey i) = dir (contents c) i"
    using fetch_dir [OF ok r(1,2)] by blast
  have "cur k = dir (contents c) (pid_of x)" if x: "repo k = Some x" for k x
  proof -
    have "k = ConstructKey (pid_of x)" using r(3) x unfolding keyed_def by blast
    then show ?thesis using cur(2) r(4) [OF x] by simp
  qed
  then have "compare_loop cur repo (order repo) = []"
    using agreed by (auto simp: compare_loop_Nil_iff)
  then show ?thesis
    using cur(1) by (simp add: upsertPolicies_def sync_compare_def)
qed

end
