(* ===== verification/Examples.thy ===== *)
theory Examples
  imports Coherence Auto_Import Refresher Notify Did_Web Rego_Signer Sync
begin

text \<open>
  Concrete instances of the parameters, on which the properties are applied: a policy, an in-memory
  storage that holds it, a JSON codec for one document, a network with one answer, a service and an
  engine.
\<close>

section \<open>Policies and storages\<close>

definition ex_policy :: policy where
  "ex_policy = zero_policy
     \<lparr>p_MongoID := 1, p_Filename := ''grp/example/1.0/policy.rego'', p_Repository := ''repo'',
      p_Name := ''example'', p_Group := ''grp'', p_Version := ''1.0'',
      p_Rego := ''package grp.example'', p_Data := ''{}'', p_OutputSchema := ''schema'',
      p_ExportConfig := ''cfg''\<rparr>"

definition ex_id :: polid where
  "ex_id = (''repo'', ''grp'', ''example'', ''1.0'')"

definition ex_policies :: "string \<rightharpoonup> policy" where
  "ex_policies = [ConstructKey ex_id \<mapsto> ex_policy]"

definition ex_mem :: mem where
  "ex_mem = mem_New ex_policies"

definition ex_order :: "'v range_order" where
  "ex_order m = sorted_list_of_set (dom m)"

definition ex_ops :: "mem storage_ops" where
  "ex_ops = mem_ops ConstructKey (\<lambda>s. s) ex_order ex_order 0"

lemma ex_pid [simp]: "pid_of ex_policy = ex_id" "pid_of (ex_policy\<lparr>p_Locked := b\<rparr>) = ex_id"
  by (simp_all add: ex_policy_def ex_id_def pid_of_def)

lemma ex_unlocked [simp]: "\<not> p_Locked ex_policy"
  by (simp add: ex_policy_def zero_policy_def)

lemma ex_plain [simp]: "dot_free ex_id" "comma_free ex_id" "plain_id ex_id"
  by (simp_all add: ex_id_def dot_free_def comma_free_def plain_id_def)

lemma ex_mem_inv [simp]: "mem_inv ex_mem" "mem_inv (mem_New ex_policies)"
  by (auto simp: mem_inv_def ex_mem_def mem_New_def ex_policies_def keyed_def split: if_splits)

lemma ex_mem_lookup [simp]: "mem_lookup ex_mem ex_id = Some ex_policy"
  by (simp add: mem_lookup_def ex_mem_def mem_New_def ex_policies_def)

lemma ex_mem_changes [simp]: "changes ex_mem = []"
  by (simp add: ex_mem_def mem_New_def)

section \<open>Libraries\<close>

definition ex_codec :: "json \<Rightarrow> codec" where
  "ex_codec v =
     \<lparr>marshal = (\<lambda>_. Ok ''json''), unmarshal = (\<lambda>_. Ok v), decodeFirst = (\<lambda>_. Ok v),
      sameFold = (=), formatTime = (\<lambda>_. Ok ''time''), parseTime = (\<lambda>_. Ok 0)\<rparr>"

definition ex_response :: "int \<Rightarrow> string \<Rightarrow> response" where
  "ex_response code body = \<lparr>rs_StatusCode = code, rs_Status = ''status'', rs_Body = body, rs_ReadErr = None\<rparr>"

definition ex_net :: "response \<Rightarrow> net" where
  "ex_net r = \<lparr>respond = (\<lambda>h rq. Ok r), badRequest = (\<lambda>m u. None)\<rparr>"

lemma ex_codec_simps [simp]:
  "marshal (ex_codec v) x = Ok ''json''" "unmarshal (ex_codec v) s = Ok v"
  "decodeFirst (ex_codec v) s = Ok v" "sameFold (ex_codec v) a b = (a = b)"
  "formatTime (ex_codec v) t = Ok ''time''" "parseTime (ex_codec v) s = Ok 0"
  by (simp_all add: ex_codec_def)

lemma ex_net_simps [simp]:
  "respond (ex_net r) h rq = Ok r" "badRequest (ex_net r) m u = None"
  by (simp_all add: ex_net_def)

lemma ex_response_simps [simp]:
  "rs_StatusCode (ex_response c b) = c" "rs_Body (ex_response c b) = b"
  "rs_ReadErr (ex_response c b) = None" "io_ReadAll (ex_response c b) = Ok b"
  by (simp_all add: ex_response_def io_ReadAll_def)

lemma ex_answering [simp]: "answering (ex_net r)"
  by (simp add: answering_def)

section \<open>A service and an engine\<close>

definition ex_service :: "bool \<Rightarrow> unit outcome \<Rightarrow> mem service" where
  "ex_service lockOnFailure cacheAnswer =
     \<lparr>sv_storage = ex_ops, sv_cacheSet = (\<lambda>k ns sc v ttl h. (cacheAnswer, h)),
      sv_signerKey = (\<lambda>ns k h. (Ok JNull, h)), sv_signerSign = (\<lambda>ns k d h. (Ok ''sig'', h)),
      sv_httpClient = ex_net (ex_response 200 ''outer''), sv_validationLock = lockOnFailure,
      sv_externalHostname = ''https://agent''\<rparr>"

definition ex_engine :: "json \<Rightarrow> goerror option \<Rightarrow> (unit, mem) engine" where
  "ex_engine result verdict =
     \<lparr>en_codec = ex_codec (JObj []), prepareForEval = (\<lambda>args. Ok ()),
      evalQuery = (\<lambda>q i w. (Ok [[result]], w)), extensions = [],
      schema = (\<lambda>s. Ok (\<lambda>v. verdict)), newUUID = ''uuid''\<rparr>"

definition ex_request :: evaluate_request where
  "ex_request = \<lparr>er_id = ex_id, er_Input = JNull, er_EvaluationID = Some ''eid'', er_TTL = None\<rparr>"

definition ex_world :: "mem world" where
  "ex_world = \<lparr>w_store = ex_mem, w_cache = rc_New, w_http = []\<rparr>"

lemma ex_service_simps [simp]:
  "sv_storage (ex_service b a) = ex_ops" "sv_validationLock (ex_service b a) = b"
  "sv_cacheSet (ex_service b a) k ns sc v ttl h = (a, h)"
  "sv_httpClient (ex_service b a) = ex_net (ex_response 200 ''outer'')"
  "sv_externalHostname (ex_service b a) = ''https://agent''"
  by (simp_all add: ex_service_def)

lemma ex_schema [simp]: "schema (ex_engine v verdict) s = Ok (\<lambda>v. verdict)"
  by (simp add: ex_engine_def)

lemma ex_uses [simp]:
  "uses_store (ex_service b a) (mem_Policy ConstructKey) (mem_SavePolicy ConstructKey) (mem_SetPolicyLock ConstructKey)"
  using uses_mem [of "ex_service b a"] by (simp add: ex_ops_def)

lemma ex_request_simps [simp]: "er_id ex_request = ex_id" "er_TTL ex_request = None"
  by (simp_all add: ex_request_def)

lemma ex_world_simps [simp]:
  "w_store ex_world = ex_mem" "w_cache ex_world = rc_New" "w_http ex_world = []"
  "w_cache ex_world k = None"
  by (simp_all add: ex_world_def rc_New_def)

lemma ex_retrieve:
  "retrievePolicy (ex_service b a) ex_id ex_world =
    (Ok ex_policy, ex_world\<lparr>w_cache := rc_New(queryCacheKey ex_id \<mapsto> ex_policy)\<rparr>)"
  using mem_pol.retrieve_fresh [OF ex_uses [of b a], of ex_world ex_id ex_policy] by (simp add: rc_New_def)

section \<open>A data configuration\<close>

definition ex_refresh_lib :: "string refresh_lib" where
  "ex_refresh_lib =
     \<lparr>rl_codec = ex_codec (JObj [(''URL'', JStr ''https://data''), (''Method'', JStr ''GET''),
                                 (''Period'', JStr ''1h'')]),
      parseDuration = (\<lambda>s. Ok 3600), numDuration = (\<lambda>s. 0), urlParse = (\<lambda>s. Ok s),
      urlScheme = (\<lambda>u. ''https''), urlSetScheme = (\<lambda>s u. u), urlString = (\<lambda>u. u)\<rparr>"

lemma ex_total_lib: "total_lib ex_refresh_lib"
  by (simp add: total_lib_def ex_refresh_lib_def)

lemma ex_usable_config:
  "usable_config ex_refresh_lib (ex_net r) p =
    Some (\<lparr>dc_URL = ''https://data'', dc_Method = ''GET'', dc_Period = 3600, dc_Body = JNull\<rparr>,
      \<lparr>rq_Method = ''GET'', rq_URL = ''https://data'', rq_Header = [], rq_Body = []\<rparr>)"
  by (simp add: usable_config_def decode_dataConfig_def ex_refresh_lib_def createHTTPRequest_def
      http_NewRequest_def Let_def)

section \<open>Bundles\<close>

definition ex_libs :: "(unit, unit) libs" where
  "ex_libs =
     \<lparr>lib_codec = ex_codec (metadata_json (policy_metadata ''https://agent'' ex_policy) ''time''),
      zipWrite = (\<lambda>fs. if length fs = 2 then Ok ''outer'' else Ok ''inner''),
      zipRead = (\<lambda>s. if s = ''outer'' then Ok (signed_files ''inner'' ''sig'')
                      else Ok (bundle_files ''json'' ex_policy)),
      sha256 = (\<lambda>s. s), fetchKeys = (\<lambda>u h. (Ok [()], h)), keyType = (\<lambda>k. OKP),
      rawECDSA = (\<lambda>k. Ok ()), rawED25519 = (\<lambda>k. Ok ()), rawRSA = (\<lambda>k. Ok ()),
      ecdsaVerifyASN1 = (\<lambda>k p s. True), ed25519Verify = (\<lambda>k p s. p = ''inner'' \<and> s = ''sig''),
      rsaVerifyPSS = (\<lambda>k p s. None)\<rparr>"

lemma ex_packable: "packable ex_libs ''https://agent'' ex_policy ''time'' ''json'' ''inner''"
proof -
  have "\<not> blank ''{}''" "\<not> blank ''schema''" "\<not> blank ''cfg''" by code_simp+
  then have "length (bundle_files ''json'' ex_policy) \<noteq> 2"
    by (simp add: bundle_files_def optional_file_def ex_policy_def zero_policy_def)
  then show ?thesis
    by (simp add: packable_def ex_libs_def fields_distinct_def ex_policy_def zero_policy_def)
qed

end
