(* ===== verification/Service_Props.thy ===== *)
theory Service_Props
  imports Examples
begin

text \<open>
  The properties of the service: locking, evaluation, validation, and the coherence of the policy
  cache with the storage.
\<close>

section \<open>Locking and the policy cache\<close>

text \<open>C1: In every state that the service over the in-memory storage reaches - saves, locks, data refreshes,
  retrievals that read the storage and fill the cache in separate steps, change notifications that arrive
  or are dropped, and the change listener all interleaved; the repository, group and name of
  every policy written without dots, those of every one retrieved without dots and commas - an evaluation of a policy that is locked in the
  storage answers 403, although it may take the policy from the cache, provided that no change is waiting
  or held by the listener, none was dropped since the cache was last purged, and the policy's entry of
  the cache was not filled by a retrieval that had read the storage before that purge.\<close>

theorem quiet_evaluation_respects_lock:
  assumes "sv_storage S = mem_ops ConstructKey lower order aorder now"
    and "run_reachable S p0 u" and "mem_inv (mem_New p0)" and "plain_id (er_id req)"
    and "quiet (ru_sys u)" and "\<not> ru_lost u" and "queryCacheKey (er_id req) \<notin> ru_late u"
    and "mem_lookup (w_store (ru_world u)) (er_id req) = Some p" and "p_Locked p"
  shows "\<exists>e w'. svc_Evaluate E S req ctx (ru_world u) = (Err e, w') \<and> response_status e = 403"
proof -
  have "run_inv u" using run_reachable_inv [OF assms(1-3)] .
  moreover have "settled u" using assms(5,6) by (simp add: settled_def)
  ultimately show ?thesis
    using settled_locked_forbidden [OF assms(1) _ _ assms(4,7-9)] response_status_Is by fastforce
qed

text \<open>
  An evaluation fills the cache, the policy is locked, a retrieval reads the locked policy, the listener
  receives the change and purges the cache, a new retrieval reads the storage and fills the cache.
\<close>

definition ex_locked_mem :: mem where
  "ex_locked_mem = ex_mem\<lparr>policies := ex_policies(ConstructKey ex_id \<mapsto> ex_policy\<lparr>p_Locked := True\<rparr>),
     changes := [ex_policy\<lparr>p_Locked := True\<rparr>]\<rparr>"

definition ex_before_purge :: run where
  "ex_before_purge =
     run_read ex_id (ex_policy\<lparr>p_Locked := True\<rparr>)
       (run_store (ex_world\<lparr>w_store := ex_locked_mem, w_cache := rc_New(queryCacheKey ex_id \<mapsto> ex_policy)\<rparr>)
         (run_fill \<lparr>rt_id = ex_id, rt_policy = ex_policy, rt_overtaken = False\<rparr>
           (run_read ex_id ex_policy (run_init ex_policies []))))"

definition ex_after_purge :: run where
  "ex_after_purge =
     run_fill \<lparr>rt_id = ex_id, rt_policy = ex_policy\<lparr>p_Locked := True\<rparr>, rt_overtaken = False\<rparr>
       (run_read ex_id (ex_policy\<lparr>p_Locked := True\<rparr>)
         (run_purge zero_policy (run_receive [] [] ex_before_purge)))"

lemma ex_run_load:
  "retrieve_load (ex_service b a) i w =
    (case mem_lookup (w_store w) i of
       None \<Rightarrow> (Err (errors_New [AKind NotFound, AStr ''policy not found in memory storage'']), w)
     | Some p \<Rightarrow> (Ok p, w))"
  by (simp add: retrieve_load_def swrap_def on_store_def ex_ops_def mem_ops_def mem_Policy_def mem_lookup_def
      split: option.split)

lemma ex_before_purge_reachable: "run_reachable (ex_service True (Ok ())) ex_policies ex_before_purge"
proof -
  let ?S = "ex_service True (Ok ())"
  let ?e = "\<lparr>rt_id = ex_id, rt_policy = ex_policy, rt_overtaken = False\<rparr>"
  let ?u1 = "run_read ex_id ex_policy (run_init ex_policies [])"
  let ?u2 = "run_fill ?e ?u1"
  have w: "ru_world (run_init ex_policies []) = ex_world"
    by (simp add: run_init_def sys_init_def ex_world_def ex_mem_def)
  have 1: "run_step ?S (run_init ex_policies []) ?u1"
    by (rule ru_read) (simp_all add: w ex_run_load)
  have 2: "run_step ?S ?u1 ?u2" by (rule ru_fill) (simp add: run_read_def)
  have w2: "ru_world ?u2 = ex_world\<lparr>w_cache := rc_New(queryCacheKey ex_id \<mapsto> ex_policy)\<rparr>"
    using w by (simp add: run_fill_def run_store_def run_read_def retrieve_fill_def rc_Set_def)
  have "store_step ?S (ru_world ?u2)
      (ex_world\<lparr>w_store := ex_locked_mem, w_cache := rc_New(queryCacheKey ex_id \<mapsto> ex_policy)\<rparr>)"
    unfolding w2
    by (rule st_lock [of ex_id _ True _ "Ok ()"])
      (simp_all add: on_store_def Let_def ex_world_def ex_ops_def mem_ops_def mem_SetPolicyLock_def ex_mem_def
        mem_New_def ex_policies_def ex_locked_mem_def)
  note 3 = ru_store [OF this]
  have "run_step ?S (run_store (ex_world\<lparr>w_store := ex_locked_mem,
      w_cache := rc_New(queryCacheKey ex_id \<mapsto> ex_policy)\<rparr>) ?u2) ex_before_purge"
    unfolding ex_before_purge_def
    by (rule ru_read) (simp_all add: ex_run_load run_store_def ex_locked_mem_def mem_lookup_def)
  then show ?thesis using ru_next ru_start 1 2 3 by blast
qed

lemma ex_after_purge_reachable: "run_reachable (ex_service True (Ok ())) ex_policies ex_after_purge"
proof -
  let ?S = "ex_service True (Ok ())"
  let ?u1 = "run_receive [] [] ex_before_purge"
  let ?u2 = "run_purge zero_policy ?u1"
  have store: "w_store (ru_world ex_before_purge) = ex_locked_mem" "\<not> sy_purging (ru_sys ex_before_purge)"
    by (simp_all add: ex_before_purge_def run_read_def run_store_def run_fill_def run_init_def sys_init_def)
  have 1: "run_step ?S ex_before_purge ?u1"
    by (rule ru_receive) (simp_all add: store ex_locked_mem_def)
  have 2: "run_step ?S ?u1 ?u2"
    by (rule ru_purge) (simp add: run_receive_def receive_change_def)
  have 3: "run_step ?S ?u2 (run_read ex_id (ex_policy\<lparr>p_Locked := True\<rparr>) ?u2)"
    by (rule ru_read)
      (simp_all add: ex_run_load run_purge_def purge_cache_def run_receive_def receive_change_def store
        ex_locked_mem_def mem_lookup_def)
  have 4: "run_step ?S (run_read ex_id (ex_policy\<lparr>p_Locked := True\<rparr>) ?u2) ex_after_purge"
    unfolding ex_after_purge_def by (rule ru_fill) (simp add: run_read_def)
  show ?thesis using ru_next [OF ru_next [OF ru_next [OF ru_next]]] ex_before_purge_reachable 1 2 3 4 by blast
qed

theorem quiet_evaluation_respects_lock_witness:
  "run_reachable (ex_service True (Ok ())) ex_policies ex_after_purge \<and>
   (\<exists>e w'. svc_Evaluate (ex_engine JNull None) (ex_service True (Ok ())) ex_request None
      (ru_world ex_after_purge) = (Err e, w') \<and> response_status e = 403)"
proof -
  have "w_store (ru_world ex_after_purge) = ex_locked_mem\<lparr>changes := []\<rparr>" "\<not> sy_purging (ru_sys ex_after_purge)"
    "\<not> ru_lost ex_after_purge" "ru_late ex_after_purge = {}"
    by (simp_all add: ex_after_purge_def ex_before_purge_def run_defs run_init_def sys_init_def)
  then show ?thesis
    using quiet_evaluation_respects_lock [of "ex_service True (Ok ())" "\<lambda>s. s" ex_order ex_order 0 ex_policies
        ex_after_purge ex_request "ex_policy\<lparr>p_Locked := True\<rparr>" "ex_engine JNull None" None]
      ex_after_purge_reachable
    by (simp add: ex_ops_def quiet_def ex_locked_mem_def mem_lookup_def)
qed

text \<open>C37: An evaluation that has read an unlocked policy from the storage but not yet filled the cache
  can be overtaken by a lock, its notification and the purge: afterwards nothing is waiting, the policy is
  locked in the storage, and every retrieval gives the unlocked policy from the cache.\<close>

theorem race_leaves_unlocked_policy_cached:
  assumes "sv_storage S = mem_ops ConstructKey lower order aorder now"
    and "mem_inv (w_store w)" and "dot_free i"
    and "mem_lookup (w_store w) i = Some p" and "\<not> p_Locked p" and "changes (w_store w) = []"
  shows "retrieve_load S i w = (Ok p, w) \<and>
    (\<exists>w1. svc_Lock S i w = (Ok (), w1) \<and> changes (w_store w1) = [p\<lparr>p_Locked := True\<rparr>] \<and>
      (let y = race i p w w1 in
         quiet y \<and> mem_lookup (w_store (sy_world y)) i = Some (p\<lparr>p_Locked := True\<rparr>) \<and>
         retrievePolicy S i (sy_world y) = (Ok p, sy_world y)))"
  using stale_after_race [OF assms] .

theorem race_leaves_unlocked_policy_cached_witness:
  "\<exists>w1. svc_Lock (ex_service True (Ok ())) ex_id ex_world = (Ok (), w1) \<and>
     quiet (race ex_id ex_policy ex_world w1)"
  using race_leaves_unlocked_policy_cached
    [of "ex_service True (Ok ())" "\<lambda>s. s" ex_order ex_order 0 ex_world ex_id ex_policy]
  by (auto simp: ex_ops_def Let_def)

text \<open>When the goroutine that sends a change notification gives up (the request's context is done, or
  ten seconds have passed), the cache keeps the policy as it was before the lock.\<close>

theorem lost_notification_keeps_unlocked_policy:
  assumes "sv_storage S = mem_ops ConstructKey lower order aorder now"
    and "mem_inv (w_store w)" and "dot_free i"
    and "mem_lookup (w_store w) i = Some p" and "\<not> p_Locked p"
    and "changes (w_store w) = []" and "rc_Get (queryCacheKey i) (w_cache w) = Some p"
  shows "\<exists>w1. svc_Lock S i w = (Ok (), w1) \<and>
      (let y = lose_change [] [] \<lparr>sy_world = w1, sy_purging = False\<rparr> in
         quiet y \<and> mem_lookup (w_store (sy_world y)) i = Some (p\<lparr>p_Locked := True\<rparr>) \<and>
         retrievePolicy S i (sy_world y) = (Ok p, sy_world y))"
  using stale_after_loss [OF assms] .

theorem lost_notification_keeps_unlocked_policy_witness:
  "\<exists>w1. svc_Lock (ex_service True (Ok ())) ex_id
        (ex_world\<lparr>w_cache := [queryCacheKey ex_id \<mapsto> ex_policy]\<rparr>) = (Ok (), w1) \<and>
     quiet (lose_change [] [] \<lparr>sy_world = w1, sy_purging = False\<rparr>)"
  using lost_notification_keeps_unlocked_policy
    [of "ex_service True (Ok ())" "\<lambda>s. s" ex_order ex_order 0
        "ex_world\<lparr>w_cache := [queryCacheKey ex_id \<mapsto> ex_policy]\<rparr>" ex_id ex_policy]
  by (auto simp: ex_ops_def Let_def rc_Get_def)

text \<open>C5: After a successful lock, an evaluation that does not find the policy in the cache answers 403;
  neither the storage nor any other service is touched.\<close>

theorem lock_then_evaluate_forbidden:
  assumes "sv_storage S = mem_ops ConstructKey lower order aorder now"
    and "mem_inv (w_store w)" and "dot_free (er_id req)"
    and "mem_lookup (w_store w) (er_id req) = Some p"
    and "svc_Lock S (er_id req) w = (Ok (), w1)"
    and "w_cache w2 (queryCacheKey (er_id req)) = None" and "w_store w2 = w_store w1"
  shows "\<exists>e w3. svc_Evaluate E S req ctx w2 = (Err e, w3) \<and> response_status e = 403 \<and>
           w_store w3 = w_store w1 \<and> w_http w3 = w_http w2"
  using mem_pol.Lock_then_Evaluate [OF uses_mem [OF assms(1)] assms(2-7), of E ctx] response_status_Is
  by fastforce

theorem lock_then_evaluate_forbidden_witness:
  "\<exists>w1 e w3. svc_Lock (ex_service True (Ok ())) ex_id ex_world = (Ok (), w1) \<and>
     svc_Evaluate (ex_engine JNull None) (ex_service True (Ok ())) ex_request None w1 = (Err e, w3) \<and>
     response_status e = 403"
proof -
  obtain s' where lock: "svc_Lock (ex_service True (Ok ())) ex_id ex_world = (Ok (), ex_world\<lparr>w_store := s'\<rparr>)"
    using mem_pol.Lock_unlocked [OF ex_uses [of True "Ok ()"], of ex_world ex_id ex_policy] by auto
  show ?thesis
    using lock lock_then_evaluate_forbidden [of "ex_service True (Ok ())" "\<lambda>s. s" ex_order ex_order 0
        ex_world ex_request ex_policy "ex_world\<lparr>w_store := s'\<rparr>" "ex_world\<lparr>w_store := s'\<rparr>"
        "ex_engine JNull None" None]
    by (auto simp: ex_ops_def rc_New_def)
qed

text \<open>Locking an unlocked policy and unlocking it again succeeds and leaves every policy of the
  storage as it was, except for the time stamp of the policy itself.\<close>

theorem lock_unlock_restores:
  assumes "sv_storage S = mem_ops ConstructKey lower order aorder now"
    and "mem_inv (w_store w)" and "dot_free i"
    and "mem_lookup (w_store w) i = Some p" and "\<not> p_Locked p"
  shows "\<exists>w1 w2 t. svc_Lock S i w = (Ok (), w1) \<and> svc_Unlock S i w1 = (Ok (), w2) \<and>
    mem_lookup (w_store w2) i = Some (p\<lparr>p_LastUpdate := t\<rparr>) \<and>
    (\<forall>j. dot_free j \<longrightarrow> j \<noteq> i \<longrightarrow> mem_lookup (w_store w2) j = mem_lookup (w_store w) j)"
  using mem_pol.Lock_Unlock [OF uses_mem [OF assms(1)] assms(2-5)] .

theorem lock_unlock_restores_witness:
  "\<exists>w1 w2. svc_Lock (ex_service True (Ok ())) ex_id ex_world = (Ok (), w1) \<and>
     svc_Unlock (ex_service True (Ok ())) ex_id w1 = (Ok (), w2)"
  using lock_unlock_restores
    [of "ex_service True (Ok ())" "\<lambda>s. s" ex_order ex_order 0 ex_world ex_id ex_policy]
  by (auto simp: ex_ops_def)

text \<open>Locking a locked policy and unlocking an unlocked one answer 403, locking or unlocking a policy
  that does not exist answers 404; none of them changes anything.\<close>

theorem lock_errors:
  assumes "sv_storage S = mem_ops ConstructKey lower order aorder now"
    and "mem_inv (w_store w)" and "dot_free i"
  shows "case mem_lookup (w_store w) i of
      None \<Rightarrow> \<exists>e. svc_Lock S i w = (Err e, w) \<and> svc_Unlock S i w = (Err e, w) \<and> response_status e = 404
    | Some p \<Rightarrow>
        if p_Locked p then \<exists>e. svc_Lock S i w = (Err e, w) \<and> response_status e = 403
        else \<exists>e. svc_Unlock S i w = (Err e, w) \<and> response_status e = 403"
proof (cases "mem_lookup (w_store w) i")
  case None
  then show ?thesis
    using mem_pol.lock_missing_error [OF uses_mem [OF assms(1)] assms(2,3)] response_status_Is by fastforce
next
  case (Some p)
  then show ?thesis
    using mem_pol.Lock_locked [OF uses_mem [OF assms(1)] assms(2,3)]
      mem_pol.Unlock_unlocked [OF uses_mem [OF assms(1)] assms(2,3)] response_status_Is
    by fastforce
qed

theorem lock_errors_witness:
  "\<exists>e. svc_Unlock (ex_service True (Ok ())) ex_id ex_world = (Err e, ex_world) \<and> response_status e = 403"
  using lock_errors [of "ex_service True (Ok ())" "\<lambda>s. s" ex_order ex_order 0 ex_world ex_id]
  by (simp add: ex_ops_def)

section \<open>Evaluation\<close>

text \<open>C4: An evaluation succeeds only for a policy that is not locked: the one in the policy cache under
  the identifier or, if there is none, the one in the storage, which is then put into the cache.  The query
  has been prepared from exactly that policy's source under its file name, the question
  \<^verbatim>\<open>data.<group>.<name>\<close>, strict errors, the extension functions, the policy's data as a store if it has any
  and the request's headers, and run on the input of the request.  The result is the first expression of
  the query's first result, or the value under the key $0 if that expression is an object with this
  single key.  Its JSON text has been sent to the cache service under the returned ETag (the identifier
  the request gives, else a fresh one) without namespace and scope, with the lifetime the request gives,
  else 0, and the cache service has stored it or was unavailable.\<close>

theorem evaluation_success:
  assumes "svc_Evaluate E S req ctx w = (Ok r, w')" and "er_id req = (repo, grp, name, version)"
  shows "\<exists>p w1 store q v vs rs w2 txt answer.
    (case rc_Get (queryCacheKey (er_id req)) (w_cache w) of
       Some cached \<Rightarrow> p = cached \<and> w1 = w
     | None \<Rightarrow> op_Policy (sv_storage S) (er_id req) (w_store w) = (Ok p, w_store w1) \<and>
         w_cache w1 = (w_cache w)(queryCacheKey (er_id req) \<mapsto> p)) \<and>
    \<not> p_Locked p \<and>
    (if p_Data p = [] then store = []
     else \<exists>d kvs. unmarshal (en_codec E) (p_Data p) = Ok d \<and> struct_entries d = Ok kvs \<and> store = [Store kvs]) \<and>
    prepareForEval E
      ([Module (p_Filename p) (p_Rego p), Query (''data.'' @ grp @ ''.'' @ name), StrictBuiltinErrors True]
       @ map Extension (extensions E) @ store @ [HeaderFunction (FromContext ctx)]) = Ok q \<and>
    evalQuery E q (er_Input req) w1 = (Ok ((v # vs) # rs), w2) \<and>
    ((\<exists>u. v = JObj [(''$0'', u)] \<and> res_Result r = u) \<or>
     (\<forall>u. v \<noteq> JObj [(''$0'', u)]) \<and> res_Result r = v) \<and>
    res_ETag r = (case er_EvaluationID req of Some (c # cs) \<Rightarrow> c # cs | _ \<Rightarrow> newUUID E) \<and>
    marshal (en_codec E) (res_Result r) = Ok txt \<and>
    sv_cacheSet S (res_ETag r) [] [] txt (case er_TTL req of None \<Rightarrow> 0 | Some t \<Rightarrow> t) (w_http w2)
      = (answer, w_http w') \<and>
    (answer = Ok () \<or> (\<exists>e. answer = Err e \<and> errors_Is ServiceUnavailable e)) \<and>
    w_store w' = w_store w2 \<and> w_cache w' = w_cache w2"
proof -
  obtain p w1 args q v vs rs w2 js where
    1: "retrievePolicy S (er_id req) w = (Ok p, w1)" "\<not> p_Locked p"
      "buildRegoArgs E (p_Filename p) (p_Rego p) (regoQueryFor (er_id req)) (p_Data p) = Ok args"
    and 2: "prepareForEval E (args @ [HeaderFunction (FromContext ctx)]) = Ok q"
      "evalQuery E q (er_Input req) w1 = (Ok ((v # vs) # rs), w2)"
    and 3: "res_Result r = unwrap_result v" "res_ETag r = evaluation_id E req"
      "marshal (en_codec E) (unwrap_result v) = Ok js"
      "store_result S (evaluation_id E req) js (case er_TTL req of None \<Rightarrow> 0 | Some t \<Rightarrow> t) w2 = (Ok (), w')"
    using Evaluate_OkD [OF assms(1)] by blast
  obtain store where store: "args = [Module (p_Filename p) (p_Rego p), Query (regoQueryFor (er_id req)),
        StrictBuiltinErrors True] @ map Extension (extensions E) @ store"
    "if p_Data p = [] then store = []
     else \<exists>d kvs. unmarshal (en_codec E) (p_Data p) = Ok d \<and> struct_entries d = Ok kvs \<and> store = [Store kvs]"
    using buildRegoArgs_OkD [OF 1(3)] by blast
  have query: "regoQueryFor (er_id req) = ''data.'' @ grp @ ''.'' @ name"
    by (simp add: assms(2) regoQueryFor_def)
  have id: "evaluation_id E req = (case er_EvaluationID req of Some (c # cs) \<Rightarrow> c # cs | _ \<Rightarrow> newUUID E)"
    by (simp add: evaluation_id_def split: option.split list.split)
  show ?thesis
    using retrievePolicy_OkD [OF 1(1)] 1(2) store(2) 2(1) [unfolded store(1) query append_assoc] 2(2)
      unwrap_result_cases [of v] store_result_OkD [OF 3(4)] 3(3)
    unfolding 3(1,2) id [symmetric] by blast
qed

lemma ex_evaluate:
  "svc_Evaluate (ex_engine v verdict) (ex_service b (Ok ())) ex_request None ex_world =
    (Ok \<lparr>res_Result = unwrap_result v, res_ETag = ''eid''\<rparr>,
     ex_world\<lparr>w_cache := rc_New(queryCacheKey ex_id \<mapsto> ex_policy)\<rparr>)"
  by (simp add: svc_Evaluate_def prepareQuery_def ex_retrieve buildRegoArgs_def ex_engine_def Let_def
      evaluation_id_def ex_request_def store_result_def on_http_def ex_policy_def zero_policy_def)

theorem evaluation_success_witness:
  "\<exists>p d kvs. op_Policy ex_ops ex_id ex_mem = (Ok p, ex_mem) \<and> \<not> p_Locked p \<and>
     unmarshal (ex_codec (JObj [])) (p_Data p) = Ok d \<and> struct_entries d = Ok kvs"
proof -
  have "er_id ex_request = (''repo'', ''grp'', ''example'', ''1.0'')" by (simp add: ex_id_def)
  from evaluation_success [OF ex_evaluate [of "JBool True" None True] this] show ?thesis
    by (auto simp: ex_ops_def mem_ops_def mem_Policy_def rc_Get_def ex_engine_def ex_mem_def mem_New_def
        ex_policies_def ex_policy_def zero_policy_def)
qed

text \<open>An unreachable cache service does not fail an evaluation, and every other error of the cache
  service does.\<close>

theorem evaluation_cache_errors:
  assumes "retrievePolicy S (er_id req) w = (Ok p, w1)" and "\<not> p_Locked p"
    and "buildRegoArgs E (p_Filename p) (p_Rego p) (regoQueryFor (er_id req)) (p_Data p) = Ok args"
    and "prepareForEval E (args @ [HeaderFunction (FromContext ctx)]) = Ok q"
    and "evalQuery E q (er_Input req) w1 = (Ok ((v # vs) # rs), w2)"
    and "marshal (en_codec E) (unwrap_result v) = Ok txt"
    and "sv_cacheSet S (evaluation_id E req) [] [] txt (case er_TTL req of None \<Rightarrow> 0 | Some t \<Rightarrow> t)
           (w_http w2) = (Err e, h)"
  shows "fst (svc_Evaluate E S req ctx w) =
    (if errors_Is ServiceUnavailable e
     then Ok \<lparr>res_Result = unwrap_result v, res_ETag = evaluation_id E req\<rparr>
     else Err (errors_New [AStr ''error storing policy result in cache'']))"
  using assms
  by (simp add: svc_Evaluate_def prepareQuery_def Let_def store_result_def on_http_def)

theorem evaluation_cache_errors_witness:
  "fst (svc_Evaluate (ex_engine (JBool True) None)
      (ex_service True (Err (Structured ServiceUnavailable [] None))) ex_request None ex_world) =
    Ok \<lparr>res_Result = JBool True, res_ETag = ''eid''\<rparr>"
proof -
  let ?S = "ex_service True (Err (Structured ServiceUnavailable [] None))"
    and ?E = "ex_engine (JBool True) None"
  have "retrievePolicy ?S (er_id ex_request) ex_world =
      (Ok ex_policy, ex_world\<lparr>w_cache := rc_New(queryCacheKey ex_id \<mapsto> ex_policy)\<rparr>)"
    by (simp add: ex_retrieve)
  from evaluation_cache_errors [OF this, of ?E _ None "()" "JBool True" "[]" "[]"
      "ex_world\<lparr>w_cache := rc_New(queryCacheKey ex_id \<mapsto> ex_policy)\<rparr>" "''json''"
      "Structured ServiceUnavailable [] None" "[]"]
  show ?thesis
    by (simp add: buildRegoArgs_def ex_engine_def Let_def evaluation_id_def ex_request_def ex_policy_def
        zero_policy_def unwrap_result_def)
qed

section \<open>Validation\<close>

text \<open>C11: A validation succeeds only if the policy has an output schema, its evaluation succeeds, and the
  result satisfies the compiled schema; it returns that result.\<close>

theorem validation_success:
  assumes "svc_Validate E S req ctx w = (Ok r, w')"
  shows "\<exists>p w1 validator. retrievePolicy S (er_id req) w = (Ok p, w1) \<and> p_OutputSchema p \<noteq> [] \<and>
    svc_Evaluate E S req ctx w1 = (Ok r, w') \<and> schema E (p_OutputSchema p) = Ok validator \<and>
    validator (res_Result r) = None"
  using Validate_OkD [OF assms] .

definition ex_cached_world :: "mem world" where
  "ex_cached_world = ex_world\<lparr>w_cache := rc_New(queryCacheKey ex_id \<mapsto> ex_policy)\<rparr>"

lemma ex_cached_retrieve: "retrievePolicy (ex_service b a) ex_id ex_cached_world = (Ok ex_policy, ex_cached_world)"
  by (simp add: retrievePolicy_def rc_Get_def ex_cached_world_def)

lemma ex_cached_evaluate:
  "svc_Evaluate (ex_engine v verdict) (ex_service b (Ok ())) ex_request None ex_cached_world =
    (Ok \<lparr>res_Result = unwrap_result v, res_ETag = ''eid''\<rparr>, ex_cached_world)"
  by (simp add: svc_Evaluate_def prepareQuery_def ex_cached_retrieve buildRegoArgs_def ex_engine_def Let_def
      evaluation_id_def ex_request_def store_result_def on_http_def ex_policy_def zero_policy_def)

lemma ex_policy_schema: "p_OutputSchema ex_policy = ''schema''"
  by (simp add: ex_policy_def)

theorem validation_success_witness:
  "\<exists>p. p_OutputSchema p \<noteq> [] \<and>
     retrievePolicy (ex_service True (Ok ())) ex_id ex_cached_world = (Ok p, ex_cached_world)"
proof -
  have "svc_Validate (ex_engine JNull None) (ex_service True (Ok ())) ex_request None ex_cached_world
      = (Ok \<lparr>res_Result = unwrap_result JNull, res_ETag = ''eid''\<rparr>, ex_cached_world)"
    using ex_cached_evaluate [of JNull None True]
    by (simp add: svc_Validate_def ex_cached_retrieve ex_policy_schema)
  from validation_success [OF this] show ?thesis by (auto simp: ex_cached_retrieve)
qed

text \<open>C10: When the result does not satisfy the schema the client gets the validation error, and with
  locking on validation failure configured the policy is locked in the storage.\<close>

theorem failed_validation_locks:
  assumes "sv_storage S = mem_ops ConstructKey lower order aorder now" and "sv_validationLock S"
    and "retrievePolicy S (er_id req) w = (Ok p, w1)" and "p_OutputSchema p \<noteq> []"
    and "svc_Evaluate E S req ctx w1 = (Ok r, w2)" and "schema E (p_OutputSchema p) = Ok validator"
    and "validator (res_Result r) = Some e"
    and "mem_inv (w_store w2)" and "dot_free (er_id req)" and "pid_of p = er_id req"
    and "\<not> p_Locked p" and "mem_lookup (w_store w2) (er_id req) = Some p'"
  shows "\<exists>s q. svc_Validate E S req ctx w = (Err (validation_failed e), w2\<lparr>w_store := s\<rparr>) \<and>
    mem_lookup s (er_id req) = Some q \<and> p_Locked q"
proof -
  obtain s q where "lock_after_failure S p w2 = (Ok (), w2\<lparr>w_store := s\<rparr>)"
    "mem_lookup s (er_id req) = Some q" "p_Locked q"
    using mem_pol.lock_after_failure_locks [OF uses_mem [OF assms(1)] assms(8-12,2)] by blast
  then show ?thesis using Validate_fails [OF assms(3-7)] by blast
qed

theorem failed_validation_locks_witness:
  "\<exists>s q. svc_Validate (ex_engine JNull (Some (Plain ''bad''))) (ex_service True (Ok ())) ex_request None
      ex_cached_world = (Err (validation_failed (Plain ''bad'')), ex_cached_world\<lparr>w_store := s\<rparr>) \<and>
     mem_lookup s (er_id ex_request) = Some q \<and> p_Locked q"
  by (rule failed_validation_locks [OF _ _ _ _ ex_cached_evaluate])
    (simp_all add: ex_ops_def ex_cached_retrieve ex_policy_schema, simp_all add: ex_cached_world_def ex_policy_schema)

end
