(* ===== verification/Import_Props.thy ===== *)
theory Import_Props
  imports Examples
begin

text \<open>
  The properties of policy bundles: packing and reading, export and import, the automatic importer, and
  the signing client they use.
\<close>

section \<open>Bundles\<close>

text \<open>C9: Packing a policy and reading the archive back gives the policy again, with its file name
  rebuilt from group, name and version, blank optional files turned into empty ones, and without its
  storage identifier and refresh time.\<close>

theorem bundle_roundtrip:
  assumes "packable L host p stamp meta archive"
  shows "createPolicyBundle L host p = Ok archive \<and> policyFromBundle L archive = Ok (bundle_image p) \<and>
    pid_of (bundle_image p) = pid_of p \<and> p_Rego (bundle_image p) = p_Rego p \<and>
    p_Locked (bundle_image p) = p_Locked p"
  using createPolicyBundle_archive [OF assms] policyFromBundle_image [OF assms]
  by (simp add: bundle_image_def pid_of_def)

theorem bundle_roundtrip_witness:
  "policyFromBundle ex_libs ''inner'' = Ok (bundle_image ex_policy)"
  using bundle_roundtrip [OF ex_packable] by simp

text \<open>C8: Call an identifier unambiguous when its repository, group and name contain no dot.  A bundle of a
  policy with an unambiguous identifier and an export configuration, exported by one agent and imported by
  another (or the same) over in-memory storages in which every policy has an unambiguous identifier and is
  filed under its key, is stored by the importer as the image of the exported policy, under the same
  identifier, provided the exporter's signer signs, the archives and the metadata survive the ZIP and JSON
  libraries, and the first key fetched from the exporter's address for the policy verifies the signature;
  what the importer finds under any other unambiguous identifier does not change.\<close>

theorem export_then_import:
  assumes "packable L (sv_externalHostname S) p stamp meta archive"
    and "sv_storage S = mem_ops ConstructKey lower order aorder now"
    and "mem_lookup (w_store w) i = Some p" and "dot_free i" and "mem_inv (w_store w)"
    and "policyExportConfig (lib_codec L) p = Inr cfg"
    and "sv_signerSign S (ec_Namespace cfg) (ec_Key cfg) (sha256 L archive) (w_http w) = (Ok sig, h)"
    and "zipWrite L (signed_files archive sig) = Ok outer"
    and "zipRead L outer = Ok (signed_files archive sig)"
    and "sv_storage S2 = mem_ops ConstructKey lower2 order2 aorder2 now2" and "mem_inv (w_store w2)"
    and "fetchKeys L (policyPublicKeyURL (sv_externalHostname S) p) (w_http w2) = (Ok (key # keys), h2)"
    and "signature_valid L (sha256 L archive) sig key"
  shows "\<exists>res w3 im. svc_ExportBundle L S i w = (Ok res, w\<lparr>w_http := h\<rparr>) \<and>
    svc_ImportBundle L S2 (Ok (ex_Body res)) w2 = (Ok im, w3) \<and> im_id im = i \<and>
    mem_lookup (w_store w3) i = Some (bundle_image p) \<and>
    (\<forall>j. dot_free j \<longrightarrow> j \<noteq> i \<longrightarrow> mem_lookup (w_store w3) j = mem_lookup (w_store w2) j)"
proof -
  have pid: "pid_of p = i" using mem_inv_pid [OF assms(5,4,3)] .
  have get: "on_store (op_Policy (sv_storage S) i) w = (Ok p, w)"
    using assms(2,3) by (simp add: mem_ops_def mem_Policy_def mem_lookup_def)
  have export: "\<exists>res. svc_ExportBundle L S i w = (Ok res, w\<lparr>w_http := h\<rparr>) \<and> ex_Body res = outer"
    using get assms(6-8) createPolicyBundle_archive [OF assms(1)]
    by (simp add: svc_ExportBundle_def svc_exportConfig_def on_http_eq)
  have "pid_of (bundle_image p) = i"
    using pid by (simp add: bundle_image_def pid_of_def)
  moreover define s where "s = (w_store w2)\<lparr>
      policies := (policies (w_store w2))(ConstructKey i \<mapsto> bundle_image p),
      changes := changes (w_store w2) @ [bundle_image p]\<rparr>"
  ultimately have "op_SavePolicy (sv_storage S2) (bundle_image p) (w_store w2) = (Ok (), s)"
    using assms(10) by (simp add: mem_ops_def mem_SavePolicy_def)
  note imported = ImportBundle_exported [OF assms(1,9,12,13) this]
  have look: "mem_lookup s j = (if j = i then Some (bundle_image p) else mem_lookup (w_store w2) j)"
    if "dot_free j" for j
    using mem_lookup_upd [OF assms(4) that, of s "w_store w2"] by (simp add: s_def)
  have "mem_lookup s i = Some (bundle_image p)" using look [OF assms(4)] by simp
  moreover have "\<forall>j. dot_free j \<longrightarrow> j \<noteq> i \<longrightarrow> mem_lookup s j = mem_lookup (w_store w2) j"
    using look by presburger
  moreover obtain res where "svc_ExportBundle L S i w = (Ok res, w\<lparr>w_http := h\<rparr>)" "ex_Body res = outer"
    using export by blast
  ultimately show ?thesis
    using imported pid
    by (intro exI [of _ res] exI [of _ "w2\<lparr>w_http := h2, w_store := s\<rparr>"]
        exI [of _ "\<lparr>im_id = i, im_locked = p_Locked p, im_lastUpdate = p_LastUpdate p\<rparr>"]) simp
qed

lemma ex_export_config:
  "policyExportConfig (ex_codec (metadata_json m t)) ex_policy = Inr \<lparr>ec_Namespace = [], ec_Key = []\<rparr>"
proof -
  have "\<not> blank ''cfg''" by code_simp
  then show ?thesis
    by (simp add: policyExportConfig_def ex_policy_def metadata_json_def)
qed

theorem export_then_import_witness:
  "\<exists>res w3 im. svc_ExportBundle ex_libs (ex_service True (Ok ())) ex_id ex_world = (Ok res, ex_world) \<and>
     svc_ImportBundle ex_libs (ex_service True (Ok ())) (Ok (ex_Body res)) ex_world = (Ok im, w3) \<and>
     mem_lookup (w_store w3) ex_id = Some (bundle_image ex_policy)"
proof -
  have cfg: "policyExportConfig (lib_codec ex_libs) ex_policy = Inr \<lparr>ec_Namespace = [], ec_Key = []\<rparr>"
    using ex_export_config by (simp add: ex_libs_def)
  have w: "ex_world\<lparr>w_http := []\<rparr> = ex_world" by (simp add: ex_world_def)
  show ?thesis
    using export_then_import [of ex_libs "ex_service True (Ok ())" ex_policy "''time''" "''json''"
        "''inner''" "\<lambda>s. s" ex_order ex_order 0 ex_world ex_id _ "''sig''" "[]" "''outer''"
        "ex_service True (Ok ())" "\<lambda>s. s" ex_order ex_order 0 ex_world "()" "[]" "[]",
        OF _ _ _ _ _ cfg]
      ex_packable w
    by (auto simp: ex_ops_def ex_service_def ex_libs_def signed_files_def signature_valid_def)
qed

text \<open>C3: An import succeeds only if the payload is an archive of exactly the bundle and its signature, the
  bundle is an archive that begins with \<^verbatim>\<open>metadata.json\<close>, a JSON object, the keys fetched from the address
  that is the \<^verbatim>\<open>publicKeyURL\<close> of this object are not empty, the signature is valid for the digest of the
  bundle under the first of them, and the policy read from the bundle has been saved; nothing else of
  the state changes.\<close>

theorem import_is_verified:
  assumes "svc_ImportBundle L S payload w = (Ok r, w')"
  shows "\<exists>archive bf sf mf rest v kvs url key keys h pol s.
    payload = Ok archive \<and> zipRead L archive = Ok [bf, sf] \<and>
    zf_Name bf = BundleFilename \<and> zf_Name sf = BundleSignatureFilename \<and>
    zipRead L (zf_Content bf) = Ok (mf # rest) \<and> zf_Name mf = ''metadata.json'' \<and>
    unmarshal (lib_codec L) (zf_Content mf) = Ok v \<and> struct_entries v = Ok kvs \<and>
    str_field (lib_codec L) ''publicKeyURL'' kvs [] = Ok url \<and>
    fetchKeys L url (w_http w) = (Ok (key # keys), h) \<and>
    signature_valid L (sha256 L (zf_Content bf)) (zf_Content sf) key \<and>
    policyFromBundle L (zf_Content bf) = Ok pol \<and>
    op_SavePolicy (sv_storage S) pol (w_store w) = (Ok (), s) \<and>
    w' = w\<lparr>w_http := h, w_store := s\<rparr> \<and> im_id r = pid_of pol \<and> im_locked r = p_Locked pol"
  using ImportBundle_OkD [OF assms] .

lemma ex_import:
  "\<exists>r w'. svc_ImportBundle ex_libs (ex_service True (Ok ())) (Ok ''outer'') ex_world = (Ok r, w')"
proof -
  have "op_SavePolicy (sv_storage (ex_service True (Ok ()))) p s = (Ok (), snd (mem_SavePolicy ConstructKey p s))"
    for p s by (simp add: ex_ops_def mem_ops_def mem_SavePolicy_def)
  from ImportBundle_exported [OF ex_packable _ _ _ this, of "''outer''" "''sig''" ex_world "()" "[]" "[]"]
  show ?thesis by (auto simp: ex_libs_def signature_valid_def)
qed

theorem import_is_verified_witness:
  "\<exists>pol. policyFromBundle ex_libs ''inner'' = Ok pol"
proof -
  obtain r w' where "svc_ImportBundle ex_libs (ex_service True (Ok ())) (Ok ''outer'') ex_world = (Ok r, w')"
    using ex_import by blast
  from import_is_verified [OF this] show ?thesis
    by (auto simp: ex_libs_def signed_files_def)
qed

text \<open>A rejected import changes neither the storage nor the policy cache.\<close>

theorem rejected_import_changes_nothing:
  assumes "svc_ImportBundle L S payload w = (Err e, w')"
    and "sv_storage S = mem_ops ConstructKey lower order aorder now"
  shows "w_store w' = w_store w \<and> w_cache w' = w_cache w"
proof (rule ImportBundle_rejected [OF assms(1)])
  show "\<forall>p s. fst (op_SavePolicy (sv_storage S) p s) = Ok ()"
    using assms(2) by (simp add: mem_ops_def mem_SavePolicy_def)
qed

theorem rejected_import_changes_nothing_witness:
  "\<exists>e w'. svc_ImportBundle ex_libs (ex_service True (Ok ())) (Ok ''inner'') ex_world = (Err e, w') \<and>
     w_store w' = ex_mem"
proof -
  have "length (bundle_files ''json'' ex_policy) \<noteq> 2"
  proof -
    have "\<not> blank ''{}''" "\<not> blank ''schema''" "\<not> blank ''cfg''" by code_simp+
    then show ?thesis
      by (simp add: bundle_files_def optional_file_def ex_policy_def zero_policy_def)
  qed
  then obtain e where e: "svc_ImportBundle ex_libs (ex_service True (Ok ())) (Ok ''inner'') ex_world = (Err e, ex_world)"
    by (simp add: svc_ImportBundle_def ex_libs_def)
  from rejected_import_changes_nothing [OF e, of "\<lambda>s. s" ex_order ex_order 0] e
  show ?thesis by (simp add: ex_ops_def)
qed

section \<open>The automatic importer\<close>

text \<open>A round of the automatic importer goes through all configurations: a bundle that cannot be
  fetched or imported is skipped, no error stops the round, and the count it reports is the number of
  bundles that were imported.\<close>

theorem importer_round:
  "fst (doImport L S cs w) \<noteq> Err e \<and>
   (case doImport L S cs w of
      (Ok n, w') \<Rightarrow> n = length (filter id (imports_ok L S cs w)) \<and> n \<le> length cs
    | _ \<Rightarrow> True)"
proof (cases "doImport L S cs w")
  case (Pair r w')
  then show ?thesis
    using doImport_loop_no_error [of L S 0 cs w e w'] doImport_loop_imports [of L S 0 cs w _ w']
      doImport_loop_count [of L S 0 cs w _ w']
    by (auto simp: doImport_def split: outcome.splits)
qed

section \<open>The signing client\<close>

text \<open>The signing client sends key, namespace and the base64 text of the data in one request, and
  decodes the signature: when the signer answers 200 with the base64 text of a signature, that signature
  is the result.\<close>

theorem sign_roundtrip:
  assumes "addr \<noteq> []" and "marshal C (sign_request ns key data) = Ok payload"
    and "badRequest n ''POST'' (addr @ ''/v1/sign'') = None"
    and "respond n h \<lparr>rq_Method = ''POST'', rq_URL = addr @ ''/v1/sign'', rq_Header = [], rq_Body = payload\<rparr>
          = Ok resp"
    and "rs_StatusCode resp = 200" and "decode_body C resp = Ok (JObj [(''signature'', JStr (b64_encode sig))])"
    and "sameFold C ''signature'' ''signature''"
  shows "signer_Sign C n addr ns key data h =
    (Ok sig, h @ [\<lparr>rq_Method = ''POST'', rq_URL = addr @ ''/v1/sign'', rq_Header = [], rq_Body = payload\<rparr>])"
  using assms by (simp add: signer_Sign_def http_NewRequest_def http_Do_def)

theorem sign_roundtrip_witness:
  "fst (signer_Sign (ex_codec (JObj [(''signature'', JStr (b64_encode ''sig''))]))
      (ex_net (ex_response 200 ''body'')) ''http://signer'' ''ns'' ''key'' ''data'' []) = Ok ''sig''"
  using sign_roundtrip [of "''http://signer''" "ex_codec (JObj [(''signature'', JStr (b64_encode ''sig''))])"
      "''ns''" "''key''" "''data''" "''json''" "ex_net (ex_response 200 ''body'')" "[]" "ex_response 200 ''body''" "''sig''"]
  by (simp add: decode_body_def)

end
