(* ===== verification/Storage_Props.thy ===== *)
theory Storage_Props
  imports Examples
begin

text \<open>
  The properties of the storages, of the data refresher that works on them, and of the program that
  fills the database from a repository.
\<close>

section \<open>The in-memory storage\<close>

lemma mem_reachable_no_autoimport: "mem_reachable kc p0 s \<Longrightarrow> autoImport s = None"
  by (induction rule: mem_reachable.induct) (simp_all add: mem_New_def mem_step_no_autoimport)

text \<open>In no state the in-memory storage can reach is an automatic-import configuration ever saved: the
  first attempt panics on the nil map and leaves the mutex locked, and from then on every operation on
  the configurations blocks.\<close>

theorem memory_autoimport_unusable:
  assumes "mem_reachable kc p0 s"
  shows "((\<exists>t. fst (mem_SaveAutoImportConfig c s) = Panic t) \<or>
      fst (mem_SaveAutoImportConfig c s) = Blocked) \<and>
    (let s' = snd (mem_SaveAutoImportConfig c s) in
      mem_reachable kc p0 s' \<and> fst (mem_SaveAutoImportConfig c' s') = Blocked \<and>
      fst (mem_ActiveImportConfigs now order s') = Blocked \<and>
      fst (mem_AutoImportConfigs order s') = Blocked \<and>
      fst (mem_AutoImportConfig order u s') = Blocked \<and> fst (mem_DeleteAutoImportConfig u s') = Blocked)"
proof -
  have none: "autoImport s = None" using mem_reachable_no_autoimport [OF assms] .
  have "mem_reachable kc p0 (snd (mem_SaveAutoImportConfig c s))"
    by (rule mem_reachable.step [OF assms])
      (rule mem_step.save_cfg [where r = "fst (mem_SaveAutoImportConfig c s)"], simp)
  then show ?thesis
    using none
    by (simp add: Let_def mem_SaveAutoImportConfig_def mem_ActiveImportConfigs_def mem_AutoImportConfigs_def
        mem_AutoImportConfig_def mem_DeleteAutoImportConfig_def locked_section_def)
qed

theorem memory_autoimport_unusable_witness:
  "\<exists>t. fst (mem_SaveAutoImportConfig \<lparr>ai_PolicyURL = ''u'', ai_Interval = 1, ai_NextImport = 1\<rparr>
     (mem_New ex_policies)) = Panic t"
  using memory_autoimport_unusable [OF mem_reachable.new, of
      "\<lparr>ai_PolicyURL = ''u'', ai_Interval = 1, ai_NextImport = 1\<rparr>" ex_policies]
  by (simp add: mem_SaveAutoImportConfig_def locked_section_def mem_New_def)

text \<open>Given a usable map, \<^verbatim>\<open>ActiveImportConfigs\<close> of the in-memory storage returns (and moves on by their
  interval) exactly the configurations whose time has not come yet; a configuration that is due is
  neither returned nor changed.\<close>

theorem memory_active_configs_are_future:
  assumes "autoimport_usable s"
  shows "\<exists>cs s'. mem_ActiveImportConfigs now sorted_order s = (Ok cs, s') \<and>
    set cs = rescheduled now ` {c \<in> ran (autoimport_map s). ai_NextImport c > now} \<and>
    (\<forall>u c. autoimport_map s u = Some c \<longrightarrow> ai_NextImport c \<le> now \<longrightarrow> autoimport_map s' u = Some c)"
proof -
  obtain m where m: "autoImport s = Some m" "finite (dom m)" "\<not> autoImportLocked s"
    using assms by (auto simp: autoimport_usable_def)
  note ord = is_order_sorted [OF m(2)]
  have "distinct (sorted_order m)" using ord by (simp add: is_order_def)
  note loop = mem_active_loop_eq [OF this, of now m]
  show ?thesis
    using m set_range_values [OF ord]
    by (auto simp: mem_ActiveImportConfigs_def locked_section_def loop autoimport_map_def rescheduled_def)
qed

definition ex_cfg_mem :: mem where
  "ex_cfg_mem = ex_mem\<lparr>autoImport :=
     Some [''u'' \<mapsto> \<lparr>ai_PolicyURL = ''u'', ai_Interval = 10, ai_NextImport = 5\<rparr>]\<rparr>"

theorem memory_active_configs_are_future_witness:
  "\<exists>s'. mem_ActiveImportConfigs 7 sorted_order ex_cfg_mem = (Ok [], s')"
proof -
  have "autoimport_usable ex_cfg_mem"
    by (simp add: autoimport_usable_def ex_cfg_mem_def ex_mem_def mem_New_def)
  from memory_active_configs_are_future [OF this, of 7] obtain cs s' where
    cs: "mem_ActiveImportConfigs 7 sorted_order ex_cfg_mem = (Ok cs, s')"
    "set cs = rescheduled 7 ` {c \<in> ran (autoimport_map ex_cfg_mem). ai_NextImport c > 7}" by blast
  have "set cs = {}"
    unfolding cs(2) by (auto simp: ex_cfg_mem_def autoimport_map_def ran_def split: if_splits)
  then show ?thesis using cs(1) by simp
qed

text \<open>C12: \<^verbatim>\<open>GetRefreshPolicies\<close> of the in-memory storage hands out exactly the policies whose refresh time is
  set and has passed, and postpones them so that none of them is due again within five minutes; the
  other policies stay as they are.\<close>

theorem memory_refresh_handout:
  assumes "is_order (order (policies s)) (policies s)"
    and "mem_GetRefreshPolicies now order s = (Ok ps, s')" and "now' \<le> now + RefreshPostponePeriod"
  shows "set ps = {p \<in> ran (policies s). refresh_due now p} \<and>
    (\<forall>k p. policies s k = Some p \<longrightarrow>
       (if refresh_due now p
        then \<exists>q. policies s' k = Some q \<and> same_content p q \<and> \<not> refresh_due now' q
        else policies s' k = Some p))"
proof -
  have "ps = filter (refresh_due now) (range_values (order (policies s)) (policies s))"
    "policies s' = (\<lambda>k. map_option (postponed now) (policies s k))"
    using assms(2) by (auto simp: mem_GetRefreshPolicies_eq [of order s, OF assms(1)])
  then show ?thesis
    using set_range_values [OF assms(1)] assms(3) by (auto simp: postponed_def refresh_due_def)
qed

theorem memory_refresh_handout_witness:
  "\<exists>ps s'. mem_GetRefreshPolicies 10 ex_order
      (mem_New [ConstructKey ex_id \<mapsto> ex_policy\<lparr>p_NextDataRefreshTime := 5\<rparr>]) = (Ok ps, s') \<and>
     set ps = {ex_policy\<lparr>p_NextDataRefreshTime := 5\<rparr>}"
proof -
  let ?m = "[ConstructKey ex_id \<mapsto> ex_policy\<lparr>p_NextDataRefreshTime := 5\<rparr>]"
  have ord: "is_order (ex_order (policies (mem_New ?m))) (policies (mem_New ?m))"
    by (simp add: is_order_def ex_order_def mem_New_def)
  obtain ps s' where run: "mem_GetRefreshPolicies 10 ex_order (mem_New ?m) = (Ok ps, s')"
    by (cases "mem_refresh_loop 10 (ex_order ?m) ?m")
      (simp add: mem_GetRefreshPolicies_def mem_New_def)
  have "set ps = {p \<in> ran (policies (mem_New ?m)). refresh_due 10 p}"
    using memory_refresh_handout [of ex_order "mem_New ?m", OF ord run, of 10]
    by (simp add: RefreshPostponePeriod_def)
  also have "\<dots> = {ex_policy\<lparr>p_NextDataRefreshTime := 5\<rparr>}"
    by (auto simp: mem_New_def ran_def refresh_due_def split: if_splits)
  finally show ?thesis using run by blast
qed

text \<open>C34: In every state the in-memory storage reaches from policies filed under the keys of their identities,
  by any of its operations in any order, every policy is filed under the key of its own identity.  A policy
  found for an identifier therefore has an identity with the same key, and is the one asked for when neither
  of the two identifiers has a dot in its repository, group or name (with dots, different identifiers can
  have the same key).  Finding changes nothing.\<close>

theorem memory_policies_keyed:
  assumes "mem_reachable ConstructKey p0 s" and "keyed ConstructKey p0"
  shows "(\<forall>k q. policies s k = Some q \<longrightarrow> k = ConstructKey (pid_of q)) \<and>
    (mem_Policy ConstructKey i s = (Ok p, s') \<longrightarrow>
       s' = s \<and> ConstructKey (pid_of p) = ConstructKey i \<and>
       (dot_free i \<and> dot_free (pid_of p) \<longrightarrow> pid_of p = i))"
proof -
  have keyed: "\<forall>k q. policies s k = Some q \<longrightarrow> k = ConstructKey (pid_of q)"
    using mem_reachable_inv [OF assms] unfolding keyed_def by blast
  have "s' = s \<and> ConstructKey (pid_of p) = ConstructKey i \<and>
      (dot_free i \<and> dot_free (pid_of p) \<longrightarrow> pid_of p = i)"
    if "mem_Policy ConstructKey i s = (Ok p, s')"
  proof -
    have "policies s (ConstructKey i) = Some p" "s' = s"
      using that by (auto simp: mem_Policy_def split: option.splits)
    then show ?thesis using keyed ConstructKey_inj [of "pid_of p" i] by metis
  qed
  with keyed show ?thesis by blast
qed

theorem memory_policies_keyed_witness:
  "\<exists>p. mem_Policy ConstructKey ex_id ex_mem = (Ok p, ex_mem) \<and> pid_of p = ex_id"
proof -
  have k: "keyed ConstructKey ex_policies" by (simp add: keyed_def ex_policies_def)
  have "mem_Policy ConstructKey ex_id ex_mem = (Ok ex_policy, ex_mem)"
    using ex_mem_lookup by (simp add: mem_Policy_def mem_lookup_def)
  moreover have "pid_of ex_policy = ex_id"
    using memory_policies_keyed [OF mem_reachable.new [of _ ex_policies, folded ex_mem_def] k, of ex_id ex_policy ex_mem]
      calculation by simp
  ultimately show ?thesis by blast
qed

text \<open>The keys join their parts without escaping: a policy of repository \<^verbatim>\<open>a.b\<close> is overwritten by one of
  repository \<^verbatim>\<open>a\<close>, and two different subscriptions share one entry.\<close>

theorem ambiguous_keys:
  "fst (mem_Policy ConstructKey (''a.b'', ''c'', ''d'', ''1'')
      (snd (mem_SavePolicy ConstructKey
        (zero_policy\<lparr>p_Repository := ''a'', p_Group := ''b'', p_Name := ''c'', p_Version := ''d.1''\<rparr>) s)))
   = Ok (zero_policy\<lparr>p_Repository := ''a'', p_Group := ''b'', p_Name := ''c'', p_Version := ''d.1''\<rparr>) \<and>
   fst (mem_Subscriber (''r'', ''g'', ''n'', ''1'') ''http://hook'' ''me''
      (snd (mem_CreateSubscriber
        (new_subscriber (''r'', ''g'', ''n'', ''1h'') ''ttp://hook'' ''me'') s)))
   = Ok (new_subscriber (''r'', ''g'', ''n'', ''1h'') ''ttp://hook'' ''me'')"
  by (simp add: mem_Policy_def mem_SavePolicy_def ConstructKey_def pid_of_def zero_policy_def
      mem_Subscriber_def mem_CreateSubscriber_def subscriber_key_def new_subscriber_def sub_pid_def)

text \<open>Listing policies of the in-memory storage gives exactly the stored policies that pass the filters
  for the lock state and the (case-insensitive) part of the name.\<close>

theorem memory_list_policies:
  assumes "is_order (order (policies s)) (policies s)"
  shows "\<exists>ps. mem_GetPolicies lower order locked policyName s = (Ok ps, s) \<and>
    set ps = {p \<in> ran (policies s).
      (locked = None \<or> locked = Some (p_Locked p)) \<and>
      (policyName = None \<or> contains (lower (p_Name p)) (lower (trim_space (the policyName))))}"
  using set_range_values [OF assms]
  by (cases locked; cases policyName) (auto simp: mem_GetPolicies_def policy_filter_def)

theorem memory_list_policies_witness:
  "\<exists>ps. mem_GetPolicies (\<lambda>s. s) ex_order (Some False) None ex_mem = (Ok ps, ex_mem) \<and> set ps = {ex_policy}"
proof -
  have "is_order (ex_order (policies ex_mem)) (policies ex_mem)"
    by (simp add: is_order_def ex_order_def ex_mem_def mem_New_def ex_policies_def)
  from memory_list_policies [of ex_order, OF this, of "\<lambda>s. s" "Some False" None]
  obtain ps where ps: "mem_GetPolicies (\<lambda>s. s) ex_order (Some False) None ex_mem = (Ok ps, ex_mem)"
    "set ps = {p \<in> ran (policies ex_mem). \<not> p_Locked p}" by auto
  have "set ps = {ex_policy}"
    unfolding ps(2) by (auto simp: ex_mem_def mem_New_def ex_policies_def ran_def split: if_splits)
  then show ?thesis using ps(1) by blast
qed

section \<open>The data refresher\<close>

text \<open>C14: A refresh asks the storage for exactly one update: with an unusable configuration the refresh
  is switched off, with a failed download it is repeated after the period, and with a successful one the
  policy carries the downloaded data and the time of the next refresh.\<close>

theorem refresh_outcomes:
  assumes "total_lib L" and "answering n"
  shows "refresh_Execute L n R now p w =
    (case usable_config L n p of
       None \<Rightarrow> set_next_refresh R p zero_time w
     | Some (config, req) \<Rightarrow>
         (let w1 = w\<lparr>w_http := w_http w @ [req]\<rparr>; t = now + dc_Period config in
          case respond n (w_http w) req of
            Ok resp \<Rightarrow>
              if rs_StatusCode resp = 200 \<and> rs_ReadErr resp = None
              then set_next_refresh R (p\<lparr>p_Data := rs_Body resp\<rparr>) t w1
              else set_next_refresh R p t w1
          | _ \<Rightarrow> set_next_refresh R p t w1))"
proof (cases "usable_config L n p")
  case None
  then show ?thesis using Execute_unusable [OF assms(1)] by simp
next
  case (Some cr)
  obtain config req where c: "usable_config L n p = Some (config, req)" using Some by (cases cr) auto
  from assms(2) show ?thesis
  proof (rule answering_cases [where h = "w_http w" and rq = req])
    fix resp assume r: "respond n (w_http w) req = Ok resp"
    show ?thesis
    proof (cases "rs_StatusCode resp = 200 \<and> rs_ReadErr resp = None")
      case True
      then show ?thesis
        using Execute_usable [OF c r] c r by (simp add: io_ReadAll_def Let_def)
    next
      case False
      then have "refresh_failed (respond n (w_http w) req)" by (auto simp: refresh_failed_def r)
      from Execute_failed [OF c this] False show ?thesis using c r by (auto simp: Let_def)
    qed
  next
    fix e assume r: "respond n (w_http w) req = Err e"
    then have "refresh_failed (respond n (w_http w) req)" by (simp add: refresh_failed_def)
    from Execute_failed [OF c this] show ?thesis using c r by (simp add: Let_def)
  qed
qed

theorem refresh_outcomes_witness:
  "refresh_Execute ex_refresh_lib (ex_net (ex_response 200 ''new'')) (mem_refresh_storage 0 ex_order) 0
      ex_policy ex_world =
    set_next_refresh (mem_refresh_storage 0 ex_order) (ex_policy\<lparr>p_Data := ''new''\<rparr>) 3600
      (ex_world\<lparr>w_http := [\<lparr>rq_Method = ''GET'', rq_URL = ''https://data'', rq_Header = [], rq_Body = []\<rparr>]\<rparr>)"
  using refresh_outcomes [OF ex_total_lib ex_answering, of "ex_response 200 ''new''"
      "mem_refresh_storage 0 ex_order" 0 ex_policy ex_world]
  by (simp add: ex_usable_config)

text \<open>Over the in-memory storage the refresher never changes the data of any policy, however many
  rounds it runs and whatever it downloads.\<close>

theorem memory_refresh_has_no_effect:
  assumes "refresher_Start L n (\<lambda>now. mem_refresh_storage now order) ticks w = (r, w')"
  shows "map_option p_Data (policies (w_store w') k) = map_option p_Data (policies (w_store w) k)"
  using refresher_mem_data [OF assms] by (simp add: stored_data_def fun_eq_iff)

theorem memory_refresh_has_no_effect_witness:
  "\<exists>w'. snd (refresher_Start ex_refresh_lib (ex_net (ex_response 200 ''new''))
        (\<lambda>now. mem_refresh_storage now ex_order) [5] ex_world) = w' \<and>
     map_option p_Data (policies (w_store w') (ConstructKey ex_id)) = Some ''{}''"
proof -
  have "map_option p_Data (policies (w_store ex_world) (ConstructKey ex_id)) = Some ''{}''"
    by (simp add: ex_mem_def mem_New_def ex_policies_def ex_policy_def)
  then show ?thesis
    using memory_refresh_has_no_effect [of ex_refresh_lib "ex_net (ex_response 200 ''new'')" ex_order "[5]" ex_world]
    by (metis prod.collapse)
qed

end
