(* ===== verification/Database_Props.thy ===== *)
theory Database_Props
  imports Examples
begin

text \<open>
  The properties of the MongoDB storage and of the program that fills the database from a policy
  repository.  The database is any collection that behaves as documented; the witnesses use a list.
\<close>

definition ex_coll :: "(policy list, policy) coll" where
  "ex_coll = list_coll (\<lambda>pat s. False) policy_get policy_put policy_mk p_MongoID"

lemma ex_coll_ok: "policy_coll_ok (\<lambda>pat s. False) (\<lambda>ds. ds) ex_coll"
  unfolding ex_coll_def by (rule coll_ok_list) simp

lemma ex_unique: "unique_pids [ex_policy]"
  by (simp add: unique_pids_def)

section \<open>The MongoDB storage\<close>

text \<open>Over a collection in which no two documents have the same identity, the MongoDB storage refines
  the storage interface of the service: a read gives the document with that identity or a not-found
  error, a save creates or replaces the evaluated content of exactly that document, and setting the lock
  changes nothing else.\<close>

theorem mongo_refines_policy_store:
  assumes "policy_coll_ok re contents K"
  shows "policy_store (mongo_Policy K) (mongo_SavePolicy K now) (mongo_SetPolicyLock K now)
    (\<lambda>c. dir (contents c)) (\<lambda>i. True) (\<lambda>c. unique_pids (contents c))"
  using mongo_policy_store [OF assms] .

theorem mongo_refines_policy_store_witness:
  "mongo_Policy ex_coll ex_id [ex_policy] = (Ok ex_policy, [ex_policy])"
  using policy_store.get_found [OF mongo_refines_policy_store [OF ex_coll_ok, of 0],
      of "[ex_policy]" ex_id ex_policy] ex_unique
  by simp

text \<open>Over the MongoDB storage too, an evaluation after a successful lock answers 403 when the policy
  is not in the cache.\<close>

theorem mongo_lock_then_evaluate:
  assumes "policy_coll_ok re contents K"
    and "uses_store S (mongo_Policy K) (mongo_SavePolicy K now) (mongo_SetPolicyLock K now)"
    and "unique_pids (contents (w_store w))" and "dir (contents (w_store w)) (er_id req) = Some p"
    and "svc_Lock S (er_id req) w = (Ok (), w1)"
    and "w_cache w2 (queryCacheKey (er_id req)) = None" and "w_store w2 = w_store w1"
  shows "\<exists>e w3. svc_Evaluate E S req ctx w2 = (Err e, w3) \<and> response_status e = 403"
  using policy_store.Lock_then_Evaluate [OF mongo_policy_store [OF assms(1)] assms(2,3) TrueI assms(4-7),
      of E ctx] response_status_Is
  by fastforce

definition ex_mongo_service :: "policy list service" where
  "ex_mongo_service =
     \<lparr>sv_storage =
        \<lparr>op_Policy = mongo_Policy ex_coll, op_SavePolicy = mongo_SavePolicy ex_coll 0,
         op_SetPolicyLock = mongo_SetPolicyLock ex_coll 0,
         op_GetPolicies = mongo_GetPolicies ex_coll,
         op_Subscriber = (\<lambda>i u n c. (Blocked, c)), op_CreateSubscriber = (\<lambda>b c. (Blocked, c)),
         op_GetData = (\<lambda>k c. (Blocked, c)), op_SetData = (\<lambda>k d c. (Blocked, c)),
         op_DeleteData = (\<lambda>k c. (Blocked, c)), op_SaveAutoImportConfig = (\<lambda>a c. (Blocked, c)),
         op_AutoImportConfig = (\<lambda>u c. (Blocked, c)), op_AutoImportConfigs = (\<lambda>c. (Blocked, c)),
         op_DeleteAutoImportConfig = (\<lambda>u c. (Blocked, c)), op_ActiveImportConfigs = (\<lambda>c. (Blocked, c))\<rparr>,
      sv_cacheSet = (\<lambda>k ns sc v ttl h. (Ok (), h)), sv_signerKey = (\<lambda>ns k h. (Ok JNull, h)),
      sv_signerSign = (\<lambda>ns k d h. (Ok [], h)), sv_httpClient = ex_net (ex_response 200 []),
      sv_validationLock = False, sv_externalHostname = []\<rparr>"

lemma ex_mongo_uses:
  "uses_store ex_mongo_service (mongo_Policy ex_coll) (mongo_SavePolicy ex_coll 0) (mongo_SetPolicyLock ex_coll 0)"
  by (simp add: uses_store_def ex_mongo_service_def)

definition ex_mongo_engine :: "(unit, policy list) engine" where
  "ex_mongo_engine =
     \<lparr>en_codec = ex_codec (JObj []), prepareForEval = (\<lambda>args. Ok ()),
      evalQuery = (\<lambda>q i w. (Ok [[JNull]], w)), extensions = [], schema = (\<lambda>s. Ok (\<lambda>v. None)),
      newUUID = []\<rparr>"

definition ex_mongo_world :: "policy list world" where
  "ex_mongo_world = \<lparr>w_store = [ex_policy], w_cache = rc_New, w_http = []\<rparr>"

theorem mongo_lock_then_evaluate_witness:
  "\<exists>w1 e w3. svc_Lock ex_mongo_service ex_id ex_mongo_world = (Ok (), w1) \<and>
     svc_Evaluate ex_mongo_engine ex_mongo_service ex_request None w1 = (Err e, w3) \<and> response_status e = 403"
proof -
  note store = mongo_policy_store [OF ex_coll_ok, of 0]
  obtain s' where lock: "svc_Lock ex_mongo_service ex_id ex_mongo_world = (Ok (), ex_mongo_world\<lparr>w_store := s'\<rparr>)"
    using policy_store.Lock_unlocked [OF store ex_mongo_uses, of ex_mongo_world ex_id ex_policy]
      ex_unique by (auto simp: ex_mongo_world_def)
  show ?thesis
    using mongo_lock_then_evaluate [OF ex_coll_ok ex_mongo_uses, of ex_mongo_world ex_request ex_policy
        "ex_mongo_world\<lparr>w_store := s'\<rparr>" "ex_mongo_world\<lparr>w_store := s'\<rparr>" ex_mongo_engine None]
      lock ex_unique
    by (auto simp: ex_mongo_world_def rc_New_def)
qed

text \<open>Saving a policy (an imported bundle) in the database stores its identity, lock, source, data,
  data configuration and output schema, but not its export configuration and file name: those stay as
  they were, or empty for a new document; and the refresh time is switched off whatever the data
  configuration says.\<close>

theorem mongo_save_keeps_part:
  assumes "policy_coll_ok re contents K" and "unique_pids (contents c)"
  shows "\<exists>c' q. mongo_SavePolicy K now p c = (Ok (), c') \<and> unique_pids (contents c') \<and>
    (\<forall>j. j \<noteq> pid_of p \<longrightarrow> dir (contents c') j = dir (contents c) j) \<and>
    dir (contents c') (pid_of p) = Some q \<and> evaluation_view q = evaluation_view p \<and>
    p_DataConfig q = p_DataConfig p \<and> p_NextDataRefreshTime q = zero_time \<and>
    p_LastUpdate q = bson_ms now \<and>
    (case dir (contents c) (pid_of p) of
       None \<Rightarrow> p_ExportConfig q = [] \<and> p_Filename q = []
     | Some old \<Rightarrow> p_ExportConfig q = p_ExportConfig old \<and> p_Filename q = p_Filename old)"
  using mongo_save_effect [OF assms] .

theorem mongo_save_keeps_part_witness:
  "\<exists>c' q. mongo_SavePolicy ex_coll 0 ex_policy [] = (Ok (), c') \<and> dir c' ex_id = Some q \<and>
     p_Rego q = p_Rego ex_policy \<and> p_ExportConfig q = [] \<and> p_ExportConfig ex_policy \<noteq> []"
proof -
  have "unique_pids []" by (simp add: unique_pids_def)
  from mongo_save_keeps_part [OF ex_coll_ok this, of 0 ex_policy] show ?thesis
    by (auto simp: evaluation_view_def) (simp add: ex_policy_def)
qed

text \<open>Setting the lock of a policy that the database does not have succeeds and changes nothing, where
  the in-memory storage reports that it is not found.\<close>

theorem missing_policy_lock_differs:
  assumes "policy_coll_ok re contents K" and "unique_pids (contents c)"
    and "dir (contents c) i = None" and "policies s (ConstructKey i) = None"
  shows "(\<exists>c'. mongo_SetPolicyLock K now i b c = (Ok (), c') \<and> dir (contents c') = dir (contents c)) \<and>
    (\<exists>e. mem_SetPolicyLock ConstructKey i b s = (Err e, s) \<and> errors_Is NotFound e)"
proof -
  obtain c' where c': "mongo_SetPolicyLock K now i b c = (Ok (), c')"
    "\<forall>j. j \<noteq> i \<longrightarrow> dir (contents c') j = dir (contents c) j" "dir (contents c') i = None"
    using mongo_lock_effect [OF assms(1,2), of now i b] assms(3) by auto
  have "dir (contents c') = dir (contents c)"
  proof
    fix j show "dir (contents c') j = dir (contents c) j" using c'(2,3) assms(3) by metis
  qed
  then show ?thesis using c'(1) assms(4) by (auto simp: mem_SetPolicyLock_def)
qed

theorem missing_policy_lock_differs_witness:
  "\<exists>c'. mongo_SetPolicyLock ex_coll 0 ex_id True [] = (Ok (), c') \<and> dir c' = Map.empty"
proof -
  have "unique_pids []" by (simp add: unique_pids_def)
  from missing_policy_lock_differs [OF ex_coll_ok this, of ex_id "mem_New Map.empty" 0 True]
  show ?thesis by (simp add: mem_New_def)
qed

text \<open>A round of the refresher takes from the database exactly the policies whose refresh time has
  come, and postpones exactly those by five minutes (to the millisecond).\<close>

theorem mongo_refresh_handout:
  assumes "policy_coll_ok re contents K" and "tx_start T = None" and "tx_commit T = None"
    and "distinct (map p_MongoID (contents c))" and "mongo_GetRefreshPolicies T K now c = (Ok ps, c')"
  shows "mset ps = filter_mset (\<lambda>p. zero_time < p_NextDataRefreshTime p \<and> p_NextDataRefreshTime p \<le> now)
      (mset (contents c)) \<and>
    contents c' = map (\<lambda>p. if zero_time < p_NextDataRefreshTime p \<and> p_NextDataRefreshTime p \<le> now
        then p\<lparr>p_NextDataRefreshTime := bson_ms (now + RefreshPostponePeriod)\<rparr> else p) (contents c)"
  using mongo_refresh_round [OF assms] .

definition ex_due_policy :: policy where
  "ex_due_policy = ex_policy\<lparr>p_NextDataRefreshTime := 1000000\<rparr>"

theorem mongo_refresh_handout_witness:
  "\<exists>c'. mongo_GetRefreshPolicies \<lparr>tx_start = None, tx_commit = None\<rparr> ex_coll 2000000 [ex_due_policy]
        = (Ok [ex_due_policy], c') \<and>
      c' = [ex_due_policy\<lparr>p_NextDataRefreshTime := bson_ms (2000000 + RefreshPostponePeriod)\<rparr>]"
proof -
  let ?c' = "snd (mongo_GetRefreshPolicies \<lparr>tx_start = None, tx_commit = None\<rparr> ex_coll 2000000 [ex_due_policy])"
  have run: "mongo_GetRefreshPolicies \<lparr>tx_start = None, tx_commit = None\<rparr> ex_coll 2000000 [ex_due_policy]
      = (Ok [ex_due_policy], ?c')"
    by (simp add: mongo_GetRefreshPolicies_def mongo_Transaction_def swrap_def sbind_def sret_def
        mongo_postponeRefresh_def ex_coll_def list_coll_def matches_def ex_due_policy_def)
  from mongo_refresh_handout [OF ex_coll_ok _ _ _ run] have "?c' =
      [ex_due_policy\<lparr>p_NextDataRefreshTime := bson_ms (2000000 + RefreshPostponePeriod)\<rparr>]"
    by (simp add: ex_due_policy_def)
  then show ?thesis using run by auto
qed

text \<open>Unlike the in-memory storage, the database stores the downloaded data with the time of the next
  refresh, in the document the policy was read from.\<close>

theorem mongo_refresh_stores_data:
  assumes "policy_coll_ok re contents K" and "distinct (map p_MongoID (contents c))"
    and "p0 \<in> set (contents c)" and "p_MongoID p = p_MongoID p0"
  shows "\<exists>c'. mongo_UpdateNextRefreshTime K p t c = (Ok (), c') \<and>
    p0\<lparr>p_NextDataRefreshTime := bson_ms t, p_Data := p_Data p\<rparr> \<in> set (contents c')"
  using mongo_update_refresh [OF assms] .

theorem mongo_refresh_stores_data_witness:
  "\<exists>c'. mongo_UpdateNextRefreshTime ex_coll (ex_policy\<lparr>p_Data := ''new''\<rparr>) 0 [ex_policy] = (Ok (), c') \<and>
     ex_policy\<lparr>p_NextDataRefreshTime := bson_ms 0, p_Data := ''new''\<rparr> \<in> set c'"
  using mongo_refresh_stores_data [OF ex_coll_ok, of "[ex_policy]" ex_policy "ex_policy\<lparr>p_Data := ''new''\<rparr>" 0]
  by simp

section \<open>Filling the database\<close>

text \<open>C7: When the database holds at most one policy for each identifier, the policies of the repository are
  filed under their keys, and none of them, in the database or the repository, has a dot in its
  repository, group or name (so that keys tell them apart), a synchronisation leaves every policy of the
  repository in the database with exactly the source, data, data configuration, output schema, export
  configuration and file name it has in the repository, keeps the lock of every policy that was there, and
  touches no other policy; policies the repository no longer has stay.\<close>

theorem sync_transfers_content:
  assumes "policy_coll_ok re contents K" and "sync_ready (contents c) repo (order repo)"
  shows "\<exists>c'. upsertPolicies K now order repo c = (Ok (), c') \<and> unique_pids (contents c') \<and>
    (\<forall>j. (\<forall>r. repo (ConstructKey j) = Some r \<longrightarrow> pid_of r \<noteq> j) \<longrightarrow>
        dir (contents c') j = dir (contents c) j) \<and>
    (\<forall>k r. repo k = Some r \<longrightarrow> (\<exists>q. dir (contents c') (pid_of r) = Some q \<and>
        p_Rego q = p_Rego r \<and> p_Data q = p_Data r \<and> p_DataConfig q = p_DataConfig r \<and>
        p_OutputSchema q = p_OutputSchema r \<and> p_ExportConfig q = p_ExportConfig r \<and>
        p_Filename q = p_Filename r \<and>
        p_Locked q = (case dir (contents c) (pid_of r) of None \<Rightarrow> p_Locked r | Some old \<Rightarrow> p_Locked old)))"
  using upsertPolicies_effect [where order = order, OF assms, of now, unfolded policies_equal_content] by blast

lemma ex_sync_ready:
  "sync_ready [] ex_policies (ex_order ex_policies)"
  "sync_ready [ex_policy\<lparr>p_Locked := True, p_Rego := []\<rparr>] ex_policies (ex_order ex_policies)"
proof -
  have "pid_of (ex_policy\<lparr>p_Locked := True, p_Rego := []\<rparr>) = ex_id"
    by (simp add: pid_of_def ex_policy_def ex_id_def)
  then show "sync_ready [] ex_policies (ex_order ex_policies)"
    "sync_ready [ex_policy\<lparr>p_Locked := True, p_Rego := []\<rparr>] ex_policies (ex_order ex_policies)"
    by (auto simp: sync_ready_def unique_pids_def keyed_def ex_policies_def is_order_def ex_order_def
        split: if_splits)
qed

theorem sync_transfers_content_witness:
  "\<exists>c' q. upsertPolicies ex_coll 0 ex_order ex_policies [ex_policy\<lparr>p_Locked := True, p_Rego := []\<rparr>] = (Ok (), c') \<and>
     dir c' ex_id = Some q \<and> p_Rego q = p_Rego ex_policy \<and> p_Locked q"
proof -
  have pid: "pid_of (ex_policy\<lparr>p_Locked := True, p_Rego := []\<rparr>) = ex_id"
    by (simp add: pid_of_def ex_policy_def ex_id_def)
  have repo: "ex_policies (ConstructKey ex_id) = Some ex_policy" by (simp add: ex_policies_def)
  from sync_transfers_content [where order = ex_order, OF ex_coll_ok ex_sync_ready(2), of 0]
  show ?thesis using repo pid by fastforce
qed

text \<open>Synchronising again with the same repository finds nothing to do and writes nothing.\<close>

theorem sync_idempotent:
  assumes "policy_coll_ok re contents K" and "sync_ready (contents c) repo (order repo)"
    and "upsertPolicies K now order repo c = (Ok (), c')"
  shows "upsertPolicies K later order repo c' = (Ok (), c')"
proof -
  have ready: "unique_pids (contents c)" "\<forall>p \<in> set (contents c). dot_free (pid_of p)"
    "keyed ConstructKey repo" "\<And>k r. repo k = Some r \<Longrightarrow> dot_free (pid_of r)"
    using assms(2) by (auto simp: sync_ready_def list_all_iff)
  obtain c1 where c1: "upsertPolicies K now order repo c = (Ok (), c1)" "unique_pids (contents c1)"
    "\<forall>j. (\<forall>r. repo (ConstructKey j) = Some r \<longrightarrow> pid_of r \<noteq> j) \<longrightarrow> dir (contents c1) j = dir (contents c) j"
    "\<forall>k r. repo k = Some r \<longrightarrow> (\<exists>q. dir (contents c1) (pid_of r) = Some q \<and> policies_equal q r)"
    using upsertPolicies_effect [where order = order, OF assms(1,2), of now] by blast
  then have "c1 = c'" using assms(3) by simp
  note eff = c1(2-4) [unfolded this]

  have "dot_free (pid_of p)" if p: "p \<in> set (contents c')" for p
  proof (cases "\<exists>r. repo (ConstructKey (pid_of p)) = Some r \<and> pid_of r = pid_of p")
    case True
    then show ?thesis using ready(4) by metis
  next
    case False
    then have "dir (contents c) (pid_of p) = Some p"
      using eff(2) dir_unique [OF eff(1) p] by metis
    then show ?thesis using ready(2) dir_in by blast
  qed
  then have "sync_ready (contents c') repo (order repo)"
    using assms(2) eff(1) by (auto simp: sync_ready_def list_all_iff)
  from upsertPolicies_again [where order = order, OF assms(1) this eff(3)] show ?thesis .
qed

theorem sync_idempotent_witness:
  "\<exists>c'. upsertPolicies ex_coll 0 ex_order ex_policies [] = (Ok (), c') \<and>
     upsertPolicies ex_coll 1 ex_order ex_policies c' = (Ok (), c')"
proof -
  obtain c' where "upsertPolicies ex_coll 0 ex_order ex_policies [] = (Ok (), c')"
    using upsertPolicies_effect [where order = ex_order, OF ex_coll_ok ex_sync_ready(1), of 0] by blast
  with sync_idempotent [where order = ex_order, OF ex_coll_ok ex_sync_ready(1) this] show ?thesis by blast
qed

section \<open>Reading the repository\<close>

text \<open>A policy file at \<^verbatim>\<open>.../group/name/version/policy.rego\<close> is read into an unlocked policy of that
  identity, with the contents of the files beside it; except that the static data is looked up below the
  directory of the executable instead of beside the policy.\<close>

theorem createPolicy_layout:
  assumes "CHR ''/'' \<notin> set g" and "CHR ''/'' \<notin> set n" and "CHR ''/'' \<notin> set v"
    and "folder = pre @ CHR ''/'' # g @ CHR ''/'' # n @ CHR ''/'' # v @ ''/''"
    and "read (folder @ ''policy.rego'') = Contents rego"
    and "read_optional (read (join ex (folder @ ''data.json''))) = Ok data"
    and "read_optional (read (folder @ ''data-config.json'')) = Ok cfg"
    and "read_optional (read (folder @ ''output-schema.json'')) = Ok schm"
    and "read_optional (read (folder @ ''export-config.json'')) = Ok export"
  shows "\<exists>p. createPolicy (Ok ex) join read (folder @ ''policy.rego'') repo = Ok p \<and>
    pid_of p = (repo, g, n, v) \<and> p_Filename p = g @ ''/'' @ n @ ''/'' @ v @ ''/policy.rego'' \<and>
    p_Rego p = rego \<and> p_Data p = data \<and> p_DataConfig p = cfg \<and> p_OutputSchema p = schm \<and>
    p_ExportConfig p = export \<and> \<not> p_Locked p"
proof -
  have path: "folder @ ''policy.rego'' =
      pre @ CHR ''/'' # g @ CHR ''/'' # n @ CHR ''/'' # v @ ''/policy.rego''"
    by (simp add: assms(4))
  define ws where "ws = split_on CHR ''/'' pre"
  have ws: "split_on CHR ''/'' (folder @ ''policy.rego'') = ws @ [g, n, v, ''policy.rego'']"
    unfolding path ws_def by (rule split_path [OF assms(1-3)])
  have tr: "trim_suffix (folder @ ''policy.rego'') policyFilename = folder"
    by (simp add: policyFilename_def)
  have len: "\<not> length (ws @ [g, n, v, ''policy.rego'']) < 4" by simp
  have idx: "(ws @ [g, n, v, ''policy.rego'']) ! (length (ws @ [g, n, v, ''policy.rego'']) - 2) = v"
    "(ws @ [g, n, v, ''policy.rego'']) ! (length (ws @ [g, n, v, ''policy.rego'']) - 3) = n"
    "(ws @ [g, n, v, ''policy.rego'']) ! (length (ws @ [g, n, v, ''policy.rego'']) - 4) = g"
    by (simp_all add: nth_append)
  have files: "read_required (read (folder @ ''policy.rego'')) = Ok rego"
    by (simp add: assms(5) read_required_def)
  show ?thesis
    unfolding createPolicy_def tr ws Let_def idx files owrap.simps obind.simps if_not_P [OF len]
      dataFilename_def dataConfigFilename_def jsonSchemaFilename_def exportConfigFilename_def assms(6-9)
    by (simp add: policyFilename_def pid_of_def zero_policy_def)
qed

theorem createPolicy_layout_witness:
  "\<exists>p. createPolicy (Ok ''/bin'') (\<lambda>a b. a @ ''/'' @ b)
     (\<lambda>f. if f = ''temp/grp/example/1.0/policy.rego'' then Contents ''package''
          else if f = ''temp/grp/example/1.0/data.json'' then Contents ''{}'' else NotExist)
     ''temp/grp/example/1.0/policy.rego'' ''repo'' = Ok p \<and> pid_of p = ex_id \<and> p_Data p = []"
  using createPolicy_layout [of "''grp''" "''example''" "''1.0''" "''temp/grp/example/1.0/''" "''temp''"
      "\<lambda>f. if f = ''temp/grp/example/1.0/policy.rego'' then Contents ''package''
          else if f = ''temp/grp/example/1.0/data.json'' then Contents ''{}'' else NotExist" "''package''"
      "\<lambda>a b. a @ ''/'' @ b" "''/bin''" "[]" "[]" "[]" "[]" "''repo''"]
  by (auto simp: read_optional_def ex_id_def)

text \<open>The walk over the repository files every policy it reads under the key of its identity, with the
  repository's name and unlocked, so the result is what the synchronisation expects.\<close>

theorem iterate_repo_policies:
  assumes "IterateRepo (\<lambda>f. createPolicy exe join read f repo) entries = Ok m"
  shows "keyed ConstructKey m \<and>
    (\<forall>k p. m k = Some p \<longrightarrow> p_Repository p = repo \<and> \<not> p_Locked p \<and> p_NextDataRefreshTime p = zero_time)"
  using IterateRepo_filed [OF assms] .

theorem iterate_repo_policies_witness:
  "\<exists>m p. IterateRepo (\<lambda>f. createPolicy (Ok []) (\<lambda>a b. b) (\<lambda>f. Contents []) f ''repo'')
      [\<lparr>d_path = ''temp'', d_name = ''temp'', d_isdir = True, d_err = None\<rparr>,
       \<lparr>d_path = ''temp/grp/example/1.0/policy.rego'', d_name = ''policy.rego'', d_isdir = False,
        d_err = None\<rparr>] = Ok m \<and> m (ConstructKey ex_id) = Some p \<and> p_Repository p = ''repo''"
proof -
  let ?create = "\<lambda>f. createPolicy (Ok []) (\<lambda>a b. b) (\<lambda>f. Contents []) f ''repo''"
  obtain p where p: "?create ''temp/grp/example/1.0/policy.rego'' = Ok p" "pid_of p = ex_id"
    by (simp add: createPolicy_def read_required_def read_optional_def pid_of_def ex_id_def)
  then have m: "IterateRepo ?create
      [\<lparr>d_path = ''temp'', d_name = ''temp'', d_isdir = True, d_err = None\<rparr>,
       \<lparr>d_path = ''temp/grp/example/1.0/policy.rego'', d_name = ''policy.rego'', d_isdir = False,
        d_err = None\<rparr>] = Ok [ConstructKey ex_id \<mapsto> p]"
    by (simp add: IterateRepo_def policyFilename_def)
  from iterate_repo_policies [OF this] m show ?thesis by auto
qed

end
