(* ===== verification/Rego_Props.thy ===== *)
theory Rego_Props
  imports Examples
begin

text \<open>
  The properties of what surrounds the service: error kinds, request headers, change notifications and
  the extension functions of the policy language.
\<close>

section \<open>Errors and headers\<close>

text \<open>Wrapping an error with a message, as the service does on every level, keeps its kind, so the
  client sees the HTTP status of the original error, and reading that status back gives the kind.\<close>

theorem wrapping_keeps_status:
  assumes "errors_Is k e" and "k \<noteq> Unknown"
  shows "errors_Is k (wrap_msg m e) \<and> response_status (wrap_msg m e) = kind_status k \<and>
    GetKind (kind_status k) = k"
proof -
  have "errors_Is k (wrap_msg m e)" using assms by simp
  moreover have "GetKind (kind_status k) = k" using assms(2) by (cases k) simp_all
  ultimately show ?thesis using response_status_Is by blast
qed

theorem wrapping_keeps_status_witness:
  "response_status (wrap_msg ''error evaluating policy'' locked_error) = 403"
  using wrapping_keeps_status [OF locked_error_Forbidden, of "''error evaluating policy''"] by simp

text \<open>A policy reads the first value of a request header under the header's canonical name; under a
  name the request does not have, spelled differently included, it reads the empty string.\<close>

theorem policy_header_lookup:
  assumes "hr_Header r (canonical_key name) = Some (v # vs)" and "canonical_key name \<noteq> ''Host''"
    and "hr_Header r other = None" and "other \<noteq> ''Host''"
  shows "GetHeaderFunc (FromContext (Some (ToContext r))) (canonical_key name) = v \<and>
    GetHeaderFunc (FromContext (Some (ToContext r))) other = []"
  using GetHeader_present [OF assms(1,2)] assms(3,4)
  by (simp add: GetHeaderFunc_def FromContext_def ToContext_def)

definition ex_http_request :: http_request where
  "ex_http_request = \<lparr>hr_Header = [''Authorization'' \<mapsto> [''Bearer'']], hr_Host = ''agent''\<rparr>"

theorem policy_header_lookup_witness:
  "GetHeaderFunc (FromContext (Some (ToContext ex_http_request))) ''Authorization'' = ''Bearer'' \<and>
   GetHeaderFunc (FromContext (Some (ToContext ex_http_request))) ''authorization'' = []"
proof -
  have "canonical_key ''authorization'' = ''Authorization''" by code_simp
  then show ?thesis
    using policy_header_lookup [of ex_http_request "''authorization''" "''Bearer''" "[]" "''authorization''"]
    by (simp add: ex_http_request_def)
qed

section \<open>Notifications\<close>

text \<open>When a policy changes, every subscriber of the policy whose web hook is a valid URL gets exactly
  one request with the event, whatever the answers to the others are.\<close>

theorem all_subscribers_notified:
  assumes "answering (no_client N)"
    and "no_PolicySubscribers N (ce_Repository e) (ce_Name e) (ce_Group e) (ce_Version e) = Ok bs"
    and "marshal (no_codec N) (event_json e) = Ok txt"
  shows "notifySubscribers N e h =
    (Ok (), h @ map (\<lambda>b. webhook_request b txt)
       (filter (\<lambda>b. badRequest (no_client N) ''POST'' (sub_WebhookURL b) = None) bs))"
  using assms(2,3) notify_loop_requests [OF assms(1)] by (simp add: notifySubscribers_def)

definition ex_notifier :: "int \<Rightarrow> notifier" where
  "ex_notifier code =
     \<lparr>no_PolicySubscribers = (\<lambda>r n g v. Ok [new_subscriber ex_id ''http://a'' ''a'', new_subscriber ex_id ''http://b'' ''b'']),
      no_Send = (\<lambda>v evs. (None, evs)), no_client = ex_net (ex_response code []), no_codec = ex_codec JNull\<rparr>"

theorem all_subscribers_notified_witness:
  "\<exists>h. notifySubscribers (ex_notifier 500)
      \<lparr>ce_Repository = ''repo'', ce_Name = ''example'', ce_Version = ''1.0'', ce_Group = ''grp''\<rparr> [] = (Ok (), h) \<and>
     map rq_URL h = [''http://a'', ''http://b'']"
  using all_subscribers_notified [of "ex_notifier 500"
      "\<lparr>ce_Repository = ''repo'', ce_Name = ''example'', ce_Version = ''1.0'', ce_Group = ''grp''\<rparr>"
      "[new_subscriber ex_id ''http://a'' ''a'', new_subscriber ex_id ''http://b'' ''b'']" "''json''" "[]"]
  by (simp add: ex_notifier_def webhook_request_def new_subscriber_def ex_id_def)

text \<open>The change listener of the in-memory storage calls the subscribers with the version in the place
  of the group and the group in the place of the version: a notifier behind it publishes them exchanged,
  where the listener of the MongoDB storage gives each its own.\<close>

theorem memory_listener_exchanges_group_and_version:
  "ob_pending (snd (mem_notify [notifier_PolicyDataChange N] p ob)) =
     ob_pending ob @ [\<lparr>ce_Repository = p_Repository p, ce_Name = p_Name p, ce_Version = p_Group p,
                        ce_Group = p_Version p\<rparr>] \<and>
   ob_pending (mongo_notify [notifier_PolicyDataChange N] p ob) =
     ob_pending ob @ [\<lparr>ce_Repository = p_Repository p, ce_Name = p_Name p, ce_Version = p_Version p,
                        ce_Group = p_Group p\<rparr>]"
  using memory_listener_swaps
  by (auto simp: notifier_PolicyDataChange_def Let_def split: prod.splits)

section \<open>Extension functions\<close>

text \<open>C39: Take an https URL with a host that is not empty and has no space, and with a path of one or more
  segments followed by \<^verbatim>\<open>/did.json\<close>, the segments not empty, made of letters, digits and the characters - _ . ~
  and none of them \<^verbatim>\<open>.well-known\<close>.  The identifier made from it is did, web, the query-escaped host and the
  segments, joined by colons, and it converts back to exactly that URL, whatever port the host names.\<close>

theorem did_url_roundtrip:
  assumes "\<forall>v \<in> set vs. v \<noteq> [] \<and> v \<noteq> ''.well-known'' \<and> list_all unreserved v" and "vs \<noteq> []"
    and "host \<noteq> []" and "CHR '' '' \<notin> set host" and "path = concat (map (\<lambda>v. ''/'' @ v) vs) @ ''/did.json''"
  shows "DID_String (urlToDID \<lparr>url_Scheme = ''https'', url_Host = host, url_Path = path\<rparr>)
      = join_with '':'' ([''did'', ''web'', QueryEscape host] @ vs) \<and>
    didToURL (DID_String (urlToDID \<lparr>url_Scheme = ''https'', url_Host = host, url_Path = path\<rparr>))
      = Ok \<lparr>url_Scheme = ''https'', url_Host = host, url_Path = path\<rparr>"
proof -
  have plain: "list_all plain_segment vs"
    using assms(1) by (simp add: list_all_iff plain_segment_def defaultURLPath_def)
  have path: "path = segments_path vs" by (simp add: assms(5) segments_path_def did_json_def)
  show ?thesis
    unfolding path urlToDID_segments [OF plain assms(3)] didToURL_segments [OF plain assms(2,4)] by simp
qed

theorem did_url_roundtrip_witness:
  "didToURL (DID_String (urlToDID
      \<lparr>url_Scheme = ''https'', url_Host = ''example.com:8080'', url_Path = ''/a/b/did.json''\<rparr>)) =
    Ok \<lparr>url_Scheme = ''https'', url_Host = ''example.com:8080'', url_Path = ''/a/b/did.json''\<rparr>"
proof -
  have vs: "\<forall>v \<in> set [''a'', ''b'']. v \<noteq> [] \<and> v \<noteq> ''.well-known'' \<and> list_all unreserved v" by code_simp
  have path: "''/a/b/did.json'' = concat (map (\<lambda>v. ''/'' @ v) [''a'', ''b'']) @ ''/did.json''" by code_simp
  have host: "CHR '' '' \<notin> set ''example.com:8080''" by code_simp
  show ?thesis by (rule did_url_roundtrip [OF vs _ _ host path, THEN conjunct2]) code_simp+
qed

text \<open>A path with a character that needs encoding does not come back: a space becomes a plus sign,
  since the path of an identifier is encoded but never decoded.\<close>

theorem did_path_not_decoded:
  "didToURL (DID_String (urlToDID
      \<lparr>url_Scheme = ''https'', url_Host = ''example.com'', url_Path = ''/a b/did.json''\<rparr>)) =
    Ok \<lparr>url_Scheme = ''https'', url_Host = ''example.com'', url_Path = ''/a+b/did.json''\<rparr>"
  by code_simp

text \<open>A login invitation asks for the non-empty credential types of the requested scopes, each once
  and in the order in which they first appear; a scope that is not in the map is an error.\<close>

theorem invitation_types:
  "if list_all (\<lambda>s. map_of (rev m) s \<noteq> None) scopes
   then cred_types_loop m [] [] scopes =
          Ok (filter (\<lambda>t. t \<noteq> []) (first_occurrences (map (\<lambda>s. the (map_of (rev m) s)) scopes)))
   else \<exists>e. cred_types_loop m [] [] scopes = Err e"
  using cred_types_loop_eq [of m scopes "[]" "[]"] cred_types_loop_missing [of m scopes "[]" "[]"] by simp

text \<open>C36: \<^verbatim>\<open>proof.verify\<close> gives true only when the credential or presentation has a known type and a
  proof, and the signer, asked once at the address for that type, answered 200 with valid.\<close>

theorem proof_verified_by_signer:
  assumes "rego_VerifyProof C n addr credential h = (Ok v, h')"
  shows "v = JBool True \<and> (\<exists>cred t path txt rq resp kvs.
    as_map credential = Ok cred \<and> map_index cred ''type'' = JStr t \<and> verify_path t = Ok path \<and>
    map_index cred ''proof'' \<noteq> JNull \<and> marshal C cred = Ok txt \<and>
    http_NewRequest n ''POST'' (addr @ path) txt = Ok rq \<and> h' = h @ [rq] \<and>
    respond n h rq = Ok resp \<and> rs_StatusCode resp = 200 \<and>
    decode_body C resp = Ok kvs \<and>
    obind (struct_entries kvs) (\<lambda>kvs. bool_field C ''valid'' kvs False) = Ok True)"
  using VerifyProof_OkD [OF assms] .

definition ex_credential :: json where
  "ex_credential = JObj [(''type'', JStr ''VerifiableCredential''), (''proof'', JObj [])]"

theorem proof_verified_by_signer_witness:
  "\<exists>rq. snd (rego_VerifyProof (ex_codec (JObj [(''valid'', JBool True)])) (ex_net (ex_response 200 []))
      ''http://signer'' ex_credential []) = [rq]"
proof -
  have "rego_VerifyProof (ex_codec (JObj [(''valid'', JBool True)])) (ex_net (ex_response 200 []))
      ''http://signer'' ex_credential [] = (Ok (JBool True),
        [\<lparr>rq_Method = ''POST'', rq_URL = ''http://signer/v1/credential/verify'', rq_Header = [], rq_Body = ''json''\<rparr>])"
    by (simp add: rego_VerifyProof_def ex_credential_def as_arg_def proof_type_def string_type_def
        map_index_def verify_path_def signer_post_def http_NewRequest_def http_Do_def decode_body_def)
  from proof_verified_by_signer [OF this] this show ?thesis by simp
qed

text \<open>A proof is requested only for the declared type: for a credential that is not a verifiable
  credential, or a presentation that is not a verifiable presentation, the function fails and nothing is
  sent to the signer.\<close>

theorem wrong_type_not_sent:
  assumes "as_map doc = Ok d"
  shows "(map_index d ''type'' = JStr ''VerifiableCredential'' \<or>
      (\<exists>e. rego_AddVCProof C n addr ns key doc h = (e, h) \<and> (\<forall>v. e \<noteq> Ok v))) \<and>
    (map_index d ''type'' = JStr ''VerifiablePresentation'' \<or>
      (\<exists>e. rego_AddVPProof C n addr did ns key doc h = (e, h) \<and> (\<forall>v. e \<noteq> Ok v)))"
  using AddVCProof_other_type [OF assms] AddVPProof_other_type [OF assms] by blast

theorem wrong_type_not_sent_witness:
  "\<exists>e. rego_AddVPProof (ex_codec JNull) (ex_net (ex_response 200 [])) ''http://signer''
      (JStr ''did'') (JStr ''ns'') (JStr ''key'') ex_credential [] = (e, []) \<and> (\<forall>v. e \<noteq> Ok v)"
  using wrong_type_not_sent [of ex_credential ex_credential]
  by (simp add: ex_credential_def map_index_def)

text \<open>Over the in-memory storage, an object stored by \<^verbatim>\<open>storage.set\<close> is what \<^verbatim>\<open>storage.get\<close> gives for
  the same key, and after \<^verbatim>\<open>storage.delete\<close> the key is gone.\<close>

theorem storage_functions_roundtrip:
  assumes "storage_key k = Ok key" and "storage_set mem_SetData k (JObj d) s = (r, s1)"
    and "storage_delete mem_DeleteData k s1 = (r', s2)"
  shows "r = Ok JNull \<and> storage_get mem_GetData k s1 = (Ok (JObj d), s1) \<and> r' = Ok JNull \<and>
    (\<exists>e. storage_get mem_GetData k s2 = (Err e, s2))"
proof -
  have set: "r = Ok JNull" "storage_get mem_GetData k s1 = (Ok (JObj d), s1)"
    using mem_dat.storage_set_then_get [OF TrueI assms(1,2)] by auto
  have "commonStorage s1 key \<noteq> None"
    using set(2) assms(1) by (auto simp: storage_get_def mem_GetData_def split: option.splits)
  then show ?thesis using set mem_dat.storage_delete_then_get [OF TrueI assms(1) _ assms(3)] by blast
qed

theorem storage_functions_roundtrip_witness:
  "\<exists>s1. storage_set mem_SetData (JStr ''k'') (JObj [(''a'', JNull)]) ex_mem = (Ok JNull, s1) \<and>
     storage_get mem_GetData (JStr ''k'') s1 = (Ok (JObj [(''a'', JNull)]), s1)"
proof -
  have "\<not> blank ''k''" by code_simp
  then have k: "storage_key (JStr ''k'') = Ok ''k''" by (simp add: storage_key_def as_arg_def)
  obtain r s1 where s1: "storage_set mem_SetData (JStr ''k'') (JObj [(''a'', JNull)]) ex_mem = (r, s1)"
    by fastforce
  obtain r' s2 where "storage_delete mem_DeleteData (JStr ''k'') s1 = (r', s2)" by fastforce
  from storage_functions_roundtrip [OF k s1 this] s1 show ?thesis by auto
qed

text \<open>A cache address that is set but is not a URL makes the cache client's \<^verbatim>\<open>Get\<close> and the extension
  function \<^verbatim>\<open>cache.get\<close> panic instead of returning the error.\<close>

theorem bad_cache_address_panics:
  assumes "addr \<noteq> []" and "badRequest n ''GET'' (addr @ ''/v1/cache'') = Some e"
  shows "fst (cacheclient_Get n addr key ns sc h) = Panic ''nil pointer dereference'' \<and>
    fst (rego_CacheGet C n addr (JStr key) (JStr ns) (JStr sc) h) = Panic ''nil pointer dereference''"
  using assms by (simp add: cacheclient_Get_def rego_CacheGet_def http_NewRequest_def as_arg_def)

theorem bad_cache_address_panics_witness:
  "fst (cacheclient_Get \<lparr>respond = (\<lambda>h rq. Blocked), badRequest = (\<lambda>m u. Some (Plain ''parse''))\<rparr>
      ''://'' ''k'' ''n'' ''s'' []) = Panic ''nil pointer dereference''"
  using bad_cache_address_panics [of "''://''"
      "\<lparr>respond = (\<lambda>h rq. Blocked), badRequest = (\<lambda>m u. Some (Plain ''parse''))\<rparr>" "Plain ''parse''" "''k''" "''n''" "''s''" "[]"]
  by simp

text \<open>Registering functions keeps the first function of every name; the functions \<^verbatim>\<open>main\<close> registers have
  different names, both in the registry and in the policy language, so all of them are there.\<close>

theorem registration_keeps_first:
  "register_all rs Map.empty = map_of rs \<and>
   (register_all main_registrations Map.empty name = Some f \<longleftrightarrow> (name, f) \<in> set main_registrations) \<and>
   distinct (map snd main_registrations)"
proof -
  have all: "register_all qs Map.empty = map_of qs" for qs :: "(string \<times> 'a) list"
    by (simp add: fun_eq_iff register_all_apply)
  have "register_all main_registrations Map.empty = map_of main_registrations"
    by (simp add: fun_eq_iff register_all_apply)
  then show ?thesis
    using all main_registrations_distinct by (simp add: map_of_eq_Some_iff)
qed

end
