(* ===== verification/Liveness.thy ===== *)
theory Liveness
  imports Examples
begin

text \<open>
  What the background goroutines get done: the change listener of the in-memory storage empties the
  queue of changes and purges the cache in a bounded number of steps, and the data refresher over that
  storage goes round until its context is cancelled.
\<close>

section \<open>The change listener\<close>

text \<open>
  One turn of the listener: it calls the cache for the change it holds, or else receives the next one,
  or waits.  The change it holds only purges, so any policy stands for it.
\<close>

definition listener_turn :: "run \<Rightarrow> run" where
  "listener_turn u =
     (if sy_purging (ru_sys u) then run_purge zero_policy u
      else case changes (w_store (ru_world u)) of [] \<Rightarrow> u | p # ps \<Rightarrow> run_receive [] ps u)"

text \<open>The turns left before the listener waits.\<close>

definition backlog :: "run \<Rightarrow> nat" where
  "backlog u = 2 * length (changes (w_store (ru_world u))) + (if sy_purging (ru_sys u) then 1 else 0)"

text \<open>Nothing is left of what happened before the last purge.\<close>

definition caught_up :: "run \<Rightarrow> bool" where
  "caught_up u \<longleftrightarrow>
     settled u \<and> ru_late u = {} \<and> (\<forall>k. rc_Get k (w_cache (ru_world u)) = None) \<and>
     (\<forall>e \<in> set (ru_retrievals u). rt_overtaken e)"

lemma listener_turn_step: "0 < backlog u \<Longrightarrow> run_step S u (listener_turn u)"
  using ru_receive [of u "[]"]
  by (auto simp: listener_turn_def backlog_def ru_purge split: list.split if_splits)

lemma listener_turn_backlog: "backlog (listener_turn u) = backlog u - 1"
  by (auto simp: backlog_def listener_turn_def run_purge_def run_receive_def purge_cache_def
      receive_change_def split: list.split)

lemma listener_turn_policies [simp]:
  "policies (w_store (ru_world (listener_turn u))) = policies (w_store (ru_world u))"
  by (auto simp: listener_turn_def run_purge_def run_receive_def purge_cache_def receive_change_def
      split: list.split)

lemma listener_last_turn: "backlog u = 1 \<Longrightarrow> caught_up (listener_turn u)"
  by (auto simp: backlog_def listener_turn_def caught_up_def run_purge_def purge_cache_def settled_def
      quiet_def rc_PolicyDataChange_def rc.get_purge split: if_splits)

lemma listener_works_off:
  assumes "backlog u = Suc n"
  shows "(run_step S)\<^sup>*\<^sup>* u ((listener_turn ^^ Suc n) u) \<and> caught_up ((listener_turn ^^ Suc n) u) \<and>
    policies (w_store (ru_world ((listener_turn ^^ Suc n) u))) = policies (w_store (ru_world u))"
  using assms
proof (induction n arbitrary: u)
  case 0
  then show ?case using listener_turn_step [of u S] listener_last_turn [of u] by auto
next
  case (Suc n)
  have "backlog (listener_turn u) = Suc n" using Suc.prems by (simp add: listener_turn_backlog)
  from Suc.IH [OF this] show ?case
    using listener_turn_step [of u S] Suc.prems converse_rtranclp_into_rtranclp [of "run_step S" u]
    by (simp add: funpow_swap1)
qed

lemma run_reachable_steps:
  assumes "(run_step S)\<^sup>*\<^sup>* u v" and "run_reachable S p0 u"
  shows "run_reachable S p0 v"
  using assms by (induction) (auto intro: ru_next)

text \<open>C19: From every state of a run with a change waiting or held by the change listener of the in-memory
  storage - whatever the cache holds, whichever changes were dropped before and whichever retrievals were
  overtaken - the listener on its own, in two steps for each waiting change and one for a change it holds,
  comes to a state in which nothing is waiting, the cache is empty and the policies of the storage are
  what they were; there an evaluation of any policy that is locked in the storage answers 403.  A change
  that was dropped starts nothing, so the next change has to come through.\<close>

theorem listener_catches_up:
  assumes "0 < backlog u"
  shows "\<exists>v. v = (listener_turn ^^ backlog u) u \<and> (run_step S)\<^sup>*\<^sup>* u v \<and>
    changes (w_store (ru_world v)) = [] \<and> \<not> sy_purging (ru_sys v) \<and>
    (\<forall>k. rc_Get k (w_cache (ru_world v)) = None) \<and>
    policies (w_store (ru_world v)) = policies (w_store (ru_world u)) \<and>
    (sv_storage S = mem_ops ConstructKey lower order aorder now \<longrightarrow>
     mem_lookup (w_store (ru_world u)) (er_id req) = Some p \<longrightarrow> p_Locked p \<longrightarrow>
       (\<exists>e w'. svc_Evaluate E S req ctx (ru_world v) = (Err e, w') \<and> response_status e = 403))"
proof -
  let ?v = "(listener_turn ^^ backlog u) u"
  have v: "(run_step S)\<^sup>*\<^sup>* u ?v" "caught_up ?v"
    "policies (w_store (ru_world ?v)) = policies (w_store (ru_world u))"
    using listener_works_off [of u "backlog u - 1" S] assms by auto
  have "\<exists>e w'. svc_Evaluate E S req ctx (ru_world ?v) = (Err e, w') \<and> response_status e = 403"
    if S: "sv_storage S = mem_ops ConstructKey lower order aorder now"
      and p: "mem_lookup (w_store (ru_world u)) (er_id req) = Some p" "p_Locked p"
  proof -
    have "\<exists>w'. retrievePolicy S (er_id req) (ru_world ?v) = (Ok p, w')"
      using retrieve_missed [OF S] v(2,3) p(1) by (simp add: caught_up_def mem_lookup_def)
    then show ?thesis using Evaluate_locked [OF _ p(2)] response_status_Is by fastforce
  qed
  then show ?thesis using v by (simp add: caught_up_def settled_def quiet_def)
qed

text \<open>A policy that has been evaluated is locked; the cache still holds it unlocked.\<close>

definition ex_stale :: run where
  "ex_stale =
     \<lparr>ru_sys = \<lparr>sy_world = ex_world\<lparr>w_cache := rc_New(queryCacheKey ex_id \<mapsto> ex_policy),
          w_store := ex_mem\<lparr>policies := ex_policies(ConstructKey ex_id \<mapsto> ex_policy\<lparr>p_Locked := True\<rparr>),
                            changes := [ex_policy\<lparr>p_Locked := True\<rparr>]\<rparr>\<rparr>,
        sy_purging = False\<rparr>,
      ru_retrievals = [], ru_lost = False, ru_late = {}\<rparr>"

theorem listener_catches_up_witness:
  "\<exists>v. v = (listener_turn ^^ 2) ex_stale \<and> quiet (ru_sys v) \<and>
    (\<exists>e w'. svc_Evaluate (ex_engine JNull None) (ex_service True (Ok ())) ex_request None (ru_world v)
        = (Err e, w') \<and> response_status e = 403)"
proof -
  have "backlog ex_stale = 2" by (simp add: backlog_def ex_stale_def)
  moreover have "mem_lookup (w_store (ru_world ex_stale)) ex_id = Some (ex_policy\<lparr>p_Locked := True\<rparr>)"
    by (simp add: ex_stale_def mem_lookup_def)
  ultimately show ?thesis
    using listener_catches_up [of ex_stale "ex_service True (Ok ())" "\<lambda>s. s" ex_order ex_order 0
        ex_request "ex_policy\<lparr>p_Locked := True\<rparr>" "ex_engine JNull None" None]
    by (auto simp: ex_ops_def quiet_def)
qed

section \<open>The data refresher\<close>

text \<open>Over the in-memory storage no step of a round panics or blocks.\<close>

lemma set_next_refresh_returns:
  "\<exists>w'. set_next_refresh (mem_refresh_storage clk order) p t w = (Ok (), w')"
proof (cases "policies (w_store w) (ConstructKey (pid_of p))")
  case None
  then show ?thesis
    by (simp add: set_next_refresh_def on_store_def mem_refresh_storage_def mem_UpdateNextRefreshTime_def)
next
  case (Some q)
  then show ?thesis
    by (simp add: set_next_refresh_def on_store_def mem_refresh_storage_def mem_UpdateNextRefreshTime_def)
qed

lemma refresh_answer_cases:
  assumes "returns r"
  obtains (ok) resp d where "r = Ok resp" "rs_StatusCode resp = 200" "io_ReadAll resp = Ok d"
    | (failed) "refresh_failed r"
proof (cases rule: returns_cases [OF assms])
  case (1 resp)
  show thesis
  proof (cases "rs_StatusCode resp = 200 \<and> rs_ReadErr resp = None")
    case True
    then show thesis using ok [of resp "rs_Body resp"] 1 by (simp add: io_ReadAll_def)
  next
    case False
    then show thesis using failed 1 by (simp add: refresh_failed_def)
  qed
next
  case (2 e)
  then show thesis using failed by (simp add: refresh_failed_def)
qed

lemma refresh_Execute_returns:
  assumes "total_lib L" and "answering n"
  shows "\<exists>w'. refresh_Execute L n (mem_refresh_storage clk order) now p w = (Ok (), w')"
proof (cases "usable_config L n p")
  case None
  then show ?thesis using Execute_unusable [OF assms(1)] set_next_refresh_returns by metis
next
  case (Some cr)
  then obtain config req where u: "usable_config L n p = Some (config, req)" by (cases cr) simp
  have "returns (respond n (w_http w) req)" using assms(2) by (simp add: answering_def)
  then show ?thesis
  proof (cases rule: refresh_answer_cases)
    case (ok resp d)
    then show ?thesis using Execute_usable [OF u] set_next_refresh_returns by metis
  next
    case failed
    then show ?thesis using Execute_failed [OF u] set_next_refresh_returns by metis
  qed
qed

lemma refresh_all_returns:
  assumes "total_lib L" and "answering n"
  shows "\<exists>w'. refresh_all L n (mem_refresh_storage clk order) now ps w = (Ok (), w')"
proof (induction ps arbitrary: w)
  case (Cons p ps)
  obtain w1 where "refresh_Execute L n (mem_refresh_storage clk order) now p w = (Ok (), w1)"
    using refresh_Execute_returns [OF assms] by blast
  then show ?case using Cons by (simp add: sbind_def)
qed simp

lemma refresh_tick_returns:
  assumes "total_lib L" and "answering n"
  shows "\<exists>w'. refresh_tick L n (mem_refresh_storage clk order) now w = (Ok (), w')"
proof -
  obtain ps s' where "mem_GetRefreshPolicies clk order (w_store w) = (Ok ps, s')"
    by (cases "mem_refresh_loop clk (order (policies (w_store w))) (policies (w_store w))")
      (simp add: mem_GetRefreshPolicies_def)
  then have "refresh_tick L n (mem_refresh_storage clk order) now w
      = refresh_all L n (mem_refresh_storage clk order) now ps (w\<lparr>w_store := s'\<rparr>)"
    by (simp add: refresh_tick_def on_store_eq mem_refresh_storage_def)
  then show ?thesis using refresh_all_returns [OF assms] by metis
qed

text \<open>C33: The refresh loop over the in-memory storage returns only with the error of its cancelled context,
  after all its ticks: no round stops it, panics or blocks, whatever the data configurations contain and
  whatever the servers answer or fail to answer.\<close>

theorem refresher_returns:
  assumes "total_lib L" and "answering n"
  shows "\<exists>w'. refresher_Start L n (\<lambda>now. mem_refresh_storage now order) ticks w
    = (Err (Plain ''context canceled''), w')"
proof (induction ticks arbitrary: w)
  case (Cons now ticks)
  obtain w1 where "refresh_tick L n (mem_refresh_storage now order) now w = (Ok (), w1)"
    using refresh_tick_returns [OF assms] by blast
  then show ?case using Cons by (simp add: sbind_def)
qed simp

theorem refresher_returns_witness:
  "\<exists>w'. refresher_Start ex_refresh_lib (ex_net (ex_response 500 [])) (\<lambda>now. mem_refresh_storage now ex_order)
      [10, 20] ex_world = (Err (Plain ''context canceled''), w')"
  by (rule refresher_returns [OF ex_total_lib ex_answering])

end
