(* ===== verification/Server.thy ===== *)
theory Server
  imports Examples
begin

text \<open>
  How \<^verbatim>\<open>cmd/policy/main.go\<close> puts the service together: the choice of the storage, the subscribers of
  policy changes, the HTTP server and the middleware in front of its endpoints, with the bearer-token
  middleware of \<^verbatim>\<open>microservice-core-go/pkg/auth\<close> and the health service.
\<close>

section \<open>The storage\<close>

text \<open>The parts of the configuration that are used here.\<close>

record config =
  mongo_Addr :: string
  policy_CloneURL :: string
  policy_Folder :: string
  auth_Enabled :: bool
  ipfilter_Enabled :: bool
  http_Host :: string
  http_Port :: string
  http_IdleTimeout :: duration
  http_ReadTimeout :: duration
  http_WriteTimeout :: duration

text \<open>
  What the storages are made from: connecting to the database and pinging it, \<^verbatim>\<open>os.RemoveAll\<close> of the clone
  folder, the clone, and the entries and the files of the cloned directory.
\<close>

record ('d, 'c) origin =
  mongo_Connect :: "'d outcome"
  mongodb_New :: "'d \<Rightarrow> 'c outcome"
  remove_clone :: "unit outcome"
  git_clone :: "string \<Rightarrow> unit outcome"
  entries_of :: "string \<Rightarrow> dirent list"
  executable :: "string outcome"
  path_join :: "string \<Rightarrow> string \<Rightarrow> string"
  read_file :: "string \<Rightarrow> readresult"

datatype 'c storage = MongoDB 'c | InMemory mem

definition repo_folder :: "('d, 'c) origin \<Rightarrow> string \<Rightarrow> string" where
  "repo_folder D folder = (if folder = [] then ''temp'' else path_join D ''temp'' folder)"

definition makeStorage :: "config \<Rightarrow> ('d, 'c) origin \<Rightarrow> 'c storage outcome" where
  "makeStorage cfg D =
     (if mongo_Addr cfg \<noteq> [] then
        obind (mongo_Connect D) (\<lambda>db. obind (mongodb_New D db) (\<lambda>s. Ok (MongoDB s)))
      else if policy_CloneURL cfg \<noteq> [] then
        obind (remove_clone D) (\<lambda>_.
        obind (git_clone D (policy_CloneURL cfg)) (\<lambda>_.
        let repo = getRepoName (policy_CloneURL cfg) in
        obind (IterateRepo (\<lambda>f. createPolicy (executable D) (path_join D) (read_file D) f repo)
                 (entries_of D (repo_folder D (policy_Folder cfg)))) (\<lambda>policies.
        Ok (InMemory (mem_New policies)))))
      else Err (Plain ''storage configuration is not provided''))"

section \<open>The subscribers\<close>

text \<open>
  The methods of the two storages besides those of the service's interface, and the interfaces the
  program asks a storage for: a type assertion holds when it has all their methods.
\<close>

definition extra_methods :: "'c storage \<Rightarrow> string list" where
  "extra_methods s =
     (case s of
        MongoDB _ \<Rightarrow> [''GetRefreshPolicies'', ''UpdateNextRefreshTime'', ''Transaction'', ''PolicySubscribers'']
      | InMemory _ \<Rightarrow> [''GetRefreshPolicies'', ''UpdateNextRefreshTime''])"

definition implements :: "string list \<Rightarrow> 'c storage \<Rightarrow> bool" where
  "implements iface s \<longleftrightarrow> set iface \<subseteq> set (extra_methods s)"

definition notify_Storage :: "string list" where
  "notify_Storage = [''PolicySubscribers'']"

definition policydata_Storage :: "string list" where
  "policydata_Storage = [''GetRefreshPolicies'', ''UpdateNextRefreshTime'']"

datatype subscriber_part = RegoCache | Notifier

definition main_subscribers :: "'c storage \<Rightarrow> subscriber_part list" where
  "main_subscribers s = [RegoCache] @ (if implements notify_Storage s then [Notifier] else [])"

definition has_refresher :: "'c storage \<Rightarrow> bool" where
  "has_refresher s \<longleftrightarrow> implements policydata_Storage s"

section \<open>The server\<close>

record http_server =
  srv_Addr :: string
  srv_ReadHeaderTimeout :: duration
  srv_IdleTimeout :: duration
  srv_ReadTimeout :: duration
  srv_WriteTimeout :: duration

definition main_server :: "config \<Rightarrow> http_server" where
  "main_server cfg =
     \<lparr>srv_Addr = http_Host cfg @ '':'' @ http_Port cfg, srv_ReadHeaderTimeout = http_ReadTimeout cfg,
      srv_IdleTimeout = http_IdleTimeout cfg, srv_ReadTimeout = http_ReadTimeout cfg,
      srv_WriteTimeout = http_WriteTimeout cfg\<rparr>"

datatype endpoint =
    Evaluate | Validate | Lock | Unlock | ExportBundle | PolicyPublicKey | ImportBundle | ListPolicies
  | SetPolicyAutoImport | PolicyAutoImport | DeletePolicyAutoImport | SubscribeForPolicyChange

text \<open>
  A request as the server receives it, with the host part of its sender's address.  A handler gets it with the
  headers in its context, if any, and answers with the result of the service, or itself with a status
  and a text.
\<close>

record incoming =
  in_request :: http_request
  in_RemoteIP :: string

datatype 'a answer = Rejected nat string | Answered 'a

type_synonym ('a, 'w) handler =
  "incoming \<Rightarrow> (string \<rightharpoonup> string) option \<Rightarrow> 'w \<Rightarrow> 'a answer \<times> 'w"

type_synonym ('a, 'w) server = "endpoint \<Rightarrow> ('a, 'w) handler"

definition header_Middleware :: "('a, 'w) handler \<Rightarrow> ('a, 'w) handler" where
  "header_Middleware next rq ctx = next rq (Some (ToContext (in_request rq)))"

text \<open>
  The filter of addresses; \<open>allowed\<close> is its decision on one address.  It lets the IPv6 loopback address
  through where the IPv4 one is allowed.
\<close>

definition ip_admitted :: "(string \<Rightarrow> bool) \<Rightarrow> string \<Rightarrow> bool" where
  "ip_admitted allowed ip \<longleftrightarrow> allowed ip \<or> ip = ''::1'' \<and> allowed ''127.0.0.1''"

definition ipfilter_Wrap :: "(string \<Rightarrow> bool) \<Rightarrow> ('a, 'w) handler \<Rightarrow> ('a, 'w) handler" where
  "ipfilter_Wrap allowed next rq ctx w =
     (if ip_admitted allowed (in_RemoteIP rq) then next rq ctx w else (Rejected 403 ''Forbidden'', w))"

definition tokenFromRequest :: "http_request \<Rightarrow> goerror + string" where
  "tokenFromRequest r =
     (let auth = split_on CHR '' '' (header_Get (hr_Header r) ''Authorization'') in
        if length auth \<noteq> 2 then Inl (Plain ''invalid authorization header'')
        else if auth ! 0 \<noteq> ''Bearer'' then Inl (Plain ''invalid authorization header'')
        else Inr (auth ! 1))"

text \<open>\<open>verify\<close> is the error of \<^verbatim>\<open>jwt.Parse\<close> with the key set of the middleware.\<close>

definition auth_Handler :: "(string \<Rightarrow> goerror option) \<Rightarrow> ('a, 'w) handler \<Rightarrow> ('a, 'w) handler" where
  "auth_Handler verify next rq ctx w =
     (case tokenFromRequest (in_request rq) of
        Inl e \<Rightarrow> (Rejected 401 (err_text e), w)
      | Inr token \<Rightarrow>
          (case verify token of
             Some e \<Rightarrow> (Rejected 401 (err_text e), w)
           | None \<Rightarrow> next rq ctx w))"

definition server_Use :: "(('a, 'w) handler \<Rightarrow> ('a, 'w) handler) \<Rightarrow> ('a, 'w) server \<Rightarrow> ('a, 'w) server" where
  "server_Use m s = (\<lambda>e. m (s e))"

text \<open>
  The policy server: the headers go to the evaluation only; the filter of addresses and then the
  authentication are put around every endpoint.
\<close>

definition policy_server ::
  "config \<Rightarrow> (string \<Rightarrow> goerror option) \<Rightarrow> (string \<Rightarrow> bool) \<Rightarrow> ('a, 'w) server \<Rightarrow> ('a, 'w) server" where
  "policy_server cfg verify allowed s0 =
     (let s1 = s0(Evaluate := header_Middleware (s0 Evaluate));
          s2 = (if ipfilter_Enabled cfg then server_Use (ipfilter_Wrap allowed) s1 else s1)
      in if auth_Enabled cfg then server_Use (auth_Handler verify) s2 else s2)"

record health_response =
  health_Service :: string
  health_Status :: string
  health_Version :: string

definition health_Liveness :: "string \<Rightarrow> health_response" where
  "health_Liveness ver = \<lparr>health_Service = ''policy'', health_Status = ''up'', health_Version = ver\<rparr>"

definition health_Readiness :: "string \<Rightarrow> health_response" where
  "health_Readiness ver = \<lparr>health_Service = ''policy'', health_Status = ''up'', health_Version = ver\<rparr>"

text \<open>
  The endpoints that run a policy, behind the decoding of the generated code.
\<close>

definition policy_handlers ::
  "('q, 'st) engine \<Rightarrow> 'st service \<Rightarrow> (incoming \<Rightarrow> evaluate_request) \<Rightarrow>
   (evaluate_result outcome, 'st world) server \<Rightarrow> (evaluate_result outcome, 'st world) server" where
  "policy_handlers E S decode rest =
     rest(Evaluate := (\<lambda>rq ctx w. case svc_Evaluate E S (decode rq) ctx w of (r, w') \<Rightarrow> (Answered r, w')),
          Validate := (\<lambda>rq ctx w. case svc_Validate E S (decode rq) ctx w of (r, w') \<Rightarrow> (Answered r, w')))"

section \<open>Admission\<close>

lemma tokenFromRequest_bearer:
  "tokenFromRequest r = Inr t \<longleftrightarrow>
   header_Get (hr_Header r) ''Authorization'' = ''Bearer '' @ t \<and> CHR '' '' \<notin> set t"
proof -
  let ?h = "header_Get (hr_Header r) ''Authorization''"
  have "split_on CHR '' '' ?h = [''Bearer'', t] \<longleftrightarrow> ?h = ''Bearer '' @ t \<and> CHR '' '' \<notin> set t"
  proof
    assume sp: "split_on CHR '' '' ?h = [''Bearer'', t]"
    have "?h = join_with [CHR '' ''] [''Bearer'', t]" using join_split [of "CHR '' ''" ?h] sp by simp
    moreover have "CHR '' '' \<notin> set t" using split_on_sep_free [of t "CHR '' ''" ?h] sp by simp
    ultimately show "?h = ''Bearer '' @ t \<and> CHR '' '' \<notin> set t" by simp
  next
    assume "?h = ''Bearer '' @ t \<and> CHR '' '' \<notin> set t"
    then show "split_on CHR '' '' ?h = [''Bearer'', t]"
      using split_on_append_sep [of "CHR '' ''" "''Bearer''" t] by (simp add: split_on_no_sep)
  qed
  moreover have "length ws = 2 \<and> ws ! 0 = a \<and> ws ! 1 = b \<longleftrightarrow> ws = [a, b]" for ws :: "string list" and a b
    by (auto simp: numeral_2_eq_2 length_Suc_conv)
  ultimately show ?thesis by (auto simp: tokenFromRequest_def Let_def)
qed

text \<open>A request the middleware lets through.\<close>

definition admitted :: "config \<Rightarrow> (string \<Rightarrow> goerror option) \<Rightarrow> (string \<Rightarrow> bool) \<Rightarrow> incoming \<Rightarrow> bool" where
  "admitted cfg verify allowed rq \<longleftrightarrow>
     (auth_Enabled cfg \<longrightarrow>
        (case tokenFromRequest (in_request rq) of Inl _ \<Rightarrow> False | Inr t \<Rightarrow> verify t = None)) \<and>
     (ipfilter_Enabled cfg \<longrightarrow> ip_admitted allowed (in_RemoteIP rq))"

lemma policy_server_admitted:
  "admitted cfg verify allowed rq \<Longrightarrow>
   policy_server cfg verify allowed s0 e rq ctx w =
     s0 e rq (if e = Evaluate then Some (ToContext (in_request rq)) else ctx) w"
  by (auto simp: policy_server_def admitted_def Let_def server_Use_def auth_Handler_def ipfilter_Wrap_def
      header_Middleware_def split: sum.splits)

lemma policy_server_refused:
  "\<not> admitted cfg verify allowed rq \<Longrightarrow>
   \<exists>code t. policy_server cfg verify allowed s0 e rq ctx w = (Rejected code t, w) \<and> code \<in> {401, 403}"
  by (auto simp: policy_server_def admitted_def Let_def server_Use_def auth_Handler_def ipfilter_Wrap_def
      split: sum.splits option.splits)

text \<open>C21: Behind the middleware the policy server refuses a request with 401 or 403 and changes nothing,
  unless it comes with the checks the configuration asks for: with authentication on, an \<^verbatim>\<open>Authorization\<close>
  header that is \<^verbatim>\<open>Bearer\<close>, one space and a token without spaces that the key set verifies; with the
  filter on, an address it admits.  This holds on all twelve endpoints.\<close>

theorem guarded_endpoints:
  assumes "policy_server cfg verify allowed s0 e rq ctx w = (a, w')"
    and "w' \<noteq> w \<or> (\<forall>code t. code \<in> {401, 403} \<longrightarrow> a \<noteq> Rejected code t)"
  shows "(auth_Enabled cfg \<longrightarrow>
      (\<exists>t. header_Get (hr_Header (in_request rq)) ''Authorization'' = ''Bearer '' @ t \<and>
           CHR '' '' \<notin> set t \<and> verify t = None)) \<and>
    (ipfilter_Enabled cfg \<longrightarrow> ip_admitted allowed (in_RemoteIP rq))"
proof -
  have "admitted cfg verify allowed rq"
    using policy_server_refused [of cfg verify allowed rq s0 e ctx w] assms by auto
  then show ?thesis
    using tokenFromRequest_bearer by (auto simp: admitted_def split: sum.splits)
qed

text \<open>A request with a bearer token, and a configuration that asks for one.\<close>

definition ex_config :: config where
  "ex_config =
     \<lparr>mongo_Addr = [], policy_CloneURL = ''https://git/repo.git'', policy_Folder = [], auth_Enabled = True,
      ipfilter_Enabled = False, http_Host = [], http_Port = ''8080'', http_IdleTimeout = 120,
      http_ReadTimeout = 10, http_WriteTimeout = 10\<rparr>"

definition ex_incoming :: incoming where
  "ex_incoming =
     \<lparr>in_request = \<lparr>hr_Header = [''Authorization'' \<mapsto> [''Bearer abc'']], hr_Host = ''agent''\<rparr>,
      in_RemoteIP = ''10.0.0.1''\<rparr>"

definition ex_verify :: "string \<Rightarrow> goerror option" where
  "ex_verify t = (if t = ''abc'' then None else Some (Plain ''signature''))"

lemma ex_header: "header_Get (hr_Header (in_request ex_incoming)) ''Authorization'' = ''Bearer abc''"
proof -
  have "canonical_key ''Authorization'' = ''Authorization''" by code_simp
  then show ?thesis by (simp add: header_Get_def ex_incoming_def)
qed

lemma ex_admitted: "admitted ex_config ex_verify allowed ex_incoming"
proof -
  have "tokenFromRequest (in_request ex_incoming) = Inr ''abc''"
    unfolding tokenFromRequest_bearer using ex_header by simp
  then show ?thesis by (simp add: admitted_def ex_config_def ex_verify_def)
qed

theorem guarded_endpoints_witness:
  "\<exists>a. policy_server ex_config ex_verify (\<lambda>_. True) (\<lambda>e rq ctx w. (Answered w, w)) Lock ex_incoming None ()
      = (a, ()) \<and> (\<exists>t. header_Get (hr_Header (in_request ex_incoming)) ''Authorization'' = ''Bearer '' @ t
      \<and> CHR '' '' \<notin> set t \<and> ex_verify t = None)"
proof -
  have run: "policy_server ex_config ex_verify (\<lambda>_. True) (\<lambda>e rq ctx w. (Answered w, w)) Lock ex_incoming None ()
      = (Answered (), ())"
    by (simp add: policy_server_admitted [OF ex_admitted])
  have "auth_Enabled ex_config" by (simp add: ex_config_def)
  then show ?thesis using guarded_endpoints [OF run] run by simp
qed

section \<open>Headers\<close>

text \<open>A request that the middleware admits reaches the evaluation with its headers, but the validation,
  which evaluates the policy too, without any: there the function that policies read headers with gives
  the empty text for every name.  So a policy that looks at a header can be validated on an output the
  evaluation never gives, and the other way round.\<close>

theorem validation_sees_no_headers:
  assumes "admitted cfg verify allowed rq"
  shows "let srv = policy_server cfg verify allowed (policy_handlers E S decode rest) in
    srv Evaluate rq None w =
      map_prod Answered id (svc_Evaluate E S (decode rq) (Some (ToContext (in_request rq))) w) \<and>
    srv Validate rq None w = map_prod Answered id (svc_Validate E S (decode rq) None w) \<and>
    GetHeaderFunc (FromContext None) name = []"
  by (simp add: policy_server_admitted [OF assms(1)] policy_handlers_def GetHeaderFunc_def
      FromContext_def split: prod.split)

theorem validation_sees_no_headers_witness:
  "policy_server ex_config ex_verify (\<lambda>_. True)
      (policy_handlers (ex_engine JNull None) (ex_service True (Ok ())) (\<lambda>_. ex_request) (\<lambda>e rq ctx w. (Rejected 404 [], w)))
      Validate ex_incoming None ex_world
    = map_prod Answered id (svc_Validate (ex_engine JNull None) (ex_service True (Ok ())) ex_request None ex_world)
   \<and> header_Get (hr_Header (in_request ex_incoming)) ''Authorization'' \<noteq> []"
  using validation_sees_no_headers [OF ex_admitted, of "\<lambda>_. True" "ex_engine JNull None"
      "ex_service True (Ok ())" "\<lambda>_. ex_request"] ex_header by (simp add: Let_def)

section \<open>Startup\<close>

lemma makeStorage_memory:
  assumes "makeStorage cfg D = Ok (InMemory m)"
  obtains pm where "m = mem_New pm" "mongo_Addr cfg = []" "policy_CloneURL cfg \<noteq> []"
    "IterateRepo (\<lambda>f. createPolicy (executable D) (path_join D) (read_file D) f
      (getRepoName (policy_CloneURL cfg))) (entries_of D (repo_folder D (policy_Folder cfg))) = Ok pm"
  using assms by (auto simp: makeStorage_def obind_Ok_iff Let_def split: if_splits)

lemma makeStorage_keyed:
  assumes "makeStorage cfg D = Ok (InMemory m)"
  shows "keyed ConstructKey (policies m)"
  by (rule makeStorage_memory [OF assms]) (use IterateRepo_filed in \<open>auto simp: mem_New_def\<close>)

text \<open>The storage the program starts with: a database address always wins; without it a clone URL gives an
  in-memory storage whose policies are filed under their own identity, belong to the cloned repository
  and are unlocked, which has no notifier behind the policy cache, but a data refresher; without either
  the program does not start.\<close>

theorem startup_storage:
  assumes "makeStorage cfg D = Ok s"
  shows "case s of
      MongoDB c \<Rightarrow> mongo_Addr cfg \<noteq> [] \<and> main_subscribers s = [RegoCache, Notifier] \<and> has_refresher s
    | InMemory m \<Rightarrow>
        mongo_Addr cfg = [] \<and> policy_CloneURL cfg \<noteq> [] \<and>
        main_subscribers s = [RegoCache] \<and> has_refresher s \<and> m = mem_New (policies m) \<and>
        keyed ConstructKey (policies m) \<and>
        (\<forall>k p. policies m k = Some p \<longrightarrow>
           p_Repository p = getRepoName (policy_CloneURL cfg) \<and> \<not> p_Locked p)"
proof (cases s)
  case (MongoDB c)
  then show ?thesis
    using assms
    by (auto simp: makeStorage_def obind_Ok_iff Let_def main_subscribers_def has_refresher_def implements_def
        notify_Storage_def policydata_Storage_def extra_methods_def split: if_splits)
next
  case (InMemory m)
  then obtain pm where "m = mem_New pm" "mongo_Addr cfg = []" "policy_CloneURL cfg \<noteq> []"
    "IterateRepo (\<lambda>f. createPolicy (executable D) (path_join D) (read_file D) f
      (getRepoName (policy_CloneURL cfg))) (entries_of D (repo_folder D (policy_Folder cfg))) = Ok pm"
    using assms makeStorage_memory by blast
  then show ?thesis
    using InMemory IterateRepo_filed
    by (simp add: mem_New_def main_subscribers_def has_refresher_def implements_def notify_Storage_def
        policydata_Storage_def extra_methods_def)
qed

definition ex_origin :: "(unit, unit) origin" where
  "ex_origin =
     \<lparr>mongo_Connect = Ok (), mongodb_New = (\<lambda>_. Ok ()), remove_clone = Ok (), git_clone = (\<lambda>_. Ok ()),
      entries_of = (\<lambda>_. [\<lparr>d_path = ''temp/grp/example/1.0/policy.rego'', d_name = ''policy.rego'',
                            d_isdir = False, d_err = None\<rparr>]),
      executable = Ok [], path_join = (\<lambda>a b. b), read_file = (\<lambda>f. Contents [])\<rparr>"

lemma ex_started:
  "\<exists>p. makeStorage ex_config ex_origin = Ok (InMemory (mem_New [ConstructKey ex_id \<mapsto> p])) \<and> pid_of p = ex_id"
proof -
  have repo: "getRepoName ''https://git/repo.git'' = ''repo''" by code_simp
  obtain p where p: "createPolicy (executable ex_origin) (path_join ex_origin) (read_file ex_origin)
      ''temp/grp/example/1.0/policy.rego'' ''repo'' = Ok p" "pid_of p = ex_id"
    by (simp add: createPolicy_def read_required_def read_optional_def pid_of_def ex_id_def ex_origin_def)
  then have "makeStorage ex_config ex_origin = Ok (InMemory (mem_New [ConstructKey ex_id \<mapsto> p]))"
    by (simp add: makeStorage_def ex_config_def ex_origin_def repo IterateRepo_def policyFilename_def)
  then show ?thesis using p(2) by blast
qed

theorem startup_storage_witness:
  "\<exists>m. makeStorage ex_config ex_origin = Ok (InMemory m) \<and> keyed ConstructKey (policies m) \<and>
     policies m (ConstructKey ex_id) \<noteq> None"
proof -
  obtain p where m: "makeStorage ex_config ex_origin = Ok (InMemory (mem_New [ConstructKey ex_id \<mapsto> p]))"
    using ex_started by blast
  from startup_storage [OF m] m show ?thesis by (auto simp: mem_New_def)
qed

end
