(* ===== verification/JS_Object.thy ===== *)
theory JS_Object
  imports Go_Std
begin

text \<open>
  Objects of JavaScript as the lists of their own properties in the order of \<^verbatim>\<open>Object.keys\<close>, and the decimal
  texts that are the keys of arrays.
\<close>

section \<open>Decimal texts\<close>

text \<open>\<^verbatim>\<open>isInteger\<close> (\<^verbatim>\<open>Qe\<close>): no character that is no digit, so also the empty text.\<close>

definition isInteger :: "string \<Rightarrow> bool" where
  "isInteger p = list_all (\<lambda>c. (48 :: nat) \<le> of_char c \<and> of_char c \<le> (57 :: nat)) p"

lemma isInteger_append [simp]: "isInteger (a @ b) \<longleftrightarrow> isInteger a \<and> isInteger b"
  by (simp add: isInteger_def)

lemma isInteger_nat_text [simp]: "isInteger (nat_text n)"
  using all_digits_nat_text [of n] by (simp add: isInteger_def all_digits_def)

lemma not_isInteger: "x \<in> set p \<Longrightarrow> \<not> (48 \<le> (of_char x :: nat) \<and> of_char x \<le> (57 :: nat)) \<Longrightarrow> \<not> isInteger p"
  by (auto simp: isInteger_def list_all_iff)

lemma isInteger_not [simp]:
  assumes "isInteger p"
  shows "p \<noteq> ''-''" and "p \<noteq> ''length''" and "p \<noteq> ''__proto__''" and "CHR ''/'' \<notin> set p" and "CHR ''~'' \<notin> set p"
  using assms not_isInteger [of "CHR ''/''" p] not_isInteger [of "CHR ''~''" p]
  by (auto simp: isInteger_def)

lemma nat_text_not [simp]:
  "nat_text n \<noteq> ''-''" "nat_text n \<noteq> ''length''" "nat_text n \<noteq> ''__proto__''" "CHR ''/'' \<notin> set (nat_text n)"
  using isInteger_not [OF isInteger_nat_text [of n]] by auto

section \<open>Properties in their order\<close>

text \<open>
  Setting a property of an object: an index key is placed among the index keys, which come first in
  ascending order, any other new key at the end.
\<close>

definition index_key :: "string \<Rightarrow> bool" where
  "index_key k \<longleftrightarrow> isInteger k \<and> k = nat_text (digits_value k) \<and> int (digits_value k) < 2 ^ 32 - 1"

fun insert_index :: "string \<Rightarrow> 'a \<Rightarrow> (string \<times> 'a) list \<Rightarrow> (string \<times> 'a) list" where
  "insert_index k v [] = [(k, v)]"
| "insert_index k v ((k', v') # kvs) =
     (if index_key k' \<and> digits_value k' < digits_value k then (k', v') # insert_index k v kvs
      else (k, v) # (k', v') # kvs)"

fun update_entry :: "string \<Rightarrow> 'a \<Rightarrow> (string \<times> 'a) list \<Rightarrow> (string \<times> 'a) list" where
  "update_entry k v [] = []"
| "update_entry k v ((k', v') # kvs) =
     (if k' = k then (k, v) # kvs else (k', v') # update_entry k v kvs)"

definition put_property :: "string \<Rightarrow> 'a \<Rightarrow> (string \<times> 'a) list \<Rightarrow> (string \<times> 'a) list" where
  "put_property k v kvs =
     (if k \<in> fst ` set kvs then update_entry k v kvs
      else if index_key k then insert_index k v kvs else kvs @ [(k, v)])"

lemma fst_update_entry [simp]: "map fst (update_entry k v kvs) = map fst kvs"
  by (induction kvs) auto

lemma fst_set_update_entry [simp]: "fst ` set (update_entry k v kvs) = fst ` set kvs"
  using fst_update_entry [of k v kvs] by (metis list.set_map)

lemma map_of_update_entry:
  "map_of (update_entry k v kvs) = (if k \<in> fst ` set kvs then (map_of kvs)(k \<mapsto> v) else map_of kvs)"
proof (induction kvs)
  case (Cons e kvs)
  then show ?case by (cases e) (simp add: fun_eq_iff)
qed simp

lemma update_entry_twice [simp]: "update_entry k v (update_entry k w kvs) = update_entry k v kvs"
  by (induction kvs) auto

lemma update_entry_same: "map_of kvs k = Some v \<Longrightarrow> update_entry k v kvs = kvs"
  by (induction kvs) auto

lemma insert_index_set: "set (insert_index k v kvs) = insert (k, v) (set kvs)"
  by (induction k v kvs rule: insert_index.induct) auto

lemma insert_index_keys:
  "k \<notin> fst ` set kvs \<Longrightarrow> distinct (map fst kvs) \<Longrightarrow> distinct (map fst (insert_index k v kvs))"
  by (induction k v kvs rule: insert_index.induct) (auto simp: insert_index_set image_iff)

lemma distinct_put_property:
  "distinct (map fst kvs) \<Longrightarrow> distinct (map fst (put_property k v kvs))"
  by (auto simp: put_property_def insert_index_keys)

lemma map_of_insert_index:
  "k \<notin> fst ` set kvs \<Longrightarrow> map_of (insert_index k v kvs) = (map_of kvs)(k \<mapsto> v)"
  by (induction k v kvs rule: insert_index.induct) (auto simp: fun_eq_iff)

lemma map_of_put_property: "map_of (put_property k v kvs) = (map_of kvs)(k \<mapsto> v)"
proof -
  have "map_of kvs k = None" if "k \<notin> fst ` set kvs" using that by (simp add: map_of_eq_None_iff)
  then show ?thesis
    by (auto simp: put_property_def map_of_update_entry map_of_insert_index map_add_def fun_eq_iff split: option.splits)
qed

end
