(* ===== verification/JSON_Patch.thy ===== *)
theory JSON_Patch
  imports JS_Object
begin

text \<open>
  The JSON Patch library of the API page (\<^verbatim>\<open>fast-json-patch\<close> inside
  \<^verbatim>\<open>src/swagger/swagger-ui-bundle.js\<close>), with which the page's resolver edits the API description:
  pointers, the six operations of a patch, the application of a patch and the comparison of two documents
  that produces one.  The names in parentheses are those of the minified code.

  A document is a value of \<^typ>\<open>json\<close>: the entries of an object are its own properties in their order, the
  text of a number is the one JavaScript writes, and documents share no objects.
  Where the code would leave the JSON documents (a property that is no index set on an array, a hole in
  an array, an inherited method reached by a pointer, a document put into itself) the model stops with
  \<open>Outside\<close>.
\<close>

section \<open>Pointers\<close>

text \<open>\<^verbatim>\<open>escapePathComponent\<close> (\<^verbatim>\<open>et\<close>) and \<^verbatim>\<open>unescapePathComponent\<close> (\<^verbatim>\<open>tt\<close>)\<close>

definition replace_char :: "char \<Rightarrow> string \<Rightarrow> string \<Rightarrow> string" where
  "replace_char c by s = concat (map (\<lambda>x. if x = c then by else [x]) s)"

fun replace_pair :: "char \<Rightarrow> char \<Rightarrow> string \<Rightarrow> string \<Rightarrow> string" where
  "replace_pair c d by (x # y # s) =
     (if x = c \<and> y = d then by @ replace_pair c d by s else x # replace_pair c d by (y # s))"
| "replace_pair c d by s = s"

definition escapePathComponent :: "string \<Rightarrow> string" where
  "escapePathComponent p =
     (if CHR ''/'' \<notin> set p \<and> CHR ''~'' \<notin> set p then p
      else replace_char CHR ''/'' ''~1'' (replace_char CHR ''~'' ''~0'' p))"

definition unescapePathComponent :: "string \<Rightarrow> string" where
  "unescapePathComponent p = replace_pair CHR ''~'' CHR ''0'' ''~'' (replace_pair CHR ''~'' CHR ''1'' ''/'' p)"

text \<open>
  \<^verbatim>\<open>~~p\<close> of such a text: the number as a double (exact below \<open>2\<^sup>5\<^sup>3\<close>, then rounded to the nearest, ties to
  even), taken modulo \<open>2\<^sup>3\<^sup>2\<close> as a signed integer.  Beyond the largest double the number is infinite and the
  integer 0, as it is for every multiple of \<open>2\<^sup>3\<^sup>2\<close>.
\<close>

fun bit_length :: "nat \<Rightarrow> nat" where
  "bit_length n = (if n = 0 then 0 else Suc (bit_length (n div 2)))"

declare bit_length.simps [simp del]

definition double_value :: "int \<Rightarrow> int" where
  "double_value n =
     (let u = 2 ^ (bit_length (nat n) - 53); q = n div u; r = n mod u in
      (if 2 * r > u \<or> 2 * r = u \<and> odd q then q + 1 else q) * u)"

definition to_int32 :: "int \<Rightarrow> int" where
  "to_int32 n = (let m = n mod 2 ^ 32 in if m < 2 ^ 31 then m else m - 2 ^ 32)"

definition array_index :: "string \<Rightarrow> int" where
  "array_index p = to_int32 (double_value (int (digits_value p)))"

section \<open>Properties of a value\<close>

text \<open>\<^verbatim>\<open>hasOwnProperty\<close> (\<^verbatim>\<open>Ge\<close>) with the value: the length is an own property of an array too.\<close>

fun own :: "json \<Rightarrow> string \<Rightarrow> json option" where
  "own (JArr xs) p =
     (if p = ''length'' then Some (JNum (nat_text (length xs)))
      else if isInteger p \<and> digits_value p < length xs \<and> p = nat_text (digits_value p)
      then Some (xs ! digits_value p) else None)"
| "own (JObj kvs) p = map_of kvs p"
| "own _ p = None"

text \<open>\<^verbatim>\<open>_objectKeys\<close> (\<^verbatim>\<open>Ze\<close>) of an array or an object, with the values.\<close>

fun entries :: "json \<Rightarrow> (string \<times> json) list" where
  "entries (JArr xs) = zip (map nat_text [0..<length xs]) xs"
| "entries (JObj kvs) = kvs"
| "entries _ = []"

fun container :: "json \<Rightarrow> bool" where
  "container (JArr xs) = True"
| "container (JObj kvs) = True"
| "container _ = False"

fun is_array :: "json \<Rightarrow> bool" where
  "is_array (JArr xs) = True"
| "is_array _ = False"

section \<open>Patches\<close>

datatype patch =
    Add string json
  | Remove string
  | Replace string json
  | Move string string
  | Copy string string
  | Test string json

datatype patch_error =
    TypeError
  | TestFailed
  | Outside

type_synonym 'a result = "patch_error + 'a"

definition bind_result :: "'a result \<Rightarrow> ('a \<Rightarrow> 'b result) \<Rightarrow> 'b result" where
  "bind_result r f = (case r of Inl e \<Rightarrow> Inl e | Inr x \<Rightarrow> f x)"

lemma bind_result_simps [simp]:
  "bind_result (Inl e) f = Inl e"
  "bind_result (Inr x) f = f x"
  by (simp_all add: bind_result_def)

lemma bind_result_cong [fundef_cong]:
  "r = r' \<Longrightarrow> (\<And>x. r' = Inr x \<Longrightarrow> f x = f' x) \<Longrightarrow> bind_result r f = bind_result r' f'"
  by (cases r') auto

text \<open>
  \<^verbatim>\<open>_areEquals\<close> (\<^verbatim>\<open>mt\<close>): from the last element or key to the first.  The keys of the other object are looked up
  with its own \<^verbatim>\<open>hasOwnProperty\<close>, which a key of that name hides.
\<close>

fun all_results :: "('a \<Rightarrow> bool result) \<Rightarrow> 'a list \<Rightarrow> bool result" where
  "all_results f [] = Inr True"
| "all_results f (x # xs) = bind_result (f x) (\<lambda>b. if b then all_results f xs else Inr False)"

lemma all_results_cong [fundef_cong]:
  "xs = ys \<Longrightarrow> (\<And>x. x \<in> set ys \<Longrightarrow> f x = g x) \<Longrightarrow> all_results f xs = all_results g ys"
  by (induction ys arbitrary: xs) (auto intro!: bind_result_cong)

definition calls_hasOwnProperty :: "(string \<times> json) list \<Rightarrow> string \<Rightarrow> bool result" where
  "calls_hasOwnProperty kvs k =
     (if map_of kvs ''hasOwnProperty'' \<noteq> None then Inl TypeError else Inr (map_of kvs k \<noteq> None))"

lemma size_zip_fst [termination_simp]: "(a, b) \<in> set (zip xs ys) \<Longrightarrow> size a < Suc (size_list size xs)"
  using size_list_estimation' [of a xs "size a" size] by (auto dest: set_zip_leftD)

lemma size_entry [termination_simp]:
  "(k, v) \<in> set kvs \<Longrightarrow> size v < Suc (size_list (\<lambda>x. Suc (size (snd x))) kvs)"
  by (induction kvs) auto

fun areEquals :: "json \<Rightarrow> json \<Rightarrow> bool result" where
  "areEquals (JArr xs) (JArr ys) =
     (if length xs \<noteq> length ys then Inr False
      else all_results (\<lambda>(x, y). areEquals x y) (rev (zip xs ys)))"
| "areEquals (JObj kvs) (JObj kvs') =
     (if length kvs \<noteq> length kvs' then Inr False
      else bind_result (all_results (\<lambda>(k, v). calls_hasOwnProperty kvs' k) (rev kvs)) (\<lambda>b.
        if \<not> b then Inr False
        else all_results
          (\<lambda>(k, v). case map_of kvs' k of Some w \<Rightarrow> areEquals v w | None \<Rightarrow> Inr False) (rev kvs)))"
| "areEquals e t = Inr (e = t)"

section \<open>Applying a patch\<close>

text \<open>The names every object inherits; reaching one of them leaves the document.\<close>

definition inherited :: "string \<Rightarrow> bool" where
  "inherited k \<longleftrightarrow> k \<in> {''constructor'', ''hasOwnProperty'', ''isPrototypeOf'', ''propertyIsEnumerable'',
     ''toLocaleString'', ''toString'', ''valueOf'', ''__defineGetter__'', ''__defineSetter__'',
     ''__lookupGetter__'', ''__lookupSetter__''}"

definition object_key :: "string \<Rightarrow> string" where
  "object_key f = (if CHR ''~'' \<in> set f then unescapePathComponent f else f)"

text \<open>The position a segment of a pointer names in an array.\<close>

definition array_position :: "json list \<Rightarrow> string \<Rightarrow> int result" where
  "array_position xs f =
     (if f = ''-'' then Inr (int (length xs))
      else if isInteger f then Inr (array_index f) else Inl Outside)"

definition at_position :: "json list \<Rightarrow> int \<Rightarrow> json option" where
  "at_position xs i = (if 0 \<le> i \<and> i < int (length xs) then Some (xs ! nat i) else None)"

text \<open>The value a segment leads to; \<open>None\<close> is \<^verbatim>\<open>undefined\<close>.\<close>

fun child :: "json \<Rightarrow> string \<Rightarrow> json option result" where
  "child (JArr xs) f = bind_result (array_position xs f) (\<lambda>i. Inr (at_position xs i))"
| "child (JObj kvs) f =
     (let k = object_key f in
      case map_of kvs k of
        Some v \<Rightarrow> Inr (Some v)
      | None \<Rightarrow> if inherited k then Inl Outside else Inr None)"
| "child JNull f = Inl TypeError"
| "child v f = Inl Outside"

fun put_child :: "json \<Rightarrow> string \<Rightarrow> json \<Rightarrow> json" where
  "put_child (JArr xs) f c = JArr (xs[nat (array_index f) := c])"
| "put_child (JObj kvs) f c = JObj (update_entry (object_key f) c kvs)"
| "put_child v f c = v"

text \<open>
  The loop of \<^verbatim>\<open>applyOperation\<close> (\<^verbatim>\<open>lt\<close>): it walks to the value that holds the last segment, on which \<open>act\<close>
  works.  A pointer without a slash has no segment: its key is \<^verbatim>\<open>undefined\<close>.
\<close>

fun walk :: "(json \<Rightarrow> string \<Rightarrow> (json \<times> 'a) result) \<Rightarrow> json \<Rightarrow> string list \<Rightarrow> (json \<times> 'a) result" where
  "walk act v [] = Inl TypeError"
| "walk act v (f # fs) =
     (if f = ''__proto__'' then Inl TypeError
      else if fs = [] then act v f
      else bind_result (child v f) (\<lambda>c.
        case c of
          None \<Rightarrow> Inl TypeError
        | Some c \<Rightarrow> bind_result (walk act c fs) (\<lambda>(c', r). Inr (put_child v f c', r))))"

definition walk_path :: "(json \<Rightarrow> string \<Rightarrow> (json \<times> 'a) result) \<Rightarrow> json \<Rightarrow> string \<Rightarrow> (json \<times> 'a) result" where
  "walk_path act d path =
     (let fs = tl (split_on CHR ''/'' path) in
      if fs = [] then (if is_array d then Inl TypeError else walk act d [''undefined''])
      else walk act d fs)"

text \<open>\<^verbatim>\<open>getValueByPointer\<close> (\<^verbatim>\<open>ct\<close>), with the operation \<^verbatim>\<open>_get\<close>.\<close>

definition get_op :: "json \<Rightarrow> string \<Rightarrow> (json \<times> json option) result" where
  "get_op v f = bind_result (child v f) (\<lambda>c. Inr (v, c))"

definition getValueByPointer :: "json \<Rightarrow> string \<Rightarrow> json option result" where
  "getValueByPointer d path =
     (if path = [] then Inr (Some d) else bind_result (walk_path get_op d path) (\<lambda>(_, v). Inr v))"

text \<open>\<^verbatim>\<open>splice(i, 0, v)\<close> and \<^verbatim>\<open>splice(i, 1)\<close>\<close>

definition splice_start :: "json list \<Rightarrow> int \<Rightarrow> nat" where
  "splice_start xs i =
     nat (if i < 0 then max (int (length xs) + i) 0 else min i (int (length xs)))"

definition splice_in :: "int \<Rightarrow> json \<Rightarrow> json list \<Rightarrow> json list" where
  "splice_in i v xs = (let n = splice_start xs i in take n xs @ v # drop n xs)"

definition splice_out :: "int \<Rightarrow> json list \<Rightarrow> json list" where
  "splice_out i xs = (let n = splice_start xs i in take n xs @ drop (Suc n) xs)"

definition assign_index :: "int \<Rightarrow> json \<Rightarrow> json list \<Rightarrow> json list result" where
  "assign_index i v xs =
     (if 0 \<le> i \<and> i < int (length xs) then Inr (xs[nat i := v])
      else if i = int (length xs) then Inr (xs @ [v])
      else Inl Outside)"

definition test_value :: "json \<Rightarrow> json option \<Rightarrow> json \<Rightarrow> (json \<times> json option) result" where
  "test_value d u v =
     (case u of
        None \<Rightarrow> Inl TestFailed
      | Some u \<Rightarrow> bind_result (areEquals u v) (\<lambda>b. if b then Inr (d, None) else Inl TestFailed))"

text \<open>
  The operations on an array (\<^verbatim>\<open>ut\<close>) and on an object (\<^verbatim>\<open>st\<close>), with the value an operation removed.
\<close>

fun edit_array :: "patch \<Rightarrow> json list \<Rightarrow> int \<Rightarrow> (json \<times> json option) result" where
  "edit_array (Add path v) xs i = Inr (JArr (splice_in i v xs), None)"
| "edit_array (Remove path) xs i =
     Inr (JArr (splice_out i xs), at_position xs (int (splice_start xs i)))"
| "edit_array (Replace path v) xs i =
     bind_result (assign_index i v xs) (\<lambda>xs'. Inr (JArr xs', at_position xs i))"
| "edit_array (Test path v) xs i = test_value (JArr xs) (at_position xs i) v"
| "edit_array op xs i = Inl Outside"

fun edit_object :: "patch \<Rightarrow> (string \<times> json) list \<Rightarrow> string \<Rightarrow> (json \<times> json option) result" where
  "edit_object (Add path v) kvs k = Inr (JObj (put_property k v kvs), None)"
| "edit_object (Remove path) kvs k = Inr (JObj (filter (\<lambda>(k', v). k' \<noteq> k) kvs), map_of kvs k)"
| "edit_object (Replace path v) kvs k = Inr (JObj (put_property k v kvs), map_of kvs k)"
| "edit_object (Test path v) kvs k = test_value (JObj kvs) (map_of kvs k) v"
| "edit_object op kvs k = Inl Outside"

fun edit :: "patch \<Rightarrow> json \<Rightarrow> string \<Rightarrow> (json \<times> json option) result" where
  "edit op (JArr xs) f = bind_result (array_position xs f) (edit_array op xs)"
| "edit op (JObj kvs) f = edit_object op kvs (object_key f)"
| "edit op JNull f = Inl TypeError"
| "edit op v f = Inl Outside"

definition defined :: "'a option \<Rightarrow> 'a result" where
  "defined u = (case u of None \<Rightarrow> Inl Outside | Some v \<Rightarrow> Inr v)"

text \<open>\<^verbatim>\<open>applyOperation\<close> (\<^verbatim>\<open>lt\<close>) without validation, in place, with the ban on \<^verbatim>\<open>__proto__\<close>.\<close>

fun applyOperation :: "json \<Rightarrow> patch \<Rightarrow> (json \<times> json option) result" where
  "applyOperation d (Add path v) =
     (if path = [] then Inr (v, None) else walk_path (edit (Add path v)) d path)"
| "applyOperation d (Remove path) =
     (if path = [] then Inr (JNull, Some d) else walk_path (edit (Remove path)) d path)"
| "applyOperation d (Replace path v) =
     (if path = [] then Inr (v, Some d) else walk_path (edit (Replace path v)) d path)"
| "applyOperation d (Test path v) =
     (if path = [] then test_value d (Some d) v else walk_path (edit (Test path v)) d path)"
| "applyOperation d (Move from path) =
     (if path = [] then
        bind_result (getValueByPointer d from) (\<lambda>u. bind_result (defined u) (\<lambda>v. Inr (v, Some d)))
      else
        bind_result (getValueByPointer d path) (\<lambda>r.
        if from = [] then Inl Outside
        else bind_result (walk_path (edit (Remove from)) d from) (\<lambda>(d', u).
          bind_result (defined u) (\<lambda>v.
          bind_result (walk_path (edit (Add path v)) d' path) (\<lambda>(d'', _). Inr (d'', r))))))"
| "applyOperation d (Copy from path) =
     (if path = [] then
        bind_result (getValueByPointer d from) (\<lambda>u. bind_result (defined u) (\<lambda>v. Inr (v, None)))
      else
        bind_result (walk_path (\<lambda>v f. Inr (v, ())) d path) (\<lambda>_.
        bind_result (getValueByPointer d from) (\<lambda>u.
        let v = (case u of None \<Rightarrow> JNull | Some v \<Rightarrow> v) in
        bind_result (walk_path (edit (Add path v)) d path) (\<lambda>(d', _). Inr (d', None)))))"

text \<open>\<^verbatim>\<open>applyPatch\<close> (\<^verbatim>\<open>pt\<close>)\<close>

fun applyPatch :: "json \<Rightarrow> patch list \<Rightarrow> json result" where
  "applyPatch d [] = Inr d"
| "applyPatch d (p # ps) = bind_result (applyOperation d p) (\<lambda>(d', _). applyPatch d' ps)"

section \<open>Comparing two documents\<close>

text \<open>
  \<^verbatim>\<open>_generate\<close> (\<^verbatim>\<open>wt\<close>): the operations that turn \<open>e\<close> into \<open>t\<close>, both arrays or objects, at the path \<open>r\<close>; with
  \<open>o\<close>, each is preceded by a test of the old value.  The old keys are visited from the last to the first.
\<close>

definition test_before :: "bool \<Rightarrow> string \<Rightarrow> json \<Rightarrow> patch list" where
  "test_before invertible path v = (if invertible then [Test path v] else [])"

definition at_key :: "string \<Rightarrow> string \<Rightarrow> string" where
  "at_key r p = r @ ''/'' @ escapePathComponent p"

definition missing_keys :: "json \<Rightarrow> json \<Rightarrow> bool" where
  "missing_keys e t \<longleftrightarrow> is_array e = is_array t \<and> (\<exists>(p, c) \<in> set (entries e). own t p = None)"

definition added :: "json \<Rightarrow> json \<Rightarrow> string \<Rightarrow> patch list" where
  "added e t r =
     (if missing_keys e t \<or> length (entries t) \<noteq> length (entries e)
      then map (\<lambda>(p, v). Add (at_key r p) v) (filter (\<lambda>(p, v). own e p = None) (entries t))
      else [])"

lemma size_array_entry [termination_simp]:
  "(p, c) \<in> set (entries e) \<Longrightarrow> size c < size e"
proof (cases e)
  case (JArr xs)
  assume "(p, c) \<in> set (entries e)"
  then have "c \<in> set xs" using JArr by (auto dest: set_zip_rightD)
  then show ?thesis using JArr size_list_estimation' [of c xs "size c" size] by simp
next
  case (JObj kvs)
  assume "(p, c) \<in> set (entries e)"
  then show ?thesis using JObj by (induction kvs arbitrary: e) auto
qed auto

function generate :: "bool \<Rightarrow> json \<Rightarrow> json \<Rightarrow> string \<Rightarrow> patch list" where
  "generate invertible e t r =
     concat (map (\<lambda>(p, c).
       case own t p of
         None \<Rightarrow>
           (if is_array e = is_array t
            then test_before invertible (at_key r p) c @ [Remove (at_key r p)]
            else test_before invertible r e @ [Replace r t])
       | Some l \<Rightarrow>
           (if container c \<and> container l then generate invertible c l (at_key r p)
            else if c \<noteq> l then test_before invertible (at_key r p) c @ [Replace (at_key r p) l]
            else []))
       (rev (entries e)))
     @ added e t r"
  by pat_completeness auto
termination
  by (relation "measure (\<lambda>(invertible, e, t, r). size e)") (auto simp: size_array_entry)

declare generate.simps [simp del]

text \<open>\<^verbatim>\<open>compare\<close> (\<^verbatim>\<open>Et\<close>)\<close>

definition compare :: "json \<Rightarrow> json \<Rightarrow> bool \<Rightarrow> patch list" where
  "compare tree1 tree2 invertible = generate invertible tree1 tree2 []"

end
