(* ===== verification/JSON_Patch_Laws.thy ===== *)
theory JSON_Patch_Laws
  imports JSON_Patch
begin

text \<open>
  Lemmas on the JSON Patch library: pointers and decimal indices, patches below an entry of a document,
  the equality of documents, and the application of the patch that a comparison produces, for arrays and
  for objects.
\<close>

section \<open>Decimal texts\<close>

lemma bit_length_le: "n < 2 ^ k \<Longrightarrow> bit_length n \<le> k"
proof (induction n arbitrary: k rule: bit_length.induct)
  case (1 n)
  show ?case
  proof (cases "n = 0")
    case True
    then show ?thesis by (simp add: bit_length.simps)
  next
    case False
    then obtain m where k: "k = Suc m" using 1(2) by (cases k) auto
    have "n div 2 < 2 ^ m" using 1(2) k by auto
    then have "bit_length (n div 2) \<le> m" using 1(1) False by blast
    then show ?thesis using False k by (subst bit_length.simps) simp
  qed
qed

lemma array_index_nat_text [simp]:
  assumes "n < 2 ^ 31"
  shows "array_index (nat_text n) = int n"
proof -
  have "bit_length n \<le> 31" using assms by (rule bit_length_le)
  then have "double_value (int n) = int n" by (simp add: double_value_def)
  moreover have "int n < 2 ^ 31" using assms by (simp add: nat_less_iff [symmetric])
  ultimately show ?thesis by (simp add: array_index_def to_int32_def)
qed

lemma own_array [simp]:
  "own (JArr xs) (nat_text n) = (if n < length xs then Some (xs ! n) else None)"
  by simp

declare own.simps(1) [simp del]

section \<open>Pointers\<close>

lemma replace_pair_other: "x \<noteq> c \<Longrightarrow> replace_pair c d by (x # s) = x # replace_pair c d by s"
  by (cases s) auto

lemma unescape_slash:
  "replace_pair CHR ''~'' CHR ''1'' ''/'' (replace_char CHR ''/'' ''~1'' (replace_char CHR ''~'' ''~0'' p))
    = replace_char CHR ''~'' ''~0'' p"
  by (induction p) (auto simp: replace_char_def replace_pair_other)

lemma unescape_tilde: "replace_pair CHR ''~'' CHR ''0'' ''~'' (replace_char CHR ''~'' ''~0'' p) = p"
  by (induction p) (auto simp: replace_char_def replace_pair_other)

lemma set_replace_char: "set (replace_char c by s) = (set s - {c}) \<union> (if c \<in> set s then set by else {})"
  by (auto simp: replace_char_def)

lemma escape_no_slash [simp]: "CHR ''/'' \<notin> set (escapePathComponent p)"
  by (simp add: escapePathComponent_def set_replace_char)

lemma escape_tilde: "CHR ''~'' \<in> set (escapePathComponent p) \<longleftrightarrow> CHR ''/'' \<in> set p \<or> CHR ''~'' \<in> set p"
  by (auto simp: escapePathComponent_def set_replace_char)

lemma object_key_escape [simp]: "object_key (escapePathComponent p) = p"
  using escape_tilde [of p]
  by (auto simp: object_key_def escapePathComponent_def unescapePathComponent_def unescape_slash unescape_tilde)

lemma escape_proto [simp]: "escapePathComponent p = ''__proto__'' \<longleftrightarrow> p = ''__proto__''"
proof
  assume "escapePathComponent p = ''__proto__''"
  then show "p = ''__proto__''"
    using escape_tilde [of p] by (simp add: escapePathComponent_def split: if_splits)
qed (simp add: escapePathComponent_def)

lemma escape_nat_text [simp]: "escapePathComponent (nat_text n) = nat_text n"
  using isInteger_not [OF isInteger_nat_text [of n]] by (simp add: escapePathComponent_def)

lemma at_key_not_Nil [simp]: "at_key r p \<noteq> []"
  by (simp add: at_key_def)

lemma hd_at_key [simp]: "hd (at_key [] p) = CHR ''/''"
  by (simp add: at_key_def)

lemma walk_path_at_key [simp]:
  "walk_path act d (at_key [] p) =
     (if p = ''__proto__'' then Inl TypeError else act d (escapePathComponent p))"
  by (simp add: walk_path_def at_key_def split_on_no_sep)

section \<open>Patches below an entry\<close>

text \<open>The patch with the path \<open>r\<close> before its own.\<close>

fun below :: "string \<Rightarrow> patch \<Rightarrow> patch" where
  "below r (Add p v) = Add (r @ p) v"
| "below r (Remove p) = Remove (r @ p)"
| "below r (Replace p v) = Replace (r @ p) v"
| "below r (Test p v) = Test (r @ p) v"
| "below r (Move f p) = Move (r @ f) (r @ p)"
| "below r (Copy f p) = Copy (r @ f) (r @ p)"

fun edits :: "patch \<Rightarrow> bool" where
  "edits (Add p v) = (p \<noteq> [] \<and> hd p = CHR ''/'')"
| "edits (Remove p) = (p \<noteq> [] \<and> hd p = CHR ''/'')"
| "edits (Replace p v) = (p \<noteq> [] \<and> hd p = CHR ''/'')"
| "edits (Test p v) = (p \<noteq> [] \<and> hd p = CHR ''/'')"
| "edits op = False"

lemma at_key_append: "at_key (r @ q) p = r @ at_key q p"
  by (simp add: at_key_def)

lemma test_before_below: "map (below r) (test_before i q v) = test_before i (r @ q) v"
  by (simp add: test_before_def)

lemma generate_below:
  "generate i e t (r @ q) = map (below r) (generate i e t q)"
proof (induction i e t q rule: generate.induct)
  case (1 i e t q)
  have a: "added e t (r @ q) = map (below r) (added e t q)"
    by (auto simp: added_def at_key_append)
  show ?case
    unfolding generate.simps [of i e t "r @ q"] generate.simps [of i e t q] map_append a map_concat map_map
    apply (rule arg_cong2 [where f = append, OF _ refl])
    apply (rule arg_cong [where f = concat])
    apply (rule map_cong [OF refl])
    using 1 by (auto simp: at_key_append test_before_below split: option.splits)
qed

text \<open>The segment that leads to an entry.\<close>

fun slot :: "json \<Rightarrow> string \<Rightarrow> bool" where
  "slot (JArr xs) f = (\<exists>n. n < length xs \<and> n < 2 ^ 31 \<and> f = nat_text n)"
| "slot (JObj kvs) f = (\<exists>k. k \<in> fst ` set kvs \<and> k \<noteq> ''__proto__'' \<and> f = escapePathComponent k)"
| "slot v f = False"

lemma array_position_nat_text [simp]: "n < 2 ^ 31 \<Longrightarrow> array_position xs (nat_text n) = Inr (int n)"
  by (simp add: array_position_def)

lemma slot_segment: "slot d f \<Longrightarrow> CHR ''/'' \<notin> set f \<and> f \<noteq> ''__proto__''"
  by (cases d) auto

lemma slot_put:
  assumes "slot d f"
  shows "slot (put_child d f c) f \<and> child (put_child d f c) f = Inr (Some c) \<and>
    put_child (put_child d f c) f c' = put_child d f c'"
  using assms by (cases d) (force simp: map_of_update_entry at_position_def Let_def)+

lemma slot_same: "slot d f \<Longrightarrow> child d f = Inr (Some c) \<Longrightarrow> put_child d f c = d"
  by (cases d) (auto simp: at_position_def update_entry_same Let_def split: option.splits if_splits)

lemma walk_path_below:
  assumes "slot d f" and "child d f = Inr (Some c)" and "p \<noteq> []" and "hd p = CHR ''/''"
  shows "walk_path act d ((CHR ''/'' # f) @ p) =
    bind_result (walk_path act c p) (\<lambda>(c', r). Inr (put_child d f c', r))"
proof -
  obtain q where p: "p = CHR ''/'' # q" using assms(3,4) by (cases p) auto
  show ?thesis
    using slot_segment [OF assms(1)] assms(2)
    by (simp add: walk_path_def p split_on_append_sep)
qed

lemma edit_below: "edits op \<Longrightarrow> edit (below r op) d f = edit op d f"
  by (cases op; cases d) (auto intro!: bind_result_cong)

lemma applyOperation_below:
  assumes "edits op" and "slot d f" and "child d f = Inr (Some c)"
  shows "applyOperation d (below (CHR ''/'' # f) op) =
    bind_result (applyOperation c op) (\<lambda>(c', r). Inr (put_child d f c', r))"
proof -
  have e: "edit (below (CHR ''/'' # f) op) = edit op" using edit_below [OF assms(1)] by blast
  show ?thesis
    using assms(1) e by (cases op) (simp_all add: walk_path_below [OF assms(2,3), simplified])
qed

lemma applyPatch_append:
  "applyPatch d (ps @ qs) = bind_result (applyPatch d ps) (\<lambda>d'. applyPatch d' qs)"
  by (induction ps arbitrary: d) (auto simp: bind_result_def split: sum.splits prod.splits)

lemma applyPatch_below:
  assumes "\<forall>op \<in> set ps. edits op" and "slot d f" and "child d f = Inr (Some c)" and "applyPatch c ps = Inr c'"
  shows "applyPatch d (map (below (CHR ''/'' # f)) ps) = Inr (put_child d f c')"
  using assms
proof (induction ps arbitrary: d c)
  case Nil
  then show ?case using slot_same by simp
next
  case (Cons op ps)
  obtain c1 r where c1: "applyOperation c op = Inr (c1, r)"
    using Cons.prems(4) by (cases "applyOperation c op") auto
  have "applyPatch (put_child d f c1) (map (below (CHR ''/'' # f)) ps)
      = Inr (put_child (put_child d f c1) f c')"
    using Cons.IH [of "put_child d f c1" c1] Cons.prems slot_put [OF Cons.prems(2), of c1] c1 by simp
  then show ?case
    using applyOperation_below [of op d f c] Cons.prems(1,2,3) c1 slot_put [OF Cons.prems(2)] by simp
qed

section \<open>Documents and their equality\<close>

text \<open>
  What a parsed JSON text is: every key once, no array longer than an index can name.  The keys
  \<^verbatim>\<open>__proto__\<close> and \<^verbatim>\<open>hasOwnProperty\<close> are left out, as the code treats them in a special way.
\<close>

fun document :: "json \<Rightarrow> bool" where
  "document (JArr xs) \<longleftrightarrow> length xs < 2 ^ 31 \<and> (\<forall>x \<in> set xs. document x)"
| "document (JObj kvs) \<longleftrightarrow> distinct (map fst kvs) \<and>
     ''__proto__'' \<notin> fst ` set kvs \<and> ''hasOwnProperty'' \<notin> fst ` set kvs \<and>
     (\<forall>(k, v) \<in> set kvs. document v)"
| "document _ \<longleftrightarrow> True"

text \<open>Equal up to the order of the keys.\<close>

fun same :: "json \<Rightarrow> json \<Rightarrow> bool" where
  "same (JArr xs) (JArr ys) \<longleftrightarrow>
     length xs = length ys \<and> list_all (\<lambda>(x, y). same x y) (zip xs ys)"
| "same (JObj kvs) (JObj kvs') \<longleftrightarrow> length kvs = length kvs' \<and>
     (\<forall>(k, v) \<in> set kvs. case map_of kvs' k of None \<Rightarrow> False | Some w \<Rightarrow> same v w)"
| "same e t \<longleftrightarrow> e = t"

text \<open>Wherever both documents have an array or an object, they have the same of the two.\<close>

fun same_kinds :: "json \<Rightarrow> json \<Rightarrow> bool" where
  "same_kinds (JArr xs) (JArr ys) \<longleftrightarrow> list_all (\<lambda>(x, y). same_kinds x y) (zip xs ys)"
| "same_kinds (JObj kvs) (JObj kvs') \<longleftrightarrow>
     (\<forall>(k, v) \<in> set kvs. case map_of kvs' k of None \<Rightarrow> True | Some w \<Rightarrow> same_kinds v w)"
| "same_kinds (JArr xs) (JObj kvs) \<longleftrightarrow> False"
| "same_kinds (JObj kvs) (JArr xs) \<longleftrightarrow> False"
| "same_kinds e t \<longleftrightarrow> True"

lemma all_results_Inr:
  "(\<And>x. x \<in> set xs \<Longrightarrow> f x = Inr (g x)) \<Longrightarrow> all_results f xs = Inr (\<forall>x \<in> set xs. g x)"
  by (induction xs) auto

lemma document_value: "document (JObj kvs) \<Longrightarrow> map_of kvs k = Some v \<Longrightarrow> document v"
  by (auto dest: map_of_SomeD)

lemma areEquals_same: "document t \<Longrightarrow> areEquals e t = Inr (same e t)"
proof (induction e t rule: areEquals.induct)
  case (1 xs ys)
  have "all_results (\<lambda>(x, y). areEquals x y) (rev (zip xs ys)) = Inr (\<forall>z \<in> set (rev (zip xs ys)). (\<lambda>(x, y). same x y) z)"
    if "length xs = length ys"
  proof (rule all_results_Inr)
    fix z assume "z \<in> set (rev (zip xs ys))"
    then have z: "z \<in> set (zip xs ys)" by simp
    obtain x y where zxy: "z = (x, y)" by (cases z) simp
    have d: "document y" using set_zip_rightD [of x y xs ys] z zxy 1(2) by (simp only: document.simps)
    have "areEquals x y = Inr (same x y)"
      by (rule 1(1) [where x = z]) (simp_all add: that z zxy [symmetric] d)
    then show "(\<lambda>(x, y). areEquals x y) z = Inr ((\<lambda>(x, y). same x y) z)" by (simp add: zxy)
  qed
  then show ?case by (auto simp: list_all_iff)
next
  case (2 kvs kvs')
  have h: "map_of kvs' ''hasOwnProperty'' = None" using 2(2) by (simp add: map_of_eq_None_iff)
  have a: "all_results (\<lambda>(k, v). calls_hasOwnProperty kvs' k) (rev kvs)
      = Inr (\<forall>z \<in> set (rev kvs). (\<lambda>(k, v). map_of kvs' k \<noteq> None) z)"
    using h by (intro all_results_Inr) (auto simp: calls_hasOwnProperty_def)
  show ?case
  proof (cases "length kvs = length kvs' \<and> (\<forall>(k, v) \<in> set kvs. map_of kvs' k \<noteq> None)")
    case True
    then have t: "all_results (\<lambda>(k, v). calls_hasOwnProperty kvs' k) (rev kvs) = Inr True" using a by auto
    have "all_results (\<lambda>(k, v). case map_of kvs' k of Some w \<Rightarrow> areEquals v w | None \<Rightarrow> Inr False) (rev kvs)
      = Inr (\<forall>z \<in> set (rev kvs). (\<lambda>(k, v). case map_of kvs' k of None \<Rightarrow> False | Some w \<Rightarrow> same v w) z)"
    proof (rule all_results_Inr)
      fix z assume z: "z \<in> set (rev kvs)"
      obtain k v w where zk: "z = (k, v)" and w: "map_of kvs' k = Some w" using z True by auto
      have d: "document w" by (rule document_value [OF 2(2) w])
      have "areEquals v w = Inr (same v w)"
        by (rule 2(1) [where x = True and xa = z]) (use True t z zk w d in auto)
      then show "(\<lambda>(k, v). case map_of kvs' k of Some w \<Rightarrow> areEquals v w | None \<Rightarrow> Inr False) z
        = Inr ((\<lambda>(k, v). case map_of kvs' k of None \<Rightarrow> False | Some w \<Rightarrow> same v w) z)"
        by (simp add: zk w)
    qed
    then show ?thesis using True t by simp
  next
    case False
    then show ?thesis using a by (auto split: option.splits)
  qed
qed auto

lemma same_refl: "document v \<Longrightarrow> same v v"
proof (induction v rule: document.induct)
  case (1 xs)
  then show ?case by (auto simp: list_all_iff zip_same_conv_map)
next
  case (2 kvs)
  have "map_of kvs k = Some v \<and> same v v" if "(k, v) \<in> set kvs" for k v
    using 2 that by (force simp: map_of_is_SomeI)
  then show ?case by auto
qed auto

lemma same_array_iff: "same (JArr xs) (JArr ys) \<longleftrightarrow> list_all2 same xs ys"
  by (auto simp: list_all2_iff list_all_iff)

section \<open>The operations at an entry\<close>

definition old_patches :: "bool \<Rightarrow> json \<Rightarrow> json \<Rightarrow> string \<times> json \<Rightarrow> patch list" where
  "old_patches i e t = (\<lambda>(p, c).
     case own t p of
       None \<Rightarrow>
         (if is_array e = is_array t then test_before i (at_key [] p) c @ [Remove (at_key [] p)]
          else test_before i [] e @ [Replace [] t])
     | Some l \<Rightarrow>
         (if container c \<and> container l then generate i c l (at_key [] p)
          else if c \<noteq> l then test_before i (at_key [] p) c @ [Replace (at_key [] p) l]
          else []))"

lemma generate_old:
  "generate i e t [] = concat (map (old_patches i e t) (rev (entries e))) @ added e t []"
  by (subst generate.simps) (simp add: old_patches_def)

lemma apply_test_array:
  "n < length zs \<Longrightarrow> n < 2 ^ 31 \<Longrightarrow> zs ! n = c \<Longrightarrow> document c \<Longrightarrow>
    applyPatch (JArr zs) (test_before i (at_key [] (nat_text n)) c @ ps) = applyPatch (JArr zs) ps"
  by (simp add: test_before_def at_position_def test_value_def areEquals_same same_refl)

lemma apply_remove_array:
  "n < length zs \<Longrightarrow> n < 2 ^ 31 \<Longrightarrow>
    applyPatch (JArr zs) (Remove (at_key [] (nat_text n)) # ps) = applyPatch (JArr (take n zs @ drop (Suc n) zs)) ps"
  by (simp add: splice_out_def splice_start_def)

lemma apply_replace_array:
  "n < length zs \<Longrightarrow> n < 2 ^ 31 \<Longrightarrow>
    applyPatch (JArr zs) (Replace (at_key [] (nat_text n)) v # ps) = applyPatch (JArr (zs[n := v])) ps"
  by (simp add: assign_index_def)

lemma apply_add_array:
  "length zs = n \<Longrightarrow> n < 2 ^ 31 \<Longrightarrow>
    applyPatch (JArr zs) (Add (at_key [] (nat_text n)) v # ps) = applyPatch (JArr (zs @ [v])) ps"
  by (simp add: splice_in_def splice_start_def Let_def)

lemma apply_test_object:
  "map_of kvs k = Some c \<Longrightarrow> k \<noteq> ''__proto__'' \<Longrightarrow> document c \<Longrightarrow>
    applyPatch (JObj kvs) (test_before i (at_key [] k) c @ ps) = applyPatch (JObj kvs) ps"
  by (simp add: test_before_def test_value_def areEquals_same same_refl)

lemma apply_remove_object:
  "k \<noteq> ''__proto__'' \<Longrightarrow>
    applyPatch (JObj kvs) (Remove (at_key [] k) # ps) = applyPatch (JObj (filter (\<lambda>(k', v). k' \<noteq> k) kvs)) ps"
  by simp

lemma apply_set_object:
  "k \<noteq> ''__proto__'' \<Longrightarrow>
    applyPatch (JObj kvs) (Replace (at_key [] k) v # ps) = applyPatch (JObj (put_property k v kvs)) ps"
  "k \<noteq> ''__proto__'' \<Longrightarrow>
    applyPatch (JObj kvs) (Add (at_key [] k) v # ps) = applyPatch (JObj (put_property k v kvs)) ps"
  by simp_all

lemma map_of_remove: "map_of (filter (\<lambda>(k', v). k' \<noteq> k) kvs) = (map_of kvs)(k := None)"
  by (induction kvs) (auto simp: fun_eq_iff)

lemma edits_at_key [simp]:
  "edits (Add (at_key [] p) v)" "edits (Remove (at_key [] p))" "edits (Replace (at_key [] p) v)"
  "edits (Test (at_key [] p) v)"
  by (simp_all add: at_key_def)

fun moves :: "patch \<Rightarrow> bool" where
  "moves (Move f p) = True"
| "moves (Copy f p) = True"
| "moves op = False"

lemma moves_below [simp]: "moves (below r op) = moves op"
  by (cases op) auto

lemma edits_below: "\<not> moves op \<Longrightarrow> edits (below (CHR ''/'' # f) op)"
  by (cases op) auto

lemma edits_test: "op \<in> set (test_before i (at_key [] p) c) \<Longrightarrow> edits op"
  by (simp add: test_before_def split: if_splits)

lemma generate_at_key:
  "generate i c l (at_key [] p) = map (below (CHR ''/'' # escapePathComponent p)) (generate i c l [])"
  using generate_below [of i c l "at_key [] p" "[]"] by (simp add: at_key_def)

lemma generate_no_moves: "op \<in> set (generate i e t r) \<Longrightarrow> \<not> moves op"
proof (induction i e t r arbitrary: op rule: generate.induct)
  case (1 i e t r)
  show ?case
    using 1(2) 1(1)
    by (subst (asm) generate.simps) (fastforce simp: added_def test_before_def split: option.splits if_splits)
qed

text \<open>No operation of the comparison of two arrays or of two objects is at the root.\<close>

lemma old_patches_edits:
  assumes "is_array e = is_array t" and "op \<in> set (old_patches i e t (p, c))"
  shows "edits op"
proof (cases "own t p")
  case None
  then show ?thesis using assms edits_test by (auto simp: old_patches_def)
next
  case (Some l)
  then have "op \<in> set (if container c \<and> container l then generate i c l (at_key [] p)
      else if c \<noteq> l then test_before i (at_key [] p) c @ [Replace (at_key [] p) l] else [])"
    using assms by (simp add: old_patches_def)
  then show ?thesis
    using edits_test [of op i p c] generate_no_moves [of _ i c l "[]"] edits_below
    by (auto simp: generate_at_key split: if_splits)
qed

lemma generate_edits:
  assumes "is_array e = is_array t" and "op \<in> set (generate i e t [])"
  shows "edits op"
proof -
  from assms(2) consider p c where "op \<in> set (old_patches i e t (p, c))" | "op \<in> set (added e t [])"
    unfolding generate_old by auto
  then show ?thesis
  proof cases
    case 1
    then show ?thesis using old_patches_edits [OF assms(1)] by blast
  next
    case 2
    then show ?thesis by (auto simp: added_def split: if_splits)
  qed
qed

lemma same_kinds_is_array: "same_kinds e t \<Longrightarrow> container e \<Longrightarrow> container t \<Longrightarrow> is_array e = is_array t"
  by (cases e; cases t) auto

section \<open>Applying the comparison of two documents\<close>

definition turns_into :: "bool \<Rightarrow> json \<Rightarrow> json \<Rightarrow> bool" where
  "turns_into i e t \<longleftrightarrow> (\<exists>c. applyPatch e (generate i e t []) = Inr c \<and> same c t)"

lemma same_primitive: "same c c" if "\<not> (container c \<and> container c)"
  using that by (cases c) auto

text \<open>One entry that both documents have, in an array and in an object.\<close>

lemma old_entry_array:
  assumes "n < length zs" and "n < 2 ^ 31" and "zs ! n = c" and "n < length ys"
    and "document c" and "document (ys ! n)" and "same_kinds c (ys ! n)"
    and "container c \<and> container (ys ! n) \<Longrightarrow> turns_into i c (ys ! n)"
  shows "\<exists>c'. applyPatch (JArr zs) (old_patches i (JArr xs) (JArr ys) (nat_text n, c)) = Inr (JArr (zs[n := c']))
    \<and> same c' (ys ! n)"
proof -
  let ?l = "ys ! n"
  consider "container c \<and> container ?l" | "\<not> (container c \<and> container ?l)" "c \<noteq> ?l"
    | "\<not> (container c \<and> container ?l)" "c = ?l" by blast
  then show ?thesis
  proof cases
    case 1
    then obtain c' where c': "applyPatch c (generate i c ?l []) = Inr c'" "same c' ?l"
      using assms(8) by (auto simp: turns_into_def)
    have "\<forall>op \<in> set (generate i c ?l []). edits op"
      using generate_edits same_kinds_is_array assms(7) 1 by blast
    moreover have "slot (JArr zs) (nat_text n)" using assms(1,2) by auto
    moreover have "child (JArr zs) (nat_text n) = Inr (Some c)" using assms(1,2,3) by (simp add: at_position_def)
    ultimately have "applyPatch (JArr zs) (generate i c ?l (at_key [] (nat_text n)))
        = Inr (put_child (JArr zs) (nat_text n) c')"
      using applyPatch_below c'(1) unfolding generate_at_key escape_nat_text by blast
    then show ?thesis using 1 c'(2) assms(2,4) by (intro exI [of _ c']) (simp add: old_patches_def)
  next
    case 2
    then show ?thesis
      using assms apply_test_array [of n zs c i "[Replace (at_key [] (nat_text n)) ?l]"] apply_replace_array [of n zs ?l "[]"]
      by (intro exI [of _ ?l]) (auto simp: old_patches_def same_refl)
  next
    case 3
    then show ?thesis
      using assms(3,4,6) list_update_id [of zs n] by (intro exI [of _ c]) (auto simp: old_patches_def same_refl)
  qed
qed

lemma old_entry_object:
  assumes "map_of kvs k = Some c" and "k \<noteq> ''__proto__''" and "map_of kvs' k = Some l" and "distinct (map fst kvs)"
    and "document c" and "document l" and "same_kinds c l"
    and "container c \<and> container l \<Longrightarrow> turns_into i c l"
  shows "\<exists>kvs1 c'. applyPatch (JObj kvs) (old_patches i (JObj kvs0) (JObj kvs') (k, c)) = Inr (JObj kvs1)
    \<and> distinct (map fst kvs1) \<and> map_of kvs1 = (map_of kvs)(k \<mapsto> c') \<and> same c' l"
proof -
  have key: "k \<in> fst ` set kvs" using assms(1) by (force dest: map_of_SomeD)
  consider "container c \<and> container l" | "\<not> (container c \<and> container l)" "c \<noteq> l"
    | "\<not> (container c \<and> container l)" "c = l" by blast
  then show ?thesis
  proof cases
    case 1
    then obtain c' where c': "applyPatch c (generate i c l []) = Inr c'" "same c' l"
      using assms(8) by (auto simp: turns_into_def)
    have "\<forall>op \<in> set (generate i c l []). edits op"
      using generate_edits same_kinds_is_array assms(7) 1 by blast
    moreover have "slot (JObj kvs) (escapePathComponent k)" using key assms(2) by auto
    moreover have "child (JObj kvs) (escapePathComponent k) = Inr (Some c)" using assms(1) by simp
    ultimately have "applyPatch (JObj kvs) (generate i c l (at_key [] k))
        = Inr (put_child (JObj kvs) (escapePathComponent k) c')"
      using applyPatch_below c'(1) unfolding generate_at_key by blast
    then show ?thesis
      using 1 c'(2) assms(3,4) key
      by (intro exI [of _ "update_entry k c' kvs"] exI [of _ c']) (simp add: old_patches_def map_of_update_entry)
  next
    case 2
    then show ?thesis
      using assms apply_test_object [of kvs k c i "[Replace (at_key [] k) l]"] apply_set_object(1) [of k kvs l "[]"]
      by (intro exI [of _ "put_property k l kvs"] exI [of _ l])
        (auto simp: old_patches_def same_refl map_of_put_property distinct_put_property)
  next
    case 3
    then show ?thesis
      using assms by (intro exI [of _ kvs] exI [of _ c]) (auto simp: old_patches_def same_refl)
  qed
qed

text \<open>The old keys of an array, from the last to the first.\<close>

lemma old_entries_array:
  assumes "j \<le> length xs" and "length xs < 2 ^ 31" and "ws \<noteq> [] \<longrightarrow> j \<le> length ys"
    and "\<forall>n < j. n < length ys \<longrightarrow> document (xs ! n) \<and> document (ys ! n) \<and> same_kinds (xs ! n) (ys ! n) \<and>
      (container (xs ! n) \<and> container (ys ! n) \<longrightarrow> turns_into i (xs ! n) (ys ! n))"
    and "\<forall>x \<in> set xs. document x"
  shows "\<exists>us. applyPatch (JArr (take j xs @ ws))
      (concat (map (old_patches i (JArr xs) (JArr ys)) (rev (take j (entries (JArr xs)))))) = Inr (JArr (us @ ws))
    \<and> list_all2 same us (take j ys)"
  using assms
proof (induction j arbitrary: ws)
  case 0
  then show ?case by simp
next
  case (Suc j)
  let ?L = "entries (JArr xs)" and ?zs = "take (Suc j) xs @ ws" and ?old = "old_patches i (JArr xs) (JArr ys)"
  have j: "j < length xs" "j < 2 ^ 31" using Suc.prems(1,2) by auto
  have split: "rev (take (Suc j) ?L) = (nat_text j, xs ! j) # rev (take j ?L)"
    using j by (simp add: take_Suc_conv_app_nth)
  have zs: "j < length ?zs" "?zs ! j = xs ! j" using j by (auto simp: nth_append min_def)
  show ?case
  proof (cases "j < length ys")
    case True
    obtain c' where c': "applyPatch (JArr ?zs) (?old (nat_text j, xs ! j)) = Inr (JArr (?zs[j := c']))" "same c' (ys ! j)"
      using old_entry_array [of j ?zs "xs ! j" ys i xs] zs j True Suc.prems(4) by auto
    have upd: "?zs[j := c'] = take j xs @ (c' # ws)"
      using j by (simp add: take_Suc_conv_app_nth list_update_append)
    obtain us where us: "applyPatch (JArr (take j xs @ (c' # ws))) (concat (map ?old (rev (take j ?L))))
        = Inr (JArr (us @ (c' # ws)))" "list_all2 same us (take j ys)"
      using Suc.IH [of "c' # ws"] Suc.prems True j by auto
    have "list_all2 same (us @ [c']) (take (Suc j) ys)"
      using us(2) c'(2) True by (simp add: take_Suc_conv_app_nth list_all2_appendI)
    then show ?thesis
      using us(1) c'(1) upd by (intro exI [of _ "us @ [c']"]) (simp add: split applyPatch_append del: entries.simps)
  next
    case False
    then have ws: "ws = []" using Suc.prems(3) by auto
    have doc: "document (xs ! j)" using Suc.prems(5) j by simp
    have "applyPatch (JArr ?zs) (?old (nat_text j, xs ! j)) = Inr (JArr (take j xs))"
      using apply_test_array [OF zs(1) j(2) zs(2) doc, of i "[Remove (at_key [] (nat_text j))]"] False j ws
        apply_remove_array [OF zs(1) j(2), of "[]"]
      by (simp add: old_patches_def)
    then show ?thesis
      using Suc.IH [of "[]"] Suc.prems False j ws by (simp add: split applyPatch_append del: entries.simps)
  qed
qed

lemma added_array:
  assumes "length xs < 2 ^ 31" and "length ys < 2 ^ 31" and "length zs = min (length xs) (length ys)"
  shows "applyPatch (JArr zs) (added (JArr xs) (JArr ys) []) = Inr (JArr (zs @ drop (length xs) ys))"
proof -
  let ?n = "length xs" and ?add = "\<lambda>(p, v). Add (at_key [] p) v"
  have adds: "length zs + length vs < 2 ^ 31 \<Longrightarrow>
      applyPatch (JArr zs) (map ?add (zip (map nat_text [length zs..<length zs + length vs]) vs)) = Inr (JArr (zs @ vs))"
    for zs vs
  proof (induction vs arbitrary: zs)
    case (Cons v vs)
    have u: "[length zs..<length zs + length (v # vs)] = length zs # [length (zs @ [v])..<length (zs @ [v]) + length vs]"
      by (subst upt_rec) simp
    show ?case
      using Cons.IH [of "zs @ [v]"] Cons.prems apply_add_array [OF refl, of zs v]
      by (simp only: u list.map zip_Cons_Cons split) (simp add: apply_add_array)
  qed simp
  have f: "filter (\<lambda>(p, v). own (JArr xs) p = None) (zip (map nat_text ns) vs) =
      filter (\<lambda>(p, v). \<not> False) (zip (map nat_text ns) vs)" if "\<forall>n \<in> set ns. ?n \<le> n" for ns and vs :: "json list"
    using that by (intro filter_cong) (fastforce dest!: set_zip_leftD)+
  have g: "filter (\<lambda>(p, v). own (JArr xs) p = None) (zip (map nat_text ns) vs) = []"
    if "\<forall>n \<in> set ns. n < ?n" for ns and vs :: "json list"
    using that by (auto simp: filter_empty_conv dest!: set_zip_leftD)
  have l: "filter (\<lambda>(p, v). own (JArr xs) p = None) (entries (JArr ys))
      = zip (map nat_text [?n..<length ys]) (drop ?n ys)"
  proof (cases "?n \<le> length ys")
    case True
    then have "[0..<length ys] = [0..<?n] @ [?n..<length ys]" using upt_add_eq_append [of 0 ?n "length ys - ?n"] by simp
    then have "entries (JArr ys) = zip (map nat_text [0..<?n]) (take ?n ys) @ zip (map nat_text [?n..<length ys]) (drop ?n ys)"
      using True by (simp add: zip_append1 [of "map nat_text [0..<?n]"])
    then show ?thesis using f [of "[?n..<length ys]" "drop ?n ys"] g [of "[0..<?n]" "take ?n ys"] by simp
  next
    case False
    then show ?thesis using g [of "[0..<length ys]" ys] by simp
  qed
  show ?thesis
  proof (cases "missing_keys (JArr xs) (JArr ys) \<or> length (entries (JArr ys)) \<noteq> length (entries (JArr xs))")
    case True
    show ?thesis
    proof (cases "?n < length ys")
      case True2: True
      then show ?thesis
        using True adds [of zs "drop ?n ys"] assms l by (simp add: added_def del: entries.simps)
    next
      case False
      then show ?thesis using l by (simp add: added_def del: entries.simps)
    qed
  next
    case False
    then show ?thesis by (simp add: added_def)
  qed
qed

lemma turns_into_array:
  assumes "document (JArr xs)" and "document (JArr ys)" and "same_kinds (JArr xs) (JArr ys)"
    and "\<forall>n < length xs. n < length ys \<longrightarrow> container (xs ! n) \<and> container (ys ! n) \<longrightarrow> turns_into i (xs ! n) (ys ! n)"
  shows "turns_into i (JArr xs) (JArr ys)"
proof -
  have kinds: "same_kinds (xs ! n) (ys ! n)" if "n < length xs" "n < length ys" for n
    using assms(3) that by (auto simp: list_all_length)
  obtain us where us: "applyPatch (JArr xs) (concat (map (old_patches i (JArr xs) (JArr ys)) (rev (entries (JArr xs)))))
      = Inr (JArr us)" "list_all2 same us (take (length xs) ys)"
    using old_entries_array [of "length xs" xs "[]" ys i] assms kinds by auto
  have len: "length us = min (length xs) (length ys)" using us(2) by (auto dest: list_all2_lengthD)
  have "\<forall>y \<in> set (drop (length xs) ys). document y"
    using assms(2) set_drop_subset [of "length xs" ys] by (simp only: document.simps) blast
  then have "list_all2 same (drop (length xs) ys) (drop (length xs) ys)"
    by (auto intro!: list_all2I same_refl simp: zip_same_conv_map)
  then have "list_all2 same (us @ drop (length xs) ys) ys"
    using list_all2_appendI [OF us(2)] by fastforce
  then show ?thesis
    using us(1) added_array [OF _ _ len] assms(1,2)
    by (simp add: turns_into_def generate_old applyPatch_append same_array_iff del: entries.simps same.simps)
qed

text \<open>The old keys of an object, and the keys that are added.\<close>

definition comparable :: "bool \<Rightarrow> (string \<times> json) list \<Rightarrow> string \<Rightarrow> json \<Rightarrow> bool" where
  "comparable i kvs' k c \<longleftrightarrow> k \<noteq> ''__proto__'' \<and> document c \<and>
     (\<forall>l. map_of kvs' k = Some l \<longrightarrow> document l \<and> same_kinds c l \<and>
       (container c \<and> container l \<longrightarrow> turns_into i c l))"

lemma old_entries_object:
  assumes "distinct (map fst es)" and "distinct (map fst kvs)"
    and "\<And>k c. (k, c) \<in> set es \<Longrightarrow> map_of kvs k = Some c \<and> comparable i kvs' k c"
  shows "\<exists>kvs1. applyPatch (JObj kvs) (concat (map (old_patches i (JObj kvs0) (JObj kvs')) es)) = Inr (JObj kvs1)
    \<and> distinct (map fst kvs1)
    \<and> (\<forall>k. if k \<in> fst ` set es then rel_option same (map_of kvs1 k) (map_of kvs' k)
           else map_of kvs1 k = map_of kvs k)"
  using assms
proof (induction es arbitrary: kvs)
  case Nil
  then show ?case by auto
next
  case (Cons e es)
  obtain k c where e: "e = (k, c)" by (cases e)
  let ?old = "old_patches i (JObj kvs0) (JObj kvs')"
  have kc: "map_of kvs k = Some c" "k \<noteq> ''__proto__''" "document c" and new: "k \<notin> fst ` set es"
    using Cons.prems(1) Cons.prems(3) [of k c] e by (auto simp: comparable_def)
  have "\<exists>kvs1. applyPatch (JObj kvs) (?old (k, c)) = Inr (JObj kvs1) \<and> distinct (map fst kvs1)
    \<and> rel_option same (map_of kvs1 k) (map_of kvs' k) \<and> (\<forall>k'. k' \<noteq> k \<longrightarrow> map_of kvs1 k' = map_of kvs k')"
  proof (cases "map_of kvs' k")
    case None
    let ?kvs1 = "filter (\<lambda>(k', v). k' \<noteq> k) kvs"
    have "applyPatch (JObj kvs) (?old (k, c)) = Inr (JObj ?kvs1)"
      using None apply_test_object [OF kc, of i "[Remove (at_key [] k)]"] apply_remove_object [OF kc(2), of kvs "[]"]
      by (simp add: old_patches_def)
    moreover have "distinct (map fst ?kvs1)" using Cons.prems(2) by (simp add: distinct_map_filter)
    ultimately show ?thesis using None by (intro exI [of _ ?kvs1]) (simp add: map_of_remove)
  next
    case (Some l)
    have "document l" "same_kinds c l" "container c \<and> container l \<Longrightarrow> turns_into i c l"
      using Cons.prems(3) [of k c] Some e by (auto simp: comparable_def)
    then obtain kvs1 c' where "applyPatch (JObj kvs) (?old (k, c)) = Inr (JObj kvs1)" "distinct (map fst kvs1)"
      "map_of kvs1 = (map_of kvs)(k \<mapsto> c')" "same c' l"
      using old_entry_object [OF kc(1,2) Some Cons.prems(2) kc(3), of i kvs0] by blast
    then show ?thesis using Some by (intro exI [of _ kvs1]) simp
  qed
  then obtain kvs1 where kvs1: "applyPatch (JObj kvs) (?old (k, c)) = Inr (JObj kvs1)" "distinct (map fst kvs1)"
    "rel_option same (map_of kvs1 k) (map_of kvs' k)" "\<And>k'. k' \<noteq> k \<Longrightarrow> map_of kvs1 k' = map_of kvs k'" by blast
  have "map_of kvs1 k' = Some c' \<and> comparable i kvs' k' c'" if in_es: "(k', c') \<in> set es" for k' c'
  proof -
    have "k' \<noteq> k" using in_es new by (metis fst_conv image_eqI)
    then show ?thesis using Cons.prems(3) [of k' c'] in_es kvs1(4) [of k'] by simp
  qed
  then obtain kvs2 where kvs2: "applyPatch (JObj kvs1) (concat (map ?old es)) = Inr (JObj kvs2)" "distinct (map fst kvs2)"
    "\<forall>k. if k \<in> fst ` set es then rel_option same (map_of kvs2 k) (map_of kvs' k) else map_of kvs2 k = map_of kvs1 k"
    using Cons.IH [OF _ kvs1(2)] Cons.prems(1) by (metis distinct.simps(2) list.simps(9))
  have "\<forall>k'. if k' \<in> fst ` set (e # es) then rel_option same (map_of kvs2 k') (map_of kvs' k')
      else map_of kvs2 k' = map_of kvs k'"
  proof
    fix k'
    show "if k' \<in> fst ` set (e # es) then rel_option same (map_of kvs2 k') (map_of kvs' k')
      else map_of kvs2 k' = map_of kvs k'"
    proof (cases "k' = k")
      case True
      then show ?thesis using kvs2(3) kvs1(3) new e by (simp split: if_splits)
    next
      case False
      then show ?thesis using kvs2(3) kvs1(4) [OF False] e by simp
    qed
  qed
  then show ?case using kvs1(1) kvs2(1,2) e by (intro exI [of _ kvs2]) (simp add: applyPatch_append)
qed

lemma map_of_filter_key: "map_of (filter (\<lambda>(p, v). P p) xs) k = (if P k then map_of xs k else None)"
  by (induction xs) auto

lemma adds_object:
  assumes "distinct (map fst kvs)" and "''__proto__'' \<notin> fst ` set vs" and "distinct (map fst vs)"
  shows "\<exists>kvs1. applyPatch (JObj kvs) (map (\<lambda>(p, v). Add (at_key [] p) v) vs) = Inr (JObj kvs1)
    \<and> distinct (map fst kvs1) \<and> map_of kvs1 = map_of kvs ++ map_of vs"
  using assms
proof (induction vs arbitrary: kvs)
  case Nil
  then show ?case by simp
next
  case (Cons e vs)
  obtain k v where e: "e = (k, v)" by (cases e)
  have k: "k \<noteq> ''__proto__''" "k \<notin> fst ` set vs" using Cons.prems e by auto
  obtain kvs1 where kvs1: "applyPatch (JObj (put_property k v kvs)) (map (\<lambda>(p, v). Add (at_key [] p) v) vs) = Inr (JObj kvs1)"
    "distinct (map fst kvs1)" "map_of kvs1 = map_of (put_property k v kvs) ++ map_of vs"
    using Cons.IH [OF distinct_put_property [OF Cons.prems(1), of k v]] Cons.prems(2,3) by auto
  have "map_of vs k = None" using k by (simp add: map_of_eq_None_iff)
  then have "map_of kvs1 k' = (map_of kvs ++ map_of (e # vs)) k'" for k'
    using kvs1(3) e by (simp add: map_of_put_property map_add_def split: option.splits)
  then have "map_of kvs1 = map_of kvs ++ map_of (e # vs)" by blast
  moreover have "applyPatch (JObj kvs) (map (\<lambda>(p, v). Add (at_key [] p) v) (e # vs)) = Inr (JObj kvs1)"
    using kvs1(1) e k by simp
  ultimately show ?case using kvs1(2) by blast
qed

text \<open>An object that has the same value under every key is the same document.\<close>

lemma same_objectI:
  assumes "distinct (map fst kvs)" and "distinct (map fst kvs')"
    and "\<forall>k. rel_option same (map_of kvs k) (map_of kvs' k)"
  shows "same (JObj kvs) (JObj kvs')"
proof -
  have "fst ` set kvs = fst ` set kvs'"
  proof -
    have "k \<in> fst ` set kvs \<longleftrightarrow> k \<in> fst ` set kvs'" for k
      using assms(3) [rule_format, of k] map_of_eq_None_iff [of kvs k] map_of_eq_None_iff [of kvs' k]
      by (auto simp: option_rel_Some1 option_rel_Some2 rel_option_None1 rel_option_None2 split: option.splits)
    then show ?thesis by blast
  qed
  then have "length kvs = length kvs'"
    using assms(1,2) distinct_card [of "map fst kvs"] distinct_card [of "map fst kvs'"] by simp
  moreover have "\<exists>w. map_of kvs' k = Some w \<and> same v w" if "(k, v) \<in> set kvs" for k v
    using assms(3) [rule_format, of k] map_of_is_SomeI [OF assms(1) that] by (auto simp: option_rel_Some1)
  ultimately show ?thesis by fastforce
qed

lemma turns_into_object:
  assumes "document (JObj kvs)" and "document (JObj kvs')" and "same_kinds (JObj kvs) (JObj kvs')"
    and "\<forall>k c l. (k, c) \<in> set kvs \<longrightarrow> map_of kvs' k = Some l \<longrightarrow> container c \<and> container l \<longrightarrow> turns_into i c l"
  shows "turns_into i (JObj kvs) (JObj kvs')"
proof -
  let ?e = "JObj kvs" and ?t = "JObj kvs'" and ?new = "filter (\<lambda>(p, v). own (JObj kvs) p = None) kvs'"
  have dist: "distinct (map fst kvs)" "distinct (map fst kvs')" using assms(1,2) by auto
  have "map_of kvs k = Some c \<and> comparable i kvs' k c" if kc: "(k, c) \<in> set (rev kvs)" for k c
  proof -
    have "same_kinds c l" if "map_of kvs' k = Some l" for l
      using assms(3) kc that by fastforce
    moreover have "k \<noteq> ''__proto__''" "document c" using assms(1) kc by (auto simp: image_iff)
    moreover have "map_of kvs k = Some c" using dist kc by (simp add: map_of_is_SomeI)
    ultimately show ?thesis using assms(4) kc document_value [OF assms(2)] by (simp add: comparable_def)
  qed
  then obtain kvs1 where kvs1: "applyPatch ?e (concat (map (old_patches i ?e ?t) (rev kvs))) = Inr (JObj kvs1)"
    "distinct (map fst kvs1)"
    "\<forall>k. if k \<in> fst ` set kvs then rel_option same (map_of kvs1 k) (map_of kvs' k) else map_of kvs1 k = map_of kvs k"
    using old_entries_object [of "rev kvs" kvs i kvs' kvs] dist by (auto simp: rev_map [symmetric])
  show ?thesis
  proof (cases "missing_keys ?e ?t \<or> length kvs' \<noteq> length kvs")
    case True
    have "distinct (map fst ?new)" "''__proto__'' \<notin> fst ` set ?new"
      using dist assms(2) by (auto simp: distinct_map_filter)
    then obtain kvs2 where kvs2: "applyPatch (JObj kvs1) (map (\<lambda>(p, v). Add (at_key [] p) v) ?new) = Inr (JObj kvs2)"
      "distinct (map fst kvs2)" "map_of kvs2 = map_of kvs1 ++ map_of ?new"
      using adds_object [OF kvs1(2)] by blast
    have new: "map_of ?new k = (if k \<in> fst ` set kvs then None else map_of kvs' k)" for k
      using map_of_filter_key [of "\<lambda>p. own (JObj kvs) p = None" kvs' k] map_of_eq_None_iff [of kvs k] by simp
    have "rel_option same (map_of kvs2 k) (map_of kvs' k)" for k
    proof (cases "k \<in> fst ` set kvs")
      case True
      then show ?thesis using kvs1(3) kvs2(3) new [of k] by (simp add: map_add_def)
    next
      case False
      then have "map_of kvs1 k = None" using kvs1(3) by (simp add: map_of_eq_None_iff)
      moreover have "same l l" if "map_of kvs' k = Some l" for l
        using document_value [OF assms(2) that] by (rule same_refl)
      ultimately show ?thesis using False kvs2(3) new [of k] by (simp add: map_add_def split: option.splits)
    qed
    then have "same (JObj kvs2) ?t" using same_objectI [OF kvs2(2) dist(2)] by blast
    then show ?thesis
      using kvs1(1) kvs2(1) True by (simp add: turns_into_def generate_old added_def applyPatch_append del: same.simps)
  next
    case False
    then have sub: "\<forall>k \<in> fst ` set kvs. map_of kvs' k \<noteq> None" and len: "length kvs' = length kvs"
      by (auto simp: missing_keys_def)
    have "fst ` set kvs \<subseteq> fst ` set kvs'" using sub by (meson map_of_eq_None_iff subsetI)
    moreover have "card (fst ` set kvs) = card (fst ` set kvs')"
      using len dist distinct_card [of "map fst kvs"] distinct_card [of "map fst kvs'"] by simp
    ultimately have keys: "fst ` set kvs = fst ` set kvs'" by (simp add: card_subset_eq)
    have "rel_option same (map_of kvs1 k) (map_of kvs' k)" for k
    proof (cases "k \<in> fst ` set kvs")
      case False
      then have "map_of kvs1 k = None" "map_of kvs' k = None"
        using kvs1(3) keys by (simp_all add: map_of_eq_None_iff)
      then show ?thesis by simp
    qed (use kvs1(3) in simp)
    then have "same (JObj kvs1) ?t" using same_objectI [OF kvs1(2) dist(2)] by blast
    then show ?thesis
      using kvs1(1) False len
      by (simp add: turns_into_def generate_old added_def applyPatch_append del: same.simps)
  qed
qed

text \<open>The comparison of two documents turns the first into the second.\<close>

lemma document_entries: "document e \<Longrightarrow> (p, c) \<in> set (entries e) \<Longrightarrow> document c"
  by (cases e) (auto dest: set_zip_rightD)

lemma generate_turns_into:
  "document e \<Longrightarrow> document t \<Longrightarrow> same_kinds e t \<Longrightarrow> container e \<Longrightarrow> container t \<Longrightarrow> turns_into i e t"
proof (induction "size e" arbitrary: e t rule: less_induct)
  case less
  show ?case
  proof (cases e)
    case (JArr xs)
    then obtain ys where t: "t = JArr ys" using less.prems by (cases t) auto
    have "turns_into i (xs ! n) (ys ! n)"
      if n: "n < length xs" "n < length ys" and c: "container (xs ! n)" "container (ys ! n)" for n
    proof (rule less.hyps)
      show "size (xs ! n) < size e" using size_array_entry [of "nat_text n" "xs ! n" e] JArr n by (force simp: in_set_zip)
      show "same_kinds (xs ! n) (ys ! n)" using less.prems(3) n JArr t by (auto simp: list_all_length)
      show "document (xs ! n)" "document (ys ! n)" using less.prems(1,2) n JArr t by auto
    qed (use c in auto)
    then show ?thesis using turns_into_array less.prems JArr t by auto
  next
    case (JObj kvs)
    then obtain kvs' where t: "t = JObj kvs'" using less.prems by (cases t) auto
    have "turns_into i c l" if "(k, c) \<in> set kvs" "map_of kvs' k = Some l" "container c" "container l" for k c l
    proof (rule less.hyps)
      show "size c < size e" using size_array_entry [of k c e] JObj that by simp
      show "same_kinds c l" using less.prems(3) JObj t that by fastforce
      show "document c" using less.prems(1) document_entries [of e k c] JObj that by simp
      show "document l" using less.prems(2) document_value [of kvs' k l] t that by simp
    qed (use that in auto)
    then show ?thesis using turns_into_object less.prems JObj t by auto
  qed (use less.prems in auto)
qed

end
