(* ===== verification/JSON_Patch_Props.thy ===== *)
theory JSON_Patch_Props
  imports JSON_Patch_Laws
begin

text \<open>
  Properties of the JSON Patch library: comparing and applying, equality, reading what was written.
\<close>

section \<open>Equality as observed through paths\<close>

text \<open>
  The value under a list of keys, and what can be seen of one value alone: a primitive value, or that it
  is an array or an object.
\<close>

fun value_at :: "json \<Rightarrow> string list \<Rightarrow> json option" where
  "value_at v [] = Some v"
| "value_at v (k # ks) = (case map_of (entries v) k of None \<Rightarrow> None | Some w \<Rightarrow> value_at w ks)"

fun outline :: "json \<Rightarrow> json" where
  "outline (JArr xs) = JArr []"
| "outline (JObj kvs) = JObj []"
| "outline v = v"

lemma map_of_array_entries:
  "map_of (entries (JArr xs)) k = (if \<exists>n < length xs. k = nat_text n then Some (xs ! digits_value k) else None)"
proof (cases "\<exists>n < length xs. k = nat_text n")
  case True
  then obtain n where n: "n < length xs" "k = nat_text n" by blast
  have "distinct (map nat_text [0..<length xs])" by (auto simp: distinct_map inj_on_def)
  then have "map_of (entries (JArr xs)) (map nat_text [0..<length xs] ! n) = Some (xs ! n)"
    using n unfolding entries.simps by (intro map_of_zip_nth) auto
  then show ?thesis using n by auto
next
  case False
  have "\<exists>n < length xs. k = nat_text n" if "(k, v) \<in> set (entries (JArr xs))" for v
    using set_zip_leftD [of k v "map nat_text [0..<length xs]" xs] that by auto
  then have "k \<notin> fst ` set (entries (JArr xs))" using False by fastforce
  then show ?thesis using False map_of_eq_None_iff by metis
qed

lemma same_entries_array:
  "same (JArr xs) (JArr ys) \<longleftrightarrow>
    (\<forall>k. rel_option same (map_of (entries (JArr xs)) k) (map_of (entries (JArr ys)) k))" (is "_ \<longleftrightarrow> ?R")
proof
  assume "same (JArr xs) (JArr ys)"
  then have "list_all2 same xs ys" by (simp only: same_array_iff)
  then show ?R by (auto simp: map_of_array_entries list_all2_conv_all_nth simp del: entries.simps)
next
  assume R: ?R
  have r: "rel_option same (if n < length xs then Some (xs ! n) else None)
      (if n < length ys then Some (ys ! n) else None)" for n
    using R [rule_format, of "nat_text n"] by (simp add: map_of_array_entries del: entries.simps split: if_splits)
  have "length xs = length ys"
    using r [of "length xs"] r [of "length ys"] by (cases "length xs < length ys"; cases "length ys < length xs") auto
  moreover have "same (xs ! n) (ys ! n)" if "n < length xs" "n < length ys" for n
    using r [of n] that by simp
  ultimately show "same (JArr xs) (JArr ys)" by (simp only: same_array_iff list_all2_conv_all_nth) simp
qed

lemma same_object_iff:
  assumes "distinct (map fst kvs)" and "distinct (map fst kvs')"
  shows "same (JObj kvs) (JObj kvs') \<longleftrightarrow> (\<forall>k. rel_option same (map_of kvs k) (map_of kvs' k))"
proof
  assume s: "same (JObj kvs) (JObj kvs')"
  then have some: "\<exists>w. map_of kvs' k = Some w \<and> same v w" if "map_of kvs k = Some v" for k v
    using map_of_SomeD [OF that] by (fastforce split: option.splits)
  have "fst ` set kvs \<subseteq> fst ` set kvs'"
  proof
    fix k assume "k \<in> fst ` set kvs"
    then have "map_of kvs k \<noteq> None" by (simp add: map_of_eq_None_iff)
    then have "map_of kvs' k \<noteq> None" using some by blast
    then show "k \<in> fst ` set kvs'" by (simp add: map_of_eq_None_iff)
  qed
  moreover have "card (fst ` set kvs) = card (fst ` set kvs')"
    using s assms distinct_card [of "map fst kvs"] distinct_card [of "map fst kvs'"] by simp
  ultimately have keys: "fst ` set kvs = fst ` set kvs'" by (simp add: card_subset_eq)
  show "\<forall>k. rel_option same (map_of kvs k) (map_of kvs' k)"
  proof
    fix k
    show "rel_option same (map_of kvs k) (map_of kvs' k)"
    proof (cases "map_of kvs k")
      case None
      then have "map_of kvs' k = None" using keys by (simp add: map_of_eq_None_iff)
      then show ?thesis using None by simp
    qed (use some [of k] in auto)
  qed
qed (use same_objectI [OF assms] in blast)

text \<open>Two values of the same outline are equal when they are under every key.\<close>

lemma same_entries:
  assumes "document e" and "document t"
  shows "same e t \<longleftrightarrow> outline e = outline t \<and>
    (\<forall>k. rel_option same (map_of (entries e) k) (map_of (entries t) k))"
proof (cases "outline e = outline t")
  case True
  then consider xs ys where "e = JArr xs" "t = JArr ys" | kvs kvs' where "e = JObj kvs" "t = JObj kvs'"
    | "e = t" "entries e = []" "\<not> container e"
    by (cases e; cases t) auto
  then show ?thesis
  proof cases
    case 1
    then show ?thesis using same_entries_array by simp
  next
    case 2
    then show ?thesis using same_object_iff assms by simp
  next
    case 3
    then show ?thesis using same_primitive by simp
  qed
next
  case False
  then show ?thesis by (cases e; cases t) auto
qed

lemma same_iff_paths:
  "document e \<Longrightarrow> document t \<Longrightarrow>
    same e t \<longleftrightarrow> (\<forall>path. map_option outline (value_at e path) = map_option outline (value_at t path))"
proof (induction "size e" arbitrary: e t rule: less_induct)
  case less
  let ?obs = "\<lambda>v path. map_option outline (value_at v path)"
  have sub: "rel_option same (map_of (entries e) k) (map_of (entries t) k) \<longleftrightarrow> (\<forall>path. ?obs e (k # path) = ?obs t (k # path))" for k
  proof (cases "map_of (entries e) k"; cases "map_of (entries t) k")
    fix v w assume v: "map_of (entries e) k = Some v" and w: "map_of (entries t) k = Some w"
    have "(k, v) \<in> set (entries e)" "(k, w) \<in> set (entries t)" using v w by (auto dest: map_of_SomeD)
    then have "size v < size e" "document v" "document w"
      using less.prems document_entries size_array_entry by blast+
    then show ?thesis using less.hyps [of v w] v w by simp
  next
    fix v assume "map_of (entries e) k = Some v" "map_of (entries t) k = None"
    then show ?thesis by (auto intro: exI [of _ "[]"])
  next
    fix w assume "map_of (entries e) k = None" "map_of (entries t) k = Some w"
    then show ?thesis by (auto intro: exI [of _ "[]"])
  qed auto
  have "(\<forall>path. ?obs e path = ?obs t path) \<longleftrightarrow>
      outline e = outline t \<and> (\<forall>k path. ?obs e (k # path) = ?obs t (k # path))"
  proof
    assume R: "outline e = outline t \<and> (\<forall>k path. ?obs e (k # path) = ?obs t (k # path))"
    show "\<forall>path. ?obs e path = ?obs t path"
    proof
      fix path show "?obs e path = ?obs t path" using R by (cases path) simp_all
    qed
  qed (metis option.inject option.simps(9) value_at.simps(1))
  then show ?case using same_entries [OF less.prems] sub by blast
qed

section \<open>Reading after writing\<close>

lemma array_position_other: "array_position xs f = Inr i \<Longrightarrow> f \<noteq> ''-'' \<Longrightarrow> array_position ys f = Inr i"
  by (auto simp: array_position_def split: if_splits)

lemma child_after_replace:
  assumes "edit (Replace p v) d f = Inr (d', r)" and "f \<noteq> ''-''"
  shows "child d' f = Inr (Some v)"
proof (cases d)
  case (JArr xs)
  then obtain i where i: "array_position xs f = Inr i" using assms(1) by (cases "array_position xs f") auto
  then show ?thesis
    using assms(1) JArr array_position_other [OF i assms(2)]
    by (auto simp: assign_index_def at_position_def nth_append split: if_splits)
next
  case (JObj kvs)
  then show ?thesis using assms by (auto simp: map_of_put_property Let_def)
qed (use assms in auto)

lemma child_after_put:
  assumes "child d f = Inr (Some c)"
  shows "child (put_child d f c') f = Inr (Some c')"
proof (cases d)
  case (JArr xs)
  then obtain i where i: "array_position xs f = Inr i" using assms by (cases "array_position xs f") auto
  have m: "f \<noteq> ''-''" using i assms JArr by (auto simp: array_position_def at_position_def)
  then have "i = array_index f" using i by (auto simp: array_position_def split: if_splits)
  then show ?thesis
    using assms JArr i array_position_other [OF i m] by (auto simp: at_position_def split: if_splits)
next
  case (JObj kvs)
  then have "map_of kvs (object_key f) \<noteq> None" using assms by (auto simp: Let_def split: option.splits if_splits)
  then have "object_key f \<in> fst ` set kvs" by (simp add: map_of_eq_None_iff)
  then show ?thesis using JObj by (simp add: map_of_update_entry Let_def)
qed (use assms in auto)

lemma walk_get_after_replace:
  "walk (edit (Replace p v)) d fs = Inr (d', r) \<Longrightarrow> last fs \<noteq> ''-'' \<Longrightarrow> \<exists>d''. walk get_op d' fs = Inr (d'', Some v)"
proof (induction fs arbitrary: d d' r)
  case (Cons f fs)
  show ?case
  proof (cases "fs = []")
    case True
    then show ?thesis using Cons.prems child_after_replace [of p v d f d' r] by (auto simp: get_op_def split: if_splits)
  next
    case False
    then have f: "f \<noteq> ''__proto__''" using Cons.prems by (auto split: if_splits)
    then obtain c where c: "child d f = Inr (Some c)"
      using Cons.prems False by (cases "child d f") (auto split: option.splits)
    then obtain c' where c': "walk (edit (Replace p v)) c fs = Inr (c', r)" "d' = put_child d f c'"
      using Cons.prems False f by (cases "walk (edit (Replace p v)) c fs") auto
    obtain d'' where "walk get_op c' fs = Inr (d'', Some v)" using Cons.IH [OF c'(1)] Cons.prems False by auto
    then show ?thesis using child_after_put [OF c] c'(2) f False by simp
  qed
qed simp

section \<open>Results\<close>

text \<open>C25: The patch that the comparison of two documents produces can be applied to the first document and
  gives the second: every operation succeeds, and the library's own equality finds no difference.  This
  holds with and without the tests of the old values, for keys with slashes and tildes, for arrays that
  grow or shrink and for keys in any order, if every place both documents have is an array in both or an
  object in both whenever it is a container in both.\<close>

theorem comparison_turns_one_into_other:
  assumes "document e" and "document t" and "container e" and "container t" and "same_kinds e t"
  shows "\<exists>d. applyPatch e (compare e t invertible) = Inr d \<and> areEquals d t = Inr True"
  using generate_turns_into [OF assms(1,2,5,3,4), of invertible] areEquals_same [OF assms(2)]
  by (auto simp: turns_into_def compare_def)

definition old_paths :: json where
  "old_paths = JObj [(''tags'', JArr [JStr ''a'', JStr ''b'', JObj [(''x'', JNull)]]), (''/policy/~v1'', JBool True)]"

definition new_paths :: json where
  "new_paths = JObj [(''info'', JNum ''1''), (''tags'', JArr [JStr ''c''])]"

theorem comparison_turns_one_into_other_witness:
  "\<exists>d. applyPatch old_paths (compare old_paths new_paths True) = Inr d \<and> areEquals d new_paths = Inr True"
  by (rule comparison_turns_one_into_other) (simp_all add: old_paths_def new_paths_def)

text \<open>What the condition on containers excludes: an array and an object with no entries have no difference.\<close>

lemma comparison_confuses_kinds:
  "compare (JObj [(''a'', JArr [])]) (JObj [(''a'', JObj [])]) True = []"
  "areEquals (JObj [(''a'', JArr [])]) (JObj [(''a'', JObj [])]) = Inr False"
  by (simp_all add: compare_def generate.simps added_def missing_keys_def calls_hasOwnProperty_def)

text \<open>C30: The equality of the library tells two documents apart exactly by what a path can observe: it holds
  if and only if every list of keys leads in both documents to nothing, to the same primitive value, or to
  a container of the same kind.  So it ignores the order of the keys, and nothing else.\<close>

theorem equality_is_observed:
  assumes "document e" and "document t"
  shows "areEquals e t =
    Inr (\<forall>path. map_option outline (value_at e path) = map_option outline (value_at t path))"
  using areEquals_same [OF assms(2), of e] same_iff_paths [OF assms] by simp

theorem equality_is_observed_witness:
  "\<forall>path. map_option outline (value_at (JObj [(''a'', JArr [JNum ''1'']), (''b'', JNull)]) path) =
   map_option outline (value_at (JObj [(''b'', JNull), (''a'', JArr [JNum ''1''])]) path)"
proof -
  have "areEquals (JObj [(''a'', JArr [JNum ''1'']), (''b'', JNull)]) (JObj [(''b'', JNull), (''a'', JArr [JNum ''1''])])
      = Inr True"
    by (simp add: calls_hasOwnProperty_def)
  then show ?thesis
    using equality_is_observed [of "JObj [(''a'', JArr [JNum ''1'']), (''b'', JNull)]" "JObj [(''b'', JNull), (''a'', JArr [JNum ''1''])]"]
    by simp
qed

text \<open>A document whose keys include \<^verbatim>\<open>hasOwnProperty\<close> cannot be compared, not even with itself.\<close>

lemma equality_of_hidden_method:
  "areEquals (JObj [(''hasOwnProperty'', v)]) (JObj [(''hasOwnProperty'', v)]) = Inl TypeError"
  by (simp add: calls_hasOwnProperty_def)

text \<open>After a replace operation has succeeded, its pointer leads to the new value, whatever the pointer went
  through (objects, arrays, escaped keys); only \<^verbatim>\<open>-\<close> as the last segment is left out, which in an array
  names the place after the last element.\<close>

theorem replaced_value_is_read:
  assumes "applyOperation d (Replace path v) = Inr (d', r)" and "last (split_on CHR ''/'' path) \<noteq> ''-''"
  shows "getValueByPointer d' path = Inr (Some v)"
proof (cases "path = []")
  case True
  then show ?thesis using assms(1) by (simp add: getValueByPointer_def)
next
  case False
  let ?fs = "tl (split_on CHR ''/'' path)"
  have w: "walk_path (edit (Replace path v)) d path = Inr (d', r)" using assms(1) False by simp
  show ?thesis
  proof (cases "?fs = []")
    case True
    then have "edit (Replace path v) d ''undefined'' = Inr (d', r)" and a: "\<not> is_array d"
      using w by (auto simp: walk_path_def Let_def split: if_splits)
    moreover from this have "child d' ''undefined'' = Inr (Some v)" by (intro child_after_replace) auto
    moreover have "\<not> is_array d'" using calculation(1) a by (cases d) auto
    ultimately show ?thesis using False True by (simp add: getValueByPointer_def walk_path_def get_op_def)
  next
    case fs: False
    then have "walk (edit (Replace path v)) d ?fs = Inr (d', r)" using w by (simp add: walk_path_def)
    moreover have "last ?fs \<noteq> ''-''" using assms(2) fs by (metis last_tl)
    ultimately obtain d'' where "walk get_op d' ?fs = Inr (d'', Some v)" using walk_get_after_replace by blast
    then show ?thesis using False fs by (simp add: getValueByPointer_def walk_path_def)
  qed
qed

theorem replaced_value_is_read_witness:
  "getValueByPointer (JObj [(''a/b'', JArr [JNum ''1'', JStr ''new''])]) ''/a~1b/1'' = Inr (Some (JStr ''new''))"
proof (rule replaced_value_is_read)
  show "applyOperation (JObj [(''a/b'', JArr [JNum ''1'', JNum ''2''])]) (Replace ''/a~1b/1'' (JStr ''new''))
      = Inr (JObj [(''a/b'', JArr [JNum ''1'', JStr ''new''])], Some (JNum ''2''))"
    by (simp add: walk_path_def object_key_def unescapePathComponent_def array_position_def isInteger_def array_index_def
        digits_value_def double_value_def bit_length.simps to_int32_def at_position_def assign_index_def)
qed simp

text \<open>An add beyond the end of an array appends to it, as the library does not validate the patch.\<close>

lemma add_beyond_end:
  "applyOperation (JArr []) (Add ''/7'' v) = Inr (JArr [v], None)"
  by (simp add: walk_path_def array_position_def isInteger_def array_index_def
        digits_value_def double_value_def bit_length.simps to_int32_def splice_in_def splice_start_def)

end
