(* ===== verification/JSON_Patch_Valid.thy ===== *)
theory JSON_Patch_Valid
  imports JSON_Patch
begin

text \<open>
  Validation of patches in the JSON Patch library (\<^verbatim>\<open>validate\<close>, \<^verbatim>\<open>validator\<close> and the checks inside
  \<^verbatim>\<open>applyOperation\<close> of \<^verbatim>\<open>src/swagger/swagger-ui-bundle.js\<close>): the operations are JSON objects as they
  come, and each check has the name of the error it raises.  Where the code goes on with a method that
  objects inherit, or outside JSON documents, the model stops with \<open>Raised Outside\<close>, as in theory
  \<open>JSON_Patch\<close>.
\<close>

section \<open>Operations as they come\<close>

datatype patch_failure =
    SEQUENCE_NOT_AN_ARRAY
  | OPERATION_NOT_AN_OBJECT
  | OPERATION_OP_INVALID
  | OPERATION_PATH_INVALID
  | OPERATION_FROM_REQUIRED
  | OPERATION_VALUE_REQUIRED
  | OPERATION_PATH_CANNOT_ADD
  | OPERATION_PATH_UNRESOLVABLE
  | OPERATION_FROM_UNRESOLVABLE
  | OPERATION_PATH_ILLEGAL_ARRAY_INDEX
  | OPERATION_VALUE_OUT_OF_BOUNDS
  | Raised patch_error

type_synonym 'a checked = "patch_failure + 'a"

fun bind_checked :: "'a checked \<Rightarrow> ('a \<Rightarrow> 'b checked) \<Rightarrow> 'b checked" where
  "bind_checked (Inl e) f = Inl e"
| "bind_checked (Inr x) f = f x"

fun raised :: "'a result \<Rightarrow> 'a checked" where
  "raised (Inl e) = Inl (Raised e)"
| "raised (Inr x) = Inr x"

definition require :: "bool \<Rightarrow> patch_failure \<Rightarrow> unit checked" where
  "require b e = (if b then Inr () else Inl e)"

lemma bind_checked_cong [fundef_cong]:
  "r = r' \<Longrightarrow> (\<And>x. r' = Inr x \<Longrightarrow> f x = f' x) \<Longrightarrow> bind_checked r f = bind_checked r' f'"
  by (cases r') auto

text \<open>An operation of a patch, or the reading operation \<^verbatim>\<open>_get\<close> that the library uses itself.\<close>

datatype operation = Edit patch | Get string

fun str_of :: "json option \<Rightarrow> string option" where
  "str_of (Some (JStr s)) = Some s"
| "str_of _ = None"

definition known_ops :: "string set" where
  "known_ops = {''add'', ''remove'', ''replace'', ''move'', ''copy'', ''test'', ''_get''}"

text \<open>
  The first half of \<^verbatim>\<open>validator\<close> (\<^verbatim>\<open>ht\<close>), which looks at the operation alone.  The name of the operation is
  looked up in a table that inherits the methods of objects; an array stands for its text.
\<close>

definition op_name :: "json option \<Rightarrow> string checked" where
  "op_name u =
     (case u of
        Some (JStr s) \<Rightarrow>
          if s \<in> known_ops then Inr s
          else if inherited s \<or> s = ''__proto__'' then Inl (Raised Outside)
          else Inl OPERATION_OP_INVALID
      | Some (JArr xs) \<Rightarrow> Inl (Raised Outside)
      | _ \<Rightarrow> Inl OPERATION_OP_INVALID)"

definition operation_of :: "string \<Rightarrow> string \<Rightarrow> (string \<times> json) list \<Rightarrow> operation checked" where
  "operation_of name path kvs =
     (if name = ''move'' \<or> name = ''copy'' then
        (case str_of (map_of kvs ''from'') of
           None \<Rightarrow> Inl OPERATION_FROM_REQUIRED
         | Some from \<Rightarrow> Inr (Edit (if name = ''move'' then Move from path else Copy from path)))
      else if name = ''add'' \<or> name = ''replace'' \<or> name = ''test'' then
        (case map_of kvs ''value'' of
           None \<Rightarrow> Inl OPERATION_VALUE_REQUIRED
         | Some v \<Rightarrow> Inr (Edit (if name = ''add'' then Add path v
                                else if name = ''replace'' then Replace path v else Test path v)))
      else Inr (if name = ''remove'' then Edit (Remove path) else Get path))"

definition read_operation :: "json \<Rightarrow> operation checked" where
  "read_operation e =
     (case e of
        JObj kvs \<Rightarrow>
          bind_checked (op_name (map_of kvs ''op'')) (\<lambda>name.
          case str_of (map_of kvs ''path'') of
            None \<Rightarrow> Inl OPERATION_PATH_INVALID
          | Some path \<Rightarrow>
              bind_checked (require (path = [] \<or> path ! 0 = CHR ''/'') OPERATION_PATH_INVALID) (\<lambda>_.
                operation_of name path kvs))
      | _ \<Rightarrow> Inl OPERATION_NOT_AN_OBJECT)"

section \<open>Checks along a pointer\<close>

text \<open>The names arrays inherit besides those of objects.\<close>

definition array_inherited :: "string \<Rightarrow> bool" where
  "array_inherited k \<longleftrightarrow> k \<in> {''concat'', ''copyWithin'', ''entries'', ''every'', ''fill'', ''filter'', ''find'',
     ''findIndex'', ''flat'', ''flatMap'', ''forEach'', ''includes'', ''indexOf'', ''join'', ''keys'', ''lastIndexOf'',
     ''map'', ''pop'', ''push'', ''reduce'', ''reduceRight'', ''reverse'', ''shift'', ''slice'', ''some'', ''sort'',
     ''splice'', ''unshift'', ''values''}"

text \<open>Whether \<^verbatim>\<open>u[f]\<close> is defined; the segment is taken as it stands in the pointer, with its escapes.\<close>

fun raw_defined :: "json \<Rightarrow> string \<Rightarrow> bool checked" where
  "raw_defined (JArr xs) f = Inr (own (JArr xs) f \<noteq> None \<or> inherited f \<or> array_inherited f)"
| "raw_defined (JObj kvs) f = Inr (map_of kvs f \<noteq> None \<or> inherited f)"
| "raw_defined JNull f = Inl (Raised TypeError)"
| "raw_defined v f = Inl (Raised Outside)"

text \<open>The checks on a segment that names a position of an array.\<close>

fun check_position :: "bool \<Rightarrow> json \<Rightarrow> string \<Rightarrow> bool \<Rightarrow> unit checked" where
  "check_position adding (JArr xs) f final =
     (if f = ''-'' then Inr ()
      else bind_checked (require (isInteger f) OPERATION_PATH_ILLEGAL_ARRAY_INDEX) (\<lambda>_.
        require (\<not> (final \<and> adding \<and> int (length xs) < array_index f)) OPERATION_VALUE_OUT_OF_BOUNDS))"
| "check_position adding v f final = Inr ()"

text \<open>
  The loop of \<^verbatim>\<open>applyOperation\<close> (\<^verbatim>\<open>lt\<close>) with validation.  At the first segment that is not there, or at the
  last one, \<open>check\<close> is given the part of the path that exists; \<open>pre\<close> are the segments before and
  \<open>checked\<close> says whether that has happened.
\<close>

fun checked_walk ::
  "(string \<Rightarrow> unit checked) \<Rightarrow> bool \<Rightarrow> string \<Rightarrow> (json \<Rightarrow> string \<Rightarrow> (json \<times> 'a) result) \<Rightarrow>
   string list \<Rightarrow> bool \<Rightarrow> json \<Rightarrow> string list \<Rightarrow> (json \<times> 'a) checked" where
  "checked_walk check adding path act pre checked v [] = Inl (Raised TypeError)"
| "checked_walk check adding path act pre checked v (f # fs) =
     (if f = ''__proto__'' then Inl (Raised TypeError)
      else
        bind_checked
          (if checked then Inr True
           else bind_checked (raw_defined v f) (\<lambda>b.
             if \<not> b then bind_checked (check (join_with ''/'' pre)) (\<lambda>_. Inr True)
             else if fs = [] then bind_checked (check path) (\<lambda>_. Inr True)
             else Inr False)) (\<lambda>checked'.
        bind_checked (check_position adding v f (fs = [])) (\<lambda>_.
        if fs = [] then raised (act v f)
        else bind_checked (raised (child v f)) (\<lambda>c.
          case c of
            None \<Rightarrow> Inl (Raised TypeError)
          | Some c \<Rightarrow>
              bind_checked (checked_walk check adding path act (pre @ [f]) checked' c fs) (\<lambda>(c', r).
                Inr (put_child v f c', r))))))"

definition checked_path ::
  "(string \<Rightarrow> unit checked) \<Rightarrow> bool \<Rightarrow> (json \<Rightarrow> string \<Rightarrow> (json \<times> 'a) result) \<Rightarrow> json \<Rightarrow> string \<Rightarrow>
   (json \<times> 'a) checked" where
  "checked_path check adding act d path =
     checked_walk check adding path act [[]] False d (tl (split_on CHR ''/'' path))"

text \<open>\<^verbatim>\<open>_get\<close> with validation.\<close>

definition checked_get :: "json \<Rightarrow> string \<Rightarrow> json option checked" where
  "checked_get d path =
     (if path = [] then Inr (Some d)
      else bind_checked (require (path ! 0 = CHR ''/'') OPERATION_PATH_INVALID) (\<lambda>_.
        bind_checked (checked_path (\<lambda>there. require (path = there) OPERATION_PATH_UNRESOLVABLE) False get_op d path)
          (\<lambda>(_, v). Inr v)))"

text \<open>
  The source of a move or a copy is read with validation; of the errors the library defines only the one
  for a missing path counts, others are passed over.
\<close>

definition check_source :: "json \<Rightarrow> string \<Rightarrow> unit checked" where
  "check_source d from =
     (case checked_get d from of
        Inr _ \<Rightarrow> Inr ()
      | Inl OPERATION_PATH_UNRESOLVABLE \<Rightarrow> Inl OPERATION_FROM_UNRESOLVABLE
      | Inl (Raised e) \<Rightarrow> Inl (Raised e)
      | Inl _ \<Rightarrow> Inr ())"

text \<open>
  The second half of \<^verbatim>\<open>validator\<close>: the operation against the document and the part of its path that
  exists.
\<close>

fun check_operation :: "json \<Rightarrow> patch \<Rightarrow> string \<Rightarrow> unit checked" where
  "check_operation d (Add path v) there =
     (let n = length (split_on CHR ''/'' path); m = length (split_on CHR ''/'' there)
      in require (n = m + 1 \<or> n = m) OPERATION_PATH_CANNOT_ADD)"
| "check_operation d (Replace path v) there = require (path = there) OPERATION_PATH_UNRESOLVABLE"
| "check_operation d (Remove path) there = require (path = there) OPERATION_PATH_UNRESOLVABLE"
| "check_operation d (Test path v) there = Inr ()"
| "check_operation d (Move from path) there = check_source d from"
| "check_operation d (Copy from path) there = check_source d from"

section \<open>Validation\<close>

fun patch_path :: "patch \<Rightarrow> string" where
  "patch_path (Add path v) = path"
| "patch_path (Remove path) = path"
| "patch_path (Replace path v) = path"
| "patch_path (Move from path) = path"
| "patch_path (Copy from path) = path"
| "patch_path (Test path v) = path"

fun is_add :: "patch \<Rightarrow> bool" where
  "is_add (Add path v) = True"
| "is_add _ = False"

fun relocates :: "patch \<Rightarrow> bool" where
  "relocates (Move from path) = True"
| "relocates (Copy from path) = True"
| "relocates _ = False"

text \<open>
  \<^verbatim>\<open>applyOperation\<close> with validation, after the first half of the validator.  A move and a copy go to
  their target with validation, and are then carried out by operations without it.
\<close>

fun checked_operation :: "json \<Rightarrow> operation \<Rightarrow> json checked" where
  "checked_operation d (Get path) = bind_checked (checked_get d path) (\<lambda>_. Inr d)"
| "checked_operation d (Edit op) =
     (if patch_path op = [] then bind_checked (raised (applyOperation d op)) (\<lambda>(d', _). Inr d')
      else if relocates op then
        bind_checked (checked_path (check_operation d op) False (\<lambda>v f. Inr (v, ())) d (patch_path op)) (\<lambda>_.
        bind_checked (raised (applyOperation d op)) (\<lambda>(d', _). Inr d'))
      else
        bind_checked (checked_path (check_operation d op) (is_add op) (edit op) d (patch_path op)) (\<lambda>(d', _). Inr d'))"

fun checked_patch :: "json \<Rightarrow> json list \<Rightarrow> json checked" where
  "checked_patch d [] = Inr d"
| "checked_patch d (e # es) =
     bind_checked (read_operation e) (\<lambda>op. bind_checked (checked_operation d op) (\<lambda>d'. checked_patch d' es))"

fun read_operations :: "json list \<Rightarrow> operation list checked" where
  "read_operations [] = Inr []"
| "read_operations (e # es) =
     bind_checked (read_operation e) (\<lambda>op. bind_checked (read_operations es) (\<lambda>ops. Inr (op # ops)))"

text \<open>
  \<^verbatim>\<open>validate\<close> (\<^verbatim>\<open>dt\<close>): \<open>None\<close> is \<^verbatim>\<open>undefined\<close>, no error.  Without a document, or with one that counts as
  false, only the operations are looked at.  The errors the library defines are returned, others
  (\<open>Raised TypeError\<close>) leave the function.
\<close>

definition counts_as_false :: "json \<Rightarrow> bool" where
  "counts_as_false d \<longleftrightarrow> d \<in> {JNull, JBool False, JNum ''0'', JStr []}"

definition validate :: "json \<Rightarrow> json option \<Rightarrow> patch_failure option" where
  "validate sequence document =
     (case sequence of
        JArr es \<Rightarrow>
          (case (case document of
               Some d \<Rightarrow> if counts_as_false d then bind_checked (read_operations es) (\<lambda>_. Inr ())
                         else bind_checked (checked_patch d es) (\<lambda>_. Inr ())
             | None \<Rightarrow> bind_checked (read_operations es) (\<lambda>_. Inr ())) of
             Inl e \<Rightarrow> Some e
           | Inr _ \<Rightarrow> None)
      | _ \<Rightarrow> Some SEQUENCE_NOT_AN_ARRAY)"

section \<open>Validated patches\<close>

lemma bind_checked_Inr: "bind_checked r f = Inr y \<longleftrightarrow> (\<exists>x. r = Inr x \<and> f x = Inr y)"
  by (cases r) auto

lemma unchecked_Inr [simp]: "raised r = Inr x \<longleftrightarrow> r = Inr x"
  by (cases r) auto

lemma bind_result_Inr: "bind_result r f = Inr y \<longleftrightarrow> (\<exists>x. r = Inr x \<and> f x = Inr y)"
  by (cases r) auto

text \<open>Where the walk with checks arrives, the one without them arrives with the same result.\<close>

lemma checked_walk_walk:
  "checked_walk check adding path act pre checked v fs = Inr r \<Longrightarrow> walk act v fs = Inr r"
proof (induction fs arbitrary: pre checked v r)
  case (Cons f fs)
  show ?case
  proof (cases "fs = []")
    case True
    then show ?thesis using Cons.prems by (auto simp: bind_checked_Inr split: if_splits)
  next
    case False
    obtain checked' u c' r' where "f \<noteq> ''__proto__''" "child v f = Inr (Some u)"
      "checked_walk check adding path act (pre @ [f]) checked' u fs = Inr (c', r')" "r = (put_child v f c', r')"
      using Cons.prems False by (auto simp: bind_checked_Inr split: if_splits option.splits)
    then show ?thesis using False Cons.IH by (auto simp: bind_result_Inr)
  qed
qed simp

lemma slash_path_segments: "path \<noteq> [] \<Longrightarrow> path ! 0 = CHR ''/'' \<Longrightarrow> tl (split_on CHR ''/'' path) \<noteq> []"
  by (cases path) simp_all

lemma checked_path_walk:
  assumes "checked_path check adding act d path = Inr r" and "path \<noteq> []" and "path ! 0 = CHR ''/''"
  shows "walk_path act d path = Inr r"
  using checked_walk_walk [OF assms(1) [unfolded checked_path_def]] slash_path_segments [OF assms(2,3)]
  by (simp add: walk_path_def)

lemma checked_operation_applies:
  assumes "checked_operation d (Edit op) = Inr d'"
    and "patch_path op = [] \<or> patch_path op ! 0 = CHR ''/''"
  shows "\<exists>r. applyOperation d op = Inr (d', r)"
proof (cases "patch_path op = [] \<or> relocates op")
  case True
  then show ?thesis using assms(1) by (auto simp: bind_checked_Inr split: if_splits)
next
  case False
  then obtain r where "checked_path (check_operation d op) (is_add op) (edit op) d (patch_path op) = Inr (d', r)"
    using assms(1) by (auto simp: bind_checked_Inr split: if_splits)
  then have "walk_path (edit op) d (patch_path op) = Inr (d', r)"
    using checked_path_walk False assms(2) by blast
  then show ?thesis using False by (cases op) auto
qed

lemma operation_of_path: "operation_of name path kvs = Inr (Edit op) \<Longrightarrow> patch_path op = path"
  by (auto simp: operation_of_def split: option.splits if_splits)

lemma read_operation_path:
  assumes "read_operation e = Inr (Edit op)"
  shows "patch_path op = [] \<or> patch_path op ! 0 = CHR ''/''"
proof -
  obtain kvs name path where "operation_of name path kvs = Inr (Edit op)" "path = [] \<or> path ! 0 = CHR ''/''"
    using assms
    by (cases e) (auto simp: read_operation_def require_def bind_checked_Inr split: option.splits if_splits)
  then show ?thesis by (simp add: operation_of_path)
qed

text \<open>The operations of a patch that change the document.\<close>

definition edits_of :: "operation list \<Rightarrow> patch list" where
  "edits_of ops = concat (map (\<lambda>op. case op of Edit p \<Rightarrow> [p] | Get _ \<Rightarrow> []) ops)"

lemma edits_of_simps [simp]:
  "edits_of [] = []" "edits_of (Edit p # ops) = p # edits_of ops" "edits_of (Get path # ops) = edits_of ops"
  by (simp_all add: edits_of_def)

lemma checked_patch_applies:
  "checked_patch d es = Inr d' \<Longrightarrow>
   \<exists>ops. read_operations es = Inr ops \<and> applyPatch d (edits_of ops) = Inr d'"
proof (induction es arbitrary: d)
  case (Cons e es)
  then obtain op d1 where op: "read_operation e = Inr op" "checked_operation d op = Inr d1" "checked_patch d1 es = Inr d'"
    by (auto simp: bind_checked_Inr)
  obtain ops where ops: "read_operations es = Inr ops" "applyPatch d1 (edits_of ops) = Inr d'"
    using Cons.IH [OF op(3)] by blast
  show ?case
  proof (cases op)
    case (Edit p)
    then obtain r where "applyOperation d p = Inr (d1, r)"
      using checked_operation_applies op(1,2) read_operation_path by blast
    then show ?thesis using op(1) ops Edit by simp
  next
    case (Get path)
    then have "d1 = d" using op(2) by (auto simp: bind_checked_Inr)
    then show ?thesis using op(1) ops Get by simp
  qed
qed simp

section \<open>What the checks establish\<close>





























section \<open>What validation promises\<close>





text \<open>Validation looks a segment up with its escapes, so it finds no key that has a slash or a tilde.\<close>

lemma escaped_key_rejected:
  "validate (JArr [JObj [(''op'', JStr ''replace''), (''path'', JStr ''/a~1b''), (''value'', v)]])
     (Some (JObj [(''a/b'', JNull)])) = Some OPERATION_PATH_UNRESOLVABLE"
  "applyOperation (JObj [(''a/b'', JNull)]) (Replace ''/a~1b'' v) = Inr (JObj [(''a/b'', v)], Some JNull)"
  by (simp_all add: validate_def counts_as_false_def read_operation_def op_name_def known_ops_def
      operation_of_def require_def checked_path_def inherited_def object_key_def Let_def walk_path_def
      unescapePathComponent_def put_property_def index_key_def isInteger_def)

end
