(* ===== verification/Swagger_Search.thy ===== *)
theory Swagger_Search
  imports Did_Web
begin

text \<open>
  The query of the page's address, which the top bar of Swagger UI reads and rewrites
  (\<^verbatim>\<open>src/swagger/swagger-ui-standalone-preset.js\<close>: \<^verbatim>\<open>parseSearch\<close>, \<^verbatim>\<open>serializeSearch\<close>), with the functions
  \<^verbatim>\<open>encodeURIComponent\<close> and \<^verbatim>\<open>decodeURIComponent\<close> of JavaScript.  A well-formed JavaScript string is
  represented by its UTF-8 bytes, on which both functions work; a string with a lone surrogate, which
  \<^verbatim>\<open>encodeURIComponent\<close> rejects, is not represented.
\<close>

section \<open>UTF-8\<close>

text \<open>How many bytes follow the first one of a sequence; the first bytes of no sequence give \<open>None\<close>.\<close>

definition utf8_more :: "char \<Rightarrow> nat option" where
  "utf8_more c =
     (let n = of_char c :: nat in
      if n < 128 then Some 0 else if n < 192 then None else if n < 224 then Some 1
      else if n < 240 then Some 2 else if n < 248 then Some 3 else None)"

definition utf8_cont :: "char \<Rightarrow> bool" where
  "utf8_cont c \<longleftrightarrow> (let n = of_char c :: nat in 128 \<le> n \<and> n < 192)"

text \<open>The encodings of code points: neither overlong, nor of surrogates, nor above 10FFFF.\<close>

fun utf8_seq :: "string \<Rightarrow> bool" where
  "utf8_seq [a] \<longleftrightarrow> (of_char a :: nat) < 128"
| "utf8_seq [a, b] \<longleftrightarrow> (194 :: nat) \<le> of_char a \<and> utf8_more a = Some 1 \<and> utf8_cont b"
| "utf8_seq [a, b, c] \<longleftrightarrow>
     utf8_more a = Some 2 \<and> utf8_cont b \<and> utf8_cont c \<and>
     (of_char a = (224 :: nat) \<longrightarrow> (160 :: nat) \<le> of_char b) \<and>
     (of_char a = (237 :: nat) \<longrightarrow> of_char b < (160 :: nat))"
| "utf8_seq [a, b, c, d] \<longleftrightarrow>
     utf8_more a = Some 3 \<and> utf8_cont b \<and> utf8_cont c \<and> utf8_cont d \<and> of_char a \<le> (244 :: nat) \<and>
     (of_char a = (240 :: nat) \<longrightarrow> (144 :: nat) \<le> of_char b) \<and>
     (of_char a = (244 :: nat) \<longrightarrow> of_char b < (144 :: nat))"
| "utf8_seq _ \<longleftrightarrow> False"

fun utf8 :: "string \<Rightarrow> bool" where
  "utf8 [] = True"
| "utf8 (c # s) =
     (case utf8_more c of
        None \<Rightarrow> False
      | Some n \<Rightarrow> utf8_seq (c # take n s) \<and> utf8 (drop n s))"

section \<open>encodeURIComponent and decodeURIComponent\<close>

definition uri_unreserved :: "char \<Rightarrow> bool" where
  "uri_unreserved c \<longleftrightarrow> is_lower c \<or> is_upper c \<or> is_digit c \<or> c \<in> set ''-_.!~*'' \<or> c \<in> {CHR 0x27, CHR ''('', CHR '')''}"

definition percent :: "char \<Rightarrow> string" where
  "percent c = [CHR ''%'', hex_char (of_char c div 16), hex_char (of_char c mod 16)]"

definition encode_byte :: "char \<Rightarrow> string" where
  "encode_byte c = (if uri_unreserved c then [c] else percent c)"

definition encodeURIComponent :: "string \<Rightarrow> string" where
  "encodeURIComponent s = concat (map encode_byte s)"

definition uri_error :: goerror where
  "uri_error = Plain ''URIError''"

fun percent_byte :: "string \<Rightarrow> (char \<times> string) option" where
  "percent_byte (p # a # b # s) =
     (if p = CHR ''%'' then
        (case (unhex a, unhex b) of (Some x, Some y) \<Rightarrow> Some (char_of (x * 16 + y), s) | _ \<Rightarrow> None)
      else None)"
| "percent_byte _ = None"

fun percent_bytes :: "nat \<Rightarrow> string \<Rightarrow> (string \<times> string) option" where
  "percent_bytes 0 s = Some ([], s)"
| "percent_bytes (Suc n) s =
     (case percent_byte s of
        None \<Rightarrow> None
      | Some (c, t) \<Rightarrow> map_option (\<lambda>(cs, u). (c # cs, u)) (percent_bytes n t))"

lemma percent_byte_length: "percent_byte s = Some (c, t) \<Longrightarrow> length t < length s"
  by (induction s rule: percent_byte.induct) (auto split: if_splits option.splits)

lemma percent_bytes_length: "percent_bytes n s = Some (cs, t) \<Longrightarrow> length t \<le> length s"
proof (induction n s arbitrary: cs t rule: percent_bytes.induct)
  case (2 n s)
  then show ?case using percent_byte_length by (fastforce split: option.splits)
qed simp

text \<open>An escape opens a sequence of as many escapes as its first byte asks for.\<close>

function decodeURIComponent :: "string \<Rightarrow> string outcome" where
  "decodeURIComponent [] = Ok []"
| "decodeURIComponent (c # s) =
     (if c \<noteq> CHR ''%'' then obind (decodeURIComponent s) (\<lambda>r. Ok (c # r))
      else
        (case percent_byte (c # s) of
           None \<Rightarrow> Err uri_error
         | Some (b, t) \<Rightarrow>
             (case utf8_more b of
                None \<Rightarrow> Err uri_error
              | Some n \<Rightarrow>
                  (case percent_bytes n t of
                     None \<Rightarrow> Err uri_error
                   | Some (bs, u) \<Rightarrow>
                       if utf8_seq (b # bs)
                       then obind (decodeURIComponent u) (\<lambda>r. Ok (b # bs @ r))
                       else Err uri_error))))"
  by pat_completeness auto
termination
  by (relation "measure length") (auto dest!: percent_byte_length percent_bytes_length simp del: percent_byte.simps)

section \<open>The query\<close>

text \<open>Assigning a string to the property \<^verbatim>\<open>__proto__\<close> of an object does nothing.\<close>

definition set_property :: "string \<Rightarrow> string \<Rightarrow> (string \<rightharpoonup> string) \<Rightarrow> (string \<rightharpoonup> string)" where
  "set_property k v t = (if k = ''__proto__'' then t else t(k \<mapsto> v))"

fun search_fields :: "string list \<Rightarrow> (string \<rightharpoonup> string) \<Rightarrow> (string \<rightharpoonup> string) outcome" where
  "search_fields [] t = Ok t"
| "search_fields (f # fs) t =
     (case split_on CHR ''='' f of
        k # v # _ \<Rightarrow>
          obind (decodeURIComponent k) (\<lambda>k.
          obind (if v = [] then Ok [] else decodeURIComponent v) (\<lambda>v.
            search_fields fs (set_property k v t)))
      | k # _ \<Rightarrow> obind (decodeURIComponent k) (\<lambda>k. search_fields fs (set_property k [] t))
      | [] \<Rightarrow> search_fields fs t)"

definition parseSearch :: "string \<Rightarrow> (string \<rightharpoonup> string) outcome" where
  "parseSearch search =
     (if search = [] then Ok Map.empty else search_fields (split_on CHR ''&'' (drop 1 search)) Map.empty)"

text \<open>The object is the list of its entries in the order of its keys.\<close>

definition serializeSearch :: "(string \<times> string) list \<Rightarrow> string" where
  "serializeSearch m =
     join_with ''&'' (map (\<lambda>(k, v). encodeURIComponent k @ ''='' @ encodeURIComponent v) m)"

section \<open>The round trip\<close>

lemma uri_unreserved_not: "\<not> uri_unreserved CHR ''%''" "\<not> uri_unreserved CHR ''&''" "\<not> uri_unreserved CHR ''=''"
  by code_simp+

lemma uri_unreserved_ascii: "uri_unreserved c \<Longrightarrow> (of_char c :: nat) < 128"
  by (auto simp: uri_unreserved_def is_lower_def is_upper_def is_digit_def)

lemma hex_not_sep_all: "list_all (\<lambda>n. hex_char n \<noteq> CHR ''&'' \<and> hex_char n \<noteq> CHR ''='') [0..<16]"
  by code_simp

lemma hex_not_sep: "n < 16 \<Longrightarrow> hex_char n \<noteq> CHR ''&'' \<and> hex_char n \<noteq> CHR ''=''"
  using hex_not_sep_all by (simp add: list_all_iff)

lemma encode_byte_no_sep: "CHR ''&'' \<notin> set (encode_byte c) \<and> CHR ''='' \<notin> set (encode_byte c)"
  using hex_not_sep [OF byte_halves(1) [of c]] hex_not_sep [OF byte_halves(2) [of c]] uri_unreserved_not
  by (auto simp: encode_byte_def percent_def)

lemma encode_no_sep: "CHR ''&'' \<notin> set (encodeURIComponent s) \<and> CHR ''='' \<notin> set (encodeURIComponent s)"
  using encode_byte_no_sep by (auto simp: encodeURIComponent_def)

lemma percent_byte_percent: "percent_byte (percent c @ s) = Some (c, s)"
proof -
  have "(of_char c :: nat) div 16 * 16 + of_char c mod 16 = of_char c" by (rule div_mult_mod_eq)
  then show ?thesis by (simp add: percent_def unhex_hex byte_halves)
qed

lemma percent_bytes_percent:
  "percent_bytes (length cs) (concat (map percent cs) @ s) = Some (cs, s)"
  by (induction cs) (simp_all add: percent_byte_percent)

lemma utf8_seq_high:
  assumes "utf8_seq (c # cs)" and "\<not> (of_char c :: nat) < 128"
  shows "\<forall>d \<in> set (c # cs). \<not> (of_char d :: nat) < 128"
  using assms by (induction "c # cs" rule: utf8_seq.induct) (auto simp: utf8_cont_def Let_def)

lemma ascii_more: "(of_char a :: nat) < 128 \<Longrightarrow> utf8_more a = Some 0"
  by (simp add: utf8_more_def)

lemma utf8_seq_more: "utf8_seq (c # cs) \<Longrightarrow> utf8_more c = Some (length cs)"
  by (induction "c # cs" rule: utf8_seq.induct) (auto simp: ascii_more)

text \<open>Decoding undoes every percent-encoding that leaves alone only ASCII characters other than \<^verbatim>\<open>%\<close>.\<close>

definition encode_with :: "(char \<Rightarrow> bool) \<Rightarrow> char \<Rightarrow> string" where
  "encode_with U c = (if U c then [c] else percent c)"

lemma encodeURIComponent_with: "encodeURIComponent s = concat (map (encode_with uri_unreserved) s)"
proof -
  have "encode_byte = encode_with uri_unreserved"
    by (simp add: fun_eq_iff encode_byte_def encode_with_def)
  then show ?thesis by (simp add: encodeURIComponent_def)
qed

lemma decode_encode_with:
  assumes U: "\<And>c. U c \<Longrightarrow> c \<noteq> CHR ''%'' \<and> (of_char c :: nat) < 128"
  shows "utf8 s \<Longrightarrow> decodeURIComponent (concat (map (encode_with U) s)) = Ok s"
proof (induction s rule: utf8.induct)
  case (2 c s)
  let ?enc = "\<lambda>s. concat (map (encode_with U) s)"
  obtain n where n: "utf8_more c = Some n" and seq: "utf8_seq (c # take n s)" and rest: "utf8 (drop n s)"
    using 2 by (auto split: option.splits)
  have IH: "decodeURIComponent (?enc (drop n s)) = Ok (drop n s)"
    using 2 n rest by blast
  have len: "length (take n s) = n" using utf8_seq_more [OF seq] n by simp
  show ?case
  proof (cases "(of_char c :: nat) < 128")
    case True
    then have "n = 0" using n by (simp add: utf8_more_def)
    have dec: "decodeURIComponent (?enc s) = Ok s" using IH by (simp add: \<open>n = 0\<close>)
    show ?thesis
    proof (cases "U c")
      case u: True
      then have "encode_with U c = [c]" "c \<noteq> CHR ''%''" using U by (auto simp: encode_with_def)
      then show ?thesis using dec by simp
    next
      case False
      have "decodeURIComponent (percent c @ ?enc s) = Ok (c # s)"
        using percent_byte_percent [of c "?enc s"] dec True
        by (simp add: percent_def n \<open>n = 0\<close> del: percent_byte.simps)
      moreover have "encode_with U c = percent c" using False by (simp add: encode_with_def)
      ultimately show ?thesis by simp
    qed
  next
    case False
    have high: "\<forall>d \<in> set (c # take n s). encode_with U d = percent d"
      using utf8_seq_high [OF seq False] U by (auto simp: encode_with_def)
    have "?enc (c # s) = encode_with U c @ ?enc (take n s) @ ?enc (drop n s)"
      by (simp flip: concat_append map_append)
    moreover have "map (encode_with U) (take n s) = map percent (take n s)" "encode_with U c = percent c"
      using high by auto
    ultimately have enc: "?enc (c # s) = percent c @ concat (map percent (take n s)) @ ?enc (drop n s)"
      by simp
    show ?thesis
      using percent_byte_percent [of c "concat (map percent (take n s)) @ ?enc (drop n s)"]
        percent_bytes_percent [of "take n s" "?enc (drop n s)"] IH seq n len
      unfolding enc by (simp add: percent_def del: percent_byte.simps)
  qed
qed simp

lemma decode_encode: "utf8 s \<Longrightarrow> decodeURIComponent (encodeURIComponent s) = Ok s"
  unfolding encodeURIComponent_with
  by (rule decode_encode_with) (use uri_unreserved_not uri_unreserved_ascii in auto)

lemma decode_plain: "CHR ''%'' \<notin> set s \<Longrightarrow> decodeURIComponent s = Ok s"
  by (induction s) auto

lemma search_fields_serialized:
  assumes "\<forall>(k, v) \<in> set m. utf8 k \<and> utf8 v \<and> k \<noteq> ''__proto__''"
  shows "search_fields (map (\<lambda>(k, v). encodeURIComponent k @ ''='' @ encodeURIComponent v) m) t = Ok (t ++ map_of (rev m))"
  using assms
proof (induction m arbitrary: t)
  case (Cons kv m)
  obtain k v where kv: "kv = (k, v)" by (cases kv)
  have u: "utf8 k" "utf8 v" "k \<noteq> ''__proto__''" using Cons.prems kv by auto
  have "split_on CHR ''='' (encodeURIComponent k @ ''='' @ encodeURIComponent v) = [encodeURIComponent k, encodeURIComponent v]"
    using encode_no_sep by (simp add: split_on_append_sep split_on_no_sep)
  moreover have "(if encodeURIComponent v = [] then Ok [] else decodeURIComponent (encodeURIComponent v)) = Ok v"
    using decode_encode [OF u(2)] by auto
  ultimately show ?case
    using Cons decode_encode [OF u(1)] u(3) by (simp add: kv set_property_def map_add_assoc [symmetric]) 
qed simp

lemma map_of_rev_distinct: "distinct (map fst m) \<Longrightarrow> map_of (rev m) = map_of m"
  by (rule map_of_eqI) (auto simp: rev_map [symmetric] map_of_eq_Some_iff dom_map_of_conv_image_fst)

text \<open>C31: Whatever configuration entries the top bar writes into the query of the page's address, with any
  characters in their names and values, reading the address gives the same entries again.\<close>

theorem search_roundtrip:
  assumes "m \<noteq> []" and "distinct (map fst m)"
    and "\<forall>(k, v) \<in> set m. utf8 k \<and> utf8 v \<and> k \<noteq> ''__proto__''"
  shows "parseSearch (CHR ''?'' # serializeSearch m) = Ok (map_of m)"
proof -
  let ?fs = "map (\<lambda>(k, v). encodeURIComponent k @ ''='' @ encodeURIComponent v) m"
  have "split_on CHR ''&'' (join_with ''&'' ?fs) = ?fs"
    using encode_no_sep assms(1) by (intro split_join) auto
  then show ?thesis
    using search_fields_serialized [OF assms(3), of Map.empty] map_of_rev_distinct [OF assms(2)]
    by (simp add: parseSearch_def serializeSearch_def)
qed

theorem search_roundtrip_witness:
  "parseSearch (CHR ''?'' # serializeSearch [(''urls.primaryName'', ''a&b=c d''), (''x'', [CHR 0xC3, CHR 0xA9])])
     = Ok (map_of [(''urls.primaryName'', ''a&b=c d''), (''x'', [CHR 0xC3, CHR 0xA9])])"
proof -
  have "utf8 ''urls.primaryName'' \<and> utf8 ''a&b=c d'' \<and> utf8 ''x'' \<and> utf8 [CHR 0xC3, CHR 0xA9]"
    by code_simp
  then show ?thesis by (intro search_roundtrip) auto
qed

end
