(* ===== verification/Swagger_Request.thy ===== *)
theory Swagger_Request
  imports Swagger_Search JS_Object
begin

text \<open>
  The request that the API page sends for an operation (the client library inside
  \<^verbatim>\<open>src/swagger/swagger-ui-es-bundle.js\<close>): the serialisation of parameter values, the parameters' way into
  path, query, headers and cookie, for OpenAPI 3 and Swagger 2, and the query string.  The names in
  parentheses are those of the minified code.

  A parameter value is a \<^typ>\<open>json\<close>, \<open>None\<close> is \<^verbatim>\<open>undefined\<close>; texts are UTF-8 bytes, numbers the texts that
  JavaScript writes.  Uploaded files and the request body of OpenAPI 3 are not modelled, the
  security schemes are in theory \<open>Swagger_Auth\<close>; \<^verbatim>\<open>JSON.parse\<close> and \<^verbatim>\<open>JSON.stringify\<close> are parameters.
\<close>

section \<open>Values as texts\<close>

text \<open>\<^verbatim>\<open>String(v)\<close>; \<^verbatim>\<open>join\<close> writes \<^verbatim>\<open>null\<close> elements as nothing.\<close>

fun js_text :: "json \<Rightarrow> string" where
  "js_text JNull = ''null''"
| "js_text (JBool b) = (if b then ''true'' else ''false'')"
| "js_text (JNum t) = t"
| "js_text (JStr s) = s"
| "js_text (JArr xs) = join_with '','' (map (\<lambda>x. if x = JNull then [] else js_text x) xs)"
| "js_text (JObj kvs) = ''[object Object]''"

definition opt_text :: "json option \<Rightarrow> string" where
  "opt_text v = (case v of None \<Rightarrow> ''undefined'' | Some v \<Rightarrow> js_text v)"

definition js_join :: "string \<Rightarrow> json list \<Rightarrow> string" where
  "js_join sep xs = join_with sep (map (\<lambda>x. if x = JNull then [] else js_text x) xs)"

text \<open>\<^verbatim>\<open>encodeDisallowedCharacters\<close> (\<^verbatim>\<open>de\<close>); \<^verbatim>\<open>isRfc3986Unreserved\<close> is \<^const>\<open>unreserved\<close>.\<close>

datatype escaping =
    Unescaped
  | Escaped
  | Unsafe

definition isRfc3986Reserved :: "char \<Rightarrow> bool" where
  "isRfc3986Reserved c \<longleftrightarrow> c \<in> set '':/?#[]@!$&()*+,;='' \<or> c = CHR 0x27"

definition encodeDisallowedCharacters :: "escaping \<Rightarrow> json \<Rightarrow> json" where
  "encodeDisallowedCharacters escape e =
     (case (case e of JNum t \<Rightarrow> JStr t | _ \<Rightarrow> e) of
        JStr s \<Rightarrow>
          (if s \<noteq> [] \<and> escape \<noteq> Unescaped
           then JStr (concat (map (encode_with
             (\<lambda>c. unreserved c \<or> isRfc3986Reserved c \<and> escape = Unsafe)) s))
           else JStr s)
      | v \<Rightarrow> v)"

section \<open>Styles (\<^verbatim>\<open>stylize\<close>, \<^verbatim>\<open>me\<close>)\<close>

definition matrix_element :: "string \<Rightarrow> bool \<Rightarrow> string \<Rightarrow> json \<Rightarrow> string" where
  "matrix_element key explode e t =
     (if e = [] \<or> explode then e @ '';'' @ key @ ''='' @ js_text t else e @ '','' @ js_text t)"

definition encodeArray :: "string \<Rightarrow> json list \<Rightarrow> string \<Rightarrow> bool \<Rightarrow> escaping \<Rightarrow> string option" where
  "encodeArray key xs style explode escape =
     (let vs = map (encodeDisallowedCharacters escape) xs in
      if style = ''simple'' then Some (js_join '','' vs)
      else if style = ''label'' then Some (''.'' @ js_join ''.'' vs)
      else if style = ''matrix'' then Some (foldl (matrix_element key explode) [] vs)
      else if style = ''form'' then Some (js_join (if explode then ''&'' @ key @ ''='' else '','') vs)
      else if style = ''spaceDelimited'' then Some (js_join ('' '' @ (if explode then key @ ''='' else [])) vs)
      else if style = ''pipeDelimited'' then Some (js_join (''|'' @ (if explode then key @ ''='' else [])) vs)
      else None)"

text \<open>The entries of an object after the text \<open>e\<close> of the earlier ones; the keys are not escaped.\<close>

definition object_element :: "string \<Rightarrow> string \<Rightarrow> string \<Rightarrow> escaping \<Rightarrow> string \<Rightarrow> string \<times> json \<Rightarrow> string" where
  "object_element before between assign escape e = (\<lambda>(k, v).
     (if e = [] then before else e @ between) @ k @ assign @ js_text (encodeDisallowedCharacters escape v))"

definition encodeObject :: "string \<Rightarrow> (string \<times> json) list \<Rightarrow> string \<Rightarrow> bool \<Rightarrow> escaping \<Rightarrow> string option" where
  "encodeObject key kvs style explode escape =
     (if style = ''simple'' then
        Some (foldl (object_element [] '','' (if explode then ''='' else '','') escape) [] kvs)
      else if style = ''label'' then
        Some (foldl (object_element ''.'' ''.'' (if explode then ''='' else ''.'') escape) [] kvs)
      else if style = ''matrix'' \<and> explode then
        Some (foldl (object_element '';'' '';'' ''='' escape) [] kvs)
      else if style = ''matrix'' then
        Some (foldl (object_element ('';'' @ key @ ''='') '','' '','' escape) [] kvs)
      else if style = ''form'' then
        Some (foldl (object_element [] (if explode then ''&'' else '','') (if explode then ''='' else '','') escape) [] kvs)
      else None)"

definition encodePrimitive :: "string \<Rightarrow> json option \<Rightarrow> string \<Rightarrow> escaping \<Rightarrow> json option" where
  "encodePrimitive key v style escape =
     (let e = map_option (encodeDisallowedCharacters escape) v in
      if style = ''simple'' \<or> style = ''form'' \<or> style = ''deepObject'' then e
      else if style = ''label'' then Some (JStr (''.'' @ opt_text e))
      else if style = ''matrix'' then Some (JStr ('';'' @ key @ ''='' @ opt_text e))
      else None)"

text \<open>The type of \<^verbatim>\<open>null\<close> is \<^verbatim>\<open>object\<close>, but it has no keys.\<close>

definition js_type_error :: goerror where
  "js_type_error = Plain ''TypeError''"

definition stylize :: "string \<Rightarrow> json option \<Rightarrow> string \<Rightarrow> bool \<Rightarrow> escaping \<Rightarrow> json option outcome" where
  "stylize key v style explode escape =
     (case v of
        Some (JArr xs) \<Rightarrow> Ok (map_option JStr (encodeArray key xs style explode escape))
      | Some (JObj kvs) \<Rightarrow> Ok (map_option JStr (encodeObject key kvs style explode escape))
      | Some JNull \<Rightarrow> Err js_type_error
      | v \<Rightarrow> Ok (encodePrimitive key v style escape))"

section \<open>Parameters and the request\<close>

text \<open>
  The options of a parameter of the API description; of \<^verbatim>\<open>content\<close> the media types, of the schema whether
  its type is \<^verbatim>\<open>object\<close>, \<open>sp_numeric\<close> and \<open>sp_boolean\<close> the types of a Swagger 2 parameter.
\<close>

record spec_param =
  sp_name :: string
  sp_in :: string
  sp_style :: "string option"
  sp_explode :: "bool option"
  sp_allowReserved :: bool
  sp_content :: "string list option"
  sp_default :: "json option"
  sp_required :: bool
  sp_allowEmptyValue :: bool
  sp_objectSchema :: bool
  sp_numeric :: bool
  sp_boolean :: bool
  sp_collectionFormat :: "string option"

text \<open>What is left for the query string under a name.\<close>

datatype query_entry =
    QText json
  | QUndefined
  | QEmpty
  | QValue json "string option"
  | QStyled json "string option" "bool option" bool

record swagger_request =
  rq_url :: string
  rq_headers :: "(string \<times> json option) list"
  rq_query :: "(string \<times> query_entry) list option"
  rq_form :: "(string \<times> json option \<times> bool \<times> string option) list option"
  rq_body :: "json option option"

record json_lib =
  stringify :: "json \<Rightarrow> string"
  parse :: "string \<Rightarrow> json option"

text \<open>Assigning to \<^verbatim>\<open>__proto__\<close> makes no property.\<close>

definition assign_property :: "string \<Rightarrow> 'a \<Rightarrow> (string \<times> 'a) list \<Rightarrow> (string \<times> 'a) list" where
  "assign_property k v kvs = (if k = ''__proto__'' then kvs else put_property k v kvs)"

definition set_query :: "string \<Rightarrow> query_entry \<Rightarrow> swagger_request \<Rightarrow> swagger_request" where
  "set_query n e r = r\<lparr>rq_query := Some (assign_property n e (case rq_query r of None \<Rightarrow> [] | Some q \<Rightarrow> q))\<rparr>"

definition set_header :: "string \<Rightarrow> json option \<Rightarrow> swagger_request \<Rightarrow> swagger_request" where
  "set_header n v r = r\<lparr>rq_headers := assign_property n v (rq_headers r)\<rparr>"

text \<open>\<^verbatim>\<open>s.split(pat)\<close> for a text, and the replacement of \<^verbatim>\<open>{name}\<close> by \<^verbatim>\<open>split\<close> and \<^verbatim>\<open>join\<close>.\<close>

function split_text :: "string \<Rightarrow> string \<Rightarrow> string list" where
  "split_text pat [] = [[]]"
| "split_text pat (c # s) =
     (if pat \<noteq> [] \<and> prefix pat (c # s) then [] # split_text pat (drop (length pat) (c # s))
      else (case split_text pat s of [] \<Rightarrow> [[c]] | w # ws \<Rightarrow> (c # w) # ws))"
  by pat_completeness auto
termination
proof (relation "measure (\<lambda>(pat, s). length s)", goal_cases)
  case (2 pat c s)
  then show ?case by (cases pat) auto
qed auto

definition fill_path :: "string \<Rightarrow> json option \<Rightarrow> string \<Rightarrow> string" where
  "fill_path name v url =
     join_with (case v of None \<Rightarrow> '','' | Some v \<Rightarrow> js_text v) (split_text (''{'' @ name @ ''}'') url)"

definition or_default :: "string option \<Rightarrow> string \<Rightarrow> string" where
  "or_default v d = (case v of None \<Rightarrow> d | Some s \<Rightarrow> if s = [] then d else s)"

text \<open>\<^verbatim>\<open>valueEncoder\<close> (\<^verbatim>\<open>Xn\<close>) for the first media type of the content.\<close>

definition valueEncoder :: "json_lib \<Rightarrow> json option \<Rightarrow> string list \<Rightarrow> json option outcome" where
  "valueEncoder L v media =
     (case media of
        [] \<Rightarrow> Err js_type_error
      | m # _ \<Rightarrow>
          if contains m ''application/json''
          then Ok (case v of None \<Rightarrow> None | Some (JStr s) \<Rightarrow> Some (JStr s) | Some v \<Rightarrow> Some (JStr (stringify L v)))
          else (case v of
                  None \<Rightarrow> Err js_type_error
                | Some JNull \<Rightarrow> Err js_type_error
                | Some v \<Rightarrow> Ok (Some (JStr (js_text v)))))"

subsection \<open>OpenAPI 3 (\<^verbatim>\<open>Qn\<close>, \<^verbatim>\<open>er\<close>, \<^verbatim>\<open>nr\<close>, \<^verbatim>\<open>rr\<close>)\<close>

definition oas3_path :: "json_lib \<Rightarrow> spec_param \<Rightarrow> json option \<Rightarrow> swagger_request \<Rightarrow> swagger_request outcome" where
  "oas3_path L p v r =
     obind
       (case sp_content p of
          Some media \<Rightarrow> obind (valueEncoder L v media) (\<lambda>e. Ok (map_option (encodeDisallowedCharacters Escaped) e))
        | None \<Rightarrow> stylize (sp_name p) v (or_default (sp_style p) ''simple'') (sp_explode p = Some True) Escaped)
       (\<lambda>e. Ok (r\<lparr>rq_url := fill_path (sp_name p) e (rq_url r)\<rparr>))"

fun truthy :: "json \<Rightarrow> bool" where
  "truthy JNull = False"
| "truthy (JBool b) = b"
| "truthy (JNum t) = (t \<noteq> ''0'')"
| "truthy (JStr s) = (s \<noteq> [])"
| "truthy _ = True"

definition has_value :: "json option \<Rightarrow> bool" where
  "has_value v = (case v of None \<Rightarrow> False | Some v \<Rightarrow> truthy v)"

definition query_object :: "swagger_request \<Rightarrow> swagger_request" where
  "query_object r = r\<lparr>rq_query := Some (case rq_query r of None \<Rightarrow> [] | Some q \<Rightarrow> q)\<rparr>"

definition oas3_query :: "json_lib \<Rightarrow> spec_param \<Rightarrow> json option \<Rightarrow> swagger_request \<Rightarrow> swagger_request outcome" where
  "oas3_query L p v r =
     (case sp_content p of
        Some media \<Rightarrow>
          obind (valueEncoder L v media) (\<lambda>e.
            Ok (set_query (sp_name p) (case e of None \<Rightarrow> QUndefined | Some e \<Rightarrow> QText e) r))
      | None \<Rightarrow>
          (let v = (if v = Some (JBool False) then Some (JStr ''false'') else if v = Some (JNum ''0'') then Some (JStr ''0'') else v) in
           if has_value v
           then Ok (set_query (sp_name p) (QStyled (the v) (sp_style p) (sp_explode p) (sp_allowReserved p)) r)
           else if sp_allowEmptyValue p \<and> v \<noteq> None then Ok (set_query (sp_name p) QEmpty r)
           else Ok (query_object r)))"

text \<open>The names are compared in lower case; no other character has one of these letters as its lower case.\<close>

definition ascii_lower :: "char \<Rightarrow> char" where
  "ascii_lower c = (if is_upper c then char_of (of_char c + 32 :: nat) else c)"

definition protected_header :: "string \<Rightarrow> bool" where
  "protected_header n \<longleftrightarrow> map ascii_lower n \<in> {''accept'', ''authorization'', ''content-type''}"

definition oas3_header :: "json_lib \<Rightarrow> spec_param \<Rightarrow> json option \<Rightarrow> swagger_request \<Rightarrow> swagger_request outcome" where
  "oas3_header L p v r =
     (if protected_header (sp_name p) then Ok r
      else
        (case sp_content p of
           Some media \<Rightarrow> obind (valueEncoder L v media) (\<lambda>e. Ok (set_header (sp_name p) e r))
         | None \<Rightarrow>
             if v = None then Ok r
             else obind (stylize (sp_name p) v (or_default (sp_style p) ''simple'') (sp_explode p = Some True) Unescaped)
               (\<lambda>e. Ok (set_header (sp_name p) e r))))"

definition oas3_cookie :: "json_lib \<Rightarrow> spec_param \<Rightarrow> json option \<Rightarrow> swagger_request \<Rightarrow> swagger_request outcome" where
  "oas3_cookie L p v r =
     (case sp_content p of
        Some media \<Rightarrow>
          obind (valueEncoder L v media) (\<lambda>e.
            Ok (set_header ''Cookie'' (Some (JStr (sp_name p @ ''='' @ opt_text e))) r))
      | None \<Rightarrow>
          (if v = None then Ok r
           else
             (let pre = (case v of Some (JObj _) \<Rightarrow> if sp_explode p = Some True then [] else sp_name p @ ''=''
                         | _ \<Rightarrow> sp_name p @ ''='') in
              obind (stylize (sp_name p) v (or_default (sp_style p) ''form'') (sp_explode p = Some True) Unescaped)
                (\<lambda>e. Ok (set_header ''Cookie'' (Some (JStr (pre @ opt_text e))) r)))))"

definition oas3_builder :: "json_lib \<Rightarrow> spec_param \<Rightarrow> json option \<Rightarrow> swagger_request \<Rightarrow> swagger_request outcome" where
  "oas3_builder L p v r =
     (if sp_in p = ''path'' then oas3_path L p v r
      else if sp_in p = ''query'' then oas3_query L p v r
      else if sp_in p = ''header'' then oas3_header L p v r
      else if sp_in p = ''cookie'' then oas3_cookie L p v r
      else Ok r)"

subsection \<open>Swagger 2 (\<^verbatim>\<open>Zn\<close>)\<close>

definition swagger2_query :: "spec_param \<Rightarrow> json option \<Rightarrow> swagger_request \<Rightarrow> swagger_request" where
  "swagger2_query p v r =
     (let v = (if v = Some (JBool False) \<and> sp_boolean p then Some (JStr ''false'') else v);
          v = (if v = Some (JNum ''0'') \<and> sp_numeric p then Some (JStr ''0'') else v) in
      if has_value v then set_query (sp_name p) (QValue (the v) (sp_collectionFormat p)) r
      else if sp_allowEmptyValue p \<and> v \<noteq> None then set_query (sp_name p) QEmpty r
      else query_object r)"

definition swagger2_builder :: "spec_param \<Rightarrow> json option \<Rightarrow> swagger_request \<Rightarrow> swagger_request" where
  "swagger2_builder p v r =
     (if sp_in p = ''path'' then
        r\<lparr>rq_url := fill_path (sp_name p) (Some (JStr (encodeURIComponent (opt_text v)))) (rq_url r)\<rparr>
      else if sp_in p = ''query'' then swagger2_query p v r
      else if sp_in p = ''header'' then (if v = None then r else set_header (sp_name p) v r)
      else if sp_in p = ''body'' then r\<lparr>rq_body := Some v\<rparr>
      else if sp_in p = ''formData'' then
        (if has_value v \<or> sp_allowEmptyValue p
         then r\<lparr>rq_form := Some (assign_property (sp_name p) (v, sp_allowEmptyValue p, sp_collectionFormat p)
                (case rq_form r of None \<Rightarrow> [] | Some f \<Rightarrow> f))\<rparr>
         else r)
      else r)"

section \<open>The parameters of an operation\<close>

text \<open>
  Removing duplicates: the parameters are grouped by location and name, a later one replaces an earlier
  one; the parameters of the path come after those of the operation.
\<close>

definition group_parameter ::
  "(string \<times> (string \<times> spec_param) list) list \<Rightarrow> spec_param \<Rightarrow> (string \<times> (string \<times> spec_param) list) list" where
  "group_parameter t p =
     assign_property (sp_in p)
       (assign_property (sp_name p) p (case map_of t (sp_in p) of None \<Rightarrow> [] | Some ps \<Rightarrow> ps)) t"

definition deduplicateParameters :: "spec_param list \<Rightarrow> spec_param list" where
  "deduplicateParameters ps = concat (map (\<lambda>(l, qs). map snd qs) (foldl group_parameter [] ps))"

text \<open>The value given for a parameter, under its name or under location and name.\<close>

definition given_value :: "(string \<times> json) list \<Rightarrow> spec_param \<Rightarrow> json option" where
  "given_value vals p =
     (if sp_name p = [] then Some (JStr [])
      else
        (case map_of vals (sp_name p) of
           Some v \<Rightarrow> Some v
         | None \<Rightarrow> map_of vals (sp_in p @ ''.'' @ sp_name p)))"

definition missing_parameter :: "string \<Rightarrow> goerror" where
  "missing_parameter n = Plain (''Required parameter '' @ n @ '' is not provided'')"

definition bad_object :: goerror where
  "bad_object = Plain ''Could not parse object parameter value string as JSON''"

definition add_parameter ::
  "json_lib \<Rightarrow> bool \<Rightarrow> (string \<times> json) list \<Rightarrow> spec_param \<Rightarrow> swagger_request \<Rightarrow> swagger_request outcome" where
  "add_parameter L oas3 vals p r =
     (let given = given_value vals p;
          v = (case given of None \<Rightarrow> sp_default p | v \<Rightarrow> v) in
      if given = Some JNull then Ok r
      else if v = None \<and> sp_required p \<and> \<not> sp_allowEmptyValue p then Err (missing_parameter (sp_name p))
      else
        obind
          (case v of
             Some (JStr s) \<Rightarrow>
               if oas3 \<and> sp_objectSchema p
               then (case parse L s of None \<Rightarrow> Err bad_object | v \<Rightarrow> Ok v)
               else Ok v
           | v \<Rightarrow> Ok v)
          (\<lambda>v. if oas3 then oas3_builder L p v r else Ok (swagger2_builder p v r)))"

fun add_parameters ::
  "json_lib \<Rightarrow> bool \<Rightarrow> (string \<times> json) list \<Rightarrow> spec_param list \<Rightarrow> swagger_request \<Rightarrow> swagger_request outcome" where
  "add_parameters L oas3 vals [] r = Ok r"
| "add_parameters L oas3 vals (p # ps) r =
     obind (add_parameter L oas3 vals p r) (add_parameters L oas3 vals ps)"

section \<open>The query string\<close>

text \<open>
  \<^verbatim>\<open>encodeFormOrQuery\<close>'s entries (\<^verbatim>\<open>ke\<close>, \<^verbatim>\<open>je\<close>): the name and the value, or the list of values, that go into
  the query.  The separators of unknown styles and formats are \<^verbatim>\<open>undefined\<close>, which \<^verbatim>\<open>join\<close> takes for a comma.
\<close>

definition style_separator :: "string \<Rightarrow> string" where
  "style_separator style =
     (if style = ''spaceDelimited'' then ''%20'' else if style = ''pipeDelimited'' then ''|'' else '','')"

definition collection_separator :: "string option \<Rightarrow> string" where
  "collection_separator f =
     (let f = or_default f ''csv'' in
      if f = ''ssv'' then ''%20'' else if f = ''tsv'' then ''%09'' else if f = ''pipes'' then ''|'' else '','')"

definition escape_name :: "escaping \<Rightarrow> string \<Rightarrow> string" where
  "escape_name escape n = js_text (encodeDisallowedCharacters escape (JStr n))"

definition styled_entries ::
  "string \<Rightarrow> json \<Rightarrow> string option \<Rightarrow> bool option \<Rightarrow> bool \<Rightarrow> (string \<times> json) list" where
  "styled_entries n v style explode allowReserved =
     (let style = or_default style ''form'';
          explode = (case explode of None \<Rightarrow> style = ''form'' | Some e \<Rightarrow> e);
          escape = (if allowReserved then Unsafe else Escaped);
          enc = encodeDisallowedCharacters escape;
          name = escape_name escape in
      case v of
        JArr xs \<Rightarrow>
          [(name n, if explode then JArr (map enc xs) else JStr (js_join (style_separator style) (map enc xs)))]
      | JObj kvs \<Rightarrow>
          (if style = ''deepObject'' then map (\<lambda>(k, w). (name (n @ ''['' @ k @ '']''), enc w)) kvs
           else if explode then map (\<lambda>(k, w). (name k, enc w)) kvs
           else [(name n, JStr (join_with '','' (map (\<lambda>(k, w). name k @ '','' @ js_text (enc w)) kvs)))])
      | v \<Rightarrow> [(name n, enc v)])"

definition uri_text :: "json \<Rightarrow> json" where
  "uri_text v = JStr (encodeURIComponent (js_text v))"

definition query_entries :: "string \<Rightarrow> query_entry \<Rightarrow> (string \<times> json) list outcome" where
  "query_entries n e =
     (let name = encodeURIComponent n in
      case e of
        QUndefined \<Rightarrow> Err js_type_error
      | QEmpty \<Rightarrow> Ok [(name, JStr [])]
      | QText v \<Rightarrow> Ok [(name, uri_text v)]
      | QStyled v style explode allowReserved \<Rightarrow> Ok (styled_entries n v style explode allowReserved)
      | QValue v f \<Rightarrow>
          Ok (case v of
              JArr xs \<Rightarrow>
                [(name, if f = Some ''multi'' then JArr (map uri_text xs)
                        else JStr (js_join (collection_separator f) (map uri_text xs)))]
            | JObj kvs \<Rightarrow> [(name, JStr [])]
            | v \<Rightarrow> [(name, uri_text v)]))"

text \<open>\<^verbatim>\<open>qs.stringify\<close> without encoding and indices.\<close>

fun qs_pairs :: "string \<Rightarrow> json \<Rightarrow> string list" where
  "qs_pairs p (JArr xs) = concat (map (qs_pairs p) xs)"
| "qs_pairs p (JObj kvs) = concat (map (\<lambda>(k, v). qs_pairs (p @ ''['' @ k @ '']'') v) kvs)"
| "qs_pairs p JNull = [p @ ''='']"
| "qs_pairs p v = [p @ ''='' @ js_text v]"

definition qs_stringify :: "(string \<times> json) list \<Rightarrow> string" where
  "qs_stringify kvs = join_with ''&'' (concat (map (\<lambda>(k, v). qs_pairs k v) kvs))"

fun query_properties :: "(string \<times> query_entry) list \<Rightarrow> (string \<times> json) list \<Rightarrow> (string \<times> json) list outcome" where
  "query_properties [] t = Ok t"
| "query_properties ((n, e) # q) t =
     obind (query_entries n e) (\<lambda>es. query_properties q (foldl (\<lambda>t (k, v). assign_property k v t) t es))"

definition encodeFormOrQuery :: "(string \<times> query_entry) list \<Rightarrow> string outcome" where
  "encodeFormOrQuery q = obind (query_properties q []) (\<lambda>t. Ok (qs_stringify t))"

text \<open>
  \<^verbatim>\<open>mergeInQueryOrForm\<close> (\<^verbatim>\<open>Pe\<close>) for the query.  \<open>requery\<close> is what the parser and printer of the \<^verbatim>\<open>qs\<close> library make
  of a query the address has already, without the given names.
\<close>

definition search_part :: "string list \<Rightarrow> string" where
  "search_part ts =
     (let s = join_with ''&'' (filter (\<lambda>t. t \<noteq> []) ts) in if s = [] then [] else ''?'' @ s)"

definition mergeInQuery :: "(string \<Rightarrow> string list \<Rightarrow> string) \<Rightarrow> swagger_request \<Rightarrow> string outcome" where
  "mergeInQuery requery r =
     (case rq_query r of
        None \<Rightarrow> Ok (rq_url r)
      | Some q \<Rightarrow>
          obind (encodeFormOrQuery q) (\<lambda>s.
            (case split_on CHR ''?'' (rq_url r) of
               u # p # _ \<Rightarrow> Ok (u @ search_part [if p = [] then [] else requery p (map fst q), s])
             | u # _ \<Rightarrow> Ok (u @ search_part [s])
             | [] \<Rightarrow> Ok [])))"

text \<open>
  The part of \<^verbatim>\<open>buildRequest\<close> (\<^verbatim>\<open>dr\<close>) that concerns parameters: \<open>base\<close> is the address of the server,
  \<open>own_params\<close> and \<open>shared_params\<close> are the parameters of the operation and of its path.
\<close>

definition start_request :: "string \<Rightarrow> swagger_request" where
  "start_request url = \<lparr>rq_url = url, rq_headers = [], rq_query = None, rq_form = None, rq_body = None\<rparr>"

definition request_address ::
  "json_lib \<Rightarrow> (string \<Rightarrow> string list \<Rightarrow> string) \<Rightarrow> bool \<Rightarrow> string \<Rightarrow> string \<Rightarrow> spec_param list \<Rightarrow> spec_param list
    \<Rightarrow> (string \<times> json) list \<Rightarrow> string outcome" where
  "request_address L requery oas3 base path own_params shared_params vals =
     obind (add_parameters L oas3 vals (deduplicateParameters (own_params @ shared_params)) (start_request (base @ path)))
       (mergeInQuery requery)"

end
