(* ===== verification/Swagger_Request_Laws.thy ===== *)
theory Swagger_Request_Laws
  imports Swagger_Request
begin

text \<open>
  Lemmas on the requests of the API page: the removal of duplicate parameters, encoded texts, the template
  of a path with its holes, what parameters leave in a request, and reading a query back.
\<close>

section \<open>Removing duplicates\<close>

definition lookup_group :: "(string \<times> (string \<times> 'a) list) list \<Rightarrow> string \<Rightarrow> string \<Rightarrow> 'a option" where
  "lookup_group t l n = (case map_of t l of None \<Rightarrow> None | Some qs \<Rightarrow> map_of qs n)"

definition groups :: "(string \<times> (string \<times> spec_param) list) list \<Rightarrow> bool" where
  "groups t \<longleftrightarrow> distinct (map fst t) \<and>
     (\<forall>l qs. map_of t l = Some qs \<longrightarrow> distinct (map fst qs) \<and>
        (\<forall>n p. map_of qs n = Some p \<longrightarrow> sp_in p = l \<and> sp_name p = n))"

definition named :: "spec_param \<Rightarrow> bool" where
  "named p \<longleftrightarrow> sp_in p \<noteq> ''__proto__'' \<and> sp_name p \<noteq> ''__proto__''"

lemma groups_Nil: "groups []"
  by (simp add: groups_def)

lemma group_parameter_step:
  assumes "groups t" and "named p"
  shows "groups (group_parameter t p)"
    and "lookup_group (group_parameter t p) l n =
      (if l = sp_in p \<and> n = sp_name p then Some p else lookup_group t l n)"
proof -
  let ?g = "case map_of t (sp_in p) of None \<Rightarrow> [] | Some ps \<Rightarrow> ps"
  have e: "group_parameter t p = put_property (sp_in p) (put_property (sp_name p) p ?g) t"
    using assms(2) by (simp add: group_parameter_def assign_property_def named_def)
  have g: "distinct (map fst ?g)" "\<forall>n q. map_of ?g n = Some q \<longrightarrow> sp_in q = sp_in p \<and> sp_name q = n"
    using assms(1) by (auto simp: groups_def split: option.splits)
  show "groups (group_parameter t p)"
    unfolding e groups_def
  proof (intro conjI allI impI)
    show "distinct (map fst (put_property (sp_in p) (put_property (sp_name p) p ?g) t))"
      using assms(1) by (intro distinct_put_property) (simp add: groups_def)
    fix l qs assume qs: "map_of (put_property (sp_in p) (put_property (sp_name p) p ?g) t) l = Some qs"
    have or: "qs = put_property (sp_name p) p ?g \<and> l = sp_in p \<or> map_of t l = Some qs"
      using qs by (auto simp: map_of_put_property split: if_splits)
    have old: "distinct (map fst qs) \<and> (\<forall>n q. map_of qs n = Some q \<longrightarrow> sp_in q = l \<and> sp_name q = n)"
      if "map_of t l = Some qs"
      using assms(1) that unfolding groups_def by blast
    show "distinct (map fst qs)"
      using or
    proof
      assume "qs = put_property (sp_name p) p ?g \<and> l = sp_in p"
      then show ?thesis using distinct_put_property [OF g(1)] by simp
    qed (use old in blast)
    fix n q assume q: "map_of qs n = Some q"
    have "sp_in q = l \<and> sp_name q = n"
      using or
    proof
      assume a: "qs = put_property (sp_name p) p ?g \<and> l = sp_in p"
      then have "q = p \<and> n = sp_name p \<or> map_of ?g n = Some q"
        using q by (simp only: map_of_put_property fun_upd_apply split: if_splits) auto
      then show ?thesis using a g(2) by blast
    qed (use old q in blast)
    then show "sp_in q = l" "sp_name q = n" by blast+
  qed
  show "lookup_group (group_parameter t p) l n =
      (if l = sp_in p \<and> n = sp_name p then Some p else lookup_group t l n)"
    unfolding e lookup_group_def by (auto simp: map_of_put_property split: option.splits)
qed

lemma group_parameters:
  assumes "\<forall>p \<in> set ps. named p" and "groups t"
  shows "groups (foldl group_parameter t ps) \<and>
    (\<forall>l n. lookup_group (foldl group_parameter t ps) l n =
      (case map_of (rev (map (\<lambda>p. ((sp_in p, sp_name p), p)) ps)) (l, n) of
         None \<Rightarrow> lookup_group t l n | Some p \<Rightarrow> Some p))"
  using assms
proof (induction ps arbitrary: t)
  case (Cons p ps)
  then show ?case
    using Cons.IH [of "group_parameter t p"] group_parameter_step [of t p]
    by (auto simp: map_add_def split: option.splits)
qed simp

text \<open>For every location and name, the last parameter is kept.\<close>

lemma deduplicated:
  assumes "\<forall>p \<in> set ps. named p"
  shows "p \<in> set (deduplicateParameters ps) \<longleftrightarrow>
    map_of (rev (map (\<lambda>p. ((sp_in p, sp_name p), p)) ps)) (sp_in p, sp_name p) = Some p"
proof -
  let ?t = "foldl group_parameter [] ps"
  have t: "groups ?t" and l: "\<And>l n. lookup_group ?t l n =
      map_of (rev (map (\<lambda>p. ((sp_in p, sp_name p), p)) ps)) (l, n)"
    using group_parameters [OF assms groups_Nil] by (auto simp: lookup_group_def split: option.splits)
  have d: "distinct (map fst ?t)" using t by (simp add: groups_def)
  have "p \<in> set (deduplicateParameters ps) \<longleftrightarrow> (\<exists>l qs n. (l, qs) \<in> set ?t \<and> (n, p) \<in> set qs)"
    by (force simp: deduplicateParameters_def)
  also have "\<dots> \<longleftrightarrow> (\<exists>l qs n. map_of ?t l = Some qs \<and> (n, p) \<in> set qs)"
    using map_of_eq_Some_iff [OF d] by auto
  also have "\<dots> \<longleftrightarrow> (\<exists>l qs n. map_of ?t l = Some qs \<and> map_of qs n = Some p)"
  proof -
    have "(n, p) \<in> set qs \<longleftrightarrow> map_of qs n = Some p" if "map_of ?t l = Some qs" for l qs n
      using t that map_of_eq_Some_iff [of qs n p] unfolding groups_def by blast
    then show ?thesis by blast
  qed
  also have "\<dots> \<longleftrightarrow> lookup_group ?t (sp_in p) (sp_name p) = Some p"
  proof
    assume "\<exists>l qs n. map_of ?t l = Some qs \<and> map_of qs n = Some p"
    then obtain l qs n where q: "map_of ?t l = Some qs" "map_of qs n = Some p" by blast
    then have "sp_in p = l" "sp_name p = n" using t unfolding groups_def by blast+
    then show "lookup_group ?t (sp_in p) (sp_name p) = Some p" using q by (simp add: lookup_group_def)
  qed (auto simp: lookup_group_def split: option.splits)
  finally show ?thesis by (simp add: l)
qed

lemma map_of_keys:
  assumes "distinct (map f ps)"
  shows "map_of (rev (map (\<lambda>p. (f p, p)) ps)) k = Some p \<longleftrightarrow> p \<in> set ps \<and> f p = k"
proof -
  have "distinct (map fst (rev (map (\<lambda>p. (f p, p)) ps)))"
    using assms by (simp add: rev_map [symmetric] comp_def)
  then show ?thesis by (subst map_of_eq_Some_iff) auto
qed

lemma deduplicate_distinct:
  assumes "\<forall>p \<in> set ps. named p" and "distinct (map (\<lambda>p. (sp_in p, sp_name p)) ps)"
  shows "set (deduplicateParameters ps) = set ps"
  using deduplicated [OF assms(1)] map_of_keys [OF assms(2)] by auto

text \<open>A parameter of the path replaces the parameter of the operation with its name.\<close>

lemma shared_parameter_wins:
  assumes "\<forall>p \<in> set own_params. named p" and "named q"
    and "p \<in> set (deduplicateParameters (own_params @ [q]))" and "sp_in p = sp_in q" and "sp_name p = sp_name q"
  shows "p = q"
  using assms deduplicated [of "own_params @ [q]" p] by auto

section \<open>Encoded texts\<close>

definition enc_text :: "string \<Rightarrow> string" where
  "enc_text s = concat (map (encode_with unreserved) s)"

lemma enc_text_Nil [simp]: "enc_text [] = []"
  by (simp add: enc_text_def)

lemma encode_text: "encodeDisallowedCharacters Escaped (JStr s) = JStr (enc_text s)"
  by (simp add: encodeDisallowedCharacters_def enc_text_def)

lemma unreserved_ascii: "unreserved c \<Longrightarrow> c \<noteq> CHR ''%'' \<and> (of_char c :: nat) < 128"
  by (auto simp: unreserved_def is_lower_def is_upper_def is_digit_def)

lemma decode_enc_text: "utf8 s \<Longrightarrow> decodeURIComponent (enc_text s) = Ok s"
  unfolding enc_text_def by (rule decode_encode_with) (rule unreserved_ascii)

lemma hex_unreserved_all: "list_all (\<lambda>n. unreserved (hex_char n)) [0..<16]"
  by code_simp

lemma hex_unreserved: "n < 16 \<Longrightarrow> unreserved (hex_char n)"
  using hex_unreserved_all by (simp add: list_all_iff)

lemma enc_text_set: "c \<in> set (enc_text s) \<Longrightarrow> unreserved c \<or> c = CHR ''%''"
  using hex_unreserved byte_halves by (auto simp: enc_text_def encode_with_def percent_def split: if_splits)

text \<open>A value without structure, and a list of such values.\<close>

fun flat :: "json \<Rightarrow> bool" where
  "flat (JStr s) = True"
| "flat (JNum t) = True"
| "flat (JBool b) = True"
| "flat _ = False"

definition path_value :: "json \<Rightarrow> string" where
  "path_value v = (case v of JArr xs \<Rightarrow> join_with '','' (map (enc_text \<circ> js_text) xs) | v \<Rightarrow> enc_text (js_text v))"

definition path_ok :: "json \<Rightarrow> bool" where
  "path_ok v \<longleftrightarrow> flat v \<or> (case v of JArr xs \<Rightarrow> (\<forall>x \<in> set xs. flat x) | _ \<Rightarrow> False)"

lemma enc_text_bool: "enc_text ''true'' = ''true''" "enc_text ''false'' = ''false''"
  by code_simp+

lemma encode_flat: "flat v \<Longrightarrow> js_text (encodeDisallowedCharacters Escaped v) = enc_text (js_text v)"
  by (cases v) (auto simp: encodeDisallowedCharacters_def enc_text_def [symmetric] enc_text_bool
      simp del: list.map concat.simps)

lemma encode_flat_not_null: "flat v \<Longrightarrow> encodeDisallowedCharacters Escaped v \<noteq> JNull"
  by (cases v) (auto simp: encodeDisallowedCharacters_def)

lemma stylize_simple:
  assumes "path_ok v"
  shows "\<exists>w. stylize n (Some v) ''simple'' e Escaped = Ok (Some w) \<and> js_text w = path_value v"
proof (cases "flat v")
  case True
  then show ?thesis
    using encode_flat [OF True] by (cases v) (auto simp: stylize_def encodePrimitive_def path_value_def Let_def)
next
  case False
  then obtain xs where xs: "v = JArr xs" "\<forall>x \<in> set xs. flat x"
    using assms by (cases v) (auto simp: path_ok_def)
  have "js_join '','' (map (encodeDisallowedCharacters Escaped) xs) = join_with '','' (map (enc_text \<circ> js_text) xs)"
    unfolding js_join_def map_map
    by (rule arg_cong [of _ _ "join_with '',''"], rule map_cong [OF refl]) (use xs(2) encode_flat encode_flat_not_null in auto)
  then show ?thesis
    using xs(1) by (simp add: stylize_def encodeArray_def path_value_def Let_def)
qed

lemma join_with_set: "c \<in> set (join_with sep ws) \<Longrightarrow> c \<in> set sep \<or> (\<exists>w \<in> set ws. c \<in> set w)"
  by (induction sep ws rule: join_with.induct) auto

lemma path_value_set: "c \<in> set (path_value v) \<Longrightarrow> unreserved c \<or> c = CHR ''%'' \<or> c = CHR '',''"
proof (cases v)
  case (JArr xs)
  assume "c \<in> set (path_value v)"
  then have "c = CHR '','' \<or> (\<exists>x \<in> set xs. c \<in> set (enc_text (js_text x)))"
    using join_with_set [of c "'',''" "map (enc_text \<circ> js_text) xs"] JArr by (auto simp: path_value_def)
  then show ?thesis using enc_text_set by blast
qed (use enc_text_set in \<open>auto simp: path_value_def\<close>)

section \<open>Filling the template of a path\<close>

datatype piece =
    Literal string
  | Hole string

definition piece_text :: "piece \<Rightarrow> string" where
  "piece_text x = (case x of Literal s \<Rightarrow> s | Hole n \<Rightarrow> ''{'' @ n @ ''}'')"

definition template_text :: "piece list \<Rightarrow> string" where
  "template_text xs = concat (map piece_text xs)"

definition piece_ok :: "piece \<Rightarrow> bool" where
  "piece_ok x \<longleftrightarrow> (case x of Literal s \<Rightarrow> CHR ''{'' \<notin> set s | Hole n \<Rightarrow> CHR ''{'' \<notin> set n \<and> CHR ''}'' \<notin> set n)"

definition put_hole :: "string \<Rightarrow> string \<Rightarrow> piece \<Rightarrow> piece" where
  "put_hole n t x = (case x of Hole m \<Rightarrow> if m = n then Literal t else Hole m | x \<Rightarrow> x)"

lemma put_hole_simps [simp]:
  "put_hole n t (Literal s) = Literal s" "put_hole n t (Hole m) = (if m = n then Literal t else Hole m)"
  by (simp_all add: put_hole_def)

lemma split_text_nonempty [simp]: "split_text pat s \<noteq> []"
  by (cases s) (auto split: list.splits)

lemma join_split_other:
  "\<not> prefix (p # pat) (c # s) \<Longrightarrow>
    join_with sep (split_text (p # pat) (c # s)) = c # join_with sep (split_text (p # pat) s)"
proof -
  assume a: "\<not> prefix (p # pat) (c # s)"
  obtain w ws where "split_text (p # pat) s = w # ws" by (cases "split_text (p # pat) s") auto
  then show ?thesis using a by (cases ws) auto
qed

lemma join_split_literal:
  "p \<notin> set a \<Longrightarrow> join_with sep (split_text (p # pat) (a @ s)) = a @ join_with sep (split_text (p # pat) s)"
proof (induction a)
  case (Cons c a)
  then have "\<not> prefix (p # pat) (c # a @ s)" by auto
  then show ?case using Cons join_split_other [of p pat c "a @ s" sep] by simp
qed simp

lemma join_split_hit:
  "join_with sep (split_text (p # pat) ((p # pat) @ s)) = sep @ join_with sep (split_text (p # pat) s)"
  by (simp add: join_Cons)

lemma fill_pieces:
  assumes "\<forall>x \<in> set xs. piece_ok x" and "CHR ''}'' \<notin> set n"
  shows "join_with t (split_text (''{'' @ n @ ''}'') (template_text xs)) = template_text (map (put_hole n t) xs)"
  using assms(1)
proof (induction xs)
  case Nil
  then show ?case by (simp add: template_text_def)
next
  case (Cons x xs)
  let ?pat = "n @ ''}''"
  have IH: "join_with t (split_text (CHR ''{'' # ?pat) (template_text xs)) = template_text (map (put_hole n t) xs)"
    using Cons by simp
  have tt: "template_text (y # ys) = piece_text y @ template_text ys" for y ys by (simp add: template_text_def)
  show ?case
  proof (cases x)
    case (Literal s)
    then have "CHR ''{'' \<notin> set s" using Cons.prems by (simp add: piece_ok_def)
    then show ?thesis
      using join_split_literal [of "CHR ''{''" s t ?pat "template_text xs"] IH Literal
      by (simp add: tt piece_text_def)
  next
    case (Hole m)
    then have m: "CHR ''{'' \<notin> set m" "CHR ''}'' \<notin> set m" using Cons.prems by (auto simp: piece_ok_def)
    show ?thesis
    proof (cases "m = n")
      case True
      then show ?thesis
        using join_split_hit [of t "CHR ''{''" ?pat "template_text xs"] IH Hole
        by (simp add: tt piece_text_def)
    next
      case False
      let ?rest = "m @ CHR ''}'' # template_text xs"
      have "\<not> prefix (CHR ''{'' # ?pat) (CHR ''{'' # ?rest)"
      proof
        assume "prefix (CHR ''{'' # ?pat) (CHR ''{'' # ?rest)"
        then obtain z where "n @ CHR ''}'' # z = ?rest" by (auto simp: prefix_def)
        then show False using sep_append_inj [OF assms(2) m(2)] False by simp
      qed
      then have "join_with t (split_text (CHR ''{'' # ?pat) (CHR ''{'' # ?rest))
          = CHR ''{'' # join_with t (split_text (CHR ''{'' # ?pat) ?rest)"
        by (rule join_split_other)
      also have "\<dots> = CHR ''{'' # (m @ ''}'') @ join_with t (split_text (CHR ''{'' # ?pat) (template_text xs))"
        using join_split_literal [of "CHR ''{''" "m @ ''}''" t ?pat "template_text xs"] m by simp
      finally show ?thesis using IH Hole False by (simp add: tt piece_text_def)
    qed
  qed
qed

section \<open>The parameters of a request\<close>

definition path_arg :: "(string \<times> json) list \<Rightarrow> string \<Rightarrow> json option" where
  "path_arg vals n = (case map_of vals n of Some v \<Rightarrow> Some v | None \<Rightarrow> map_of vals (''path.'' @ n))"

text \<open>
  A path parameter in the default style with a primitive value or a list of such, and a query parameter in
  the default style with a text as its value, which may be empty where the description allows it.
\<close>

definition path_param :: "(string \<times> json) list \<Rightarrow> spec_param \<Rightarrow> bool" where
  "path_param vals p \<longleftrightarrow> sp_in p = ''path'' \<and> sp_content p = None \<and> or_default (sp_style p) ''simple'' = ''simple'' \<and>
     \<not> sp_objectSchema p \<and> sp_name p \<noteq> [] \<and> CHR ''}'' \<notin> set (sp_name p) \<and>
     (\<exists>v. path_arg vals (sp_name p) = Some v \<and> path_ok v)"

definition query_param :: "(string \<times> json) list \<Rightarrow> spec_param \<Rightarrow> bool" where
  "query_param vals p \<longleftrightarrow> sp_in p = ''query'' \<and> sp_content p = None \<and> or_default (sp_style p) ''form'' = ''form'' \<and>
     \<not> sp_objectSchema p \<and> \<not> sp_allowReserved p \<and> sp_name p \<noteq> [] \<and> utf8 (sp_name p) \<and>
     (\<exists>s. given_value vals p = Some (JStr s) \<and> utf8 s \<and> (s \<noteq> [] \<or> sp_allowEmptyValue p))"

definition query_text :: "(string \<times> json) list \<Rightarrow> spec_param \<Rightarrow> string" where
  "query_text vals p = (case given_value vals p of Some (JStr s) \<Rightarrow> s | _ \<Rightarrow> [])"

definition query_entry_of :: "(string \<times> json) list \<Rightarrow> spec_param \<Rightarrow> query_entry" where
  "query_entry_of vals p =
     (if query_text vals p = [] then QEmpty
      else QStyled (JStr (query_text vals p)) (sp_style p) (sp_explode p) False)"

lemma given_path: "path_param vals p \<Longrightarrow> given_value vals p = path_arg vals (sp_name p)"
  by (auto simp: path_param_def given_value_def path_arg_def split: option.splits)

lemma path_value_no_brace: "CHR ''{'' \<notin> set (path_value v)"
proof
  assume "CHR ''{'' \<in> set (path_value v)"
  then have "unreserved CHR ''{''" using path_value_set [of "CHR ''{''" v] by auto
  moreover have "\<not> unreserved CHR ''{''" by code_simp
  ultimately show False by simp
qed

lemma add_path_parameter:
  assumes "path_param vals p" and "rq_url r = template_text xs" and "\<forall>x \<in> set xs. piece_ok x"
  shows "add_parameter L True vals p r = Ok (r\<lparr>rq_url := template_text
    (map (put_hole (sp_name p) (path_value (the (path_arg vals (sp_name p))))) xs)\<rparr>)"
proof -
  obtain v where v: "path_arg vals (sp_name p) = Some v" "path_ok v" using assms(1) by (auto simp: path_param_def)
  have g: "given_value vals p = Some v" using given_path [OF assms(1)] v by simp
  have nn: "v \<noteq> JNull" using v(2) by (auto simp: path_ok_def)
  obtain w where w: "stylize (sp_name p) (Some v) ''simple'' (sp_explode p = Some True) Escaped = Ok (Some w)"
    "js_text w = path_value v" using stylize_simple [OF v(2)] by blast
  have fill: "fill_path (sp_name p) (Some w) (rq_url r) = template_text (map (put_hole (sp_name p) (path_value v)) xs)"
    using fill_pieces [OF assms(3), of "sp_name p" "path_value v"] assms(1,2) w(2)
    by (simp add: fill_path_def path_param_def)
  have "oas3_builder L p (Some v) r = Ok (r\<lparr>rq_url := template_text (map (put_hole (sp_name p) (path_value v)) xs)\<rparr>)"
    using assms(1) w(1) fill by (simp add: oas3_builder_def oas3_path_def path_param_def)
  then show ?thesis
    using g nn v(1) assms(1) by (cases v) (auto simp: add_parameter_def path_param_def)
qed

lemma add_query_parameter:
  assumes "query_param vals p"
  shows "add_parameter L True vals p r = Ok (set_query (sp_name p) (query_entry_of vals p) r)"
proof -
  obtain s where s: "given_value vals p = Some (JStr s)" "s \<noteq> [] \<or> sp_allowEmptyValue p"
    using assms by (auto simp: query_param_def)
  have "oas3_builder L p (Some (JStr s)) r = Ok (set_query (sp_name p) (query_entry_of vals p) r)"
    using assms s by (auto simp: oas3_builder_def oas3_query_def query_param_def query_entry_of_def query_text_def
        has_value_def)
  then show ?thesis using s assms by (simp add: add_parameter_def query_param_def)
qed

definition put_arg :: "(string \<times> json) list \<Rightarrow> spec_param \<Rightarrow> piece \<Rightarrow> piece" where
  "put_arg vals p = (if sp_in p = ''path'' then put_hole (sp_name p) (path_value (the (path_arg vals (sp_name p)))) else id)"

lemma put_arg_simps [simp]:
  "put_arg vals p (Literal s) = Literal s"
  "put_arg vals p (Hole n) =
    (if sp_in p = ''path'' \<and> sp_name p = n then Literal (path_value (the (path_arg vals n))) else Hole n)"
  by (simp_all add: put_arg_def)

definition query_list :: "swagger_request \<Rightarrow> (string \<times> query_entry) list" where
  "query_list r = (case rq_query r of None \<Rightarrow> [] | Some q \<Rightarrow> q)"

lemma piece_ok_put_arg: "piece_ok x \<Longrightarrow> piece_ok (put_arg vals p x)"
  using path_value_no_brace by (cases x) (auto simp: piece_ok_def)

lemma query_list_set:
  "named p \<Longrightarrow> query_list (set_query (sp_name p) e r) = put_property (sp_name p) e (query_list r)"
  by (simp add: query_list_def set_query_def assign_property_def named_def)

lemma set_put_property_new: "k \<notin> fst ` set kvs \<Longrightarrow> set (put_property k v kvs) = insert (k, v) (set kvs)"
  by (auto simp: put_property_def insert_index_set)

text \<open>What a list of such parameters leaves in the request.\<close>

lemma add_parameters_request:
  assumes "\<forall>p \<in> set ps. named p \<and> (path_param vals p \<or> query_param vals p)"
    and "distinct (map (\<lambda>p. (sp_in p, sp_name p)) ps)"
    and "rq_url r = template_text xs" and "\<forall>x \<in> set xs. piece_ok x" and "distinct (map fst (query_list r))"
    and "\<forall>p \<in> set ps. sp_in p = ''query'' \<longrightarrow> sp_name p \<notin> fst ` set (query_list r)"
  shows "\<exists>r'. add_parameters L True vals ps r = Ok r'
    \<and> rq_url r' = template_text (map (\<lambda>x. foldl (\<lambda>x p. put_arg vals p x) x ps) xs)
    \<and> distinct (map fst (query_list r'))
    \<and> set (query_list r') = set (query_list r) \<union> {(sp_name p, query_entry_of vals p) |p. p \<in> set ps \<and> sp_in p = ''query''}"
  using assms
proof (induction ps arbitrary: r xs)
  case Nil
  then show ?case by simp
next
  case (Cons p ps)
  let ?xs = "map (put_arg vals p) xs"
  have np: "named p" using Cons.prems(1) by simp
  have rest: "\<forall>p \<in> set ps. named p \<and> (path_param vals p \<or> query_param vals p)"
    "distinct (map (\<lambda>p. (sp_in p, sp_name p)) ps)" "\<forall>x \<in> set ?xs. piece_ok x"
    using Cons.prems(1,2,4) piece_ok_put_arg by auto
  have new: "sp_name q \<noteq> sp_name p" if "q \<in> set ps" "sp_in q = sp_in p" for q
    using Cons.prems(2) that by (auto simp: image_iff)
  consider (path) "path_param vals p" | (query) "query_param vals p" using Cons.prems(1) by auto
  then show ?case
  proof cases
    case path
    then have i: "sp_in p = ''path''" by (simp add: path_param_def)
    let ?r = "r\<lparr>rq_url := template_text ?xs\<rparr>"
    have a: "add_parameter L True vals p r = Ok ?r"
      using add_path_parameter [OF path Cons.prems(3,4)] i by (simp add: put_arg_def)
    have "query_list ?r = query_list r" by (simp add: query_list_def)
    then show ?thesis
      using Cons.IH [OF rest(1,2) _ rest(3), of ?r] Cons.prems(5,6) a i by (auto simp: comp_def)
  next
    case query
    then have i: "sp_in p = ''query''" by (simp add: query_param_def)
    let ?e = "query_entry_of vals p"
    let ?r = "set_query (sp_name p) ?e r"
    have a: "add_parameter L True vals p r = Ok ?r" using add_query_parameter [OF query] by simp
    have fresh: "sp_name p \<notin> fst ` set (query_list r)" using Cons.prems(6) i by simp
    have q: "distinct (map fst (query_list ?r))" "set (query_list ?r) = insert (sp_name p, ?e) (set (query_list r))"
      using query_list_set [OF np] distinct_put_property [OF Cons.prems(5)] set_put_property_new [OF fresh] by simp_all
    have u: "rq_url ?r = template_text xs" using Cons.prems(3) by (simp add: set_query_def)
    have id: "put_arg vals p x = x" for x using i by (simp add: put_arg_def)
    have "\<forall>q \<in> set ps. sp_in q = ''query'' \<longrightarrow> sp_name q \<notin> fst ` set (query_list ?r)"
      using Cons.prems(6) q(2) new i by auto
    then obtain r' where "add_parameters L True vals ps ?r = Ok r'"
      "rq_url r' = template_text (map (\<lambda>x. foldl (\<lambda>x p. put_arg vals p x) x ps) xs)"
      "distinct (map fst (query_list r'))"
      "set (query_list r') = set (query_list ?r) \<union> {(sp_name p, query_entry_of vals p) |p. p \<in> set ps \<and> sp_in p = ''query''}"
      using Cons.IH [OF rest(1,2) u Cons.prems(4) q(1)] by blast
    then show ?thesis
      using a i q(2) by (intro exI [of _ r']) (auto simp: id)
  qed
qed

text \<open>The text of the template with the values in their places.\<close>

definition filled :: "(string \<times> json) list \<Rightarrow> piece list \<Rightarrow> string" where
  "filled vals xs = concat (map (\<lambda>x. case x of Literal s \<Rightarrow> s | Hole n \<Rightarrow> path_value (the (path_arg vals n))) xs)"

lemma put_args_literal: "foldl (\<lambda>x p. put_arg vals p x) (Literal s) ps = Literal s"
  by (induction ps) auto

lemma put_args_hole:
  "foldl (\<lambda>x p. put_arg vals p x) (Hole n) ps =
    (if \<exists>p \<in> set ps. sp_in p = ''path'' \<and> sp_name p = n then Literal (path_value (the (path_arg vals n))) else Hole n)"
  by (induction ps) (auto simp: put_args_literal)

lemma filled_template:
  assumes "\<forall>n. Hole n \<in> set xs \<longrightarrow> (\<exists>p \<in> set ps. sp_in p = ''path'' \<and> sp_name p = n)"
  shows "template_text (map (\<lambda>x. foldl (\<lambda>x p. put_arg vals p x) x ps) xs) = filled vals xs"
proof -
  have "piece_text (foldl (\<lambda>x p. put_arg vals p x) x ps) =
      (case x of Literal s \<Rightarrow> s | Hole n \<Rightarrow> path_value (the (path_arg vals n)))" if "x \<in> set xs" for x
    using assms that by (cases x) (auto simp: put_args_literal put_args_hole piece_text_def)
  then show ?thesis by (simp add: template_text_def filled_def cong: map_cong)
qed

section \<open>The query string is read back\<close>

lemma enc_text_no_sep: "CHR ''&'' \<notin> set (enc_text s) \<and> CHR ''='' \<notin> set (enc_text s)"
proof -
  have "\<not> unreserved CHR ''&''" "\<not> unreserved CHR ''=''" by code_simp+
  then show ?thesis using enc_text_set by fastforce
qed

text \<open>A property of the query with the name and the text it stands for.\<close>

definition stands_for :: "string \<times> json \<Rightarrow> string \<times> string \<Rightarrow> bool" where
  "stands_for = (\<lambda>(k, v) (n, s). decodeURIComponent k = Ok n \<and> (\<exists>w. v = JStr w \<and> decodeURIComponent w = Ok s \<and>
     CHR ''&'' \<notin> set w \<and> CHR ''='' \<notin> set w) \<and> CHR ''&'' \<notin> set k \<and> CHR ''='' \<notin> set k \<and> n \<noteq> ''__proto__'')"

lemma query_entry_text:
  assumes "query_param vals p" and "named p"
  shows "\<exists>kv. query_entries (sp_name p) (query_entry_of vals p) = Ok [kv] \<and> stands_for kv (sp_name p, query_text vals p)"
proof -
  let ?n = "sp_name p" and ?s = "query_text vals p"
  obtain s where s: "given_value vals p = Some (JStr s)" "utf8 s" using assms(1) by (auto simp: query_param_def)
  then have t: "?s = s" by (simp add: query_text_def)
  have u: "utf8 ?n" "or_default (sp_style p) ''form'' = ''form''" using assms(1) by (auto simp: query_param_def)
  have np: "?n \<noteq> ''__proto__''" using assms(2) by (simp add: named_def)
  show ?thesis
  proof (cases "s = []")
    case True
    then show ?thesis
      using t np decode_encode [OF u(1)] encode_no_sep
      by (auto simp: query_entry_of_def query_entries_def stands_for_def)
  next
    case False
    then show ?thesis
      using t np decode_enc_text [OF u(1)] decode_enc_text [OF s(2)] enc_text_no_sep u(2)
      by (auto simp: query_entry_of_def query_entries_def stands_for_def styled_entries_def escape_name_def encode_text Let_def)
  qed
qed

lemma search_fields_entries:
  assumes "list_all2 stands_for t ns"
  shows "search_fields (map (\<lambda>(k, v). k @ ''='' @ js_text v) t) m = Ok (m ++ map_of (rev ns))"
  using assms
proof (induction t ns arbitrary: m rule: list_all2_induct)
  case (Cons kv t nv ns)
  obtain k v n s w where e: "kv = (k, v)" "nv = (n, s)" "v = JStr w"
    using Cons.hyps(1) by (cases kv; cases nv) (auto simp: stands_for_def)
  have d: "decodeURIComponent k = Ok n" "decodeURIComponent w = Ok s" "n \<noteq> ''__proto__''"
    "CHR ''='' \<notin> set k" "CHR ''='' \<notin> set w"
    using Cons.hyps(1) e by (auto simp: stands_for_def)
  have "split_on CHR ''='' (k @ CHR ''='' # w) = [k, w]" using d by (simp add: split_on_append_sep split_on_no_sep)
  moreover have "(if w = [] then Ok [] else decodeURIComponent w) = Ok s" using d(2) by auto
  ultimately show ?case using Cons.IH d e by (simp add: set_property_def map_add_assoc [symmetric])
qed simp

definition read_entry :: "string \<times> json \<Rightarrow> string \<times> string" where
  "read_entry = (\<lambda>(k, v).
     (case decodeURIComponent k of Ok n \<Rightarrow> n | _ \<Rightarrow> [], case decodeURIComponent (js_text v) of Ok s \<Rightarrow> s | _ \<Rightarrow> []))"

lemma stands_for_read: "stands_for kv x \<Longrightarrow> read_entry kv = x"
  by (auto simp: stands_for_def read_entry_def split: prod.splits)

text \<open>The properties of the query stand for the entries.\<close>

definition readable :: "(string \<times> json) list \<Rightarrow> (string \<times> string) set \<Rightarrow> bool" where
  "readable t S \<longleftrightarrow> distinct (map fst t) \<and> (\<forall>kv \<in> set t. stands_for kv (read_entry kv)) \<and>
     read_entry ` set t = S \<and> inj_on (fst \<circ> read_entry) (set t)"

lemma readable_step:
  assumes "readable t S" and "stands_for (k, v) (n, s)" and "n \<notin> fst ` S"
  shows "readable (assign_property k v t) (insert (n, s) S)"
proof -
  have rd: "read_entry (k, v) = (n, s)" using stands_for_read [OF assms(2)] .
  have k: "decodeURIComponent k = Ok n" using assms(2) by (simp add: stands_for_def)
  have np: "n \<noteq> ''__proto__''" using assms(2) by (simp add: stands_for_def)
  have "decodeURIComponent ''__proto__'' = Ok ''__proto__''" by (rule decode_plain) simp
  then have kp: "k \<noteq> ''__proto__''" using k np by auto
  have names: "fst (read_entry kv) \<noteq> n" if "kv \<in> set t" for kv
    using assms(1,3) that by (auto simp: readable_def)
  have "k \<notin> fst ` set t"
  proof
    assume "k \<in> fst ` set t"
    then obtain w where w: "(k, w) \<in> set t" by auto
    have "fst (read_entry (k, w)) = n" by (simp add: read_entry_def k)
    then show False using names [OF w] by simp
  qed
  then have st: "set (assign_property k v t) = insert (k, v) (set t)"
    using set_put_property_new [of k t v] kp by (simp add: assign_property_def)
  have "distinct (map fst (assign_property k v t))"
    using assms(1) kp by (simp add: assign_property_def readable_def distinct_put_property)
  moreover have "inj_on (fst \<circ> read_entry) (insert (k, v) (set t))"
    using assms(1) names rd by (auto simp: readable_def)
  ultimately show ?thesis
    using assms(1,2) rd unfolding readable_def st by auto
qed

lemma query_properties_readable:
  assumes "\<forall>(n, e) \<in> set q. \<exists>kv. query_entries n e = Ok [kv] \<and> stands_for kv (n, T n)"
    and "distinct (map fst q)" and "readable t S" and "fst ` S \<inter> fst ` set q = {}"
  shows "\<exists>t'. query_properties q t = Ok t' \<and> readable t' (S \<union> (\<lambda>n. (n, T n)) ` fst ` set q)"
  using assms
proof (induction q arbitrary: t S)
  case (Cons ne q)
  obtain n e where ne: "ne = (n, e)" by (cases ne)
  obtain k v where kv: "query_entries n e = Ok [(k, v)]" "stands_for (k, v) (n, T n)"
    using Cons.prems(1) ne by fastforce
  have r: "readable (assign_property k v t) (insert (n, T n) S)"
    using readable_step [OF Cons.prems(3) kv(2)] Cons.prems(4) ne by auto
  have "fst ` insert (n, T n) S \<inter> fst ` set q = {}" using Cons.prems(2,4) ne by auto
  then obtain t' where "query_properties q (assign_property k v t) = Ok t'"
    "readable t' (insert (n, T n) S \<union> (\<lambda>n. (n, T n)) ` fst ` set q)"
    using Cons.IH [OF _ _ r] Cons.prems(1,2) by auto
  then show ?case using kv(1) ne by (intro exI [of _ t']) simp
qed (simp add: readable_def)

lemma qs_pairs_readable:
  assumes "\<forall>kv \<in> set t. stands_for kv (read_entry kv)"
  shows "concat (map (\<lambda>(k, v). qs_pairs k v) t) = map (\<lambda>(k, v). k @ ''='' @ js_text v) t"
  using assms by (induction t) (auto simp: stands_for_def)

lemma parse_readable:
  assumes "readable t S"
  shows "\<exists>m. parseSearch (search_part [qs_stringify t]) = Ok m \<and> (\<forall>n s. m n = Some s \<longleftrightarrow> (n, s) \<in> S)"
proof (cases "t = []")
  case True
  then show ?thesis
    using assms by (simp add: qs_stringify_def search_part_def parseSearch_def readable_def)
next
  case False
  let ?ws = "map (\<lambda>(k, v). k @ ''='' @ js_text v) t" and ?ns = "map read_entry t"
  have sf: "\<forall>kv \<in> set t. stands_for kv (read_entry kv)" and d: "distinct (map fst ?ns)" and S: "set ?ns = S"
  proof -
    show "\<forall>kv \<in> set t. stands_for kv (read_entry kv)" "set ?ns = S" using assms by (auto simp: readable_def)
    have "distinct t" using assms by (simp add: readable_def distinct_map)
    then show "distinct (map fst ?ns)"
      using assms by (simp add: readable_def distinct_map comp_inj_on_iff [symmetric] comp_def)
  qed
  have q: "qs_stringify t = join_with ''&'' ?ws" using qs_pairs_readable [OF sf] by (simp add: qs_stringify_def)
  have sep: "\<forall>w \<in> set ?ws. CHR ''&'' \<notin> set w" using sf by (auto simp: stands_for_def)
  have ne: "join_with ''&'' ?ws \<noteq> []"
  proof -
    obtain kv t' where "t = kv # t'" using False by (cases t) auto
    then show ?thesis by (cases t'; cases kv) auto
  qed
  have "split_on CHR ''&'' (join_with ''&'' ?ws) = ?ws"
    using split_join [of ?ws "CHR ''&''"] sep False by simp
  moreover have "search_part [qs_stringify t] = CHR ''?'' # join_with ''&'' ?ws"
    using q ne by (simp add: search_part_def Let_def)
  moreover have "list_all2 stands_for t ?ns" using sf by (simp add: list_all2_map2 list_all2_same)
  ultimately have p: "parseSearch (search_part [qs_stringify t]) = Ok (map_of (rev ?ns))"
    using search_fields_entries [of t ?ns Map.empty] by (simp add: parseSearch_def)
  have "map_of (rev ?ns) n = Some s \<longleftrightarrow> (n, s) \<in> S" for n s
  proof -
    have "distinct (map fst (rev ?ns))" using d by (metis distinct_rev rev_map)
    then show ?thesis using map_of_eq_Some_iff [of "rev ?ns" n s] S by simp
  qed
  then show ?thesis using p by blast
qed

end
