(* ===== verification/Swagger_Request_Props.thy ===== *)
theory Swagger_Request_Props
  imports Swagger_Request_Laws
begin




section \<open>Headers\<close>

lemma set_header_other:
  "n \<noteq> k \<Longrightarrow> map_of (rq_headers (set_header k v r)) n = map_of (rq_headers r) n"
  by (simp add: set_header_def assign_property_def map_of_put_property)

lemma not_protected_Cookie: "\<not> protected_header ''Cookie''"
  by code_simp

lemma oas3_builder_protected:
  assumes "oas3_builder L p v r = Ok r'" and "protected_header n"
  shows "map_of (rq_headers r') n = map_of (rq_headers r) n"
proof -
  have c: "n \<noteq> ''Cookie''" using assms(2) not_protected_Cookie by auto
  have q: "rq_headers (set_query k e r) = rq_headers r" "rq_headers (query_object r) = rq_headers r" for k e
    by (simp_all add: set_query_def query_object_def)
  have "r' = r \<or> rq_headers r' = rq_headers r \<or> (\<exists>k w. n \<noteq> k \<and> r' = set_header k w r)"
    using assms c
    by (auto simp: oas3_builder_def oas3_path_def oas3_query_def oas3_header_def oas3_cookie_def obind_Ok_iff Let_def q
        split: if_splits option.splits)
  then show ?thesis using set_header_other by auto
qed

lemma add_parameter_protected:
  assumes "add_parameter L True vals p r = Ok r'" and "protected_header n"
  shows "map_of (rq_headers r') n = map_of (rq_headers r) n"
  using assms oas3_builder_protected
  by (auto simp: add_parameter_def obind_Ok_iff Let_def split: if_splits)

section \<open>Results\<close>


definition example_param :: "string \<Rightarrow> string \<Rightarrow> spec_param" where
  "example_param n l = \<lparr>sp_name = n, sp_in = l, sp_style = None, sp_explode = None, sp_allowReserved = False,
     sp_content = None, sp_default = None, sp_required = True, sp_allowEmptyValue = False, sp_objectSchema = False,
     sp_numeric = False, sp_boolean = False, sp_collectionFormat = None\<rparr>"


text \<open>C28: What the default style makes of the value of a path parameter gives the value back: a text, number
  or truth value when the server decodes it, a list of them when it splits at the commas and decodes each
  part.  Only unreserved characters, percent signs and those commas occur in it.\<close>

theorem path_value_read_back:
  assumes "stylize n (Some v) ''simple'' explode Escaped = Ok (Some w)" and "path_ok v" and "v \<noteq> JArr []"
    and "\<forall>x \<in> set (case v of JArr xs \<Rightarrow> xs | _ \<Rightarrow> [v]). utf8 (js_text x)"
  shows "map decodeURIComponent (case v of JArr xs \<Rightarrow> split_on CHR '','' (js_text w) | _ \<Rightarrow> [js_text w])
      = map (\<lambda>x. Ok (js_text x)) (case v of JArr xs \<Rightarrow> xs | _ \<Rightarrow> [v])
    \<and> (\<forall>c \<in> set (js_text w). unreserved c \<or> c = CHR ''%'' \<or> c = CHR '','')"
proof
  have w: "js_text w = path_value v" using stylize_simple [OF assms(2), of n explode] assms(1) by auto
  then show "\<forall>c \<in> set (js_text w). unreserved c \<or> c = CHR ''%'' \<or> c = CHR '',''" using path_value_set by simp
  show "map decodeURIComponent (case v of JArr xs \<Rightarrow> split_on CHR '','' (js_text w) | _ \<Rightarrow> [js_text w])
      = map (\<lambda>x. Ok (js_text x)) (case v of JArr xs \<Rightarrow> xs | _ \<Rightarrow> [v])"
  proof (cases v)
    case (JArr xs)
    have "\<not> unreserved CHR '',''" by code_simp
    then have "CHR '','' \<notin> set (enc_text s)" for s using enc_text_set [of "CHR '',''" s] by auto
    then have "split_on CHR '','' (js_text w) = map (enc_text \<circ> js_text) xs"
      using w JArr assms(3) split_join [of "map (enc_text \<circ> js_text) xs" "CHR '',''"] by (simp add: path_value_def)
    then show ?thesis using JArr assms(4) decode_enc_text by simp
  qed (use assms(2,4) w decode_enc_text in \<open>auto simp: path_value_def path_ok_def\<close>)
qed

theorem path_value_read_back_witness:
  "map decodeURIComponent (split_on CHR '','' ''a%2Cb,5'') = [Ok ''a,b'', Ok ''5''] \<and>
    list_all (\<lambda>c. unreserved c \<or> c = CHR ''%'' \<or> c = CHR '','') ''a%2Cb,5''"
proof -
  have "stylize ''ids'' (Some (JArr [JStr ''a,b'', JNum ''5''])) ''simple'' False Escaped = Ok (Some (JStr ''a%2Cb,5''))"
    by code_simp
  moreover have "utf8 ''a,b''" "utf8 ''5''" by code_simp+
  ultimately show ?thesis
    using path_value_read_back [of "''ids''" "JArr [JStr ''a,b'', JNum ''5'']" False "JStr ''a%2Cb,5''"]
    by (simp add: path_ok_def list_all_iff)
qed

text \<open>The label style joins with a character that it leaves alone in the values.\<close>

lemma label_values_merge:
  "stylize n (Some (JArr [JStr ''a.b''])) ''label'' e Escaped = stylize n (Some (JArr [JStr ''a'', JStr ''b''])) ''label'' e Escaped"
  by code_simp

text \<open>Of several cookie parameters only the last one is sent.\<close>

lemma last_cookie_only:
  "obind (oas3_cookie L (example_param ''a'' ''cookie'') (Some (JStr s)) (start_request u))
     (oas3_cookie L (example_param ''b'' ''cookie'') (Some (JStr t)))
   = oas3_cookie L (example_param ''b'' ''cookie'') (Some (JStr t)) (start_request u)"
  by (simp add: oas3_cookie_def example_param_def or_default_def stylize_def encodePrimitive_def encodeDisallowedCharacters_def
      set_header_def start_request_def assign_property_def put_property_def index_key_def isInteger_def opt_text_def)

text \<open>An optional path parameter without a value leaves a comma in the address.\<close>

lemma missing_path_value:
  "oas3_path L (example_param ''id'' ''path'') None (start_request ''/policy/{id}'') = Ok (start_request ''/policy/,'')"
  by (simp add: oas3_path_def example_param_def or_default_def stylize_def encodePrimitive_def fill_path_def start_request_def)

text \<open>No parameter of an OpenAPI 3 description can set one of the headers that the request takes from
  elsewhere: the headers accept, authorization and content-type, in any spelling, are the same after the
  parameters have been added as before.\<close>

theorem protected_headers_untouched:
  assumes "add_parameters L True vals ps r = Ok r'" and "protected_header n"
  shows "map_of (rq_headers r') n = map_of (rq_headers r) n"
  using assms(1)
proof (induction ps arbitrary: r)
  case (Cons p ps)
  obtain r1 where r1: "add_parameter L True vals p r = Ok r1" "add_parameters L True vals ps r1 = Ok r'"
    using Cons.prems by (auto simp: obind_Ok_iff)
  then show ?case using add_parameter_protected [OF r1(1) assms(2)] Cons.IH by simp
qed simp

theorem protected_headers_untouched_witness:
  "map_of (rq_headers ((start_request ''/'')\<lparr>rq_headers := [(''Authorization'', Some (JStr ''Bearer x''))]\<rparr>)) ''Authorization''
    = Some (Some (JStr ''Bearer x''))"
  using protected_headers_untouched
    [of "\<lparr>stringify = js_text, parse = (\<lambda>s. None)\<rparr>" "[(''Authorization'', JStr ''other'')]" "[example_param ''Authorization'' ''header'']"
      "(start_request ''/'')\<lparr>rq_headers := [(''Authorization'', Some (JStr ''Bearer x''))]\<rparr>"
      "(start_request ''/'')\<lparr>rq_headers := [(''Authorization'', Some (JStr ''Bearer x''))]\<rparr>" "''Authorization''"]
  by (simp add: start_request_def)

end
