(* ===== verification/JS_Base64.thy ===== *)
theory JS_Base64
  imports Go_Std "HOL-Library.Word"
begin

text \<open>
  The base64 module of the Swagger UI bundle (\<^verbatim>\<open>src/swagger/swagger-ui-bundle.js\<close>), which codes the random
  bytes of the OAuth login: \<^verbatim>\<open>byteLength\<close>, \<^verbatim>\<open>toByteArray\<close> and \<^verbatim>\<open>fromByteArray\<close>, with their loops over
  indices and their arithmetic on 32-bit integers.  The elements of the byte arrays are 8-bit words,
  the texts strings of one-byte characters (a character above 255 decodes like any other foreign
  character, as zero).  The reference is the coding by groups of \<^verbatim>\<open>Go_Std\<close>.
\<close>

unbundle bit_operations_syntax

section \<open>The code\<close>

type_synonym js_int = "32 word"
type_synonym byte = "8 word"

text \<open>Reading beyond the end of an array gives \<^verbatim>\<open>undefined\<close>, which the bit operations take for zero.\<close>

definition byte_at :: "byte list \<Rightarrow> nat \<Rightarrow> js_int" where
  "byte_at a i = (if i < length a then ucast (a ! i) else 0)"

definition lookup :: "js_int \<Rightarrow> char" where
  "lookup w = b64_alphabet ! unat w"

definition revLookup :: "char \<Rightarrow> js_int" where
  "revLookup c =
     (case index_of c b64_alphabet of
        Some n \<Rightarrow> word_of_nat n
      | None \<Rightarrow> if c = CHR ''-'' then 62 else if c = CHR ''_'' then 63 else 0)"

definition code_at :: "string \<Rightarrow> nat \<Rightarrow> js_int" where
  "code_at s n = (if n < length s then revLookup (s ! n) else 0)"

definition getLens :: "string \<Rightarrow> (nat \<times> nat) outcome" where
  "getLens s =
     (if length s mod 4 > 0 then Err (Plain ''Invalid string. Length must be a multiple of 4'')
      else let n = length (takeWhile (\<lambda>c. c \<noteq> CHR ''='') s)
           in Ok (n, if n = length s then 0 else 4 - n mod 4))"

text \<open>The division is exact: validLen and the place holders add up to a multiple of four.\<close>

definition byte_size :: "nat \<Rightarrow> nat \<Rightarrow> int" where
  "byte_size validLen placeHolders = 3 * (int validLen + int placeHolders) div 4 - int placeHolders"

definition byteLength :: "string \<Rightarrow> int outcome" where
  "byteLength s = obind (getLens s) (\<lambda>(n, r). Ok (byte_size n r))"

function decode_loop ::
  "string \<Rightarrow> nat \<Rightarrow> nat \<Rightarrow> nat \<Rightarrow> byte list \<Rightarrow> nat \<times> nat \<times> byte list" where
  "decode_loop s p n l u =
     (if n < p then
        (let t = push_bit 18 (code_at s n) OR push_bit 12 (code_at s (n + 1))
                 OR push_bit 6 (code_at s (n + 2)) OR code_at s (n + 3)
         in decode_loop s p (n + 4) (l + 3)
              (u[l := ucast (signed_drop_bit 16 t AND 255),
                 l + 1 := ucast (signed_drop_bit 8 t AND 255),
                 l + 2 := ucast (255 AND t)]))
      else (n, l, u))"
  by pat_completeness auto
termination by (relation "measure (\<lambda>(s, p, n, l, u). p - n)") auto

text \<open>\<^verbatim>\<open>new Uint8Array\<close> with a negative length is a \<^verbatim>\<open>RangeError\<close>; a write beyond the end is ignored.\<close>

definition toByteArray :: "string \<Rightarrow> byte list outcome" where
  "toByteArray s =
     obind (getLens s) (\<lambda>(validLen, placeHolders).
       if byte_size validLen placeHolders < 0 then Err (Plain ''RangeError'')
       else
         (let p = (if placeHolders > 0 then validLen - 4 else validLen);
              (n, l, u) = decode_loop s p 0 0 (replicate (nat (byte_size validLen placeHolders)) 0);
              u2 = (if placeHolders = 2 then
                      u[l := ucast (255 AND (push_bit 2 (code_at s n)
                                             OR signed_drop_bit 4 (code_at s (n + 1))))]
                    else u);
              u1 = (if placeHolders = 1 then
                      (let t = push_bit 10 (code_at s n) OR push_bit 4 (code_at s (n + 1))
                               OR signed_drop_bit 2 (code_at s (n + 2))
                       in u2[l := ucast (signed_drop_bit 8 t AND 255), l + 1 := ucast (255 AND t)])
                    else u2)
          in Ok u1))"

definition tripletToBase64 :: "js_int \<Rightarrow> string" where
  "tripletToBase64 a =
     [lookup (signed_drop_bit 18 a AND 63), lookup (signed_drop_bit 12 a AND 63),
      lookup (signed_drop_bit 6 a AND 63), lookup (63 AND a)]"

function encodeChunk :: "byte list \<Rightarrow> nat \<Rightarrow> nat \<Rightarrow> string" where
  "encodeChunk e s n =
     (if s < n then
        tripletToBase64
          ((push_bit 16 (byte_at e s) AND 16711680) + (push_bit 8 (byte_at e (s + 1)) AND 65280)
           + (255 AND byte_at e (s + 2)))
        @ encodeChunk e (s + 3) n
      else [])"
  by pat_completeness auto
termination by (relation "measure (\<lambda>(e, s, n). n - s)") auto

text \<open>The array is coded in chunks of 16383 bytes, a multiple of three.\<close>

function encode_chunks :: "byte list \<Rightarrow> nat \<Rightarrow> nat \<Rightarrow> string" where
  "encode_chunks e s n =
     (if s < n then encodeChunk e s (if s + 16383 > n then n else s + 16383) @ encode_chunks e (s + 16383) n
      else [])"
  by pat_completeness auto
termination by (relation "measure (\<lambda>(e, s, n). n - s)") auto

definition fromByteArray :: "byte list \<Rightarrow> string" where
  "fromByteArray e =
     (let n = length e; extra = n mod 3
      in encode_chunks e 0 (n - extra)
         @ (if extra = 1 then
              (let t = byte_at e (n - 1)
               in [lookup (signed_drop_bit 2 t), lookup (push_bit 4 t AND 63), CHR ''='', CHR ''=''])
            else if extra = 2 then
              (let t = push_bit 8 (byte_at e (n - 2)) + byte_at e (n - 1)
               in [lookup (signed_drop_bit 10 t), lookup (signed_drop_bit 4 t AND 63),
                   lookup (push_bit 2 t AND 63), CHR ''=''])
            else []))"

declare decode_loop.simps [simp del] encodeChunk.simps [simp del] encode_chunks.simps [simp del]

section \<open>The integer operations on small numbers\<close>

lemma or_pack: "y < 2 ^ n \<Longrightarrow> push_bit n x OR y = x * 2 ^ n + (y::nat)"
proof -
  assume "y < 2^n"
  then have y: "take_bit n y = y" by (simp add: take_bit_nat_eq_self)
  have "push_bit n x + take_bit n y = push_bit n x OR take_bit n y"
    by (rule disjunctive_add) (auto simp: bit_simps)
  then show ?thesis using y by (simp add: push_bit_eq_mult)
qed

lemma shr_of_nat: "n < 2^31 \<Longrightarrow> signed_drop_bit k (word_of_nat n :: js_int) = word_of_nat (n div 2^k)"
proof -
  assume n: "n < 2^31"
  have "sint (word_of_nat n :: js_int) = int n"
    using n by (simp add: signed_of_nat signed_take_bit_int_eq_self)
  then have "sint (signed_drop_bit k (word_of_nat n :: js_int)) = int n div 2^k"
    by (simp add: sint_signed_drop_bit_eq drop_bit_eq_div)
  moreover have "sint (word_of_nat (n div 2^k) :: js_int) = int (n div 2^k)"
    using n by (subst signed_of_nat) (auto intro!: signed_take_bit_int_eq_self simp: le_less_trans [OF div_le_dividend])
  ultimately have "sint (signed_drop_bit k (word_of_nat n :: js_int)) = sint (word_of_nat (n div 2^k) :: js_int)"
    by (simp add: zdiv_int)
  then show ?thesis by (rule signed_word_eqI)
qed

lemma shl_of_nat: "push_bit k (word_of_nat n :: js_int) = word_of_nat (n * 2^k)"
  by (simp add: push_bit_eq_mult)

lemma take_bit_word_of_nat: "take_bit k (word_of_nat n :: js_int) = word_of_nat (n mod 2 ^ k)"
  by (simp only: take_bit_of_nat take_bit_eq_mod [where 'a = nat])

lemma mask_of_nat:
  "(word_of_nat n :: js_int) AND 63 = word_of_nat (n mod 64)"
  "(word_of_nat n :: js_int) AND 255 = word_of_nat (n mod 256)"
  "255 AND (word_of_nat n :: js_int) = word_of_nat (n mod 256)"
  "63 AND (word_of_nat n :: js_int) = word_of_nat (n mod 64)"
proof -
  have m: "(63::js_int) = mask 6" "(255::js_int) = mask 8" by (simp_all add: mask_eq_exp_minus_1)
  note t = take_bit_word_of_nat [of 6 n] take_bit_word_of_nat [of 8 n]
  show "(word_of_nat n :: js_int) AND 63 = word_of_nat (n mod 64)"
    "(word_of_nat n :: js_int) AND 255 = word_of_nat (n mod 256)"
    using t unfolding m by (simp_all flip: take_bit_eq_mask)
  then show "255 AND (word_of_nat n :: js_int) = word_of_nat (n mod 256)"
    "63 AND (word_of_nat n :: js_int) = word_of_nat (n mod 64)"
    by (simp_all add: and.commute)
qed

lemma high_masks:
  "x < 256 \<Longrightarrow> push_bit 16 (word_of_nat x :: js_int) AND 16711680 = word_of_nat (x * 65536)"
  "x < 256 \<Longrightarrow> push_bit 8 (word_of_nat x :: js_int) AND 65280 = word_of_nat (x * 256)"
proof -
  assume x: "x < 256"
  then have t: "take_bit 8 (word_of_nat x :: js_int) = word_of_nat x"
    by (simp add: take_bit_word_of_nat)
  have m: "(16711680::js_int) = push_bit 16 (mask 8)" "(65280::js_int) = push_bit 8 (mask 8)"
    by (simp_all add: mask_eq_exp_minus_1 push_bit_eq_mult)
  show "push_bit 16 (word_of_nat x :: js_int) AND 16711680 = word_of_nat (x * 65536)"
    "push_bit 8 (word_of_nat x :: js_int) AND 65280 = word_of_nat (x * 256)"
    unfolding m push_bit_and [symmetric] take_bit_eq_mask [symmetric] t by (simp_all only: shl_of_nat) simp_all
qed

lemma triple_arith:
  fixes x y z :: nat
  assumes "x < 256" "y < 256" "z < 256"
  defines "a \<equiv> x * 65536 + y * 256 + z"
  shows "a div 262144 mod 64 = x div 4" "a div 4096 mod 64 = x mod 4 * 16 + y div 16"
    "a div 64 mod 64 = y mod 16 * 4 + z div 64" "a mod 64 = z mod 64"
proof -
  have a: "a div 256 = x * 256 + y" "a mod 256 = z"
    using pack_div_mod [OF assms(3), of "x * 256 + y"] by (simp_all add: a_def algebra_simps)
  have xy: "(x * 256 + y) div 256 = x" "(x * 256 + y) mod 256 = y"
    using pack_div_mod [OF assms(2)] by simp_all
  have "a div 262144 = a div 256 div 256 div 4" by (simp add: div_mult2_eq [symmetric])
  then show "a div 262144 mod 64 = x div 4" using assms(1) by (simp add: a xy)
  have d: "a div 4096 = a div 256 div 16" "a div 64 = a div 64" by (simp_all add: div_mult2_eq [symmetric])
  have "(x * 256 + y) div 16 = x * 16 + y div 16" by (simp add: div_plus_div_distrib_dvd_left)
  also have "x * 16 = x div 4 * 64 + x mod 4 * 16" using div_mult_mod_eq [of x 4] by linarith
  finally have "(x * 256 + y) div 16 = x div 4 * 64 + (x mod 4 * 16 + y div 16)" by simp
  moreover have "x mod 4 * 16 + y div 16 < 64" using pack_less [of "x mod 4" 4 "y div 16" 16] assms(2) by auto
  ultimately show "a div 4096 mod 64 = x mod 4 * 16 + y div 16"
    unfolding d a by (simp only: pack_div_mod)
  have a64: "a = z + (x * 1024 + y * 4) * 64" by (simp add: a_def)
  have "a div 64 = (x * 1024 + y * 4) + z div 64" "a mod 64 = z mod 64"
    unfolding a64 by (simp_all only: div_mult_self1 mod_mult_self1)
  moreover have "y * 4 = y div 16 * 64 + y mod 16 * 4" using div_mult_mod_eq [of y 16] by linarith
  ultimately have "a div 64 = (x * 16 + y div 16) * 64 + (y mod 16 * 4 + z div 64)" by simp
  moreover have "y mod 16 * 4 + z div 64 < 64"
    using pack_less [of "y mod 16" 16 "z div 64" 4] assms(3) by auto
  ultimately show "a div 64 mod 64 = y mod 16 * 4 + z div 64" by (simp only: pack_div_mod)
  show "a mod 64 = z mod 64" by fact
qed

section \<open>Coding is the coding by groups\<close>

definition byte_char :: "byte \<Rightarrow> char" where
  "byte_char b = char_of (unat b)"

lemma unat_byte_lt: "unat (b :: byte) < 256"
  using unsigned_less [of b] by simp

lemma of_byte_char [simp]: "(of_char (byte_char b) :: nat) = unat b"
  using unat_byte_lt [of b] by (simp add: byte_char_def)

lemma byte_at_nat: "i < length e \<Longrightarrow> byte_at e i = word_of_nat (unat (e ! i))"
  by (simp add: byte_at_def)

lemma lookup_of_nat: "n < 64 \<Longrightarrow> lookup (word_of_nat n) = b64_char n"
  by (simp add: lookup_def b64_char_def unat_of_nat)

lemma triplet_groups:
  assumes "x < 256" "y < 256" "z < (256 :: nat)"
  shows "tripletToBase64 ((push_bit 16 (word_of_nat x) AND 16711680) + (push_bit 8 (word_of_nat y) AND 65280)
      + (255 AND word_of_nat z)) =
    [b64_char (x div 4), b64_char (x mod 4 * 16 + y div 16), b64_char (y mod 16 * 4 + z div 64),
     b64_char (z mod 64)]"
proof -
  let ?a = "x * 65536 + y * 256 + z"
  have sum: "(push_bit 16 (word_of_nat x) AND 16711680) + (push_bit 8 (word_of_nat y) AND 65280)
      + (255 AND word_of_nat z) = (word_of_nat ?a :: js_int)"
    using assms(3) by (simp only: high_masks [OF assms(1)] high_masks [OF assms(2)] mask_of_nat of_nat_add mod_less)
  have small: "?a < 2 ^ 31" using assms by simp
  note g = byte_groups [OF assms]
  have l: "z mod 64 < 64" by simp
  show ?thesis
    unfolding sum unfolding tripletToBase64_def shr_of_nat [OF small] mask_of_nat
    using triple_arith [OF assms] g(4,5,8) l
    by (simp add: lookup_of_nat del: of_nat_add of_nat_mult)
qed

lemma b64_encode_append: "length xs mod 3 = 0 \<Longrightarrow> b64_encode (xs @ ys) = b64_encode xs @ b64_encode ys"
  by (induction xs rule: b64_encode.induct) (auto simp: Let_def)

lemma take_three:
  assumes "s + 3 + m \<le> length e"
  shows "take (3 + m) (drop s e) = e ! s # e ! (s + 1) # e ! (s + 2) # take m (drop (s + 3) e)"
proof -
  have "drop s e = e ! s # e ! (s + 1) # e ! (s + 2) # drop (s + 3) e"
    using assms by (simp add: Cons_nth_drop_Suc numeral_3_eq_3)
  then show ?thesis by (simp add: numeral_3_eq_3)
qed

lemma encodeChunk_groups:
  "s + 3 * k \<le> length e \<Longrightarrow>
     encodeChunk e s (s + 3 * k) = b64_encode (map byte_char (take (3 * k) (drop s e)))"
proof (induction k arbitrary: s)
  case (Suc k)
  have "encodeChunk e (s + 3) (s + 3 + 3 * k)
      = b64_encode (map byte_char (take (3 * k) (drop (s + 3) e)))"
    using Suc.prems by (intro Suc.IH) simp
  moreover have "take (3 * Suc k) (drop s e)
      = e ! s # e ! (s + 1) # e ! (s + 2) # take (3 * k) (drop (s + 3) e)"
    using take_three [of s "3 * k" e] Suc.prems by (simp add: algebra_simps)
  ultimately show ?case
    using triplet_groups [OF unat_byte_lt unat_byte_lt unat_byte_lt, of "e ! s" "e ! (s + 1)" "e ! (s + 2)"]
      Suc.prems
    by (subst encodeChunk.simps) (simp add: byte_at_nat Let_def algebra_simps)
qed (simp add: encodeChunk.simps)

lemma encode_chunks_groups:
  "s + 3 * k \<le> length e \<Longrightarrow>
     encode_chunks e s (s + 3 * k) = b64_encode (map byte_char (take (3 * k) (drop s e)))"
proof (induction k arbitrary: s rule: less_induct)
  case (less k)
  show ?case
  proof (cases "k \<le> 5461")
    case True
    then have "encode_chunks e (s + 16383) (s + 3 * k) = []"
      by (subst encode_chunks.simps) simp
    then show ?thesis
      using True encodeChunk_groups [OF less.prems]
      by (subst encode_chunks.simps) (auto simp: not_less intro!: le_antisym)
  next
    case False
    define j where "j = k - 5461"
    then have k: "3 * k = 16383 + 3 * j" "j < k" using False by auto
    have "encode_chunks e (s + 16383) (s + 16383 + 3 * j)
        = b64_encode (map byte_char (take (3 * j) (drop (s + 16383) e)))"
      using less.prems k by (intro less.IH) auto
    moreover have "encodeChunk e s (s + 16383) = b64_encode (map byte_char (take 16383 (drop s e)))"
      using encodeChunk_groups [of s 5461 e] less.prems k by simp
    moreover have "take (16383 + 3 * j) (drop s e) = take 16383 (drop s e) @ take (3 * j) (drop (s + 16383) e)"
      using take_add [of 16383 "3 * j" "drop s e"] by (simp add: add.commute)
    moreover have "length (take 16383 (drop s e)) = 16383" using less.prems k by simp
    ultimately show ?thesis
      using False by (subst encode_chunks.simps) (simp add: k(1) b64_encode_append add.assoc)
  qed
qed

lemma tail_one: "x < 256 \<Longrightarrow>
  [lookup (signed_drop_bit 2 (word_of_nat x)), lookup (push_bit 4 (word_of_nat x) AND 63)] =
    [b64_char (x div 4), b64_char (x mod 4 * 16)]"
proof -
  assume x: "x < 256"
  then have "x * 16 mod 64 = x mod 4 * 16" by (simp add: mod_mult_mult2 [of x 16 4, simplified])
  moreover have "x div 4 < 64" "x mod 4 * 16 < 64" using byte_groups(6,8) [OF x x x] by auto
  ultimately show ?thesis
    using x by (simp add: shr_of_nat shl_of_nat mask_of_nat lookup_of_nat del: of_nat_mult push_bit_of_nat)
qed

lemma pair_arith:
  fixes x y :: nat
  assumes "x < 256" "y < 256"
  shows "(x * 256 + y) div 1024 = x div 4" "(x * 256 + y) div 16 mod 64 = x mod 4 * 16 + y div 16"
    "(x * 256 + y) * 4 mod 64 = y mod 16 * 4"
proof -
  have "(x * 256 + y) div 1024 = (x * 256 + y) div 256 div 4" by (simp add: div_mult2_eq [symmetric])
  then show "(x * 256 + y) div 1024 = x div 4" using pack_div_mod [OF assms(2)] by simp
  have "(x * 65536 + y * 256 + 0) div 4096 = (x * 256 + y) * 256 div (16 * 256)" by simp
  also have "\<dots> = (x * 256 + y) div 16" by (rule div_mult_mult2) simp
  finally show "(x * 256 + y) div 16 mod 64 = x mod 4 * 16 + y div 16"
    using triple_arith(2) [OF assms, of 0] by simp
  have "y * 4 mod 64 = y mod 16 * 4" using mod_mult_mult2 [of y 4 16] by simp
  moreover have "(x * 256 + y) * 4 = y * 4 + 64 * (x * 16)" by simp
  ultimately show "(x * 256 + y) * 4 mod 64 = y mod 16 * 4" by (simp only: mod_mult_self2)
qed

lemma tail_two:
  assumes "x < 256" "y < (256 :: nat)"
  defines "t \<equiv> push_bit 8 (word_of_nat x) + word_of_nat y"
  shows "[lookup (signed_drop_bit 10 t), lookup (signed_drop_bit 4 t AND 63), lookup (push_bit 2 t AND 63)] =
    [b64_char (x div 4), b64_char (x mod 4 * 16 + y div 16), b64_char (y mod 16 * 4)]"
proof -
  have t: "t = word_of_nat (x * 256 + y)" unfolding t_def shl_of_nat by simp
  have "x * 256 + y < 2 ^ 31" using assms by simp
  note shr = shr_of_nat [OF this]
  show ?thesis
    unfolding t shr shl_of_nat mask_of_nat
    using pair_arith [OF assms(1,2)] byte_groups(4,7,8) [OF assms(1,2,2)]
    by (simp add: lookup_of_nat del: of_nat_add of_nat_mult)
qed

lemma last_group:
  obtains "length e mod 3 = 0" "drop (length e - length e mod 3) e = []"
  | "length e mod 3 = 1" "drop (length e - length e mod 3) e = [e ! (length e - 1)]"
  | "length e mod 3 = 2" "drop (length e - length e mod 3) e = [e ! (length e - 2), e ! (length e - 1)]"
proof -
  have "length e mod 3 < 3" by simp
  then consider "length e mod 3 = 0" | "length e mod 3 = 1" | "length e mod 3 = 2" by linarith
  then show thesis
  proof cases
    case 2
    then have "length e \<ge> 1" by (cases e) auto
    then have "drop (length e - 1) e = [e ! (length e - 1)]"
      using Cons_nth_drop_Suc [of "length e - 1" e] by simp
    then show ?thesis using that(2) 2 by simp
  next
    case 3
    then have "length e \<ge> 2" by (cases e rule: list.exhaust; cases "tl e") auto
    then obtain m where m: "length e = Suc (Suc m)" by (metis Suc_diff_le add_2_eq_Suc le_Suc_ex)
    then have "drop (length e - 2) e = [e ! (length e - 2), e ! (length e - 1)]"
      using Cons_nth_drop_Suc [of m e] Cons_nth_drop_Suc [of "Suc m" e] by simp
    then show ?thesis using that(3) 3 by simp
  qed (use that(1) in simp)
qed

lemma fromByteArray_groups: "fromByteArray e = b64_encode (map byte_char e)"
proof -
  let ?n = "length e" and ?r = "length e mod 3"
  have n: "?n - ?r = 0 + 3 * (?n div 3)" by (simp add: minus_mod_eq_mult_div)
  have "encode_chunks e 0 (?n - ?r) = b64_encode (map byte_char (take (?n - ?r) e))"
    unfolding n by (subst encode_chunks_groups) auto
  moreover have "length (take (?n - ?r) e) mod 3 = 0" by (simp add: n)
  moreover have "map byte_char e = map byte_char (take (?n - ?r) e) @ map byte_char (drop (?n - ?r) e)"
    by (simp flip: map_append)
  ultimately have "b64_encode (map byte_char e)
      = encode_chunks e 0 (?n - ?r) @ b64_encode (map byte_char (drop (?n - ?r) e))"
    by (simp add: b64_encode_append)
  moreover have "b64_encode (map byte_char (drop (?n - ?r) e)) = drop (length (encode_chunks e 0 (?n - ?r))) (fromByteArray e)"
  proof (cases rule: last_group [of e])
    case 2
    then have "0 < length e" by (cases e) auto
    then show ?thesis
      using 2 tail_one [OF unat_byte_lt] by (simp add: fromByteArray_def byte_at_nat Let_def)
  next
    case 3
    then have "2 \<le> length e" by (cases e rule: list.exhaust; cases "tl e") auto
    then show ?thesis
      using 3 tail_two [OF unat_byte_lt unat_byte_lt] by (simp add: fromByteArray_def byte_at_nat Let_def)
  qed (simp add: fromByteArray_def Let_def)
  ultimately show ?thesis by (simp add: fromByteArray_def Let_def)
qed

section \<open>Decoding what was coded\<close>

lemma revLookup_char: "n < 64 \<Longrightarrow> revLookup (b64_char n) = word_of_nat n"
  using b64_val_char [of n] by (simp add: revLookup_def b64_val_def)

lemma ucast_small: "v < 256 \<Longrightarrow> ucast (word_of_nat v :: js_int) = (word_of_nat v :: byte)"
  by (simp add: unsigned_of_nat take_bit_nat_eq_self)

lemma or_four:
  assumes "b < 64" "c < 64" "d < (64 :: nat)"
  shows "push_bit 18 (word_of_nat a) OR push_bit 12 (word_of_nat b) OR push_bit 6 (word_of_nat c)
      OR word_of_nat d = (word_of_nat (a * 262144 + b * 4096 + c * 64 + d) :: js_int)"
proof -
  have "push_bit 6 c OR d = c * 64 + d" using or_pack [of d 6 c] assms by simp
  moreover have "push_bit 12 b OR (c * 64 + d) = b * 4096 + (c * 64 + d)"
    using or_pack [of "c * 64 + d" 12 b] assms by simp
  moreover have "push_bit 18 a OR (b * 4096 + (c * 64 + d)) = a * 262144 + (b * 4096 + (c * 64 + d))"
    using or_pack [of "b * 4096 + (c * 64 + d)" 18 a] assms by simp
  ultimately show ?thesis
    by (simp only: push_bit_of_nat flip: of_nat_or_eq) (simp add: add.assoc)
qed

lemma regroup_digits:
  fixes x y z :: nat
  assumes "x = a * 4 + b" "y = c * 16 + d" "z = e * 64 + f"
  shows "a * 262144 + (b * 16 + c) * 4096 + (d * 4 + e) * 64 + f = x * 65536 + y * 256 + z"
  unfolding assms by simp

lemma regroup_pair: "x = a * 4 + b \<Longrightarrow> a * 1024 + (b * 256 + y) = x * 256 + (y :: nat)"
  by simp

lemma regroup:
  fixes x y z :: nat
  shows "x div 4 * 262144 + (x mod 4 * 16 + y div 16) * 4096 + (y mod 16 * 4 + z div 64) * 64 + z mod 64
    = x * 65536 + y * 256 + z"
  by (rule regroup_digits) simp_all

lemma ucast_back: "ucast (ucast (b :: byte) :: js_int) = b"
  by (simp add: ucast_up_ucast_id is_up)

lemma split_three:
  fixes b0 b1 b2 :: byte
  defines "t \<equiv> word_of_nat (unat b0 * 65536 + unat b1 * 256 + unat b2) :: js_int"
  shows "ucast (signed_drop_bit 16 t AND 255) = b0" "ucast (signed_drop_bit 8 t AND 255) = b1"
    "ucast (255 AND t) = b2"
proof -
  let ?x = "unat b0" and ?y = "unat b1" and ?z = "unat b2"
  note lt = unat_byte_lt [of b0] unat_byte_lt [of b1] unat_byte_lt [of b2]
  let ?T = "?x * 65536 + ?y * 256 + ?z"
  have T: "?T = (?x * 256 + ?y) * 256 + ?z" by simp
  have small: "?T < 2 ^ 31" using lt by simp
  have d: "?T div 256 = ?x * 256 + ?y" "?T mod 256 = ?z"
    unfolding T by (rule pack_div_mod [OF lt(3)])+
  have e: "(?x * 256 + ?y) div 256 = ?x" "(?x * 256 + ?y) mod 256 = ?y"
    using pack_div_mod [OF lt(2)] by simp_all
  have "?T div 65536 = ?T div 256 div 256" by (simp add: div_mult2_eq [symmetric])
  then have f: "?T div 65536 mod 256 = ?x" using lt(1) by (simp add: d e)
  show "ucast (signed_drop_bit 16 t AND 255) = b0" "ucast (signed_drop_bit 8 t AND 255) = b1"
    "ucast (255 AND t) = b2"
    unfolding t_def shr_of_nat [OF small] mask_of_nat
    using f d e lt by (simp_all add: ucast_back del: of_nat_add of_nat_mult)
qed

lemma code_at_drop: "code_at s (n + i) = code_at (drop n s) i"
  by (auto simp: code_at_def nth_drop add.commute less_diff_conv)

lemma take_update_three:
  assumes "l + 3 \<le> length u"
  shows "take (l + 3) (u[l := a, l + 1 := b, l + 2 := c]) = take l u @ [a, b, c]"
    and "drop (l + 3 + k) (u[l := a, l + 1 := b, l + 2 := c]) = drop (l + 3 + k) u"
proof -
  show "take (l + 3) (u[l := a, l + 1 := b, l + 2 := c]) = take l u @ [a, b, c]"
    using assms by (auto simp: list_eq_iff_nth_eq nth_append nth_list_update less_Suc_eq numeral_3_eq_3 nth_Cons')
qed simp

lemma decode_loop_groups:
  "drop n s = b64_encode (map byte_char bs) \<Longrightarrow> l + length bs \<le> length u \<Longrightarrow>
   p \<le> n + 4 * (length bs div 3) \<Longrightarrow> n + 4 * (length bs div 3) < p + 4 \<Longrightarrow>
   decode_loop s p n l u =
     (n + 4 * (length bs div 3), l + 3 * (length bs div 3),
      take l u @ take (3 * (length bs div 3)) bs @ drop (l + 3 * (length bs div 3)) u)"
proof (induction bs arbitrary: n l u rule: measure_induct_rule [where f = length])
  case (less bs)
  show ?case
  proof (cases "length bs < 3")
    case True
    then show ?thesis using less.prems by (subst decode_loop.simps) simp
  next
    case False
    then obtain b0 b1 b2 r where bs: "bs = b0 # b1 # b2 # r"
      by (cases bs rule: list.exhaust; cases "tl bs" rule: list.exhaust; cases "tl (tl bs)") auto
    let ?x = "unat b0" and ?y = "unat b1" and ?z = "unat b2"
    note lt = unat_byte_lt [of b0] unat_byte_lt [of b1] unat_byte_lt [of b2]
    have drop: "drop n s = b64_char (?x div 4) # b64_char (?x mod 4 * 16 + ?y div 16)
        # b64_char (?y mod 16 * 4 + ?z div 64) # b64_char (?z mod 64) # b64_encode (map byte_char r)"
      using less.prems(1) by (simp add: bs Let_def)
    have "drop (n + 4) s = drop 4 (drop n s)" by (simp add: add.commute)
    then have n: "drop (n + 4) s = b64_encode (map byte_char r)" by (simp add: drop)
    have codes: "code_at s n = word_of_nat (?x div 4)"
      "code_at s (n + 1) = word_of_nat (?x mod 4 * 16 + ?y div 16)"
      "code_at s (n + 2) = word_of_nat (?y mod 16 * 4 + ?z div 64)"
      "code_at s (n + 3) = word_of_nat (?z mod 64)"
      unfolding code_at_drop code_at_drop [of s n 0, simplified] drop
      using byte_groups(4,5,8) [OF lt]
      by (simp_all add: code_at_def revLookup_char del: of_nat_add of_nat_mult)
    have "?z mod 64 < 64" by simp
    note t = or_four [OF byte_groups(4,5) [OF lt] this, of "?x div 4", folded codes, unfolded regroup]
    let ?u = "u[l := b0, l + 1 := b1, l + 2 := b2]"
    have len: "length bs div 3 = Suc (length r div 3)" by (simp add: bs)
    have np: "(n < p) = True" using less.prems(4) len by simp
    have "decode_loop s p n l u = decode_loop s p (n + 4) (l + 3) ?u"
      by (subst decode_loop.simps) (simp only: np Let_def t split_three if_True)
    also have "\<dots> = (n + 4 + 4 * (length r div 3), l + 3 + 3 * (length r div 3),
        take (l + 3) ?u @ take (3 * (length r div 3)) r @ drop (l + 3 + 3 * (length r div 3)) ?u)"
      using less.prems(2-4) n len by (intro less.IH) (simp_all add: bs)
    also have "take (l + 3) ?u = take l u @ [b0, b1, b2]"
      using less.prems(2) by (intro take_update_three) (simp add: bs)
    also have "drop (l + 3 + 3 * (length r div 3)) ?u = drop (l + 3 + 3 * (length r div 3)) u"
      using less.prems(2) by (intro take_update_three) (simp add: bs)
    finally have run: "decode_loop s p n l u = (n + 4 + 4 * (length r div 3), l + 3 + 3 * (length r div 3),
        (take l u @ [b0, b1, b2]) @ take (3 * (length r div 3)) r @ drop (l + 3 + 3 * (length r div 3)) u)" .
    have "3 * Suc (length r div 3) = Suc (Suc (Suc (3 * (length r div 3))))" by simp
    then have "take (3 * Suc (length r div 3)) bs = b0 # b1 # b2 # take (3 * (length r div 3)) r"
      by (simp only: bs take_Suc_Cons)
    then show ?thesis unfolding run len by (simp add: add.assoc)
  qed
qed

lemma b64_encode_length: "length (b64_encode xs) = 4 * ((length xs + 2) div 3)"
proof (induction xs rule: b64_encode.induct)
  case (4 a b c s)
  have "(length (a # b # c # s) + 2) div 3 = Suc ((length s + 2) div 3)"
    using div_add_self2 [of 3 "length s + 2"] by (simp add: add.commute)
  then show ?case using 4 by (simp add: Let_def)
qed (auto simp: Let_def)

lemma b64_encode_no_pad: "length xs mod 3 = 0 \<Longrightarrow> c \<in> set (b64_encode xs) \<Longrightarrow> c \<noteq> CHR ''=''"
proof (induction xs rule: b64_encode.induct)
  case (4 x y z xs)
  note lt = of_char_lt [of x] of_char_lt [of y] of_char_lt [of z]
  have no_pad: "b64_char n \<noteq> CHR ''=''" if "n < 64" for n
    using that b64_val_char [of n] b64_val_pad by auto
  have "(of_char z :: nat) mod 64 < 64" by simp
  then show ?case
    using 4 no_pad [OF byte_groups(4) [OF lt]] no_pad [OF byte_groups(5) [OF lt]] no_pad [OF byte_groups(8) [OF lt]] no_pad [OF \<open>of_char z mod 64 < 64\<close>]
    by (auto simp: Let_def)
qed auto

text \<open>The shape of a coded array: full groups, then one of the three tails.\<close>

lemma coded_shape:
  fixes bs :: "byte list"
  defines "k \<equiv> length bs div 3"
  obtains xs t where "bs = xs @ t" "length xs = 3 * k" "length t < 3"
    "b64_encode (map byte_char bs) = b64_encode (map byte_char xs) @ b64_encode (map byte_char t)"
    "length (b64_encode (map byte_char xs)) = 4 * k"
    "\<And>ys. takeWhile (\<lambda>c. c \<noteq> CHR ''='') (b64_encode (map byte_char xs) @ ys)
       = b64_encode (map byte_char xs) @ takeWhile (\<lambda>c. c \<noteq> CHR ''='') ys"
proof -
  let ?xs = "take (3 * k) bs" and ?t = "drop (3 * k) bs"
  have len: "length ?xs = 3 * k" "length ?t < 3" by (auto simp: k_def)
  show thesis
  proof
    show "bs = ?xs @ ?t" by simp
    show "b64_encode (map byte_char bs) = b64_encode (map byte_char ?xs) @ b64_encode (map byte_char ?t)"
      using len by (metis append_take_drop_id b64_encode_append length_map map_append mod_mult_self1_is_0)
    show "length (b64_encode (map byte_char ?xs)) = 4 * k"
      using len by (simp add: b64_encode_length)
    show "takeWhile (\<lambda>c. c \<noteq> CHR ''='') (b64_encode (map byte_char ?xs) @ ys)
       = b64_encode (map byte_char ?xs) @ takeWhile (\<lambda>c. c \<noteq> CHR ''='') ys" for ys
      using b64_encode_no_pad [of "map byte_char ?xs"] len by (intro takeWhile_append2) simp
  qed (use len in auto)
qed

lemma one_back:
  "ucast (255 AND (push_bit 2 (word_of_nat (unat b div 4)) OR
     signed_drop_bit 4 (word_of_nat (unat b mod 4 * 16) :: js_int))) = (b :: byte)"
proof -
  have sh: "signed_drop_bit 4 (word_of_nat (unat b mod 4 * 16) :: js_int) = word_of_nat (unat b mod 4)"
    by (subst shr_of_nat) simp_all
  have "push_bit 2 (unat b div 4) OR unat b mod 4 = unat b"
    using or_pack [of "unat b mod 4" 2 "unat b div 4"] by simp
  then have "push_bit 2 (word_of_nat (unat b div 4)) OR word_of_nat (unat b mod 4) = (word_of_nat (unat b) :: js_int)"
    by (simp only: push_bit_of_nat flip: of_nat_or_eq)
  then show ?thesis
    unfolding sh using unat_byte_lt [of b] by (simp only: mask_of_nat mod_less) (simp add: ucast_back)
qed

lemma two_back:
  fixes b0 b1 :: byte
  defines "t \<equiv> push_bit 10 (word_of_nat (unat b0 div 4))
      OR push_bit 4 (word_of_nat (unat b0 mod 4 * 16 + unat b1 div 16))
      OR signed_drop_bit 2 (word_of_nat (unat b1 mod 16 * 4) :: js_int)"
  shows "ucast (signed_drop_bit 8 t AND 255) = b0" "ucast (255 AND t) = b1"
proof -
  let ?x = "unat b0" and ?y = "unat b1"
  note lt = unat_byte_lt [of b0] unat_byte_lt [of b1]
  have sh: "signed_drop_bit 2 (word_of_nat (?y mod 16 * 4) :: js_int) = word_of_nat (?y mod 16)"
    by (subst shr_of_nat) simp_all
  have mid: "?x mod 4 * 16 + ?y div 16 < 64" using byte_groups(4) [OF lt(1) lt(2) lt(2)] .
  have "push_bit 4 (?x mod 4 * 16 + ?y div 16) OR ?y mod 16 = (?x mod 4 * 16 + ?y div 16) * 16 + ?y mod 16"
    using or_pack [of "?y mod 16" 4 "?x mod 4 * 16 + ?y div 16"] by simp
  also have "\<dots> = ?x mod 4 * 256 + ?y" by simp
  finally have low: "push_bit 4 (?x mod 4 * 16 + ?y div 16) OR ?y mod 16 = ?x mod 4 * 256 + ?y" .
  have "?x mod 4 * 256 + ?y < 1024" using pack_less [of "?x mod 4" 4 ?y 256] lt by simp
  then have "push_bit 10 (?x div 4) OR (?x mod 4 * 256 + ?y) = ?x div 4 * 1024 + (?x mod 4 * 256 + ?y)"
    using or_pack [of "?x mod 4 * 256 + ?y" 10 "?x div 4"] by simp
  also have "\<dots> = ?x * 256 + ?y" by (rule regroup_pair) simp
  finally have "push_bit 10 (?x div 4) OR (?x mod 4 * 256 + ?y) = ?x * 256 + ?y" .
  then have t: "t = word_of_nat (unat (0 :: byte) * 65536 + ?x * 256 + ?y)"
    unfolding t_def sh by (simp only: push_bit_of_nat low flip: of_nat_or_eq) simp
  show "ucast (signed_drop_bit 8 t AND 255) = b0" "ucast (255 AND t) = b1"
    unfolding t by (rule split_three)+
qed

lemma toByteArray_fromByteArray:
  "toByteArray (fromByteArray bs) = Ok bs \<and> byteLength (fromByteArray bs) = Ok (int (length bs))"
proof -
  define k where "k = length bs div 3"
  obtain xs t where bs: "bs = xs @ t" "length xs = 3 * k" "length t < 3"
    and s: "b64_encode (map byte_char bs) = b64_encode (map byte_char xs) @ b64_encode (map byte_char t)"
    and len: "length (b64_encode (map byte_char xs)) = 4 * k"
    and pad: "\<And>ys. takeWhile (\<lambda>c. c \<noteq> CHR ''='') (b64_encode (map byte_char xs) @ ys)
       = b64_encode (map byte_char xs) @ takeWhile (\<lambda>c. c \<noteq> CHR ''='') ys"
    using coded_shape [of bs] unfolding k_def by blast
  let ?s = "b64_encode (map byte_char bs)"
  have k: "length bs div 3 = k" by (simp add: k_def)
  have loop: "decode_loop ?s p 0 0 u = (4 * k, 3 * k, xs @ drop (3 * k) u)"
    if "length bs = length u" "p \<le> 4 * k" "4 * k < p + 4" for p u
    using decode_loop_groups [of 0 ?s bs 0 u p] that bs by (simp add: k)
  have code: "code_at ?s (4 * k + i) = code_at (b64_encode (map byte_char t)) i" for i
    by (simp only: code_at_drop) (simp add: s len)
  have np: "b64_char n \<noteq> CHR ''=''" if "n < 64" for n
    using that b64_val_char [of n] b64_val_pad by auto
  have four: "Suc (Suc (4 * k)) mod 4 = 2" "Suc (Suc (Suc (4 * k))) mod 4 = 3" by presburger+
  have zeros: "drop (3 * k) (0 # replicate (3 * k) 0) = [0 :: byte]"
    "drop (3 * k) (0 # 0 # replicate (3 * k) 0) = [0, 0 :: byte]"
    using drop_replicate [of "3 * k" "Suc (3 * k)" "0 :: byte"]
      drop_replicate [of "3 * k" "Suc (Suc (3 * k))" "0 :: byte"] by (simp_all add: Suc_diff_le)
  consider "t = []" | x where "t = [x]" | x y where "t = [x, y]"
    using bs(3) by (cases t rule: list.exhaust; cases "tl t" rule: list.exhaust; cases "tl (tl t)") auto
  then show ?thesis
  proof cases
    case 1
    then have "getLens ?s = Ok (4 * k, 0)" using pad [of "[]"] by (simp add: getLens_def s len takeWhile_eq_all_conv [THEN iffD2] Let_def)
    then show ?thesis
      using loop [of "replicate (3 * k) 0" "4 * k"] 1 bs
      by (simp add: toByteArray_def byteLength_def fromByteArray_groups byte_size_def nat_mult_distrib)
  next
    case (2 x)
    note lt = unat_byte_lt [of x]
    have "getLens ?s = Ok (4 * k + 2, 2)"
      using np [OF byte_groups(8) [OF lt lt lt]] np [OF byte_groups(6) [OF lt lt lt]]
      by (simp add: getLens_def s len pad 2 Let_def four)
    moreover have "byte_size (4 * k + 2) 2 = int (3 * k + 1)" by (simp add: byte_size_def)
    moreover have "code_at ?s (4 * k) = word_of_nat (unat x div 4)"
      "code_at ?s (4 * k + 1) = word_of_nat (unat x mod 4 * 16)"
      using code [of 0] code [of 1] byte_groups(6,8) [OF lt lt lt]
      by (simp_all add: 2 Let_def code_at_def revLookup_char del: of_nat_mult)
    ultimately show ?thesis
      using loop [of "replicate (3 * k + 1) 0" "4 * k - 2"] 2 bs one_back [of x]
      by (simp add: toByteArray_def byteLength_def fromByteArray_groups list_update_append zeros nat_add_distrib nat_mult_distrib)
  next
    case (3 x y)
    note lt = unat_byte_lt [of x] unat_byte_lt [of y] unat_byte_lt [of y]
    have "getLens ?s = Ok (4 * k + 3, 1)"
      using np [OF byte_groups(8) [OF lt]] np [OF byte_groups(4) [OF lt]] np [OF byte_groups(7) [OF lt]]
      by (simp add: getLens_def s len pad 3 Let_def four)
    moreover have "byte_size (4 * k + 3) 1 = int (3 * k + 2)" by (simp add: byte_size_def)
    moreover have t: "b64_encode (map byte_char t) = [b64_char (unat x div 4),
        b64_char (unat x mod 4 * 16 + unat y div 16), b64_char (unat y mod 16 * 4), CHR ''='']"
      by (simp add: 3 Let_def)
    have "code_at ?s (4 * k) = word_of_nat (unat x div 4)"
      using code [of 0] revLookup_char [OF byte_groups(8) [OF lt]] by (simp add: code_at_def t)
    moreover have "code_at ?s (4 * k + 1) = word_of_nat (unat x mod 4 * 16 + unat y div 16)"
      using code [of 1] revLookup_char [OF byte_groups(4) [OF lt]] by (simp add: code_at_def t)
    moreover have "code_at ?s (4 * k + 2) = word_of_nat (unat y mod 16 * 4)"
      unfolding code [of 2] t using revLookup_char [OF byte_groups(7) [OF lt]]
      by (simp add: code_at_def del: of_nat_mult)
    ultimately show ?thesis
      using loop [of "replicate (3 * k + 2) 0" "4 * k - 1"] 3 bs two_back [of x y]
      by (simp add: toByteArray_def byteLength_def fromByteArray_groups list_update_append zeros nat_add_distrib nat_mult_distrib)
  qed
qed

text \<open>C32: The base64 module of the bundle, with its chunks of indices and 32-bit shifts, codes every array of
  bytes as the standard's groups of three, so that the service's decoder reads it; its own decoder gives
  the array back, in an array of the length it announces.\<close>

theorem base64_module_correct:
  "b64_decode (fromByteArray bs) = Ok (map byte_char bs) \<and> toByteArray (fromByteArray bs) = Ok bs \<and>
   byteLength (fromByteArray bs) = Ok (int (length bs))"
  using toByteArray_fromByteArray by (simp add: fromByteArray_groups)

end
