(* ===== verification/Swagger_Auth.thy ===== *)
theory Swagger_Auth
  imports Swagger_Request JS_Base64
begin

text \<open>
  The credentials that the API page puts into a request: \<^verbatim>\<open>applySecurities\<close> for OpenAPI 3 and for
  Swagger 2, and the cookies at the end of \<^verbatim>\<open>buildRequest\<close>, of the client library inside
  \<^verbatim>\<open>src/swagger/swagger-ui-es-bundle.js\<close>.  The request is that of theory \<open>Swagger_Request\<close>; texts are their
  UTF-8 bytes.
\<close>

section \<open>Schemes and credentials\<close>

text \<open>A security scheme of the API description.\<close>

record sec_scheme =
  ss_type :: string
  ss_in :: string
  ss_name :: string
  ss_scheme :: "string option"
  ss_tokenName :: "string option"

text \<open>
  What the page holds for a scheme the user has authorized: a value, which is a text, or a user with a
  password, or nothing; and the fields of a token.  \<open>Whole\<close> stands for the entry itself, which the code
  takes when the value is missing or empty.
\<close>

datatype secret =
    Secret string
  | Login string string
  | Whole

record auth_entry =
  ae_value :: "secret option"
  ae_token :: "(string \<times> string) list option"

definition secret_of :: "auth_entry \<Rightarrow> secret" where
  "secret_of t =
     (case ae_value t of
        Some (Secret s) \<Rightarrow> if s = [] then Whole else Secret s
      | Some (Login u p) \<Rightarrow> Login u p
      | _ \<Rightarrow> Whole)"

fun secret_text :: "secret \<Rightarrow> string" where
  "secret_text (Secret s) = s"
| "secret_text _ = ''[object Object]''"

definition secret_json :: "secret \<Rightarrow> json" where
  "secret_json r = (case r of Secret s \<Rightarrow> JStr s | _ \<Rightarrow> JObj [])"

text \<open>
  An object in the query is read as the description of a parameter: its value is that of the entry when it is
  the empty text, and \<^verbatim>\<open>undefined\<close> otherwise.
\<close>

definition secret_query :: "auth_entry \<Rightarrow> query_entry" where
  "secret_query t =
     (case secret_of t of
        Secret s \<Rightarrow> QText (JStr s)
      | Login u p \<Rightarrow> QText (JStr ''undefined'')
      | Whole \<Rightarrow> if ae_value t = Some (Secret []) then QEmpty else QText (JStr ''undefined''))"

text \<open>
  \<^verbatim>\<open>btoa\<close> of the library: \<^verbatim>\<open>Buffer.from(s, "binary")\<close> keeps the low byte of each UTF-16 unit.
\<close>

fun binary_bytes :: "string \<Rightarrow> byte list" where
  "binary_bytes [] = []"
| "binary_bytes (a # s) =
     (let n = of_char a :: nat in
      if n < 128 then of_nat n # binary_bytes s
      else (case s of
          [] \<Rightarrow> []
        | b # s \<Rightarrow>
            if n < 224 then of_nat (n mod 32 * 64 + of_char b mod 64) # binary_bytes s
            else (case s of
                [] \<Rightarrow> []
              | c # s \<Rightarrow>
                  if n < 240 then of_nat (n mod 16 * 4096 + of_char b mod 64 * 64 + of_char c mod 64) # binary_bytes s
                  else (case s of
                      [] \<Rightarrow> []
                    | d # s \<Rightarrow>
                        (let cp = n mod 8 * 262144 + of_char b mod 64 * 4096 + of_char c mod 64 * 64 + of_char d mod 64 - 65536
                         in of_nat (0xD800 + cp div 1024) # of_nat (0xDC00 + cp mod 1024) # binary_bytes s)))))"

definition btoa_binary :: "string \<Rightarrow> string" where
  "btoa_binary s = fromByteArray (binary_bytes s)"

definition user_of :: "secret \<Rightarrow> string" where
  "user_of r = (case r of Login u p \<Rightarrow> u | _ \<Rightarrow> [])"

definition password_of :: "secret \<Rightarrow> string" where
  "password_of r = (case r of Login u p \<Rightarrow> p | _ \<Rightarrow> [])"

definition basic_header :: "secret \<Rightarrow> json" where
  "basic_header r = JStr (''Basic '' @ btoa_binary (user_of r @ '':'' @ password_of r))"

definition token_field :: "auth_entry \<Rightarrow> string \<Rightarrow> string option" where
  "token_field t k = (case ae_token t of None \<Rightarrow> None | Some fs \<Rightarrow> map_of fs k)"

text \<open>The word before the token: \<^verbatim>\<open>Bearer\<close> for it in any spelling and when none is given.\<close>

definition token_type :: "string option \<Rightarrow> string" where
  "token_type v =
     (case v of
        None \<Rightarrow> ''Bearer''
      | Some v \<Rightarrow> if v = [] \<or> map ascii_lower v = ''bearer'' then ''Bearer'' else v)"

section \<open>The request with its cookies\<close>

record secured_request =
  sr_request :: swagger_request
  sr_cookies :: "(string \<times> secret) list"

definition on_request :: "(swagger_request \<Rightarrow> swagger_request) \<Rightarrow> secured_request \<Rightarrow> secured_request" where
  "on_request f x = x\<lparr>sr_request := f (sr_request x)\<rparr>"

definition set_cookie :: "string \<Rightarrow> secret \<Rightarrow> secured_request \<Rightarrow> secured_request" where
  "set_cookie n r x = x\<lparr>sr_cookies := assign_property n r (sr_cookies x)\<rparr>"

text \<open>
  The effective requirements: those of the operation, or else of the description.  Each is a set of names of
  schemes; the code goes through all of them.
\<close>

definition effective_security :: "string list list option \<Rightarrow> string list list option \<Rightarrow> string list" where
  "effective_security own shared =
     concat (case own of Some p \<Rightarrow> p | None \<Rightarrow> (case shared of Some p \<Rightarrow> p | None \<Rightarrow> []))"

subsection \<open>OpenAPI 3\<close>

definition is_scheme :: "string \<Rightarrow> sec_scheme \<Rightarrow> bool" where
  "is_scheme name s \<longleftrightarrow> (case ss_scheme s of None \<Rightarrow> False | Some t \<Rightarrow> map ascii_lower t = name)"

definition apply_scheme3 :: "auth_entry \<Rightarrow> sec_scheme \<Rightarrow> secured_request \<Rightarrow> secured_request" where
  "apply_scheme3 t s x =
     (let r = secret_of t in
      if ss_type s = ''apiKey'' then
        (if ss_in s = ''query'' then on_request (set_query (ss_name s) (secret_query t)) x
         else if ss_in s = ''header'' then on_request (set_header (ss_name s) (Some (secret_json r))) x
         else if ss_in s = ''cookie'' then set_cookie (ss_name s) r x
         else x)
      else if ss_type s = ''http'' then
        (if is_scheme ''basic'' s then on_request (set_header ''Authorization'' (Some (basic_header r))) x
         else if is_scheme ''bearer'' s
         then on_request (set_header ''Authorization'' (Some (JStr (''Bearer '' @ secret_text r)))) x
         else x)
      else if ss_type s = ''oauth2'' \<or> ss_type s = ''openIdConnect'' then
        (let m = token_field t (case ss_tokenName s of None \<Rightarrow> ''access_token''
                                | Some n \<Rightarrow> if n = [] then ''access_token'' else n);
             m = (case m of None \<Rightarrow> ''undefined'' | Some m \<Rightarrow> m)
         in on_request (set_header ''Authorization''
              (Some (JStr (token_type (token_field t ''token_type'') @ '' '' @ m)))) x)
      else x)"

text \<open>A requirement that names no scheme of the description raises an error, if the user has authorized it.\<close>

fun apply_schemes3 ::
  "(string \<times> auth_entry) list \<Rightarrow> (string \<times> sec_scheme) list \<Rightarrow> string list \<Rightarrow> secured_request \<Rightarrow>
   secured_request outcome" where
  "apply_schemes3 auths schemes [] x = Ok x"
| "apply_schemes3 auths schemes (n # ns) x =
     (case map_of auths n of
        None \<Rightarrow> apply_schemes3 auths schemes ns x
      | Some t \<Rightarrow>
          (case map_of schemes n of
             None \<Rightarrow> Err js_type_error
           | Some s \<Rightarrow> apply_schemes3 auths schemes ns (apply_scheme3 t s x)))"

definition applySecurities3 ::
  "(string \<times> auth_entry) list \<Rightarrow> string list list option \<Rightarrow> string list list option \<Rightarrow>
   (string \<times> sec_scheme) list \<Rightarrow> secured_request \<Rightarrow> secured_request outcome" where
  "applySecurities3 auths own shared schemes x =
     (if auths = [] \<or> own = Some [] then Ok x
      else apply_schemes3 auths schemes (effective_security own shared) (on_request query_object x))"

subsection \<open>Swagger 2\<close>

text \<open>An API key that is not for the query goes into a header; there are no cookies.\<close>

definition apply_scheme2 :: "auth_entry \<Rightarrow> sec_scheme \<Rightarrow> secured_request \<Rightarrow> secured_request outcome" where
  "apply_scheme2 t s x =
     (let r = secret_of t;
          c = token_field t (case ss_tokenName s of None \<Rightarrow> ''access_token''
                             | Some n \<Rightarrow> if n = [] then ''access_token'' else n) in
      if ss_type s = ''apiKey'' then
        Ok (on_request (if ss_in s = ''query'' then set_query (ss_name s) (secret_query t)
                        else set_header (ss_name s) (Some (secret_json r))) x)
      else if ss_type s = ''basic'' then
        (case r of
           Secret _ \<Rightarrow> Err js_type_error
         | _ \<Rightarrow> Ok (on_request (set_header ''authorization'' (Some (basic_header r))) x))
      else if ss_type s = ''oauth2'' \<and> c \<noteq> None \<and> c \<noteq> Some [] then
        Ok (on_request (set_header ''authorization''
              (Some (JStr (token_type (token_field t ''token_type'') @ '' '' @ the c)))) x)
      else Ok x)"

fun apply_schemes2 ::
  "(string \<times> auth_entry) list \<Rightarrow> (string \<times> sec_scheme) list \<Rightarrow> string list \<Rightarrow> secured_request \<Rightarrow>
   secured_request outcome" where
  "apply_schemes2 auths schemes [] x = Ok x"
| "apply_schemes2 auths schemes (n # ns) x =
     (case map_of auths n of
        None \<Rightarrow> apply_schemes2 auths schemes ns x
      | Some t \<Rightarrow>
          (case map_of schemes n of
             None \<Rightarrow> Err js_type_error
           | Some s \<Rightarrow> obind (apply_scheme2 t s x) (apply_schemes2 auths schemes ns)))"

definition applySecurities2 ::
  "(string \<times> auth_entry) list \<Rightarrow> string list list option \<Rightarrow> string list list option \<Rightarrow>
   (string \<times> sec_scheme) list \<Rightarrow> secured_request \<Rightarrow> secured_request outcome" where
  "applySecurities2 auths own shared schemes x =
     (if auths = [] \<or> own = Some [] then Ok x
      else apply_schemes2 auths schemes (effective_security own shared) (on_request query_object x))"

section \<open>Cookies\<close>

text \<open>
  \<^verbatim>\<open>cookie.serialize\<close>: a name is made of the characters \<^verbatim>\<open>U+0009\<close>, \<^verbatim>\<open>U+0020\<close> to \<^verbatim>\<open>U+007E\<close> and \<^verbatim>\<open>U+0080\<close> to
  \<^verbatim>\<open>U+00FF\<close>; the encoded value always is.
\<close>

fun field_content :: "string \<Rightarrow> bool" where
  "field_content [] = True"
| "field_content (a # s) =
     (let n = of_char a :: nat in
      if n = 9 \<or> 32 \<le> n \<and> n \<le> 126 then field_content s
      else if n = 194 \<or> n = 195 then (case s of [] \<Rightarrow> False | b # s \<Rightarrow> utf8_cont b \<and> field_content s)
      else False)"

definition cookie_serialize :: "string \<Rightarrow> secret \<Rightarrow> string outcome" where
  "cookie_serialize n r =
     (if n \<noteq> [] \<and> field_content n then Ok (n @ ''='' @ encodeURIComponent (secret_text r))
      else Err js_type_error)"

text \<open>\<^verbatim>\<open>buildRequest\<close> joins the cookies with ampersands.\<close>

fun cookie_header :: "(string \<times> secret) list \<Rightarrow> string \<Rightarrow> string outcome" where
  "cookie_header [] e = Ok e"
| "cookie_header ((n, r) # cs) e =
     obind (cookie_serialize n r) (\<lambda>c. cookie_header cs (e @ (if e = [] then [] else ''&'') @ c))"

definition send_cookies :: "secured_request \<Rightarrow> swagger_request outcome" where
  "send_cookies x =
     (if sr_cookies x = [] then Ok (sr_request x)
      else obind (cookie_header (sr_cookies x) []) (\<lambda>c.
        Ok (set_header ''Cookie'' (Some (JStr c)) (sr_request x))))"

end
