(* ===== verification/Swagger_Auth_Props.thy ===== *)
theory Swagger_Auth_Props
  imports Swagger_Auth Swagger_Request_Laws
begin

text \<open>
  Where the credentials of the user go: only into requests whose operation asks for them, and only to the
  places their scheme names.
\<close>

section \<open>What a scheme changes\<close>

lemma map_of_assign_property:
  "map_of (assign_property k v kvs) h = (if h = k \<and> k \<noteq> ''__proto__'' then Some v else map_of kvs h)"
  by (simp add: assign_property_def map_of_put_property)

text \<open>The places of a scheme: the header or the query name of an API key, its cookie, the authorization header.\<close>

definition header_of :: "sec_scheme \<Rightarrow> string \<Rightarrow> bool" where
  "header_of s h \<longleftrightarrow>
     (if ss_type s = ''apiKey'' then ss_in s = ''header'' \<and> h = ss_name s
      else ss_type s \<in> {''http'', ''oauth2'', ''openIdConnect''} \<and> h = ''Authorization'')"

definition api_key_in :: "string \<Rightarrow> sec_scheme \<Rightarrow> string \<Rightarrow> bool" where
  "api_key_in place s n \<longleftrightarrow> ss_type s = ''apiKey'' \<and> ss_in s = place \<and> n = ss_name s"

text \<open>\<open>y\<close> differs from \<open>x\<close> only at places of the schemes \<open>P\<close>, where \<open>H\<close> gives their headers.\<close>

definition differs_at :: "(sec_scheme \<Rightarrow> string \<Rightarrow> bool) \<Rightarrow> (sec_scheme \<Rightarrow> bool) \<Rightarrow> secured_request \<Rightarrow> secured_request \<Rightarrow> bool" where
  "differs_at H P x y \<longleftrightarrow>
     (\<forall>h. map_of (rq_headers (sr_request y)) h = map_of (rq_headers (sr_request x)) h \<or> (\<exists>s. P s \<and> H s h)) \<and>
     (\<forall>n. map_of (query_list (sr_request y)) n = map_of (query_list (sr_request x)) n \<or> (\<exists>s. P s \<and> api_key_in ''query'' s n)) \<and>
     (\<forall>n. map_of (sr_cookies y) n = map_of (sr_cookies x) n \<or> (\<exists>s. P s \<and> api_key_in ''cookie'' s n)) \<and>
     rq_url (sr_request y) = rq_url (sr_request x) \<and> rq_body (sr_request y) = rq_body (sr_request x) \<and>
     rq_form (sr_request y) = rq_form (sr_request x)"

lemma differs_refl: "differs_at H P x x"
  by (simp add: differs_at_def)

lemma differs_trans: "differs_at H P x y \<Longrightarrow> differs_at H P y z \<Longrightarrow> differs_at H P x z"
  unfolding differs_at_def by metis

lemma differs_query_object: "differs_at H P x (on_request query_object x)"
  by (simp add: differs_at_def on_request_def query_object_def query_list_def split: option.split)

lemma differs_mono: "differs_at H P x y \<Longrightarrow> (\<And>s. P s \<Longrightarrow> Q s) \<Longrightarrow> differs_at H Q x y"
  unfolding differs_at_def by metis

lemma differs_header:
  "H s n \<Longrightarrow> differs_at H ((=) s) x (on_request (set_header n v) x)"
  by (auto simp: differs_at_def on_request_def set_header_def query_list_def map_of_assign_property)

lemma differs_query:
  "api_key_in ''query'' s n \<Longrightarrow> differs_at H ((=) s) x (on_request (set_query n v) x)"
  by (auto simp: differs_at_def on_request_def set_query_def query_list_def map_of_assign_property)

lemma differs_cookie:
  "api_key_in ''cookie'' s n \<Longrightarrow> differs_at H ((=) s) x (set_cookie n v x)"
  by (auto simp: differs_at_def set_cookie_def query_list_def map_of_assign_property)

lemma differs_apply_scheme3: "differs_at header_of ((=) s) x (apply_scheme3 t s x)"
  using differs_header [of header_of s] differs_query [of s _ header_of] differs_cookie [of s _ header_of]
  by (simp add: apply_scheme3_def Let_def differs_refl header_of_def api_key_in_def)

lemma differs_apply_schemes3:
  "apply_schemes3 auths schemes ns x = Ok y \<Longrightarrow>
   differs_at header_of (\<lambda>s. \<exists>n \<in> set ns. map_of auths n \<noteq> None \<and> map_of schemes n = Some s) x y"
proof (induction ns arbitrary: x)
  case (Cons n ns)
  show ?case
  proof (cases "map_of auths n")
    case None
    then have "differs_at header_of (\<lambda>s. \<exists>n \<in> set ns. map_of auths n \<noteq> None \<and> map_of schemes n = Some s) x y"
      using Cons by simp
    then show ?thesis by (rule differs_mono) auto
  next
    case (Some t)
    then obtain s where s: "map_of schemes n = Some s" "apply_schemes3 auths schemes ns (apply_scheme3 t s x) = Ok y"
      using Cons.prems by (auto split: option.splits)
    have "differs_at header_of (\<lambda>s. \<exists>n \<in> set (n # ns). map_of auths n \<noteq> None \<and> map_of schemes n = Some s) x (apply_scheme3 t s x)"
      by (rule differs_mono [OF differs_apply_scheme3]) (use Some s(1) in auto)
    moreover have "differs_at header_of (\<lambda>s. \<exists>n \<in> set (n # ns). map_of auths n \<noteq> None \<and> map_of schemes n = Some s) (apply_scheme3 t s x) y"
      by (rule differs_mono [OF Cons.IH [OF s(2)]]) auto
    ultimately show ?thesis by (rule differs_trans)
  qed
qed (simp add: differs_refl)

text \<open>The headers of a scheme of Swagger 2.\<close>

definition header_of2 :: "sec_scheme \<Rightarrow> string \<Rightarrow> bool" where
  "header_of2 s h \<longleftrightarrow>
     (if ss_type s = ''apiKey'' then ss_in s \<noteq> ''query'' \<and> h = ss_name s
      else ss_type s \<in> {''basic'', ''oauth2''} \<and> h = ''authorization'')"

lemma differs_apply_scheme2:
  assumes "apply_scheme2 t s x = Ok y"
  shows "differs_at header_of2 ((=) s) x y"
  using assms differs_header [of header_of2 s] differs_query [of s _ header_of2]
  by (auto simp: apply_scheme2_def Let_def differs_refl header_of2_def api_key_in_def
      split: if_splits secret.splits)

lemma differs_apply_schemes2:
  "apply_schemes2 auths schemes ns x = Ok y \<Longrightarrow>
   differs_at header_of2 (\<lambda>s. \<exists>n \<in> set ns. map_of auths n \<noteq> None \<and> map_of schemes n = Some s) x y"
proof (induction ns arbitrary: x)
  case (Cons n ns)
  let ?P = "\<lambda>ns s. \<exists>n \<in> set ns. map_of auths n \<noteq> None \<and> map_of schemes n = Some s"
  show ?case
  proof (cases "map_of auths n")
    case None
    then have "differs_at header_of2 (?P ns) x y" using Cons by simp
    then show ?thesis by (rule differs_mono) auto
  next
    case (Some t)
    then obtain s x' where s: "map_of schemes n = Some s" "apply_scheme2 t s x = Ok x'"
      "apply_schemes2 auths schemes ns x' = Ok y"
      using Cons.prems by (auto simp: obind_Ok_iff split: option.splits)
    have "differs_at header_of2 (?P (n # ns)) x x'"
      by (rule differs_mono [OF differs_apply_scheme2 [OF s(2)]]) (use Some s(1) in auto)
    moreover have "differs_at header_of2 (?P (n # ns)) x' y"
      by (rule differs_mono [OF Cons.IH [OF s(3)]]) auto
    ultimately show ?thesis by (rule differs_trans)
  qed
qed (simp add: differs_refl)

section \<open>Results\<close>

text \<open>
  A requirement of the operation, which replaces those of the description, even by none at all.
\<close>

definition requires :: "string list list option \<Rightarrow> string list list option \<Rightarrow> string \<Rightarrow> bool" where
  "requires own shared n \<longleftrightarrow>
     (case own of
        Some p \<Rightarrow> \<exists>req \<in> set p. n \<in> set req
      | None \<Rightarrow> \<exists>p. shared = Some p \<and> (\<exists>req \<in> set p. n \<in> set req))"

text \<open>C27: The page sends a credential only where it is asked for: in the request for an operation of an
  OpenAPI 3 or a Swagger 2 description, the headers, the query and the cookies are the same with and without the
  user's credentials, except at the places named by schemes that the operation requires (or the
  description, when the operation says nothing) and that the user has authorized; the address, the body and
  the form are always the same.\<close>

theorem credentials_where_required:
  "(\<forall>y. applySecurities3 auths own shared schemes x = Ok y \<longrightarrow>
      differs_at header_of (\<lambda>s. \<exists>n. requires own shared n \<and> map_of auths n \<noteq> None \<and> map_of schemes n = Some s) x y) \<and>
   (\<forall>y. applySecurities2 auths own shared schemes x = Ok y \<longrightarrow>
      differs_at header_of2 (\<lambda>s. \<exists>n. requires own shared n \<and> map_of auths n \<noteq> None \<and> map_of schemes n = Some s) x y)"
proof (cases "auths = [] \<or> own = Some []")
  case True
  then show ?thesis by (auto simp: applySecurities3_def applySecurities2_def differs_refl)
next
  case False
  let ?P = "\<lambda>s. \<exists>n \<in> set (effective_security own shared). map_of auths n \<noteq> None \<and> map_of schemes n = Some s"
  have e: "requires own shared n" if "n \<in> set (effective_security own shared)" for n
    using that by (cases own; cases shared) (simp_all add: effective_security_def requires_def)
  have R: "differs_at H (\<lambda>s. \<exists>n. requires own shared n \<and> map_of auths n \<noteq> None \<and> map_of schemes n = Some s) x y"
    if d: "differs_at H ?P (on_request query_object x) y" for H y
    by (rule differs_trans [OF differs_query_object differs_mono [OF d]]) (use e in blast)
  show ?thesis
    using False R [OF differs_apply_schemes3] R [OF differs_apply_schemes2]
    by (simp add: applySecurities3_def applySecurities2_def)
qed

text \<open>A user who has authorized an API key and a bearer token, and an operation that requires the key.\<close>

definition ex_schemes :: "(string \<times> sec_scheme) list" where
  "ex_schemes =
     [(''key'', \<lparr>ss_type = ''apiKey'', ss_in = ''header'', ss_name = ''X-Key'', ss_scheme = None, ss_tokenName = None\<rparr>),
      (''web'', \<lparr>ss_type = ''http'', ss_in = [], ss_name = [], ss_scheme = Some ''bearer'', ss_tokenName = None\<rparr>)]"

definition ex_auths :: "(string \<times> auth_entry) list" where
  "ex_auths =
     [(''key'', \<lparr>ae_value = Some (Secret ''k1''), ae_token = None\<rparr>),
      (''web'', \<lparr>ae_value = Some (Secret ''t1''), ae_token = None\<rparr>)]"

definition ex_plain_request :: secured_request where
  "ex_plain_request = \<lparr>sr_request = start_request ''/policy'', sr_cookies = []\<rparr>"

theorem credentials_where_required_witness:
  "\<exists>y. applySecurities3 ex_auths (Some [[''key'']]) (Some [[''web'']]) ex_schemes ex_plain_request = Ok y \<and>
     map_of (rq_headers (sr_request y)) ''X-Key'' = Some (Some (JStr ''k1'')) \<and>
     map_of (rq_headers (sr_request y)) ''Authorization'' = None"
proof -
  obtain y where y: "applySecurities3 ex_auths (Some [[''key'']]) (Some [[''web'']]) ex_schemes ex_plain_request = Ok y"
    "map_of (rq_headers (sr_request y)) ''X-Key'' = Some (Some (JStr ''k1''))"
    by (simp add: applySecurities3_def effective_security_def ex_auths_def ex_schemes_def apply_scheme3_def secret_of_def
        secret_json_def on_request_def set_header_def map_of_assign_property Let_def)
  have "map_of (rq_headers (sr_request y)) ''Authorization'' = map_of (rq_headers (sr_request ex_plain_request)) ''Authorization''"
    using credentials_where_required [of ex_auths "Some [[''key'']]" "Some [[''web'']]" ex_schemes ex_plain_request] y(1)
    by (auto simp: differs_at_def requires_def ex_schemes_def header_of_def split: if_splits)
  then show ?thesis using y by (auto simp: ex_plain_request_def start_request_def)
qed

text \<open>
  The requirements of a list are alternatives, one of which is enough; the page sends the credentials of
  all that the user has authorized.
\<close>

lemma all_alternatives_sent:
  "\<exists>y. applySecurities3 ex_auths (Some [[''key''], [''web'']]) None ex_schemes ex_plain_request = Ok y \<and>
     map_of (rq_headers (sr_request y)) ''X-Key'' = Some (Some (JStr ''k1'')) \<and>
     map_of (rq_headers (sr_request y)) ''Authorization'' = Some (Some (JStr ''Bearer t1''))"
  by (simp add: applySecurities3_def effective_security_def ex_auths_def ex_schemes_def apply_scheme3_def secret_of_def
      secret_json_def on_request_def set_header_def map_of_assign_property Let_def is_scheme_def ascii_lower_def is_upper_def)

text \<open>Two cookies are sent as one: its value holds the name and value of the second.\<close>

lemma cookies_joined:
  "send_cookies \<lparr>sr_request = start_request u, sr_cookies = [(''a'', Secret ''1''), (''b'', Secret ''2'')]\<rparr>
    = Ok (set_header ''Cookie'' (Some (JStr ''a=1&b=2'')) (start_request u))"
proof -
  have "encodeURIComponent ''1'' = ''1''" "encodeURIComponent ''2'' = ''2''" by code_simp+
  then show ?thesis by (simp add: send_cookies_def cookie_serialize_def)
qed

text \<open>Basic credentials lose the high byte of each character: the password U+0141 is sent like \<^verbatim>\<open>A\<close>.\<close>

lemma basic_loses_characters:
  "basic_header (Login ''user'' [CHR 0xC5, CHR 0x81]) = basic_header (Login ''user'' ''A'')"
proof -
  have "binary_bytes (''user'' @ '':'' @ [CHR 0xC5, CHR 0x81]) = binary_bytes (''user'' @ '':'' @ ''A'')" by simp
  then show ?thesis by (simp only: basic_header_def btoa_binary_def user_of_def password_of_def secret.case)
qed

end
