(* ===== verification/Env_Config.thy ===== *)
theory Env_Config
  imports Go_Std
begin

text \<open>
  Configuration from the environment: the part of the vendored library \<^verbatim>\<open>envconfig\<close> that the
  configurations of the two programs use, for any configuration type \<open>'c\<close>.
\<close>

section \<open>Values\<close>

text \<open>\<^verbatim>\<open>strconv.ParseBool\<close>\<close>

definition ParseBool :: "string \<Rightarrow> bool outcome" where
  "ParseBool s =
     (if s \<in> {''1'', ''t'', ''T'', ''TRUE'', ''true'', ''True''} then Ok True
      else if s \<in> {''0'', ''f'', ''F'', ''FALSE'', ''false'', ''False''} then Ok False
      else Err (Plain (''strconv.ParseBool: parsing '' @ quoted s @ '': invalid syntax'')))"

text \<open>
  A variable of a configuration and the parser of its type.  \<open>pd\<close> is \<^verbatim>\<open>time.ParseDuration\<close>; a list is given
  as its elements separated by commas.
\<close>

datatype 'c setter =
    SetString "string \<Rightarrow> 'c \<Rightarrow> 'c"
  | SetBool "bool \<Rightarrow> 'c \<Rightarrow> 'c"
  | SetDuration "duration \<Rightarrow> 'c \<Rightarrow> 'c"
  | SetStrings "string list \<Rightarrow> 'c \<Rightarrow> 'c"

fun set_var :: "(string \<Rightarrow> duration outcome) \<Rightarrow> 'c setter \<Rightarrow> string \<Rightarrow> 'c \<Rightarrow> 'c outcome" where
  "set_var pd (SetString f) s cfg = Ok (f s cfg)"
| "set_var pd (SetBool f) s cfg = obind (ParseBool s) (\<lambda>b. Ok (f b cfg))"
| "set_var pd (SetDuration f) s cfg = obind (pd s) (\<lambda>d. Ok (f d cfg))"
| "set_var pd (SetStrings f) s cfg =
     Ok (f (if trim_space s \<noteq> [] then split_on CHR '','' s else []) cfg)"

fun is_bool :: "'c setter \<Rightarrow> bool" where
  "is_bool (SetBool f) = True"
| "is_bool _ = False"

section \<open>The environment\<close>

text \<open>
  What \<^verbatim>\<open>gatherInfo\<close> of \<^verbatim>\<open>envconfig\<close> makes of the tags of the configuration: the key, which has the name of the
  enclosing structure in front, the key of the tag, the default and whether it is required.
\<close>

record 'c env_var =
  ev_name :: string
  ev_key :: string
  ev_alt :: string
  ev_default :: string
  ev_required :: bool
  ev_field :: "'c setter"

definition env_field :: "string \<Rightarrow> string \<Rightarrow> string \<Rightarrow> string \<Rightarrow> bool \<Rightarrow> 'c setter \<Rightarrow> 'c env_var" where
  "env_field pre name n d req f =
     \<lparr>ev_name = name, ev_key = (if pre = [] then n else pre @ ''_'' @ n), ev_alt = n, ev_default = d, ev_required = req, ev_field = f\<rparr>"

definition env_value :: "(string \<rightharpoonup> string) \<Rightarrow> 'c env_var \<Rightarrow> string option" where
  "env_value env v =
     (case env (ev_key v) of
        Some s \<Rightarrow> Some s
      | None \<Rightarrow> (case (if ev_alt v \<noteq> [] then env (ev_alt v) else None) of
          Some s \<Rightarrow> Some s
        | None \<Rightarrow> if ev_default v \<noteq> [] then Some (ev_default v) else None))"

definition required_missing :: "'c env_var \<Rightarrow> goerror" where
  "required_missing v =
     Plain (''required key '' @ (if ev_alt v \<noteq> [] then ev_alt v else ev_key v) @ '' missing value'')"

fun setter_type :: "'c setter \<Rightarrow> string" where
  "setter_type (SetString f) = ''string''"
| "setter_type (SetBool f) = ''bool''"
| "setter_type (SetDuration f) = ''time.Duration''"
| "setter_type (SetStrings f) = ''[]string''"

definition parse_error :: "'c env_var \<Rightarrow> string \<Rightarrow> goerror \<Rightarrow> goerror" where
  "parse_error v s e =
     Plain (''envconfig.Process: assigning '' @ ev_key v @ '' to '' @ ev_name v @ '': converting '' @ [CHR 0x27] @ s @
       [CHR 0x27] @ '' to type '' @ setter_type (ev_field v) @ ''. details: '' @ err_text e)"

fun env_Process ::
  "(string \<Rightarrow> duration outcome) \<Rightarrow> (string \<rightharpoonup> string) \<Rightarrow> 'c env_var list \<Rightarrow> 'c \<Rightarrow> 'c outcome" where
  "env_Process pd env [] cfg = Ok cfg"
| "env_Process pd env (v # vs) cfg =
     (case env_value env v of
        None \<Rightarrow> if ev_required v then Err (required_missing v) else env_Process pd env vs cfg
      | Some s \<Rightarrow> obind (owrap (parse_error v s) (set_var pd (ev_field v) s cfg)) (env_Process pd env vs))"

section \<open>Reading one field of the result\<close>

text \<open>
  A setter keeps a field of the configuration when no value it stores changes the field; the value of
  a field is then the one of the only variable that sets it.
\<close>

fun keeps_field :: "('c \<Rightarrow> 'v) \<Rightarrow> 'c setter \<Rightarrow> bool" where
  "keeps_field g (SetString f) = (\<forall>s c. g (f s c) = g c)"
| "keeps_field g (SetBool f) = (\<forall>b c. g (f b c) = g c)"
| "keeps_field g (SetDuration f) = (\<forall>d c. g (f d c) = g c)"
| "keeps_field g (SetStrings f) = (\<forall>l c. g (f l c) = g c)"

lemma keeps_set_var: "keeps_field g f \<Longrightarrow> set_var pd f s c = Ok c' \<Longrightarrow> g c' = g c"
  by (cases f) (auto simp: obind_Ok_iff)

lemma obind_assoc: "obind (obind r f) h = obind r (\<lambda>x. obind (f x) h)"
  by (cases r) auto

lemma env_Process_append:
  "env_Process pd env (us @ vs) c = obind (env_Process pd env us c) (env_Process pd env vs)"
proof (induction us arbitrary: c)
  case (Cons u us)
  have "env_Process pd env (us @ vs) = (\<lambda>x. obind (env_Process pd env us x) (env_Process pd env vs))"
    by (rule ext) (rule Cons.IH)
  then show ?case by (simp add: obind_assoc split: option.split)
qed simp

lemma env_Process_keeps:
  "list_all (\<lambda>v. keeps_field g (ev_field v)) vs \<Longrightarrow> env_Process pd env vs c = Ok c' \<Longrightarrow> g c' = g c"
  by (induction vs arbitrary: c) (auto simp: obind_Ok_iff dest: keeps_set_var split: option.splits if_splits)

lemma env_Process_field:
  assumes "env_Process pd env vs c = Ok c'" and "n < length vs"
    and "list_all (\<lambda>v. keeps_field g (ev_field v)) (take n vs)"
    and "list_all (\<lambda>v. keeps_field g (ev_field v)) (drop (Suc n) vs)"
  shows "case env_value env (vs ! n) of
      None \<Rightarrow> \<not> ev_required (vs ! n) \<and> g c' = g c
    | Some s \<Rightarrow> \<exists>d d'. set_var pd (ev_field (vs ! n)) s d = Ok d' \<and> g c' = g d'"
proof -
  have "env_Process pd env (take n vs @ vs ! n # drop (Suc n) vs) c = Ok c'"
    using assms(1) id_take_nth_drop [OF assms(2)] by simp
  then obtain d where d: "env_Process pd env (take n vs) c = Ok d"
    "env_Process pd env (vs ! n # drop (Suc n) vs) d = Ok c'"
    unfolding env_Process_append obind_Ok_iff by blast
  have g: "g d = g c" using env_Process_keeps [OF assms(3) d(1)] .
  show ?thesis
  proof (cases "env_value env (vs ! n)")
    case None
    then show ?thesis
      using d(2) env_Process_keeps [OF assms(4), of pd env d c'] by (auto simp: g split: if_splits)
  next
    case (Some s)
    then obtain e where "set_var pd (ev_field (vs ! n)) s d = Ok e"
      "env_Process pd env (drop (Suc n) vs) e = Ok c'"
      using d(2) by (auto simp: obind_Ok_iff)
    then show ?thesis using env_Process_keeps [OF assms(4)] Some by fastforce
  qed
qed

end
