(* ===== verification/Sync_Program.thy ===== *)
theory Sync_Program
  imports Sync Env_Config
begin

text \<open>
  The synchronisation program as a whole: its configuration from command-line flags or from the
  environment (\<^verbatim>\<open>cmd/sync/config.go\<close>, with the parser of Go's package \<^verbatim>\<open>flag\<close> and the vendored library
  \<^verbatim>\<open>envconfig\<close>), cloning (\<^verbatim>\<open>clone.go\<close>) and the main loop (\<^verbatim>\<open>cmd/sync/main.go\<close>).  \<^verbatim>\<open>time.ParseDuration\<close>, git, the
  file system and the database are parameters.
\<close>

section \<open>The configuration\<close>

record sync_config =
  KeepAlive :: bool
  SyncInterval :: duration
  Repo_URL :: string
  Repo_User :: string
  Repo_Pass :: string
  Repo_Branch :: string
  Repo_Folder :: string
  DB_Addr :: string
  DB_User :: string
  DB_Pass :: string
  DB_Name :: string

definition zero_config :: sync_config where
  "zero_config =
     \<lparr>KeepAlive = False, SyncInterval = 0, Repo_URL = [], Repo_User = [], Repo_Pass = [], Repo_Branch = [],
      Repo_Folder = [], DB_Addr = [], DB_User = [], DB_Pass = [], DB_Name = []\<rparr>"

subsection \<open>Command-line flags\<close>

definition sync_flags :: "(string \<times> sync_config setter) list" where
  "sync_flags =
     [(''repoURL'', SetString (\<lambda>s c. c\<lparr>Repo_URL := s\<rparr>)),
      (''repoUser'', SetString (\<lambda>s c. c\<lparr>Repo_User := s\<rparr>)),
      (''repoPass'', SetString (\<lambda>s c. c\<lparr>Repo_Pass := s\<rparr>)),
      (''branch'', SetString (\<lambda>s c. c\<lparr>Repo_Branch := s\<rparr>)),
      (''repoFolder'', SetString (\<lambda>s c. c\<lparr>Repo_Folder := s\<rparr>)),
      (''dbAddr'', SetString (\<lambda>s c. c\<lparr>DB_Addr := s\<rparr>)),
      (''dbUser'', SetString (\<lambda>s c. c\<lparr>DB_User := s\<rparr>)),
      (''dbPass'', SetString (\<lambda>s c. c\<lparr>DB_Pass := s\<rparr>)),
      (''dbName'', SetString (\<lambda>s c. c\<lparr>DB_Name := s\<rparr>)),
      (''keepAlive'', SetBool (\<lambda>b c. c\<lparr>KeepAlive := b\<rparr>)),
      (''syncInterval'', SetDuration (\<lambda>d c. c\<lparr>SyncInterval := d\<rparr>))]"

definition flag_defaults :: sync_config where
  "flag_defaults = zero_config\<lparr>DB_Name := ''policy'', SyncInterval := 120 * 10 ^ 9\<rparr>"

text \<open>
  One argument of package \<^verbatim>\<open>flag\<close>: not a flag, the terminator, a name that is no flag syntax, or a name
  with the value after the first equals sign that is not its first character.
\<close>

datatype flag_arg =
    NoFlag
  | Terminator
  | BadSyntax
  | Flag string "string option"

definition read_flag :: "string \<Rightarrow> flag_arg" where
  "read_flag s =
     (if length s < 2 \<or> s ! 0 \<noteq> CHR ''-'' then NoFlag
      else if s = ''--'' then Terminator
      else
        (let name = drop (if s ! 1 = CHR ''-'' then 2 else 1) s in
         if name = [] \<or> hd name = CHR ''-'' \<or> hd name = CHR ''='' then BadSyntax
         else (case dropWhile ((\<noteq>) CHR ''='') name of
             [] \<Rightarrow> Flag name None
           | _ # v \<Rightarrow> Flag (takeWhile ((\<noteq>) CHR ''='') name) (Some v))))"

datatype loaded =
    Loaded sync_config
  | LoadError goerror
  | Exit nat

text \<open>With the error handling of the command line, a bad flag ends the program with status 2, help with 0.\<close>

fun flag_Parse :: "(string \<Rightarrow> duration outcome) \<Rightarrow> string list \<Rightarrow> sync_config \<Rightarrow> loaded" where
  "flag_Parse pd [] cfg = Loaded cfg"
| "flag_Parse pd (s # args) cfg =
     (case read_flag s of
        NoFlag \<Rightarrow> Loaded cfg
      | Terminator \<Rightarrow> Loaded cfg
      | BadSyntax \<Rightarrow> Exit 2
      | Flag name v \<Rightarrow>
          (case map_of sync_flags name of
             None \<Rightarrow> Exit (if name = ''help'' \<or> name = ''h'' then 0 else 2)
           | Some f \<Rightarrow>
               (case v of
                  Some v \<Rightarrow>
                    (case set_var pd f v cfg of Ok cfg' \<Rightarrow> flag_Parse pd args cfg' | _ \<Rightarrow> Exit 2)
                | None \<Rightarrow>
                    if is_bool f
                    then (case set_var pd f ''true'' cfg of Ok cfg' \<Rightarrow> flag_Parse pd args cfg' | _ \<Rightarrow> Exit 2)
                    else (case args of
                        [] \<Rightarrow> Exit 2
                      | v # args' \<Rightarrow>
                          (case set_var pd f v cfg of Ok cfg' \<Rightarrow> flag_Parse pd args' cfg' | _ \<Rightarrow> Exit 2)))))"

subsection \<open>The environment\<close>

definition sync_env_vars :: "sync_config env_var list" where
  "sync_env_vars =
     [env_field [] ''KeepAlive'' ''KEEP_ALIVE'' ''false'' False (SetBool (\<lambda>b c. c\<lparr>KeepAlive := b\<rparr>)),
      env_field [] ''SyncInterval'' ''SYNC_INTERVAL'' ''120s'' False (SetDuration (\<lambda>d c. c\<lparr>SyncInterval := d\<rparr>)),
      env_field ''REPO'' ''URL'' ''POLICY_REPO'' [] True (SetString (\<lambda>s c. c\<lparr>Repo_URL := s\<rparr>)),
      env_field ''REPO'' ''User'' ''POLICY_REPO_USER'' [] False (SetString (\<lambda>s c. c\<lparr>Repo_User := s\<rparr>)),
      env_field ''REPO'' ''Pass'' ''POLICY_REPO_PASS'' [] False (SetString (\<lambda>s c. c\<lparr>Repo_Pass := s\<rparr>)),
      env_field ''REPO'' ''Branch'' ''POLICY_REPO_BRANCH'' [] False (SetString (\<lambda>s c. c\<lparr>Repo_Branch := s\<rparr>)),
      env_field ''REPO'' ''Folder'' ''POLICY_REPO_FOLDER'' [] False (SetString (\<lambda>s c. c\<lparr>Repo_Folder := s\<rparr>)),
      env_field ''DB'' ''Addr'' ''DB_ADDR'' [] True (SetString (\<lambda>s c. c\<lparr>DB_Addr := s\<rparr>)),
      env_field ''DB'' ''User'' ''DB_USER'' [] False (SetString (\<lambda>s c. c\<lparr>DB_User := s\<rparr>)),
      env_field ''DB'' ''Pass'' ''DB_PASS'' [] False (SetString (\<lambda>s c. c\<lparr>DB_Pass := s\<rparr>)),
      env_field ''DB'' ''Name'' ''DB_NAME'' ''policy'' False (SetString (\<lambda>s c. c\<lparr>DB_Name := s\<rparr>))]"

text \<open>\<open>args\<close> are the arguments after the name of the program.\<close>

definition missing_flags :: goerror where
  "missing_flags = Plain ''required command-line flag values are missing''"

definition sync_loadConfig ::
  "(string \<Rightarrow> duration outcome) \<Rightarrow> (string \<rightharpoonup> string) \<Rightarrow> string list \<Rightarrow> loaded" where
  "sync_loadConfig pd env args =
     (if args \<noteq> [] then
        (case flag_Parse pd args flag_defaults of
           Loaded cfg \<Rightarrow> if Repo_URL cfg = [] \<or> DB_Addr cfg = [] then LoadError missing_flags else Loaded cfg
         | r \<Rightarrow> r)
      else
        (case env_Process pd env sync_env_vars zero_config of
           Ok cfg \<Rightarrow> Loaded cfg
         | Err e \<Rightarrow> LoadError e
         | _ \<Rightarrow> Exit 2))"

section \<open>Cloning\<close>

record clone_options =
  go_URL :: string
  go_Depth :: nat
  go_Auth :: "(string \<times> string) option"
  go_Branch :: "string option"
  go_SingleBranch :: bool

definition cloner_options :: "string \<Rightarrow> string \<Rightarrow> string \<Rightarrow> string \<Rightarrow> clone_options" where
  "cloner_options cloneURL user pass branch =
     \<lparr>go_URL = cloneURL, go_Depth = 1,
      go_Auth = (if user \<noteq> [] \<and> pass \<noteq> [] then Some (user, pass) else None),
      go_Branch = (if branch \<noteq> [] then Some (''refs/heads/'' @ branch) else None),
      go_SingleBranch = (branch \<noteq> [])\<rparr>"

text \<open>
  One round of the main loop: the answers of the file system and of git, and the time of the round.
  \<open>ro_walk\<close> lists the entries below the folder, or below the clone when no folder is configured.
\<close>

record round_env =
  ro_now :: time
  ro_removeBefore :: "goerror option"
  ro_cleanup :: "goerror option"
  ro_git :: "clone_options \<Rightarrow> goerror option"
  ro_walk :: "string \<Rightarrow> dirent list"
  ro_create :: "string \<Rightarrow> string \<Rightarrow> policy outcome"
  ro_removeAfter :: "goerror option"

definition round_sync_env :: "sync_config \<Rightarrow> round_env \<Rightarrow> sync_env" where
  "round_sync_env cfg V =
     \<lparr>se_removeBefore = ro_removeBefore V, se_cleanup = ro_cleanup V,
      se_clone = (\<lambda>url. ro_git V (cloner_options url (Repo_User cfg) (Repo_Pass cfg) (Repo_Branch cfg))),
      se_entries = ro_walk V (Repo_Folder cfg), se_create = ro_create V, se_removeAfter = ro_removeAfter V\<rparr>"

definition sync_round ::
  "('c, policy) coll \<Rightarrow> ((string \<rightharpoonup> policy) \<Rightarrow> string list) \<Rightarrow> sync_config \<Rightarrow> round_env \<Rightarrow> 'c \<Rightarrow> unit outcome \<times> 'c" where
  "sync_round K order cfg V c = sync_run K (ro_now V) order (round_sync_env cfg V) (Repo_URL cfg) c"

section \<open>The main loop\<close>

text \<open>
  \<open>Running\<close>: the program sleeps until its next round; \<open>Exited\<close> is the exit status; a panic or a call that
  never returns ends the loop.  The errors of a round are only logged: the log is the list of them.
\<close>

datatype program =
    Running
  | Exited nat
  | Crashed

fun sync_loop ::
  "('c, policy) coll \<Rightarrow> ((string \<rightharpoonup> policy) \<Rightarrow> string list) \<Rightarrow> sync_config \<Rightarrow> round_env list \<Rightarrow>
   goerror list \<times> 'c \<Rightarrow> program \<times> goerror list \<times> 'c" where
  "sync_loop K order cfg [] (log, c) = (Running, log, c)"
| "sync_loop K order cfg (V # Vs) (log, c) =
     (let (r, c') = sync_round K order cfg V c in
      if \<not> returns r then (Crashed, log, c')
      else
        (let log' = (case r of Err e \<Rightarrow> log @ [e] | _ \<Rightarrow> log) in
         if KeepAlive cfg then sync_loop K order cfg Vs (log', c') else (Exited 0, log', c')))"

text \<open>The connection: the credentials are used when both are given.  \<^verbatim>\<open>log.Fatalln\<close> exits with status 1;
  it puts a space between its operands.\<close>

definition db_credentials :: "sync_config \<Rightarrow> (string \<times> string) option" where
  "db_credentials cfg = (if DB_User cfg \<noteq> [] \<and> DB_Pass cfg \<noteq> [] then Some (DB_User cfg, DB_Pass cfg) else None)"

definition sync_main ::
  "(string \<Rightarrow> duration outcome) \<Rightarrow> (string \<rightharpoonup> string) \<Rightarrow> string list \<Rightarrow>
   (string \<Rightarrow> (string \<times> string) option \<Rightarrow> goerror option) \<Rightarrow> (string \<Rightarrow> ('c, policy) coll) \<Rightarrow>
   ((string \<rightharpoonup> policy) \<Rightarrow> string list) \<Rightarrow> round_env list \<Rightarrow> 'c \<Rightarrow> program \<times> goerror list \<times> 'c" where
  "sync_main pd env args connect db order Vs c =
     (case sync_loadConfig pd env args of
        Loaded cfg \<Rightarrow>
          (case connect (DB_Addr cfg) (db_credentials cfg) of
             Some e \<Rightarrow> (Exited 1, [Plain (''error connecting to database:  '' @ err_text e)], c)
           | None \<Rightarrow> sync_loop (db (DB_Name cfg)) order cfg Vs ([], c))
      | LoadError e \<Rightarrow> (Exited 1, [Plain (''failed to setup policy sync:  '' @ err_text e)], c)
      | Exit n \<Rightarrow> (Exited n, [], c))"

end
