(* ===== verification/Sync_Program_Props.thy ===== *)
theory Sync_Program_Props
  imports Sync_Program Database_Props
begin

text \<open>
  Properties of the synchronisation program: the two ways to configure it, and what a run of its main loop
  achieves.
\<close>

section \<open>Configuration\<close>

text \<open>The arguments and the environment that describe a configuration; \<open>t\<close> is the text of the interval.\<close>

definition bool_text :: "bool \<Rightarrow> string" where
  "bool_text b = (if b then ''true'' else ''false'')"

text \<open>
  The flags in the order of the source; \<open>two n\<close>: the flag \<open>n\<close> is written with two dashes, \<open>apart n\<close>: its value
  is the next argument.  The value of a switch must follow an equals sign.
\<close>

definition flag_dashes :: "bool \<Rightarrow> string" where
  "flag_dashes two = (if two then ''--'' else ''-'')"

definition flag_words :: "(string \<Rightarrow> bool) \<Rightarrow> (string \<Rightarrow> bool) \<Rightarrow> string \<Rightarrow> string \<Rightarrow> string list" where
  "flag_words two apart n v =
     (if apart n then [flag_dashes (two n) @ n, v] else [flag_dashes (two n) @ n @ CHR ''='' # v])"

definition config_args :: "(string \<Rightarrow> bool) \<Rightarrow> (string \<Rightarrow> bool) \<Rightarrow> sync_config \<Rightarrow> string \<Rightarrow> string list" where
  "config_args two apart cfg t =
     flag_words two apart ''repoURL'' (Repo_URL cfg) @ flag_words two apart ''repoUser'' (Repo_User cfg) @
     flag_words two apart ''repoPass'' (Repo_Pass cfg) @ flag_words two apart ''branch'' (Repo_Branch cfg) @
     flag_words two apart ''repoFolder'' (Repo_Folder cfg) @ flag_words two apart ''dbAddr'' (DB_Addr cfg) @
     flag_words two apart ''dbUser'' (DB_User cfg) @ flag_words two apart ''dbPass'' (DB_Pass cfg) @
     flag_words two apart ''dbName'' (DB_Name cfg) @
     flag_words two (\<lambda>n. False) ''keepAlive'' (bool_text (KeepAlive cfg)) @
     flag_words two apart ''syncInterval'' t"

definition config_env :: "sync_config \<Rightarrow> string \<Rightarrow> string \<rightharpoonup> string" where
  "config_env cfg t =
     map_of [(''KEEP_ALIVE'', bool_text (KeepAlive cfg)), (''SYNC_INTERVAL'', t), (''POLICY_REPO'', Repo_URL cfg),
       (''POLICY_REPO_USER'', Repo_User cfg), (''POLICY_REPO_PASS'', Repo_Pass cfg),
       (''POLICY_REPO_BRANCH'', Repo_Branch cfg), (''POLICY_REPO_FOLDER'', Repo_Folder cfg),
       (''DB_ADDR'', DB_Addr cfg), (''DB_USER'', DB_User cfg), (''DB_PASS'', DB_Pass cfg), (''DB_NAME'', DB_Name cfg)]"

lemma ParseBool_text [simp]: "ParseBool (bool_text b) = Ok b"
  by (cases b) (simp_all add: ParseBool_def bool_text_def)

lemma read_flag_value:
  assumes "n \<noteq> []" and "hd n \<noteq> CHR ''-''" and "CHR ''='' \<notin> set n"
  shows "read_flag (CHR ''-'' # n @ CHR ''='' # v) = Flag n (Some v)"
    and "read_flag (CHR ''-'' # CHR ''-'' # n @ CHR ''='' # v) = Flag n (Some v)"
    and "read_flag (CHR ''-'' # n) = Flag n None"
    and "read_flag (CHR ''-'' # CHR ''-'' # n) = Flag n None"
proof -
  obtain c m where n: "n = c # m" using assms(1) by (cases n) auto
  have c: "c \<noteq> CHR ''-''" "c \<noteq> CHR ''=''" "CHR ''='' \<notin> set m" using assms(2,3) n by auto
  have tw: "takeWhile ((\<noteq>) CHR ''='') (m @ CHR ''='' # v) = m" "dropWhile ((\<noteq>) CHR ''='') (m @ CHR ''='' # v) = CHR ''='' # v"
    by (subst takeWhile_append2 dropWhile_append2; use c(3) in auto)+
  have dw: "dropWhile ((\<noteq>) CHR ''='') m = []" using c(3) by (auto simp: dropWhile_eq_Nil_conv)
  show "read_flag (CHR ''-'' # n @ CHR ''='' # v) = Flag n (Some v)"
    using c(1,2) by (simp add: read_flag_def n tw Let_def)
  show "read_flag (CHR ''-'' # CHR ''-'' # n @ CHR ''='' # v) = Flag n (Some v)"
    using c(1,2) by (simp add: read_flag_def n tw Let_def)
  show "read_flag (CHR ''-'' # n) = Flag n None"
    using c(1,2) by (simp add: read_flag_def n dw Let_def)
  show "read_flag (CHR ''-'' # CHR ''-'' # n) = Flag n None"
    using c(1,2) by (simp add: read_flag_def n dw Let_def)
qed

lemma flag_Parse_words:
  assumes "map_of sync_flags n \<noteq> None" and "n \<noteq> []" "hd n \<noteq> CHR ''-''" "CHR ''='' \<notin> set n"
    and "apart n \<Longrightarrow> \<not> is_bool (the (map_of sync_flags n))"
  shows "flag_Parse pd (flag_words two apart n v @ args) cfg =
    (case set_var pd (the (map_of sync_flags n)) v cfg of Ok cfg' \<Rightarrow> flag_Parse pd args cfg' | _ \<Rightarrow> Exit 2)"
  using read_flag_value [OF assms(2-4)] assms(1,5)
  by (auto simp: flag_words_def flag_dashes_def)

lemmas flag_Parse_last = flag_Parse_words [where args = "[]", unfolded append_Nil2]

text \<open>C16: Every configuration with a repository and a database address, whose interval has a text that parses,
  can be given by command-line flags and by environment variables.  Of the flags each is written with one
  dash or two, and the value of each but the switch \<^verbatim>\<open>keepAlive\<close>, which needs the equals sign, behind an equals
  sign or in the next argument.  Both ways load exactly that configuration, and with any command-line
  argument at all the environment makes no difference.\<close>

theorem configuration_given_either_way:
  assumes "pd t = Ok (SyncInterval cfg)" and "Repo_URL cfg \<noteq> []" and "DB_Addr cfg \<noteq> []"
  shows "sync_loadConfig pd env (config_args two apart cfg t) = Loaded cfg
    \<and> sync_loadConfig pd (config_env cfg t) [] = Loaded cfg
    \<and> (args \<noteq> [] \<longrightarrow> sync_loadConfig pd env1 args = sync_loadConfig pd env2 args)"
proof (intro conjI impI)
  have "flag_Parse pd (config_args two apart cfg t) flag_defaults = Loaded cfg"
    using assms(1)
    by (simp add: config_args_def flag_Parse_words flag_Parse_last sync_flags_def flag_defaults_def zero_config_def)
  moreover have "config_args two apart cfg t \<noteq> []" by (simp add: config_args_def flag_words_def)
  ultimately show "sync_loadConfig pd env (config_args two apart cfg t) = Loaded cfg"
    using assms(2,3) by (simp add: sync_loadConfig_def)
  have "env_Process pd (config_env cfg t) sync_env_vars zero_config = Ok cfg"
    using assms(1) by (simp add: sync_env_vars_def env_field_def env_value_def config_env_def zero_config_def)
  then show "sync_loadConfig pd (config_env cfg t) [] = Loaded cfg"
    by (simp add: sync_loadConfig_def)
qed (simp add: sync_loadConfig_def)

theorem configuration_given_either_way_witness:
  "sync_loadConfig (\<lambda>t. Ok 5) (\<lambda>n. None) (config_args (\<lambda>n. n = ''branch'') (\<lambda>n. n \<noteq> ''dbUser'')
        (flag_defaults\<lparr>SyncInterval := 5, Repo_URL := ''u'', DB_Addr := ''a''\<rparr>) ''5ns'')
      = Loaded (flag_defaults\<lparr>SyncInterval := 5, Repo_URL := ''u'', DB_Addr := ''a''\<rparr>)
    \<and> sync_loadConfig (\<lambda>t. Ok 5) (config_env (flag_defaults\<lparr>SyncInterval := 5, Repo_URL := ''u'', DB_Addr := ''a''\<rparr>) ''5ns'') []
      = Loaded (flag_defaults\<lparr>SyncInterval := 5, Repo_URL := ''u'', DB_Addr := ''a''\<rparr>)
    \<and> sync_loadConfig (\<lambda>t. Ok 5) (\<lambda>n. Some ''u'') [''-keepAlive''] = sync_loadConfig (\<lambda>t. Ok 5) (\<lambda>n. None) [''-keepAlive'']"
  using configuration_given_either_way [of "\<lambda>t. Ok 5" "''5ns''"
      "flag_defaults\<lparr>SyncInterval := 5, Repo_URL := ''u'', DB_Addr := ''a''\<rparr>" "\<lambda>n. None" "\<lambda>n. n = ''branch''"
      "\<lambda>n. n \<noteq> ''dbUser''" "[''-keepAlive'']" "\<lambda>n. Some ''u''" "\<lambda>n. None"]
  by simp

text \<open>Flags without the two required values are refused, empty environment variables are not.\<close>

lemma empty_environment_accepted:
  "sync_loadConfig pd env [''-keepAlive''] = LoadError missing_flags"
  "pd ''120s'' = Ok 5 \<Longrightarrow> sync_loadConfig pd [''POLICY_REPO'' \<mapsto> [], ''DB_ADDR'' \<mapsto> []] []
    = Loaded (flag_defaults\<lparr>SyncInterval := 5\<rparr>)"
  using read_flag_value(3) [of "''keepAlive''"]
  by (simp_all add: sync_loadConfig_def sync_flags_def flag_defaults_def zero_config_def ParseBool_def
      sync_env_vars_def env_field_def env_value_def)

section \<open>The main loop\<close>

definition round_repo :: "sync_config \<Rightarrow> round_env \<Rightarrow> (string \<rightharpoonup> policy) outcome" where
  "round_repo cfg V = IterateRepo (ro_create V (getRepoName (Repo_URL cfg))) (ro_walk V (Repo_Folder cfg))"

text \<open>The round gets as far as reading the repository.\<close>

definition round_reads :: "sync_config \<Rightarrow> round_env \<Rightarrow> bool" where
  "round_reads cfg V \<longleftrightarrow> ro_removeBefore V = None \<and> ro_cleanup V = None \<and>
     ro_git V (cloner_options (Repo_URL cfg) (Repo_User cfg) (Repo_Pass cfg) (Repo_Branch cfg)) = None"

text \<open>What every round keeps of the database, and what the theorem assumes of the repository of a round.\<close>

definition store_ok :: "policy list \<Rightarrow> bool" where
  "store_ok ds \<longleftrightarrow> unique_pids ds \<and> list_all (\<lambda>p. dot_free (pid_of p)) ds"

definition round_ok :: "((string \<rightharpoonup> policy) \<Rightarrow> string list) \<Rightarrow> sync_config \<Rightarrow> round_env \<Rightarrow> bool" where
  "round_ok order cfg V \<longleftrightarrow> returns (round_repo cfg V) \<and>
     (\<forall>m. round_repo cfg V = Ok m \<longrightarrow> is_order (order m) m \<and> (\<forall>k r. m k = Some r \<longrightarrow> dot_free (pid_of r)))"

definition agrees :: "policy list \<Rightarrow> (string \<rightharpoonup> policy) \<Rightarrow> bool" where
  "agrees ds m \<longleftrightarrow> (\<forall>k r. m k = Some r \<longrightarrow> (\<exists>q. dir ds (pid_of r) = Some q \<and>
     p_Rego q = p_Rego r \<and> p_Data q = p_Data r \<and> p_DataConfig q = p_DataConfig r \<and>
     p_OutputSchema q = p_OutputSchema r \<and> p_ExportConfig q = p_ExportConfig r \<and> p_Filename q = p_Filename r))"

definition locks_kept :: "policy list \<Rightarrow> policy list \<Rightarrow> bool" where
  "locks_kept ds es \<longleftrightarrow> (\<forall>i p. dir ds i = Some p \<longrightarrow> (\<exists>q. dir es i = Some q \<and> p_Locked q = p_Locked p))"

lemma locks_kept_refl: "locks_kept ds ds"
  by (simp add: locks_kept_def)

lemma locks_kept_trans: "locks_kept ds es \<Longrightarrow> locks_kept es fs \<Longrightarrow> locks_kept ds fs"
  unfolding locks_kept_def by metis

lemma upsert_keeps_store:
  assumes ok: "policy_coll_ok re contents K" and store: "store_ok (contents c)" and m: "round_repo cfg V = Ok m"
    and V: "round_ok order cfg V"
  shows "\<exists>c'. upsertPolicies K now order m c = (Ok (), c') \<and> store_ok (contents c') \<and> agrees (contents c') m
    \<and> locks_kept (contents c) (contents c')"
proof -
  have keyed: "keyed ConstructKey m" using m walk_keyed by (auto simp: round_repo_def IterateRepo_def)
  have om: "is_order (order m) m" "\<And>k r. m k = Some r \<Longrightarrow> dot_free (pid_of r)"
    using V m by (auto simp: round_ok_def)
  have ready: "sync_ready (contents c) m (order m)"
    using store keyed om by (auto simp: sync_ready_def store_ok_def)
  obtain c' where c': "upsertPolicies K now order m c = (Ok (), c')" "unique_pids (contents c')"
    "\<And>j. (\<forall>r. m (ConstructKey j) = Some r \<longrightarrow> pid_of r \<noteq> j) \<Longrightarrow> dir (contents c') j = dir (contents c) j"
    "\<And>k r. m k = Some r \<Longrightarrow> \<exists>q. dir (contents c') (pid_of r) = Some q \<and> policies_equal q r \<and>
        p_Locked q = (case dir (contents c) (pid_of r) of None \<Rightarrow> p_Locked r | Some old \<Rightarrow> p_Locked old)"
    using upsertPolicies_effect [where order = order, OF ok ready, of now] by blast
  have free: "dot_free (pid_of p)" if p: "p \<in> set (contents c')" for p
  proof (cases "\<exists>r. m (ConstructKey (pid_of p)) = Some r \<and> pid_of r = pid_of p")
    case True
    then show ?thesis using om(2) by metis
  next
    case False
    then have "dir (contents c) (pid_of p) = Some p"
      using c'(3) dir_unique [OF c'(2) p] by metis
    then show ?thesis using store dir_in by (fastforce simp: store_ok_def list_all_iff)
  qed
  have locks: "\<exists>q. dir (contents c') i = Some q \<and> p_Locked q = p_Locked p" if p: "dir (contents c) i = Some p" for i p
  proof (cases "\<exists>r. m (ConstructKey i) = Some r \<and> pid_of r = i")
    case True
    then obtain r where r: "m (ConstructKey i) = Some r" "pid_of r = i" by blast
    show ?thesis using c'(4) [OF r(1)] r(2) p by auto
  next
    case False
    then show ?thesis using c'(3) p by metis
  qed
  have "agrees (contents c') m" using c'(4) unfolding agrees_def policies_equal_content by metis
  moreover have "store_ok (contents c')" using c'(2) free by (simp add: store_ok_def list_all_iff)
  moreover have "locks_kept (contents c) (contents c')" using locks by (simp add: locks_kept_def)
  ultimately show ?thesis using c'(1) by blast
qed

lemma sbind_sret [simp]:
  "sbind (sret (Ok x)) f s = f x s" "sbind (sret (Err e)) f s = (Err e, s)"
  by simp_all

lemma check_err_simps [simp]:
  "check_err t None = Ok ()" "check_err t (Some e) = Err (Plain (t @ err_text e))"
  by (simp_all add: check_err_def)

lemma sync_round_unread:
  assumes "\<not> round_reads cfg V"
  shows "\<exists>e. sync_round K order cfg V c = (Err e, c)"
proof -
  let ?git = "ro_git V (cloner_options (Repo_URL cfg) (Repo_User cfg) (Repo_Pass cfg) (Repo_Branch cfg))"
  consider e where "ro_removeBefore V = Some e" | e where "ro_removeBefore V = None" "ro_cleanup V = Some e"
    | e where "ro_removeBefore V = None" "ro_cleanup V = None" "?git = Some e"
    using assms unfolding round_reads_def by (cases "ro_removeBefore V"; cases "ro_cleanup V"; cases ?git) blast+
  then show ?thesis
    by cases (simp_all add: sync_round_def sync_run_def round_sync_env_def)
qed

lemma sync_round_effect:
  assumes ok: "policy_coll_ok re contents K" and store: "store_ok (contents c)" and V: "round_ok order cfg V"
  shows "\<exists>r c'. sync_round K order cfg V c = (r, c') \<and> returns r \<and> store_ok (contents c')
    \<and> locks_kept (contents c) (contents c')
    \<and> (\<forall>m. round_reads cfg V \<and> round_repo cfg V = Ok m \<longrightarrow> agrees (contents c') m)"
proof (cases "round_reads cfg V")
  case False
  obtain e where "sync_round K order cfg V c = (Err e, c)" using sync_round_unread [OF False, of K order c] by blast
  then show ?thesis using False store locks_kept_refl [of "contents c"] returns.simps(2) [of e] by blast
next
  case reads: True
  have ret: "returns (round_repo cfg V)" using V by (simp add: round_ok_def)
  then show ?thesis
  proof (cases rule: returns_cases)
    case (2 e)
    have it: "IterateRepo (ro_create V (getRepoName (Repo_URL cfg))) (ro_walk V (Repo_Folder cfg)) = Err e"
      using 2 by (simp only: round_repo_def)
    obtain e' where "sync_round K order cfg V c = (Err e', c)"
      using reads by (simp add: round_reads_def sync_round_def sync_run_def round_sync_env_def it)
    moreover have "round_repo cfg V \<noteq> Ok m" for m using 2 by simp
    ultimately show ?thesis using store locks_kept_refl [of "contents c"] returns.simps(2) [of e'] by blast
  next
    case (1 m)
    obtain c' where c': "upsertPolicies K (ro_now V) order m c = (Ok (), c')" "store_ok (contents c')"
      "agrees (contents c') m" "locks_kept (contents c) (contents c')"
      using upsert_keeps_store [OF ok store 1 V] by blast
    have it: "IterateRepo (ro_create V (getRepoName (Repo_URL cfg))) (ro_walk V (Repo_Folder cfg)) = Ok m"
      using 1 by (simp only: round_repo_def)
    have "sync_round K order cfg V c = (check_err ''error deleting policy repo folder: '' (ro_removeAfter V), c')"
      using reads c'(1)
      by (simp add: round_reads_def sync_round_def sync_run_def round_sync_env_def it)
    moreover have "returns (check_err t e)" for t e by (cases e) simp_all
    moreover have "agrees (contents c') m'" if "round_repo cfg V = Ok m'" for m' using that 1 c'(3) by simp
    ultimately show ?thesis using c'(2,4) by blast
  qed
qed

lemma sync_loop_rounds:
  assumes ok: "policy_coll_ok re contents K" and keep: "KeepAlive cfg"
  shows "store_ok (contents c) \<Longrightarrow> \<forall>V \<in> set Vs. round_ok order cfg V \<Longrightarrow>
    \<exists>log' c'. sync_loop K order cfg Vs (log, c) = (Running, log', c') \<and> store_ok (contents c')
      \<and> locks_kept (contents c) (contents c')
      \<and> (\<forall>m. Vs \<noteq> [] \<and> round_reads cfg (last Vs) \<and> round_repo cfg (last Vs) = Ok m \<longrightarrow> agrees (contents c') m)"
proof (induction Vs arbitrary: log c)
  case Nil
  then show ?case using locks_kept_refl by simp
next
  case (Cons V Vs)
  obtain r c1 where c1: "sync_round K order cfg V c = (r, c1)" "returns r" "store_ok (contents c1)"
    "locks_kept (contents c) (contents c1)"
    "\<And>m. round_reads cfg V \<Longrightarrow> round_repo cfg V = Ok m \<Longrightarrow> agrees (contents c1) m"
    using sync_round_effect [OF ok Cons.prems(1), of order cfg V] Cons.prems(2) by auto
  obtain log' c' where c': "sync_loop K order cfg Vs (case r of Err e \<Rightarrow> log @ [e] | _ \<Rightarrow> log, c1) = (Running, log', c')"
    "store_ok (contents c')" "locks_kept (contents c1) (contents c')"
    "\<And>m. Vs \<noteq> [] \<Longrightarrow> round_reads cfg (last Vs) \<Longrightarrow> round_repo cfg (last Vs) = Ok m \<Longrightarrow> agrees (contents c') m"
    using Cons.IH [OF c1(3)] Cons.prems(2) by (metis list.set_intros(2))
  have "sync_loop K order cfg (V # Vs) (log, c) = (Running, log', c')"
    using c1(1,2) keep c'(1) by (simp add: Let_def)
  moreover have "agrees (contents c') m" if "round_reads cfg (last (V # Vs))" "round_repo cfg (last (V # Vs)) = Ok m" for m
  proof (cases "Vs = []")
    case True
    then show ?thesis using that c1(5) c'(1) by simp
  qed (use that c'(4) in simp)
  ultimately show ?case using c'(2) locks_kept_trans [OF c1(4) c'(3)] by blast
qed

text \<open>C15: Let no policy of the database and of what the rounds read have a dot in its repository, group or
  name, the database hold at most one policy for each identifier, and reading the repository return in
  every round, with a result or an error.  As a service the synchronisation program then never stops
  because of a failed round, and it catches up: after any rounds, failed or not, a round that can clone and
  read the repository leaves every policy of the repository in the database with the source, data, data
  configuration, output schema, export configuration and file name it has in the repository, even if it
  then cannot delete its folder.  On the way no policy that was in the database disappears or changes its
  lock.\<close>

theorem sync_service_catches_up:
  assumes "sync_loadConfig pd env args = Loaded cfg" and "KeepAlive cfg"
    and "connect (DB_Addr cfg) (db_credentials cfg) = None" and "policy_coll_ok re contents (db (DB_Name cfg))"
    and "store_ok (contents c)" and "\<forall>V \<in> set (Vs @ [V]). round_ok order cfg V"
    and "round_reads cfg V" and "round_repo cfg V = Ok m"
  shows "\<exists>log c'. sync_main pd env args connect db order (Vs @ [V]) c = (Running, log, c')
    \<and> (\<forall>k r. m k = Some r \<longrightarrow> (\<exists>q. dir (contents c') (pid_of r) = Some q \<and>
         p_Rego q = p_Rego r \<and> p_Data q = p_Data r \<and> p_DataConfig q = p_DataConfig r \<and>
         p_OutputSchema q = p_OutputSchema r \<and> p_ExportConfig q = p_ExportConfig r \<and>
         p_Filename q = p_Filename r))
    \<and> (\<forall>i p. dir (contents c) i = Some p \<longrightarrow> (\<exists>q. dir (contents c') i = Some q \<and> p_Locked q = p_Locked p))"
proof -
  obtain log c' where "sync_main pd env args connect db order (Vs @ [V]) c = (Running, log, c')"
    "agrees (contents c') m" "locks_kept (contents c) (contents c')"
    using sync_loop_rounds [OF assms(4,2,5,6), of "[]"] assms(1,3,7,8) by (auto simp: sync_main_def)
  then show ?thesis unfolding agrees_def locks_kept_def by blast
qed

text \<open>The first round cannot clone; the second finds one policy, and the database is empty.\<close>

definition ex_round :: "goerror option \<Rightarrow> round_env" where
  "ex_round e =
     \<lparr>ro_now = 0, ro_removeBefore = None, ro_cleanup = None, ro_git = (\<lambda>opts. e),
      ro_walk = (\<lambda>folder. [\<lparr>d_path = policyFilename, d_name = policyFilename, d_isdir = False, d_err = None\<rparr>]),
      ro_create = (\<lambda>repo f. Ok ex_policy), ro_removeAfter = None\<rparr>"

definition ex_sync_config :: sync_config where
  "ex_sync_config = flag_defaults\<lparr>KeepAlive := True, SyncInterval := 5, Repo_URL := ''u'', DB_Addr := ''a''\<rparr>"

lemma ex_round_repo: "round_repo cfg (ex_round e) = Ok [ConstructKey (pid_of ex_policy) \<mapsto> ex_policy]"
  by (simp add: round_repo_def ex_round_def IterateRepo_def)

theorem sync_service_catches_up_witness:
  "\<exists>log c' q. sync_main (\<lambda>t. Ok 5) (\<lambda>n. None) (config_args (\<lambda>n. False) (\<lambda>n. False) ex_sync_config ''5ns'') (\<lambda>a u. None)
      (\<lambda>n. ex_coll) ex_order ([ex_round (Some (Plain ''no route''))] @ [ex_round None]) [] = (Running, log, c')
    \<and> dir c' (pid_of ex_policy) = Some q \<and> p_Data q = ''{}''"
proof -
  have load: "sync_loadConfig (\<lambda>t. Ok 5) (\<lambda>n. None) (config_args (\<lambda>n. False) (\<lambda>n. False) ex_sync_config ''5ns'')
      = Loaded ex_sync_config"
    by (simp add: sync_loadConfig_def config_args_def flag_words_def flag_dashes_def ex_sync_config_def
        flag_defaults_def zero_config_def bool_text_def read_flag_def sync_flags_def ParseBool_def)
  have "dot_free (pid_of ex_policy)" by (simp add: dot_free_def pid_of_def ex_policy_def)
  then have rounds: "\<forall>V \<in> set ([ex_round (Some (Plain ''no route''))] @ [ex_round None]).
      round_ok ex_order ex_sync_config V"
    by (auto simp: round_ok_def ex_round_repo ex_order_def is_order_def split: if_splits)
  have reads: "round_reads ex_sync_config (ex_round None)" by (simp add: round_reads_def ex_round_def)
  have cfg: "KeepAlive ex_sync_config" "store_ok []"
    by (simp_all add: ex_sync_config_def store_ok_def unique_pids_def)
  have data: "p_Data ex_policy = ''{}''" by (simp add: ex_policy_def)
  have repo: "[ConstructKey (pid_of ex_policy) \<mapsto> ex_policy] (ConstructKey (pid_of ex_policy)) = Some ex_policy" by simp
  obtain log c' where c': "sync_main (\<lambda>t. Ok 5) (\<lambda>n. None) (config_args (\<lambda>n. False) (\<lambda>n. False) ex_sync_config ''5ns'')
      (\<lambda>a u. None) (\<lambda>n. ex_coll) ex_order ([ex_round (Some (Plain ''no route''))] @ [ex_round None]) [] = (Running, log, c')"
    "\<forall>k r. [ConstructKey (pid_of ex_policy) \<mapsto> ex_policy] k = Some r \<longrightarrow>
      (\<exists>q. dir c' (pid_of r) = Some q \<and> p_Rego q = p_Rego r \<and> p_Data q = p_Data r \<and> p_DataConfig q = p_DataConfig r \<and>
         p_OutputSchema q = p_OutputSchema r \<and> p_ExportConfig q = p_ExportConfig r \<and> p_Filename q = p_Filename r)"
    using sync_service_catches_up [where contents = "\<lambda>ds. ds" and c = "[]" and connect = "\<lambda>a u. None",
        OF load cfg(1) refl ex_coll_ok cfg(2) rounds reads ex_round_repo] by blast
  from c'(2) repo obtain q where "dir c' (pid_of ex_policy) = Some q" "p_Data q = p_Data ex_policy" by blast
  then show ?thesis using c'(1) data by metis
qed

text \<open>A single run, as the pipeline starts it, ends with status 0 even when the round has failed.\<close>

lemma failed_single_run_succeeds:
  assumes "sync_loadConfig pd env args = Loaded cfg" and "\<not> KeepAlive cfg"
    and "connect (DB_Addr cfg) (db_credentials cfg) = None"
    and "sync_round (db (DB_Name cfg)) order cfg V c = (Err e, c')"
  shows "sync_main pd env args connect db order (V # Vs) c = (Exited 0, [e], c')"
  using assms by (simp add: sync_main_def)

end
