(* ===== verification/Mongo_Stores.thy ===== *)
theory Mongo_Stores
  imports Mongo_Laws
begin

text \<open>
  The other two contracts of the storage interface over the MongoDB storage, \<open>data_store\<close> and
  \<open>autoimport_store\<close>, and the schedule of the automatic imports.
\<close>

section \<open>Common storage\<close>

text \<open>A document of the common storage is its key and its data; its identifier is not decoded.\<close>

type_synonym common = "string \<times> (string \<times> json) list"

fun cs_get :: "string \<Rightarrow> common \<Rightarrow> bval" where
  "cs_get k (key, d) = (if k = ''key'' then BStr key else BData d)"

fun cs_put :: "string \<Rightarrow> bval \<Rightarrow> common \<Rightarrow> common" where
  "cs_put k (BStr s) (key, d) = (if k = ''key'' then s else key, d)"
| "cs_put k (BData x) (key, d) = (key, if k = ''data'' then x else d)"
| "cs_put k _ d = d"

definition cs_mk :: "nat \<Rightarrow> common" where
  "cs_mk oid = ([], [])"

abbreviation data_coll_ok :: "(string \<Rightarrow> string \<Rightarrow> bool) \<Rightarrow> ('c \<Rightarrow> common list) \<Rightarrow> ('c, common) coll \<Rightarrow> bool" where
  "data_coll_ok re contents K \<equiv> coll_ok re cs_get cs_put cs_mk contents K"

definition data_map :: "common list \<Rightarrow> string \<rightharpoonup> json" where
  "data_map ds k = map_option (\<lambda>d. JObj (snd d)) (by_key fst ds k)"

definition unique_keys :: "common list \<Rightarrow> bool" where
  "unique_keys ds \<longleftrightarrow> distinct (map fst ds)"

lemma matches_key [simp]: "matches re cs_get [(''key'', Eq (BStr k))] d \<longleftrightarrow> fst d = k"
  by (cases d) (auto simp: matches_def)

lemma mongo_GetData_map:
  assumes "data_coll_ok re contents K" and "unique_keys (contents c)"
  shows "mongo_GetData K k c = (case data_map (contents c) k of None \<Rightarrow> Err noDocuments | Some v \<Rightarrow> Ok v, c)"
  using find_by_key [OF assms(1) matches_key] assms(2)
  by (auto simp: mongo_GetData_def unique_keys_def data_map_def split: option.splits)

lemma mongo_SetData_map:
  assumes ok: "data_coll_ok re contents K" and uniq: "unique_keys (contents c)"
  shows "\<exists>c'. mongo_SetData K k d c = (Ok (), c') \<and> unique_keys (contents c') \<and>
    data_map (contents c') = (data_map (contents c))(k \<mapsto> JObj d)"
proof -
  let ?u = "[(''key'', BStr k), (''data'', BData d)]"
  have put: "apply_set cs_put ?u e = (k, d)" for e by (cases e) simp
  obtain c' where c': "mongo_SetData K k d c = (Ok (), c')"
    "updated re cs_get cs_put cs_mk True [(''key'', Eq (BStr k))] ?u (contents c) (contents c')"
    unfolding mongo_SetData_def by (rule coll_ok_UpdateOne [OF ok])
  have "distinct (map fst (contents c')) \<and> by_key fst (contents c') = (by_key fst (contents c))(k \<mapsto> (k, d))"
  proof -
    have keep: "fst (apply_set cs_put ?u e) = k" for e using put by simp
    have new: "fst (apply_set cs_put (equalities [(''key'', Eq (BStr k))]) (cs_mk oid)) = k" for oid
      by (simp add: cs_mk_def)
    show ?thesis
      using updated_by_key [OF c'(2) matches_key uniq [unfolded unique_keys_def] keep new]
      by (cases "by_key fst (contents c) k") (auto simp only: put if_True option.case)
  qed
  then show ?thesis using c'(1) by (auto simp: unique_keys_def data_map_def fun_eq_iff)
qed

lemma mongo_DeleteData_map:
  assumes ok: "data_coll_ok re contents K" and uniq: "unique_keys (contents c)"
  shows "\<exists>r c'. mongo_DeleteData K k c = (r, c') \<and> unique_keys (contents c') \<and>
    data_map (contents c') = (data_map (contents c))(k := None) \<and>
    (case data_map (contents c) k of None \<Rightarrow> \<exists>e. r = Err e | Some v \<Rightarrow> r = Ok ())"
proof -
  obtain c' where c': "co_DeleteOne K [(''key'', Eq (BStr k))] c =
      (Ok (if by_key fst (contents c) k = None then 0 else 1), c')"
    "distinct (map fst (contents c'))" "by_key fst (contents c') = (by_key fst (contents c))(k := None)"
    using delete_by_key [OF ok matches_key uniq [unfolded unique_keys_def]] by blast
  have "data_map (contents c') = (data_map (contents c))(k := None)"
    by (simp add: data_map_def fun_eq_iff c'(3))
  then show ?thesis
    using c'(1,2) by (cases "by_key fst (contents c) k") (simp_all add: mongo_DeleteData_def unique_keys_def data_map_def)
qed

lemma mongo_data_store:
  assumes ok: "data_coll_ok re contents K"
  shows "data_store (mongo_GetData K) (mongo_SetData K) (mongo_DeleteData K)
    (\<lambda>c. data_map (contents c)) (\<lambda>c. unique_keys (contents c))"
proof unfold_locales
  fix c k v
  assume inv: "unique_keys (contents c)"
  show "data_map (contents c) k = Some v \<Longrightarrow> mongo_GetData K k c = (Ok v, c)"
    and "data_map (contents c) k = None \<Longrightarrow> \<exists>e. mongo_GetData K k c = (Err e, c)"
    by (simp_all add: mongo_GetData_map [OF ok inv])
  show "data_map (contents c) k = Some v \<Longrightarrow> \<exists>c'. mongo_DeleteData K k c = (Ok (), c') \<and>
      unique_keys (contents c') \<and> data_map (contents c') = (data_map (contents c))(k := None)"
    using mongo_DeleteData_map [OF ok inv, of k] by auto
next
  fix c k d
  assume inv: "unique_keys (contents c)"
  show "\<exists>c'. mongo_SetData K k d c = (Ok (), c') \<and> unique_keys (contents c') \<and>
      data_map (contents c') = (data_map (contents c))(k \<mapsto> JObj d)"
    by (rule mongo_SetData_map [OF ok inv])
next
  fix c k
  assume inv: "unique_keys (contents c)" and "data_map (contents c) k = None"
  then show "\<exists>e c'. mongo_DeleteData K k c = (Err e, c') \<and> unique_keys (contents c') \<and>
      data_map (contents c') = data_map (contents c)"
    using mongo_DeleteData_map [OF ok inv, of k] by (auto simp: fun_upd_idem)
qed

section \<open>Import configurations\<close>

abbreviation import_coll_ok ::
  "(string \<Rightarrow> string \<Rightarrow> bool) \<Rightarrow> ('c \<Rightarrow> (nat \<times> autoimport) list) \<Rightarrow> ('c, nat \<times> autoimport) coll \<Rightarrow> bool" where
  "import_coll_ok re contents K \<equiv> coll_ok re ai_get ai_put ai_mk contents K"

definition import_url :: "nat \<times> autoimport \<Rightarrow> string" where
  "import_url d = ai_PolicyURL (snd d)"

definition import_map :: "(nat \<times> autoimport) list \<Rightarrow> string \<rightharpoonup> autoimport" where
  "import_map ds u = map_option snd (by_key import_url ds u)"

definition unique_urls :: "(nat \<times> autoimport) list \<Rightarrow> bool" where
  "unique_urls ds \<longleftrightarrow> distinct (map import_url ds)"

definition import_ms :: "autoimport \<Rightarrow> autoimport" where
  "import_ms a = a\<lparr>ai_NextImport := bson_ms (ai_NextImport a)\<rparr>"

lemma matches_url [simp]: "matches re ai_get [(''policyURL'', Eq (BStr u))] d \<longleftrightarrow> import_url d = u"
  by (cases d) (auto simp: matches_def import_url_def)

lemma mongo_AutoImportConfig_map:
  assumes "import_coll_ok re contents K" and "unique_urls (contents c)"
  shows "mongo_AutoImportConfig K u c =
    (case import_map (contents c) u of None \<Rightarrow> Err (errors_New [AKind NotFound, AErr noDocuments]) | Some a \<Rightarrow> Ok a, c)"
  using find_by_key [OF assms(1) matches_url] assms(2)
  by (auto simp: mongo_AutoImportConfig_def unique_urls_def import_map_def split: option.splits)

lemma mongo_SaveAutoImportConfig_map:
  assumes ok: "import_coll_ok re contents K" and uniq: "unique_urls (contents c)"
  shows "\<exists>c'. mongo_SaveAutoImportConfig K a c = (Ok (), c') \<and> unique_urls (contents c') \<and>
    import_map (contents c') = (import_map (contents c))(ai_PolicyURL a \<mapsto> import_ms a)"
proof -
  let ?f = "[(''policyURL'', Eq (BStr (ai_PolicyURL a)))]"
  let ?u = "[(''interval'', BDur (ai_Interval a)), (''nextImport'', BTime (ai_NextImport a))]"
  obtain c' where c': "mongo_SaveAutoImportConfig K a c = (Ok (), c')"
    "updated re ai_get ai_put ai_mk True ?f ?u (contents c) (contents c')"
    unfolding mongo_SaveAutoImportConfig_def by (rule coll_ok_UpdateOne [OF ok])
  have put: "snd (apply_set ai_put ?u e) = import_ms a" if "import_url e = ai_PolicyURL a" for e
    using that by (cases e) (simp add: import_url_def import_ms_def)
  have keep: "import_url (apply_set ai_put ?u e) = ai_PolicyURL a" if "import_url e = ai_PolicyURL a" for e
    using put [OF that] by (simp add: import_url_def import_ms_def)
  have new: "import_url (apply_set ai_put (equalities ?f) (ai_mk oid)) = ai_PolicyURL a" for oid
    by (simp add: ai_mk_def import_url_def)
  note eff = updated_by_key [OF c'(2) matches_url uniq [unfolded unique_urls_def] keep new]
  obtain e where e: "by_key import_url (contents c') = (by_key import_url (contents c))(ai_PolicyURL a \<mapsto> e)"
    "snd e = import_ms a"
  proof (cases "by_key import_url (contents c) (ai_PolicyURL a)")
    case None
    then obtain oid where "by_key import_url (contents c') = (by_key import_url (contents c))
        (ai_PolicyURL a \<mapsto> apply_set ai_put ?u (apply_set ai_put (equalities ?f) (ai_mk oid)))"
      using eff by (simp only: if_True option.case) blast
    then show ?thesis using that put [OF new] by blast
  next
    case (Some d)
    then have "by_key import_url (contents c') = (by_key import_url (contents c))(ai_PolicyURL a \<mapsto> apply_set ai_put ?u d)"
      using eff by (simp only: option.case)
    then show ?thesis using that put [OF by_key_key [OF Some]] by blast
  qed
  have "import_map (contents c') = (import_map (contents c))(ai_PolicyURL a \<mapsto> import_ms a)"
    by (simp add: import_map_def fun_eq_iff e)
  then show ?thesis using c'(1) eff by (simp only: unique_urls_def) blast
qed

lemma mongo_DeleteAutoImportConfig_map:
  assumes ok: "import_coll_ok re contents K" and uniq: "unique_urls (contents c)"
  shows "\<exists>c'. mongo_DeleteAutoImportConfig K u c =
      (case import_map (contents c) u of None \<Rightarrow> Err (errors_New [AKind NotFound]) | Some a \<Rightarrow> Ok (), c') \<and>
    unique_urls (contents c') \<and> import_map (contents c') = (import_map (contents c))(u := None)"
proof -
  obtain c' where c': "co_DeleteOne K [(''policyURL'', Eq (BStr u))] c =
      (Ok (if by_key import_url (contents c) u = None then 0 else 1), c')"
    "distinct (map import_url (contents c'))" "by_key import_url (contents c') = (by_key import_url (contents c))(u := None)"
    using delete_by_key [OF ok matches_url uniq [unfolded unique_urls_def]] by blast
  have "import_map (contents c') = (import_map (contents c))(u := None)"
    by (simp add: import_map_def fun_eq_iff c'(3))
  then show ?thesis
    using c'(1,2)
    by (cases "by_key import_url (contents c) u")
      (simp_all add: mongo_DeleteAutoImportConfig_def unique_urls_def import_map_def)
qed

lemma mongo_autoimport_store:
  assumes ok: "import_coll_ok re contents K"
  shows "autoimport_store (mongo_SaveAutoImportConfig K) (mongo_AutoImportConfig K) (mongo_DeleteAutoImportConfig K)
    (\<lambda>c. import_map (contents c)) (\<lambda>c. unique_urls (contents c)) import_ms"
proof unfold_locales
  fix c a
  assume "unique_urls (contents c)"
  then show "\<exists>c'. mongo_SaveAutoImportConfig K a c = (Ok (), c') \<and> unique_urls (contents c') \<and>
      import_map (contents c') = (import_map (contents c))(ai_PolicyURL a \<mapsto> import_ms a)"
    by (rule mongo_SaveAutoImportConfig_map [OF ok])
next
  fix c u a
  assume "unique_urls (contents c)" "import_map (contents c) u = Some a"
  then show "\<exists>c'. mongo_DeleteAutoImportConfig K u c = (Ok (), c') \<and> unique_urls (contents c') \<and>
      import_map (contents c') = (import_map (contents c))(u := None)"
    using mongo_DeleteAutoImportConfig_map [OF ok, of c u] by simp
qed (simp_all add: mongo_AutoImportConfig_map [OF ok] noDocuments_def)

section \<open>The schedule\<close>

definition import_due :: "time \<Rightarrow> autoimport \<Rightarrow> bool" where
  "import_due now a \<longleftrightarrow> ai_NextImport a \<le> now"

definition next_import :: "time \<Rightarrow> autoimport \<Rightarrow> autoimport" where
  "next_import now a = a\<lparr>ai_NextImport := bson_ms (now + ai_Interval a)\<rparr>"

lemma matches_import_id [simp]: "matches re ai_get [(''_id'', Eq (BId i))] d \<longleftrightarrow> fst d = i"
  by (cases d) (auto simp: matches_def)

lemma mongo_updateNextInterval_map:
  assumes ok: "import_coll_ok re contents K" and ids: "distinct (map fst (contents c))" and d: "d \<in> set (contents c)"
  shows "\<exists>c'. mongo_updateNextInterval K now d c = (Ok (), c') \<and>
    contents c' = map (\<lambda>e. if e = d then (fst e, next_import now (snd e)) else e) (contents c)"
proof -
  obtain c' where c': "mongo_updateNextInterval K now d c = (Ok (), c')"
    "updated re ai_get ai_put ai_mk False [(''_id'', Eq (BId (fst d)))]
      [(''nextImport'', BTime (now + ai_Interval (snd d)))] (contents c) (contents c')"
    unfolding mongo_updateNextInterval_def by (rule coll_ok_UpdateOne [OF ok])
  have id: "fst e = fst d \<longleftrightarrow> e = d" if "e \<in> set (contents c)" for e
    using ids d that by (auto simp: distinct_map inj_on_def)
  have "contents c' = map (\<lambda>e. if e = d then (fst e, next_import now (snd e)) else e) (contents c)"
    unfolding updated_map [OF c'(2) matches_import_id ids]
    using id by (cases d) (auto simp: next_import_def intro!: map_cong)
  then show ?thesis using c'(1) by blast
qed

lemma mongo_reschedule_map:
  assumes ok: "import_coll_ok re contents K"
  shows "distinct (map fst (contents c)) \<Longrightarrow> set ds \<subseteq> set (contents c) \<Longrightarrow> distinct ds \<Longrightarrow>
    \<exists>c'. mongo_reschedule K now ds c = (Ok (), c') \<and>
      contents c' = map (\<lambda>e. if e \<in> set ds then (fst e, next_import now (snd e)) else e) (contents c)"
proof (induction ds arbitrary: c)
  case (Cons d ds)
  let ?upd = "\<lambda>e. (fst e, next_import now (snd e))"
  let ?one = "\<lambda>e. if e = d then ?upd e else e"
  obtain c1 where c1: "mongo_updateNextInterval K now d c = (Ok (), c1)" "contents c1 = map ?one (contents c)"
    using mongo_updateNextInterval_map [OF ok Cons.prems(1), of d now] Cons.prems(2) by auto
  have id: "fst e = fst e' \<longleftrightarrow> e = e'" if "e \<in> set (contents c)" "e' \<in> set (contents c)" for e e'
    using Cons.prems(1) that by (auto simp: distinct_map inj_on_def)
  have "map fst (contents c1) = map fst (contents c)" by (simp add: c1(2))
  moreover have "set ds \<subseteq> set (contents c1)" using Cons.prems(2,3) by (auto simp: c1(2) image_iff)
  ultimately obtain c' where c': "mongo_reschedule K now ds c1 = (Ok (), c')"
    "contents c' = map (\<lambda>e. if e \<in> set ds then ?upd e else e) (contents c1)"
    using Cons.IH [of c1] Cons.prems(1,3) by auto
  have "?upd d \<notin> set ds"
    using id Cons.prems(2,3) by (metis distinct.simps(2) fst_conv insert_subset list.simps(15) subset_code(1))
  then have "contents c' = map (\<lambda>e. if e \<in> set (d # ds) then ?upd e else e) (contents c)"
    unfolding c'(2) c1(2) using Cons.prems(3) by (auto intro!: map_cong)
  then show ?case using c1(1) c'(1) by auto
qed (auto intro: map_idI [symmetric])

text \<open>Exactly the due configurations are handed out, and their next import is moved by their interval.\<close>

lemma mongo_active_configs:
  assumes ok: "import_coll_ok re contents K" and tx: "tx_start T = None" "tx_commit T = None"
    and ids: "distinct (map fst (contents c))"
  shows "\<exists>as c'. mongo_ActiveImportConfigs T K now c = (Ok as, c') \<and>
    mset as = filter_mset (import_due now) (mset (map snd (contents c))) \<and>
    contents c' = map (\<lambda>d. if import_due now (snd d) then (fst d, next_import now (snd d)) else d) (contents c)"
proof -
  let ?f = "[(''nextImport'', Upto now)]"
  have m: "matches re ai_get ?f = (\<lambda>d. import_due now (snd d))"
    by (auto simp: matches_def fun_eq_iff import_due_def)
  obtain ds where find: "co_Find K ?f c = Ok ds"
    "mset ds = filter_mset (matches re ai_get ?f) (mset (contents c))"
    by (rule coll_ok_Find [OF ok])
  note ds = find(1) find(2) [unfolded m]
  have set: "set ds = {d \<in> set (contents c). import_due now (snd d)}"
    using ds(2) by (metis set_mset_filter set_mset_mset)
  have "distinct (contents c)" using ids by (simp add: distinct_map)
  moreover have "mset ds = mset (filter (\<lambda>d. import_due now (snd d)) (contents c))" using ds(2) by simp
  ultimately have "distinct ds" by (metis distinct_filter mset_eq_imp_distinct_iff)
  then obtain c' where c': "mongo_reschedule K now ds c = (Ok (), c')"
    "contents c' = map (\<lambda>e. if e \<in> set ds then (fst e, next_import now (snd e)) else e) (contents c)"
    using mongo_reschedule_map [OF ok ids, of ds] set by auto
  have "contents c' = map (\<lambda>d. if import_due now (snd d) then (fst d, next_import now (snd d)) else d) (contents c)"
    unfolding c'(2) using set by (intro map_cong) auto
  moreover have "mongo_ActiveImportConfigs T K now c = (Ok (map snd ds), c')"
    using ds(1) c'(1) tx by (simp add: mongo_ActiveImportConfigs_def mongo_Transaction_def sbind_def swrap_def sret_def)
  moreover have "mset (map snd ds) = filter_mset (import_due now) (mset (map snd (contents c)))"
    using ds(2) by (simp add: image_mset_filter_mset_swap)
  ultimately show ?thesis by blast
qed

end
