(* ===== verification/Mongo_Service.thy ===== *)
theory Mongo_Service
  imports Mongo_Stores Auto_Import Refresher
begin

text \<open>
  The MongoDB storage as a whole (\<^verbatim>\<open>mongodb.Storage\<close>): its constructor, its four collections behind the
  interface of the service, and the listener that feeds the change stream to the subscribers.  Then what a
  tick of the two background loops, the refresher and the importer, does to such a database.
\<close>

section \<open>The storage\<close>

text \<open>The states of the collections of a database, and the driver's handles to them by name.\<close>

record ('p, 's, 'd, 'a) mongo_db =
  db_policies :: 'p
  db_subscribers :: 's
  db_common :: 'd
  db_imports :: 'a

record ('p, 's, 'd, 'a) database =
  policy_collection :: "string \<Rightarrow> ('p, policy) coll"
  subscriber_collection :: "string \<Rightarrow> ('s, nat \<times> subscriber) coll"
  common_collection :: "string \<Rightarrow> ('d, common) coll"
  import_collection :: "string \<Rightarrow> ('a, nat \<times> autoimport) coll"

record ('p, 's, 'd, 'a, 'w) mongo_storage =
  ms_policy :: "('p, policy) coll"
  ms_subscriber :: "('s, nat \<times> subscriber) coll"
  ms_commonStorage :: "('d, common) coll"
  ms_autoImport :: "('a, nat \<times> autoimport) coll"
  ms_subscribers :: "'w policy_subscriber list"

definition mongo_New ::
  "goerror option \<Rightarrow> (string \<Rightarrow> ('p, 's, 'd, 'a) database) \<Rightarrow> string \<Rightarrow> string \<Rightarrow>
   ('p, 's, 'd, 'a, 'w) mongo_storage outcome" where
  "mongo_New ping Database dbname collection =
     (case ping of
        Some e \<Rightarrow> Err e
      | None \<Rightarrow>
          Ok \<lparr>ms_policy = policy_collection (Database dbname) collection,
              ms_subscriber = subscriber_collection (Database dbname) ''subscribers'',
              ms_commonStorage = common_collection (Database dbname) ''common_storage'',
              ms_autoImport = import_collection (Database dbname) ''policy_auto_import'',
              ms_subscribers = []\<rparr>)"

text \<open>The subscribers are replaced, not extended.\<close>

definition mongo_AddPolicySubscribers ::
  "'w policy_subscriber list \<Rightarrow> ('p, 's, 'd, 'a, 'w) mongo_storage \<Rightarrow> ('p, 's, 'd, 'a, 'w) mongo_storage" where
  "mongo_AddPolicySubscribers fs M = M\<lparr>ms_subscribers := fs\<rparr>"

subsection \<open>The change stream\<close>

text \<open>
  \<open>watch\<close> is the error of opening the stream, \<open>events\<close> what \<^verbatim>\<open>stream.Decode\<close> gives for each change, and \<open>last_error\<close>
  the error with which the stream ends.
\<close>

fun mongo_stream_loop ::
  "'w policy_subscriber list \<Rightarrow> policy outcome list \<Rightarrow> goerror option \<Rightarrow> 'w \<Rightarrow> unit outcome \<times> 'w" where
  "mongo_stream_loop fs [] None w = (Ok (), w)"
| "mongo_stream_loop fs [] (Some e) w = (Err e, w)"
| "mongo_stream_loop fs (Ok p # events) last_error w = mongo_stream_loop fs events last_error (mongo_notify fs p w)"
| "mongo_stream_loop fs (Err e # events) last_error w = (Err e, w)"
| "mongo_stream_loop fs (Panic t # events) last_error w = (Panic t, w)"
| "mongo_stream_loop fs (Blocked # events) last_error w = (Blocked, w)"

definition mongo_ListenPolicyDataChanges ::
  "('p, 's, 'd, 'a, 'w) mongo_storage \<Rightarrow> goerror option \<Rightarrow> policy outcome list \<Rightarrow> goerror option \<Rightarrow> 'w \<Rightarrow>
   unit outcome \<times> 'w" where
  "mongo_ListenPolicyDataChanges M watch events last_error w =
     (case watch of
        Some e \<Rightarrow> (Err (wrap_msg ''cannot subscribe for policy data changes'' e), w)
      | None \<Rightarrow> mongo_stream_loop (ms_subscribers M) events last_error w)"

subsection \<open>The interface of the service\<close>

definition on_policies ::
  "('p \<Rightarrow> 'r outcome \<times> 'p) \<Rightarrow> ('p, 's, 'd, 'a) mongo_db \<Rightarrow> 'r outcome \<times> ('p, 's, 'd, 'a) mongo_db" where
  "on_policies f db = (let (r, c) = f (db_policies db) in (r, db\<lparr>db_policies := c\<rparr>))"

definition on_subscribers ::
  "('s \<Rightarrow> 'r outcome \<times> 's) \<Rightarrow> ('p, 's, 'd, 'a) mongo_db \<Rightarrow> 'r outcome \<times> ('p, 's, 'd, 'a) mongo_db" where
  "on_subscribers f db = (let (r, c) = f (db_subscribers db) in (r, db\<lparr>db_subscribers := c\<rparr>))"

definition on_common ::
  "('d \<Rightarrow> 'r outcome \<times> 'd) \<Rightarrow> ('p, 's, 'd, 'a) mongo_db \<Rightarrow> 'r outcome \<times> ('p, 's, 'd, 'a) mongo_db" where
  "on_common f db = (let (r, c) = f (db_common db) in (r, db\<lparr>db_common := c\<rparr>))"

definition on_imports ::
  "('a \<Rightarrow> 'r outcome \<times> 'a) \<Rightarrow> ('p, 's, 'd, 'a) mongo_db \<Rightarrow> 'r outcome \<times> ('p, 's, 'd, 'a) mongo_db" where
  "on_imports f db = (let (r, c) = f (db_imports db) in (r, db\<lparr>db_imports := c\<rparr>))"

text \<open>\<open>T\<close> is how transactions start and commit, \<open>oid\<close> the next identifier, \<open>now\<close> the reading of the clock.\<close>

definition mongo_ops ::
  "('p, 's, 'd, 'a, 'w) mongo_storage \<Rightarrow> transaction \<Rightarrow> nat \<Rightarrow> time \<Rightarrow> ('p, 's, 'd, 'a) mongo_db storage_ops" where
  "mongo_ops M T oid now =
     \<lparr>op_Policy = (\<lambda>i. on_policies (mongo_Policy (ms_policy M) i)),
      op_SavePolicy = (\<lambda>p. on_policies (mongo_SavePolicy (ms_policy M) now p)),
      op_SetPolicyLock = (\<lambda>i b. on_policies (mongo_SetPolicyLock (ms_policy M) now i b)),
      op_GetPolicies = (\<lambda>locked name. on_policies (mongo_GetPolicies (ms_policy M) locked name)),
      op_Subscriber = (\<lambda>i url name. on_subscribers (mongo_Subscriber (ms_subscriber M) i url name)),
      op_CreateSubscriber = (\<lambda>b. on_subscribers (mongo_CreateSubscriber (ms_subscriber M) oid now b)),
      op_GetData = (\<lambda>k. on_common (mongo_GetData (ms_commonStorage M) k)),
      op_SetData = (\<lambda>k d. on_common (mongo_SetData (ms_commonStorage M) k d)),
      op_DeleteData = (\<lambda>k. on_common (mongo_DeleteData (ms_commonStorage M) k)),
      op_SaveAutoImportConfig = (\<lambda>a. on_imports (mongo_SaveAutoImportConfig (ms_autoImport M) a)),
      op_AutoImportConfig = (\<lambda>u. on_imports (mongo_AutoImportConfig (ms_autoImport M) u)),
      op_AutoImportConfigs = on_imports (mongo_AutoImportConfigs (ms_autoImport M)),
      op_DeleteAutoImportConfig = (\<lambda>u. on_imports (mongo_DeleteAutoImportConfig (ms_autoImport M) u)),
      op_ActiveImportConfigs = on_imports (mongo_ActiveImportConfigs T (ms_autoImport M) now)\<rparr>"

definition mongo_refresh_storage ::
  "('p, 's, 'd, 'a, 'w) mongo_storage \<Rightarrow> transaction \<Rightarrow> time \<Rightarrow> ('p, 's, 'd, 'a) mongo_db refresh_storage" where
  "mongo_refresh_storage M T now =
     \<lparr>rf_GetRefreshPolicies = on_policies (mongo_GetRefreshPolicies T (ms_policy M) now),
      rf_UpdateNextRefreshTime = (\<lambda>p t. on_policies (mongo_UpdateNextRefreshTime (ms_policy M) p t))\<rparr>"

lemma on_policies_eq: "f (db_policies db) = (r, c) \<Longrightarrow> on_policies f db = (r, db\<lparr>db_policies := c\<rparr>)"
  by (simp add: on_policies_def)

lemma on_policies_same [simp]: "f (db_policies db) = (r, db_policies db) \<Longrightarrow> on_policies f db = (r, db)"
  by (simp add: on_policies_def)

lemma on_imports_eq: "f (db_imports db) = (r, c) \<Longrightarrow> on_imports f db = (r, db\<lparr>db_imports := c\<rparr>)"
  by (simp add: on_imports_def)

text \<open>What the service needs of its policies holds for the whole database.\<close>

lemma mongo_ops_policy_store:
  assumes ok: "policy_coll_ok re contents (ms_policy M)"
  shows "policy_store (op_Policy (mongo_ops M T oid now)) (op_SavePolicy (mongo_ops M T oid now))
    (op_SetPolicyLock (mongo_ops M T oid now)) (\<lambda>db. dir (contents (db_policies db))) (\<lambda>i. True)
    (\<lambda>db. unique_pids (contents (db_policies db)))"
proof -
  note store = mongo_policy_store [OF ok, of now]
  show ?thesis
  proof unfold_locales
    fix db :: "('a, 'b, 'c, 'd) mongo_db" and i p b
    assume inv: "unique_pids (contents (db_policies db))" and found: "dir (contents (db_policies db)) i = Some p"
    show "op_Policy (mongo_ops M T oid now) i db = (Ok p, db)"
      using policy_store.get_found [OF store inv TrueI found] by (simp add: mongo_ops_def)
    show "pid_of p = i" by (rule dir_pid [OF found])
    obtain c' t where c': "mongo_SetPolicyLock (ms_policy M) now i b (db_policies db) = (Ok (), c')"
      "unique_pids (contents c')" "dir (contents c') i = Some (p\<lparr>p_Locked := b, p_LastUpdate := t\<rparr>)"
      "\<forall>j. True \<longrightarrow> j \<noteq> i \<longrightarrow> dir (contents c') j = dir (contents (db_policies db)) j"
      using policy_store.set_lock_found [OF store inv TrueI found, of b] by blast
    then show "\<exists>db' t. op_SetPolicyLock (mongo_ops M T oid now) i b db = (Ok (), db') \<and>
        unique_pids (contents (db_policies db')) \<and>
        dir (contents (db_policies db')) i = Some (p\<lparr>p_Locked := b, p_LastUpdate := t\<rparr>) \<and>
        (\<forall>j. True \<longrightarrow> j \<noteq> i \<longrightarrow> dir (contents (db_policies db')) j = dir (contents (db_policies db)) j)"
      by (intro exI [of _ "db\<lparr>db_policies := c'\<rparr>"] exI [of _ t]) (simp add: mongo_ops_def on_policies_eq)
  next
    fix db :: "('a, 'b, 'c, 'd) mongo_db" and i
    assume "unique_pids (contents (db_policies db))" "dir (contents (db_policies db)) i = None"
    then obtain e where "mongo_Policy (ms_policy M) i (db_policies db) = (Err e, db_policies db)" "errors_Is NotFound e"
      using policy_store.get_missing [OF store _ TrueI] by blast
    then show "\<exists>e. op_Policy (mongo_ops M T oid now) i db = (Err e, db) \<and> errors_Is NotFound e"
      by (simp add: mongo_ops_def)
  next
    fix db :: "('a, 'b, 'c, 'd) mongo_db" and p
    assume inv: "unique_pids (contents (db_policies db))"
    obtain c' q where c': "mongo_SavePolicy (ms_policy M) now p (db_policies db) = (Ok (), c')"
      "unique_pids (contents c')" "dir (contents c') (pid_of p) = Some q" "evaluation_view q = evaluation_view p"
      "\<forall>j. True \<longrightarrow> j \<noteq> pid_of p \<longrightarrow> dir (contents c') j = dir (contents (db_policies db)) j"
      using policy_store.save_stores [OF store inv TrueI, of p] by blast
    then show "\<exists>db' q. op_SavePolicy (mongo_ops M T oid now) p db = (Ok (), db') \<and>
        unique_pids (contents (db_policies db')) \<and> dir (contents (db_policies db')) (pid_of p) = Some q \<and>
        evaluation_view q = evaluation_view p \<and>
        (\<forall>j. True \<longrightarrow> j \<noteq> pid_of p \<longrightarrow> dir (contents (db_policies db')) j = dir (contents (db_policies db)) j)"
      by (intro exI [of _ "db\<lparr>db_policies := c'\<rparr>"] exI [of _ q]) (simp add: mongo_ops_def on_policies_eq)
  qed
qed

end
