(* ===== verification/Mongo_Ticks.thy ===== *)
theory Mongo_Ticks
  imports Mongo_Service
begin

text \<open>
  One tick of the data refresher and of the automatic importer over a MongoDB storage, as functions of the
  documents in the database.
\<close>

section \<open>The refresher\<close>

definition refresh_due :: "time \<Rightarrow> policy \<Rightarrow> bool" where
  "refresh_due now p \<longleftrightarrow> zero_time < p_NextDataRefreshTime p \<and> p_NextDataRefreshTime p \<le> now"

definition postponed_ms :: "time \<Rightarrow> policy \<Rightarrow> policy" where
  "postponed_ms now p = p\<lparr>p_NextDataRefreshTime := bson_ms (now + RefreshPostponePeriod)\<rparr>"

text \<open>
  What a tick makes of a policy that is due, when the servers answer \<open>ans rq\<close> to a request: without a usable
  configuration it is never refreshed again; otherwise the next refresh is one period later, and the data
  is the body of a complete answer with status 200.
\<close>

definition refreshed ::
  "'u refresh_lib \<Rightarrow> net \<Rightarrow> (request \<Rightarrow> response outcome) \<Rightarrow> time \<Rightarrow> policy \<Rightarrow> policy" where
  "refreshed L n ans now p =
     (case usable_config L n p of
        None \<Rightarrow> p\<lparr>p_NextDataRefreshTime := zero_time\<rparr>
      | Some (config, rq) \<Rightarrow>
          (case ans rq of
             Ok resp \<Rightarrow>
               if rs_StatusCode resp = 200 \<and> rs_ReadErr resp = None then
                 p\<lparr>p_NextDataRefreshTime := bson_ms (now + dc_Period config), p_Data := rs_Body resp\<rparr>
               else p\<lparr>p_NextDataRefreshTime := bson_ms (now + dc_Period config)\<rparr>
           | _ \<Rightarrow> p\<lparr>p_NextDataRefreshTime := bson_ms (now + dc_Period config)\<rparr>))"

text \<open>Servers whose answer depends on the request only.\<close>

definition steady :: "net \<Rightarrow> (request \<Rightarrow> response outcome) \<Rightarrow> bool" where
  "steady n ans \<longleftrightarrow> (\<forall>h rq. respond n h rq = ans rq) \<and> (\<forall>rq. returns (ans rq))"

lemma bson_ms_zero [simp]: "bson_ms zero_time = zero_time"
  by (simp add: bson_ms_def)

lemma refreshed_id [simp]: "p_MongoID (refreshed L n ans now p) = p_MongoID p"
  by (auto simp: refreshed_def split: option.splits outcome.splits)

lemma matches_mongo_id [simp]: "matches re policy_get [(''_id'', Eq (BId i))] p \<longleftrightarrow> p_MongoID p = i"
  by (auto simp: matches_def)

text \<open>An execution calls \<^verbatim>\<open>UpdateNextRefreshTime\<close> once, with a policy that differs in its data only.\<close>

lemma refresh_Execute_call:
  assumes lib: "total_lib L" and net: "steady n ans"
  shows "\<exists>t d w1. refresh_Execute L n R now p w = set_next_refresh R (p\<lparr>p_Data := d\<rparr>) t w1 \<and> w_store w1 = w_store w \<and>
    w_cache w1 = w_cache w \<and> refreshed L n ans now p = p\<lparr>p_NextDataRefreshTime := bson_ms t, p_Data := d\<rparr>"
proof (cases "usable_config L n p")
  case None
  then show ?thesis
    using Execute_unusable [OF lib None, of R now w]
    by (intro exI [of _ zero_time] exI [of _ "p_Data p"] exI [of _ w]) (simp add: refreshed_def)
next
  case (Some cr)
  obtain config rq where cr: "cr = (config, rq)" by (cases cr)
  note usable = Some [unfolded cr]
  have ans: "respond n (w_http w) rq = ans rq" "returns (ans rq)" using net by (simp_all add: steady_def)
  let ?w1 = "w\<lparr>w_http := w_http w @ [rq]\<rparr>"
  show ?thesis
  proof (cases "refresh_failed (ans rq)")
    case True
    then have "refreshed L n ans now p = p\<lparr>p_NextDataRefreshTime := bson_ms (now + dc_Period config)\<rparr>"
      using usable by (auto simp: refreshed_def refresh_failed_def split: outcome.splits)
    then show ?thesis
      using Execute_failed [OF usable, of w R now] True ans(1)
      by (intro exI [of _ "now + dc_Period config"] exI [of _ "p_Data p"] exI [of _ ?w1]) simp
  next
    case False
    then obtain resp where r: "ans rq = Ok resp" "rs_StatusCode resp = 200" "rs_ReadErr resp = None"
      using ans(2) by (cases "ans rq") (auto simp: refresh_failed_def)
    have read: "io_ReadAll resp = Ok (rs_Body resp)" using r(3) by (simp add: io_ReadAll_def)
    have "refreshed L n ans now p =
        p\<lparr>p_NextDataRefreshTime := bson_ms (now + dc_Period config), p_Data := rs_Body resp\<rparr>"
      using usable r by (simp add: refreshed_def)
    then show ?thesis
      using Execute_usable [OF usable ans(1) [unfolded r(1)] r(2) read, of R now]
      by (intro exI [of _ "now + dc_Period config"] exI [of _ "rs_Body resp"] exI [of _ ?w1]) simp
  qed
qed

lemma mongo_set_next_refresh:
  assumes ok: "policy_coll_ok re contents (ms_policy M)"
    and ids: "distinct (map p_MongoID (contents (db_policies (w_store w))))"
  shows "\<exists>c. set_next_refresh (mongo_refresh_storage M T clk) p t w =
      (Ok (), w\<lparr>w_store := w_store w\<lparr>db_policies := c\<rparr>\<rparr>) \<and>
    contents c = map (\<lambda>e. if p_MongoID e = p_MongoID p
      then e\<lparr>p_NextDataRefreshTime := bson_ms t, p_Data := p_Data p\<rparr> else e) (contents (db_policies (w_store w)))"
proof -
  obtain c where c: "mongo_UpdateNextRefreshTime (ms_policy M) p t (db_policies (w_store w)) = (Ok (), c)"
    "updated re policy_get policy_put policy_mk False [(''_id'', Eq (BId (p_MongoID p)))]
      [(''nextDataRefreshTime'', BTime t), (''data'', BStr (p_Data p))] (contents (db_policies (w_store w))) (contents c)"
    unfolding mongo_UpdateNextRefreshTime_def by (rule coll_ok_UpdateOne [OF ok])
  have "contents c = map (\<lambda>e. if p_MongoID e = p_MongoID p
      then e\<lparr>p_NextDataRefreshTime := bson_ms t, p_Data := p_Data p\<rparr> else e) (contents (db_policies (w_store w)))"
    using updated_map [OF c(2) matches_mongo_id ids] by simp
  then show ?thesis
    using c(1) by (intro exI [of _ c]) (simp add: set_next_refresh_def mongo_refresh_storage_def on_store_eq on_policies_eq)
qed

text \<open>The documents while the tick is running: \<open>D\<close> are the policies it has dealt with.\<close>

definition tick_policies ::
  "'u refresh_lib \<Rightarrow> net \<Rightarrow> (request \<Rightarrow> response outcome) \<Rightarrow> time \<Rightarrow> policy list \<Rightarrow> policy set \<Rightarrow> policy list" where
  "tick_policies L n ans now ps D =
     map (\<lambda>p. if p \<in> D then refreshed L n ans now p else if refresh_due now p then postponed_ms now p else p) ps"

lemma tick_policies_ids [simp]: "map p_MongoID (tick_policies L n ans now ps D) = map p_MongoID ps"
  by (simp add: tick_policies_def postponed_ms_def)

lemma mongo_refresh_all:
  assumes ok: "policy_coll_ok re contents (ms_policy M)" and lib: "total_lib L" and net: "steady n ans"
    and ids: "distinct (map p_MongoID ps)"
  shows "contents (db_policies (w_store w)) = tick_policies L n ans now ps D \<Longrightarrow> distinct ds \<Longrightarrow>
    set ds \<subseteq> {p \<in> set ps. refresh_due now p} - D \<Longrightarrow>
    \<exists>w' c. refresh_all L n (mongo_refresh_storage M T clk) now ds w = (Ok (), w') \<and>
      contents c = tick_policies L n ans now ps (D \<union> set ds) \<and>
      w_store w' = w_store w\<lparr>db_policies := c\<rparr> \<and> w_cache w' = w_cache w"
proof (induction ds arbitrary: w D)
  case Nil
  then show ?case by (intro exI [of _ w] exI [of _ "db_policies (w_store w)"]) simp
next
  case (Cons p ds)
  let ?R = "mongo_refresh_storage M T clk"
  have p: "p \<in> set ps" "refresh_due now p" "p \<notin> D" using Cons.prems(3) by auto
  obtain t d w1 where exec: "refresh_Execute L n ?R now p w = set_next_refresh ?R (p\<lparr>p_Data := d\<rparr>) t w1"
    "w_store w1 = w_store w" "w_cache w1 = w_cache w"
    "refreshed L n ans now p = p\<lparr>p_NextDataRefreshTime := bson_ms t, p_Data := d\<rparr>"
    using refresh_Execute_call [OF lib net] by blast
  have ids1: "distinct (map p_MongoID (contents (db_policies (w_store w1))))"
    using ids by (simp only: exec(2) Cons.prems(1) tick_policies_ids)
  obtain c1 where c1: "set_next_refresh ?R (p\<lparr>p_Data := d\<rparr>) t w1 = (Ok (), w1\<lparr>w_store := w_store w1\<lparr>db_policies := c1\<rparr>\<rparr>)"
    "contents c1 = map (\<lambda>e. if p_MongoID e = p_MongoID p
      then e\<lparr>p_NextDataRefreshTime := bson_ms t, p_Data := d\<rparr> else e) (tick_policies L n ans now ps D)"
    using mongo_set_next_refresh [OF ok ids1, of T clk "p\<lparr>p_Data := d\<rparr>" t] by (auto simp: exec(2) Cons.prems(1))
  have id: "p_MongoID e = p_MongoID p \<longleftrightarrow> e = p" if "e \<in> set ps" for e
    using ids p(1) that by (auto simp: distinct_map inj_on_def)
  have "contents c1 = tick_policies L n ans now ps (insert p D)"
    unfolding c1(2) tick_policies_def map_map
    using id p(2,3) exec(4) by (intro map_cong refl) (auto simp: postponed_ms_def)
  moreover have "set ds \<subseteq> {p \<in> set ps. refresh_due now p} - insert p D" using Cons.prems(2,3) by auto
  ultimately obtain w' c where w': "refresh_all L n ?R now ds (w1\<lparr>w_store := w_store w1\<lparr>db_policies := c1\<rparr>\<rparr>) = (Ok (), w')"
    "contents c = tick_policies L n ans now ps (insert p D \<union> set ds)"
    "w_store w' = w_store w1\<lparr>db_policies := c\<rparr>" "w_cache w' = w_cache w1"
    using Cons.IH [of "w1\<lparr>w_store := w_store w1\<lparr>db_policies := c1\<rparr>\<rparr>" "insert p D"] Cons.prems(2) by auto
  have "refresh_all L n ?R now (p # ds) w = (Ok (), w')" using exec(1) c1(1) w'(1) by simp
  then show ?case using w'(2-4) exec(2,3) by (intro exI [of _ w'] exI [of _ c]) simp
qed

lemma refresh_tick_mongo:
  assumes ok: "policy_coll_ok re contents (ms_policy M)" and tx: "tx_start T = None" "tx_commit T = None"
    and lib: "total_lib L" and net: "steady n ans"
    and ids: "distinct (map p_MongoID (contents (db_policies (w_store w))))"
  shows "\<exists>w' c. refresh_tick L n (mongo_refresh_storage M T now) now w = (Ok (), w') \<and>
    contents c = map (\<lambda>p. if refresh_due now p then refreshed L n ans now p else p) (contents (db_policies (w_store w))) \<and>
    w_store w' = w_store w\<lparr>db_policies := c\<rparr> \<and> w_cache w' = w_cache w"
proof -
  let ?K = "ms_policy M" and ?c = "db_policies (w_store w)" and ?R = "mongo_refresh_storage M T now"
  let ?ps = "contents ?c"
  have final: "tick_policies L n ans now ?ps {p \<in> set ?ps. refresh_due now p} =
      map (\<lambda>p. if refresh_due now p then refreshed L n ans now p else p) ?ps"
    by (simp add: tick_policies_def)
  obtain ps c1 where find: "co_Find ?K [(''nextDataRefreshTime'', Later_upto zero_time now)] ?c = Ok ps"
    "mset ps = filter_mset (matches re policy_get [(''nextDataRefreshTime'', Later_upto zero_time now)]) (mset ?ps)"
    by (rule coll_ok_Find [OF ok])
  have m: "matches re policy_get [(''nextDataRefreshTime'', Later_upto zero_time now)] = refresh_due now"
    by (auto simp: matches_def fun_eq_iff refresh_due_def)
  have set: "set ps = {p \<in> set ?ps. refresh_due now p}"
    using find(2) by (metis m set_mset_filter set_mset_mset)
  show ?thesis
  proof (cases "ps = []")
    case True
    then have "mongo_GetRefreshPolicies T ?K now ?c =
        (Err (wrap_msg ''failed executing transaction'' (errors_New [AKind NotFound, AStr ''policies for data refresh not found''])), ?c)"
      using find(1) tx by (simp add: mongo_GetRefreshPolicies_def mongo_Transaction_def swrap_def sbind_def sret_def)
    then have "refresh_tick L n ?R now w = (Ok (), w)"
      by (simp add: refresh_tick_def mongo_refresh_storage_def on_store_eq on_policies_eq)
    moreover have "map (\<lambda>p. if refresh_due now p then refreshed L n ans now p else p) ?ps = ?ps"
      using set True by (auto intro!: map_idI)
    ultimately show ?thesis by (intro exI [of _ w] exI [of _ ?c]) simp
  next
    case False
    obtain c' where c': "mongo_postponeRefresh ?K now ps ?c = (Ok (), c')"
      unfolding mongo_postponeRefresh_def using coll_ok_UpdateMany [OF ok] by blast
    have got: "mongo_GetRefreshPolicies T ?K now ?c = (Ok ps, c')"
      using find(1) c' tx False by (simp add: mongo_GetRefreshPolicies_def mongo_Transaction_def swrap_def sbind_def sret_def)
    have "contents c' = tick_policies L n ans now ?ps {}"
      using mongo_refresh_round [OF ok tx ids got] by (simp add: tick_policies_def refresh_due_def postponed_ms_def)
    moreover have "distinct ps"
    proof -
      have "mset ps = mset (filter (refresh_due now) ?ps)" using find(2) m by simp
      moreover have "distinct ?ps" using ids by (simp add: distinct_map)
      ultimately show ?thesis by (metis distinct_filter mset_eq_imp_distinct_iff)
    qed
    ultimately obtain w' c where w': "refresh_all L n ?R now ps (w\<lparr>w_store := w_store w\<lparr>db_policies := c'\<rparr>\<rparr>) = (Ok (), w')"
      "contents c = tick_policies L n ans now ?ps (set ps)"
      "w_store w' = w_store w\<lparr>db_policies := c\<rparr>" "w_cache w' = w_cache w"
      using mongo_refresh_all [OF ok lib net ids, of "w\<lparr>w_store := w_store w\<lparr>db_policies := c'\<rparr>\<rparr>" now "{}" ps T now] set
      by auto
    have "refresh_tick L n ?R now w = (Ok (), w')"
      using got w'(1) by (simp add: refresh_tick_def mongo_refresh_storage_def on_store_eq on_policies_eq)
    then show ?thesis using w'(2-4) final set by auto
  qed
qed

section \<open>The importer\<close>

definition db_rest :: "('p, 's, 'd, 'a) mongo_db \<Rightarrow> 's \<times> 'd \<times> 'a" where
  "db_rest db = (db_subscribers db, db_common db, db_imports db)"

lemma mongo_save_rest: "op_SavePolicy (mongo_ops M T oid now) p db = (r, db') \<Longrightarrow> db_rest db' = db_rest db"
  by (auto simp: mongo_ops_def on_policies_def db_rest_def split: prod.splits)

text \<open>The policies of the database.\<close>

definition db_policy :: "('p \<Rightarrow> policy list) \<Rightarrow> ('p, 's, 'd, 'a) mongo_db \<Rightarrow> polid \<Rightarrow> policy option" where
  "db_policy contents db = dir (contents (db_policies db))"

definition db_holds :: "('p \<Rightarrow> policy list) \<Rightarrow> ('p, 's, 'd, 'a) mongo_db \<Rightarrow> policy \<Rightarrow> bool" where
  "db_holds contents db pol \<longleftrightarrow>
     (\<exists>q. db_policy contents db (pid_of pol) = Some q \<and> p_Locked q = p_Locked pol \<and> p_Rego q = p_Rego pol \<and>
        p_Data q = p_Data pol \<and> p_DataConfig q = p_DataConfig pol \<and> p_OutputSchema q = p_OutputSchema pol)"

lemma db_holds_view:
  "db_holds contents db pol \<longleftrightarrow>
     (\<exists>q. db_policy contents db (pid_of pol) = Some q \<and> evaluation_view q = evaluation_view pol)"
  using dir_pid by (fastforce simp: db_holds_def db_policy_def evaluation_view_def)

lemma autoimport_tick_mongo:
  assumes ok: "policy_coll_ok re contents (ms_policy M)" "import_coll_ok re imports (ms_autoImport M)"
    and tx: "tx_start T = None" "tx_commit T = None"
    and S: "sv_storage S = mongo_ops M T oid now" and lib: "import_returns L (sv_httpClient S)"
    and inv: "unique_pids (contents (db_policies (w_store w)))"
    and ids: "distinct (map fst (imports (db_imports (w_store w))))"
    and cs: "set cs = {a \<in> snd ` set (imports (db_imports (w_store w))). import_due now a}"
  shows "\<exists>w'. autoimport_tick L S w = (Ok (), w') \<and>
    imports (db_imports (w_store w')) = map (\<lambda>d. if import_due now (snd d) then (fst d, next_import now (snd d)) else d)
      (imports (db_imports (w_store w))) \<and>
    db_common (w_store w') = db_common (w_store w) \<and> db_subscribers (w_store w') = db_subscribers (w_store w) \<and>
    (\<forall>pol. agreed L (sv_httpClient S) cs pol \<longrightarrow>
       db_holds contents (w_store w) pol \<or> (\<exists>c \<in> set cs. offers L (sv_httpClient S) (ai_PolicyURL c) pol) \<longrightarrow>
       db_holds contents (w_store w') pol) \<and>
    (\<forall>j. (\<forall>c p. c \<in> set cs \<and> may_offer L (sv_httpClient S) (ai_PolicyURL c) p \<longrightarrow> pid_of p \<noteq> j) \<longrightarrow>
       db_policy contents (w_store w') j = db_policy contents (w_store w) j)"
proof -
  let ?ops = "mongo_ops M T oid now" and ?n = "sv_httpClient S"
  note store = mongo_ops_policy_store [OF ok(1), of T oid now]
  have uses: "uses_store S (op_Policy ?ops) (op_SavePolicy ?ops) (op_SetPolicyLock ?ops)"
    by (simp add: uses_store_def S)
  obtain as c where act: "mongo_ActiveImportConfigs T (ms_autoImport M) now (db_imports (w_store w)) = (Ok as, c)"
    "mset as = filter_mset (import_due now) (mset (map snd (imports (db_imports (w_store w)))))"
    "imports c = map (\<lambda>d. if import_due now (snd d) then (fst d, next_import now (snd d)) else d)
      (imports (db_imports (w_store w)))"
    using mongo_active_configs [OF ok(2) tx ids, of now] by blast
  have as: "set as = set cs"
    using act(2) cs by (metis set_map set_mset_filter set_mset_mset)
  let ?w = "w\<lparr>w_store := w_store w\<lparr>db_imports := c\<rparr>\<rparr>"
  have got: "on_store (op_ActiveImportConfigs (sv_storage S)) w = (Ok as, ?w)"
    using act(1) by (simp add: S mongo_ops_def on_store_eq on_imports_eq)
  have inv': "unique_pids (contents (db_policies (w_store ?w)))" using inv by simp
  have frame: "\<forall>p s s'. op_SavePolicy ?ops p s = (Ok (), s') \<longrightarrow> db_rest s' = db_rest s"
    using mongo_save_rest by blast
  obtain m w' where w': "doImport_loop L S 0 as ?w = (Ok m, w')" "db_rest (w_store w') = db_rest (w_store ?w)"
    "\<forall>j. (\<forall>c p. c \<in> set as \<and> may_offer L ?n (ai_PolicyURL c) p \<longrightarrow> pid_of p \<noteq> j) \<longrightarrow>
       dir (contents (db_policies (w_store w'))) j = dir (contents (db_policies (w_store ?w))) j"
    "\<forall>pol. agreed L ?n as pol \<longrightarrow>
       policy_store.holds_policy (\<lambda>db. dir (contents (db_policies db))) (w_store ?w) pol \<or>
       (\<exists>c \<in> set as. offers L ?n (ai_PolicyURL c) pol) \<longrightarrow>
       policy_store.holds_policy (\<lambda>db. dir (contents (db_policies db))) (w_store w') pol"
    using policy_store.doImport_saves [OF store uses TrueI lib frame inv'] by blast
  have holds: "policy_store.holds_policy (\<lambda>db. dir (contents (db_policies db))) (w_store w') = db_holds contents (w_store w')"
    "policy_store.holds_policy (\<lambda>db. dir (contents (db_policies db))) (w_store ?w) = db_holds contents (w_store ?w)"
    by (simp_all add: fun_eq_iff policy_store.holds_policy_def [OF store] db_holds_view db_policy_def)
  have agr: "agreed L ?n as = agreed L ?n cs" by (simp add: agreed_def fun_eq_iff as)
  have "autoimport_tick L S w = (Ok (), w')"
    using got w'(1) by (cases "as = []") (simp_all add: autoimport_tick_def doImport_def)
  moreover have "db_imports (w_store w') = c" "db_common (w_store w') = db_common (w_store w)"
    "db_subscribers (w_store w') = db_subscribers (w_store w)"
    using w'(2) by (simp_all add: db_rest_def)
  moreover have "db_holds contents (w_store ?w) = db_holds contents (w_store w)"
    by (simp add: db_holds_def db_policy_def fun_eq_iff)
  ultimately show ?thesis
    using w'(3,4) act(3) unfolding holds agr as db_policy_def by (intro exI [of _ w']) simp
qed

end
