(* ===== verification/Mongo_Props.thy ===== *)
theory Mongo_Props
  imports Mongo_Ticks Database_Props
begin

text \<open>
  Properties of the MongoDB storage as the service uses it: the contracts of all its collections, one tick of
  each background loop, and a subscription from the request to the web hook.
\<close>

section \<open>Contracts\<close>

lemma mongo_ops_data_store:
  fixes M :: "('p, 's, 'd, 'a, 'w) mongo_storage"
  assumes ok: "data_coll_ok re contents (ms_commonStorage M)"
  shows "data_store (op_GetData (mongo_ops M T oid now)) (op_SetData (mongo_ops M T oid now))
    (op_DeleteData (mongo_ops M T oid now)) (\<lambda>db. data_map (contents (db_common db)))
    (\<lambda>db. unique_keys (contents (db_common db)))"
proof -
  note store = mongo_data_store [OF ok]
  show ?thesis
  proof unfold_locales
    fix db :: "('p, 's, 'd, 'a) mongo_db" and k v
    assume inv: "unique_keys (contents (db_common db))"
    show "op_GetData (mongo_ops M T oid now) k db = (Ok v, db)" if "data_map (contents (db_common db)) k = Some v"
      using data_store.get_data_found [OF store inv that] by (simp add: mongo_ops_def on_common_def)
    show "\<exists>e. op_GetData (mongo_ops M T oid now) k db = (Err e, db)" if "data_map (contents (db_common db)) k = None"
      using data_store.get_data_missing [OF store inv that] by (auto simp: mongo_ops_def on_common_def)
    show "\<exists>db'. op_DeleteData (mongo_ops M T oid now) k db = (Ok (), db') \<and> unique_keys (contents (db_common db')) \<and>
        data_map (contents (db_common db')) = (data_map (contents (db_common db)))(k := None)"
      if "data_map (contents (db_common db)) k = Some v"
      using data_store.delete_data_found [OF store inv that] by (fastforce simp: mongo_ops_def on_common_def)
    show "\<exists>e db'. op_DeleteData (mongo_ops M T oid now) k db = (Err e, db') \<and> unique_keys (contents (db_common db')) \<and>
        data_map (contents (db_common db')) = data_map (contents (db_common db))"
      if "data_map (contents (db_common db)) k = None"
      using data_store.delete_data_missing [OF store inv that] by (fastforce simp: mongo_ops_def on_common_def)
  next
    fix db :: "('p, 's, 'd, 'a) mongo_db" and k d
    assume inv: "unique_keys (contents (db_common db))"
    show "\<exists>db'. op_SetData (mongo_ops M T oid now) k d db = (Ok (), db') \<and> unique_keys (contents (db_common db')) \<and>
        data_map (contents (db_common db')) = (data_map (contents (db_common db)))(k \<mapsto> JObj d)"
      using data_store.set_data_stores [OF store inv, of k d] by (fastforce simp: mongo_ops_def on_common_def)
  qed
qed

lemma mongo_ops_autoimport_store:
  fixes M :: "('p, 's, 'd, 'a, 'w) mongo_storage"
  assumes ok: "import_coll_ok re contents (ms_autoImport M)"
  shows "autoimport_store (op_SaveAutoImportConfig (mongo_ops M T oid now)) (op_AutoImportConfig (mongo_ops M T oid now))
    (op_DeleteAutoImportConfig (mongo_ops M T oid now)) (\<lambda>db. import_map (contents (db_imports db)))
    (\<lambda>db. unique_urls (contents (db_imports db))) import_ms"
proof -
  note store = mongo_autoimport_store [OF ok]
  show ?thesis
  proof unfold_locales
    fix db :: "('p, 's, 'd, 'a) mongo_db" and u a
    assume inv: "unique_urls (contents (db_imports db))"
    show "\<exists>db'. op_SaveAutoImportConfig (mongo_ops M T oid now) a db = (Ok (), db') \<and>
        unique_urls (contents (db_imports db')) \<and>
        import_map (contents (db_imports db')) = (import_map (contents (db_imports db)))(ai_PolicyURL a \<mapsto> import_ms a)"
      using autoimport_store.save_cfg_stores [OF store inv, of a] by (fastforce simp: mongo_ops_def on_imports_def)
    show "op_AutoImportConfig (mongo_ops M T oid now) u db = (Ok a, db)"
      if "import_map (contents (db_imports db)) u = Some a"
      using autoimport_store.get_cfg_found [OF store inv that] by (simp add: mongo_ops_def on_imports_def)
    show "\<exists>e. op_AutoImportConfig (mongo_ops M T oid now) u db = (Err e, db) \<and> errors_Is NotFound e"
      if "import_map (contents (db_imports db)) u = None"
      using autoimport_store.get_cfg_missing [OF store inv that] by (auto simp: mongo_ops_def on_imports_def)
    show "\<exists>db'. op_DeleteAutoImportConfig (mongo_ops M T oid now) u db = (Ok (), db') \<and>
        unique_urls (contents (db_imports db')) \<and>
        import_map (contents (db_imports db')) = (import_map (contents (db_imports db)))(u := None)"
      if "import_map (contents (db_imports db)) u = Some a"
      using autoimport_store.delete_cfg_found [OF store inv that] by (fastforce simp: mongo_ops_def on_imports_def)
  qed
qed

text \<open>C6: The MongoDB storage refines the three contracts of the storage interface at once, over collections
  that behave as the driver documents: its policies are a map from identities to policies with locks, its
  common storage a map from keys to objects, and its import configurations a map from addresses to
  configurations, whose times it keeps to the millisecond.\<close>

theorem mongo_refines_contracts:
  assumes "policy_coll_ok re pols (ms_policy M)" and "data_coll_ok re data (ms_commonStorage M)"
    and "import_coll_ok re imports (ms_autoImport M)"
  shows "policy_store (op_Policy (mongo_ops M T oid now)) (op_SavePolicy (mongo_ops M T oid now))
      (op_SetPolicyLock (mongo_ops M T oid now)) (\<lambda>db. dir (pols (db_policies db))) (\<lambda>i. True)
      (\<lambda>db. unique_pids (pols (db_policies db)))
    \<and> data_store (op_GetData (mongo_ops M T oid now)) (op_SetData (mongo_ops M T oid now))
      (op_DeleteData (mongo_ops M T oid now)) (\<lambda>db. data_map (data (db_common db)))
      (\<lambda>db. unique_keys (data (db_common db)))
    \<and> autoimport_store (op_SaveAutoImportConfig (mongo_ops M T oid now)) (op_AutoImportConfig (mongo_ops M T oid now))
      (op_DeleteAutoImportConfig (mongo_ops M T oid now)) (\<lambda>db. import_map (imports (db_imports db)))
      (\<lambda>db. unique_urls (imports (db_imports db))) import_ms"
  by (intro conjI mongo_ops_policy_store [OF assms(1)] mongo_ops_data_store [OF assms(2)]
      mongo_ops_autoimport_store [OF assms(3)])

text \<open>A database whose collections are lists.\<close>

definition ex_sub_coll :: "((nat \<times> subscriber) list, nat \<times> subscriber) coll" where
  "ex_sub_coll = list_coll (\<lambda>pat s. False) sub_get (\<lambda>k v d. d) (\<lambda>oid. (oid, new_subscriber ex_id [] [])) fst"

lemma ex_sub_coll_ok:
  "coll_ok (\<lambda>pat s. False) sub_get (\<lambda>k v d. d) (\<lambda>oid. (oid, new_subscriber ex_id [] [])) (\<lambda>ds. ds) ex_sub_coll"
  unfolding ex_sub_coll_def by (rule coll_ok_list) auto

definition ex_data_coll :: "(common list, common) coll" where
  "ex_data_coll = list_coll (\<lambda>pat s. False) cs_get cs_put cs_mk (\<lambda>d. 0)"

lemma ex_data_coll_ok: "data_coll_ok (\<lambda>pat s. False) (\<lambda>ds. ds) ex_data_coll"
  unfolding ex_data_coll_def by (rule coll_ok_list) (auto split: if_splits)

definition ex_import_coll :: "((nat \<times> autoimport) list, nat \<times> autoimport) coll" where
  "ex_import_coll = list_coll (\<lambda>pat s. False) ai_get ai_put ai_mk fst"

lemma ex_import_coll_ok: "import_coll_ok (\<lambda>pat s. False) (\<lambda>ds. ds) ex_import_coll"
  unfolding ex_import_coll_def by (rule coll_ok_list) auto

type_synonym ex_db = "(policy list, (nat \<times> subscriber) list, common list, (nat \<times> autoimport) list) mongo_db"

definition ex_mongo ::
  "(policy list, (nat \<times> subscriber) list, common list, (nat \<times> autoimport) list, outbox) mongo_storage" where
  "ex_mongo =
     \<lparr>ms_policy = ex_coll, ms_subscriber = ex_sub_coll, ms_commonStorage = ex_data_coll,
      ms_autoImport = ex_import_coll, ms_subscribers = []\<rparr>"

lemma ex_mongo_simps [simp]:
  "ms_policy ex_mongo = ex_coll" "ms_subscriber ex_mongo = ex_sub_coll" "ms_commonStorage ex_mongo = ex_data_coll"
  "ms_autoImport ex_mongo = ex_import_coll"
  by (simp_all add: ex_mongo_def)

definition ex_db :: "policy list \<Rightarrow> autoimport list \<Rightarrow> ex_db" where
  "ex_db ps as = \<lparr>db_policies = ps, db_subscribers = [], db_common = [], db_imports = enumerate 0 as\<rparr>"

definition ex_tx :: transaction where
  "ex_tx = \<lparr>tx_start = None, tx_commit = None\<rparr>"

theorem mongo_refines_contracts_witness:
  "op_Policy (mongo_ops ex_mongo ex_tx 7 0) ex_id (ex_db [ex_policy] []) = (Ok ex_policy, ex_db [ex_policy] [])"
proof -
  have "policy_store (op_Policy (mongo_ops ex_mongo ex_tx 7 0)) (op_SavePolicy (mongo_ops ex_mongo ex_tx 7 0))
      (op_SetPolicyLock (mongo_ops ex_mongo ex_tx 7 0)) (\<lambda>db. dir (db_policies db)) (\<lambda>i. True)
      (\<lambda>db. unique_pids (db_policies db))"
    using mongo_refines_contracts [of "\<lambda>pat s. False" "\<lambda>ds. ds" ex_mongo "\<lambda>ds. ds" "\<lambda>ds. ds" ex_tx 7 0]
      ex_coll_ok ex_data_coll_ok ex_import_coll_ok by simp
  from policy_store.get_found [OF this, of "ex_db [ex_policy] []" ex_id ex_policy] show ?thesis
    by (simp add: ex_db_def unique_pids_def)
qed

section \<open>The refresher\<close>

text \<open>C13: A tick of the refresher over MongoDB is a function of the documents: every policy whose time has
  come is replaced by what its configuration and the answer to its request make of it (the new data and
  the time one period later, the old data and that time after a failed download, or no further refresh when
  the configuration is unusable), and every other policy and the other collections are as before.\<close>

theorem mongo_refresh_tick:
  assumes "policy_coll_ok re contents (ms_policy M)" and "tx_start T = None" and "tx_commit T = None"
    and "total_lib L" and "steady n ans"
    and "distinct (map p_MongoID (contents (db_policies (w_store w))))"
  shows "\<exists>w' c. refresh_tick L n (mongo_refresh_storage M T now) now w = (Ok (), w')
    \<and> contents c = map (\<lambda>p. if refresh_due now p then refreshed L n ans now p else p) (contents (db_policies (w_store w)))
    \<and> w_store w' = w_store w\<lparr>db_policies := c\<rparr> \<and> w_cache w' = w_cache w"
  by (rule refresh_tick_mongo [OF assms])

theorem mongo_refresh_tick_witness:
  "\<exists>w'. refresh_tick ex_refresh_lib (ex_net (ex_response 200 ''new'')) (mongo_refresh_storage ex_mongo ex_tx 2000000) 2000000
      \<lparr>w_store = ex_db [ex_due_policy] [], w_cache = rc_New, w_http = []\<rparr> = (Ok (), w')
    \<and> db_policies (w_store w') = [ex_due_policy\<lparr>p_NextDataRefreshTime := bson_ms 2003600, p_Data := ''new''\<rparr>]"
proof -
  have "steady (ex_net (ex_response 200 ''new'')) (\<lambda>rq. Ok (ex_response 200 ''new''))" by (simp add: steady_def)
  moreover have "refresh_due 2000000 ex_due_policy" by (simp add: refresh_due_def ex_due_policy_def)
  ultimately show ?thesis
    using mongo_refresh_tick [of "\<lambda>pat s. False" "\<lambda>ds. ds" ex_mongo ex_tx ex_refresh_lib
        "ex_net (ex_response 200 ''new'')" "\<lambda>rq. Ok (ex_response 200 ''new'')"
        "\<lparr>w_store = ex_db [ex_due_policy] [], w_cache = rc_New, w_http = []\<rparr>" 2000000] ex_coll_ok ex_total_lib
    by (auto simp: ex_tx_def ex_db_def refreshed_def ex_usable_config)
qed

section \<open>The importer\<close>

text \<open>C17: When the transactions of the database start and commit, the calls to other servers return, and the
  database holds at most one policy for each identifier and one import configuration for each document
  identifier, a tick of the importer over MongoDB brings in what is offered: of every policy whose bundle a
  due address offers with a valid signature, the lock flag, source, data, data configuration and output
  schema are stored under its identifier, unless another due address may offer the same policy with other
  values of these.  (The export configuration and the file name of the bundle are not stored.)  A policy
  that no due address can name is untouched, the common storage and the subscriptions too, and exactly the
  due configurations are moved to their next time.  No failing address stops the tick.\<close>

theorem due_bundles_imported:
  assumes "policy_coll_ok re contents (ms_policy M)" and "import_coll_ok re imports (ms_autoImport M)"
    and "tx_start T = None" and "tx_commit T = None"
    and "sv_storage S = mongo_ops M T oid now" and "import_returns L (sv_httpClient S)"
    and "unique_pids (contents (db_policies (w_store w)))"
    and "distinct (map fst (imports (db_imports (w_store w))))"
    and "set cs = {a \<in> snd ` set (imports (db_imports (w_store w))). import_due now a}"
  shows "\<exists>w'. autoimport_tick L S w = (Ok (), w')
    \<and> imports (db_imports (w_store w')) = map (\<lambda>d. if import_due now (snd d) then (fst d, next_import now (snd d)) else d)
        (imports (db_imports (w_store w)))
    \<and> db_common (w_store w') = db_common (w_store w) \<and> db_subscribers (w_store w') = db_subscribers (w_store w)
    \<and> (\<forall>pol. agreed L (sv_httpClient S) cs pol \<longrightarrow>
         db_holds contents (w_store w) pol \<or> (\<exists>c \<in> set cs. offers L (sv_httpClient S) (ai_PolicyURL c) pol) \<longrightarrow>
         (\<exists>q. db_policy contents (w_store w') (pid_of pol) = Some q \<and> p_Locked q = p_Locked pol \<and>
            p_Rego q = p_Rego pol \<and> p_Data q = p_Data pol \<and> p_DataConfig q = p_DataConfig pol \<and>
            p_OutputSchema q = p_OutputSchema pol))
    \<and> (\<forall>j. (\<forall>c p. c \<in> set cs \<and> may_offer L (sv_httpClient S) (ai_PolicyURL c) p \<longrightarrow> pid_of p \<noteq> j) \<longrightarrow>
         db_policy contents (w_store w') j = db_policy contents (w_store w) j)"
  using autoimport_tick_mongo [OF assms] unfolding db_holds_def [of contents _ _, symmetric] .

text \<open>The address of a configuration offers the image of the example policy; the database is empty.\<close>

definition ex_import_service :: "ex_db service" where
  "ex_import_service =
     \<lparr>sv_storage = mongo_ops ex_mongo ex_tx 7 5000000, sv_cacheSet = (\<lambda>k ns sc v ttl h. (Ok (), h)),
      sv_signerKey = (\<lambda>ns k h. (Ok JNull, h)), sv_signerSign = (\<lambda>ns k d h. (Ok ''sig'', h)),
      sv_httpClient = ex_net (ex_response 200 ''outer''), sv_validationLock = False,
      sv_externalHostname = ''https://agent''\<rparr>"

definition ex_import :: autoimport where
  "ex_import = \<lparr>ai_PolicyURL = ''https://other'', ai_Interval = 3000000, ai_NextImport = 4000000\<rparr>"

lemma ex_archive:
  "archive_policy ex_libs ''outer'' bf sf pol \<longleftrightarrow> [bf, sf] = signed_files ''inner'' ''sig'' \<and> pol = bundle_image ex_policy"
proof -
  have "zipRead ex_libs ''outer'' = Ok (signed_files ''inner'' ''sig'')" by (simp add: ex_libs_def)
  moreover have "zf_Content bf = ''inner''" if "signed_files ''inner'' ''sig'' = [bf, sf]"
    using that by (auto simp: signed_files_def)
  ultimately show ?thesis
    using policyFromBundle_image [OF ex_packable] by (auto simp: archive_policy_def)
qed

lemma ex_offers: "offers ex_libs (ex_net (ex_response 200 ''outer'')) url (bundle_image ex_policy)"
proof -
  obtain bf sf where files: "signed_files ''inner'' ''sig'' = [bf, sf]" by (simp add: signed_files_def)
  have "fst (verifyBundle ex_libs [bf, sf] h) = Ok ()" for h
    using verifyBundle_accepts [OF ex_packable, of h "()" "[]" h "''sig''"]
    by (simp add: files [symmetric] signed_files_def) (simp add: ex_libs_def signature_valid_def)
  moreover have "\<exists>resp h'. fetchBundle (ex_net (ex_response 200 ''outer'')) url h = (Ok resp, h') \<and> io_ReadAll resp = Ok ''outer''" for h
    by (simp add: fetchBundle_def http_NewRequest_def http_Do_def sbind_def sret_def)
  moreover have "archive_policy ex_libs ''outer'' bf sf (bundle_image ex_policy)" by (simp add: ex_archive files)
  ultimately show ?thesis unfolding offers_def by blast
qed

theorem due_bundles_imported_witness:
  "\<exists>w'. autoimport_tick ex_libs ex_import_service \<lparr>w_store = ex_db [] [ex_import], w_cache = rc_New, w_http = []\<rparr> = (Ok (), w')
    \<and> db_holds (\<lambda>ds. ds) (w_store w') (bundle_image ex_policy)
    \<and> db_imports (w_store w') = [(0, ex_import\<lparr>ai_NextImport := 8000000\<rparr>)]"
proof -
  have due: "import_due 5000000 ex_import" by (simp add: import_due_def ex_import_def)
  have may: "pol = bundle_image ex_policy" if "may_offer ex_libs (ex_net (ex_response 200 ''outer'')) url pol" for url pol
    using that unfolding may_offer_def
    by (auto simp: fetchBundle_def http_NewRequest_def http_Do_def sbind_def sret_def ex_archive)
  have agr: "agreed ex_libs (sv_httpClient ex_import_service) [ex_import] (bundle_image ex_policy)"
    using may by (auto simp: agreed_def ex_import_service_def)
  let ?w = "\<lparr>w_store = ex_db [] [ex_import], w_cache = rc_New, w_http = []\<rparr>"
  have cfg: "db_imports (w_store ?w) = [(0, ex_import)]" by (simp add: ex_db_def enumerate_eq_zip)
  have ok: "policy_coll_ok (\<lambda>pat s. False) (\<lambda>ds. ds) (ms_policy ex_mongo)"
    "import_coll_ok (\<lambda>pat s. False) (\<lambda>ds. ds) (ms_autoImport ex_mongo)"
    using ex_coll_ok ex_import_coll_ok by simp_all
  have tx: "tx_start ex_tx = None" "tx_commit ex_tx = None" by (simp_all add: ex_tx_def)
  have S: "sv_storage ex_import_service = mongo_ops ex_mongo ex_tx 7 5000000" by (simp add: ex_import_service_def)
  have lib: "import_returns ex_libs (sv_httpClient ex_import_service)"
    by (simp add: import_returns_def total_libs_def ex_libs_def ex_import_service_def)
  have inv: "unique_pids (db_policies (w_store ?w))" "distinct (map fst (db_imports (w_store ?w)))"
    "set [ex_import] = {a \<in> snd ` set (db_imports (w_store ?w)). import_due 5000000 a}"
    unfolding cfg using due by (auto simp: ex_db_def unique_pids_def)
  obtain w' where w': "autoimport_tick ex_libs ex_import_service ?w = (Ok (), w')"
    "db_imports (w_store w') = map (\<lambda>d. if import_due 5000000 (snd d) then (fst d, next_import 5000000 (snd d)) else d)
      (db_imports (w_store ?w))"
    "\<forall>pol. agreed ex_libs (sv_httpClient ex_import_service) [ex_import] pol \<longrightarrow>
       db_holds (\<lambda>ds. ds) (w_store ?w) pol \<or>
       (\<exists>c \<in> set [ex_import]. offers ex_libs (sv_httpClient ex_import_service) (ai_PolicyURL c) pol) \<longrightarrow>
       db_holds (\<lambda>ds. ds) (w_store w') pol"
    using due_bundles_imported [of "\<lambda>pat s. False" "\<lambda>ds. ds" ex_mongo "\<lambda>ds. ds" ex_tx ex_import_service 7 5000000 ex_libs
        ?w "[ex_import]", OF ok tx S lib inv] unfolding db_holds_def [symmetric] by blast
  have "offers ex_libs (sv_httpClient ex_import_service) (ai_PolicyURL ex_import) (bundle_image ex_policy)"
    using ex_offers by (simp add: ex_import_service_def)
  then have "db_holds (\<lambda>ds. ds) (w_store w') (bundle_image ex_policy)" using w'(3) agr by simp
  moreover have "db_imports (w_store w') = [(0, ex_import\<lparr>ai_NextImport := 8000000\<rparr>)]"
    using w'(2) due unfolding cfg by (simp add: next_import_def ex_import_def bson_ms_def)
  ultimately show ?thesis using w'(1) by blast
qed

section \<open>Subscriptions\<close>

lemma mongo_stream_delivers:
  "mongo_stream_loop fs (map Ok ps) last_error w =
     ((case last_error of None \<Rightarrow> Ok () | Some e \<Rightarrow> Err e), fold (mongo_notify fs) ps w)"
  by (induction ps arbitrary: w) (auto split: option.splits)

text \<open>An event that cannot be decoded ends the listener; what comes after it is not delivered.\<close>

lemma mongo_stream_undecodable:
  "mongo_stream_loop fs (map Ok ps @ Err e # events) last_error w = (Err e, fold (mongo_notify fs) ps w)"
  by (induction ps arbitrary: w) auto

definition event_of :: "policy \<Rightarrow> change_event" where
  "event_of p = \<lparr>ce_Repository = p_Repository p, ce_Name = p_Name p, ce_Version = p_Version p, ce_Group = p_Group p\<rparr>"

lemma mongo_notifier_pending:
  "ob_pending (fold (mongo_notify [notifier_PolicyDataChange N]) ps ob) = ob_pending ob @ map event_of ps"
  by (induction ps arbitrary: ob) (auto simp: notifier_PolicyDataChange_def event_of_def Let_def split: prod.splits)

lemma matches_subscription:
  "matches re sub_get [(''policyrepository'', Eq (BStr repo)), (''policyname'', Eq (BStr pname)),
      (''policygroup'', Eq (BStr grp)), (''policyversion'', Eq (BStr version))] (oid, b) \<longleftrightarrow>
    sub_pid b = (repo, grp, pname, version)"
  by (auto simp: matches_def sub_pid_def)

lemma matches_subscriber:
  "matches re sub_get [(''webhookurl'', Eq (BStr url)), (''name'', Eq (BStr name)),
      (''policyrepository'', Eq (BStr repo)), (''policygroup'', Eq (BStr grp)), (''policyname'', Eq (BStr pname)),
      (''policyversion'', Eq (BStr version))] (oid, b) \<longleftrightarrow>
    sub_pid b = (repo, grp, pname, version) \<and> sub_WebhookURL b = url \<and> sub_Name b = name"
  by (auto simp: matches_def sub_pid_def)

text \<open>A subscription that succeeds has inserted the subscriber.\<close>

lemma Subscribe_OkD:
  assumes ok: "coll_ok re sub_get put mk subs (ms_subscriber M)" and S: "sv_storage S = mongo_ops M T oid now"
    and run: "svc_SubscribeForPolicyChange S i url name w = (Ok b, w1)"
  shows "sub_pid b = i \<and> sub_WebhookURL b = url \<and> sub_Name b = name \<and>
    subs (db_subscribers (w_store w1)) = subs (db_subscribers (w_store w)) @ [(oid, b)] \<and>
    db_policies (w_store w1) = db_policies (w_store w) \<and> (\<exists>p. co_FindOne (ms_policy M) (pid_filter i) (db_policies (w_store w)) = Ok (Some p))"
proof -
  obtain repo grp pname version where i: "i = (repo, grp, pname, version)" by (cases i) auto
  obtain p where p: "co_FindOne (ms_policy M) (pid_filter i) (db_policies (w_store w)) = Ok (Some p)"
    using run unfolding svc_SubscribeForPolicyChange_def
    by (auto dest!: sbind_OkD on_storeD simp: S mongo_ops_def on_policies_def mongo_Policy_def obind_Ok_iff split: option.splits)
  have pol: "on_store (op_Policy (sv_storage S) i) w = (Ok p, w)"
    using p by (simp add: S mongo_ops_def mongo_Policy_def)
  let ?K = "ms_subscriber M" and ?c = "db_subscribers (w_store w)"
  let ?r = "fst (mongo_Subscriber ?K i url name ?c)"
  have sub: "on_store (op_Subscriber (sv_storage S) i url name) w = (?r, w)"
    by (simp add: S mongo_ops_def on_store_def on_subscribers_def mongo_Subscriber_def i)
  obtain c' where ins: "co_InsertOne ?K (oid, new_subscriber i url name\<lparr>sub_CreatedAt := now, sub_UpdatedAt := now\<rparr>) ?c = (Ok (), c')"
    "subs c' = subs ?c @ [(oid, new_subscriber i url name\<lparr>sub_CreatedAt := now, sub_UpdatedAt := now\<rparr>)]"
    using ok unfolding coll_ok_def by blast
  have create: "on_store (op_CreateSubscriber (sv_storage S) (new_subscriber i url name)) w =
      (Ok (new_subscriber i url name\<lparr>sub_CreatedAt := now, sub_UpdatedAt := now\<rparr>), w\<lparr>w_store := w_store w\<lparr>db_subscribers := c'\<rparr>\<rparr>)"
    using ins(1) by (simp add: S mongo_ops_def on_store_def on_subscribers_def mongo_CreateSubscriber_def Let_def)
  have "b = new_subscriber i url name\<lparr>sub_CreatedAt := now, sub_UpdatedAt := now\<rparr> \<and>
      w1 = w\<lparr>w_store := w_store w\<lparr>db_subscribers := c'\<rparr>\<rparr>"
    using run pol sub create by (cases ?r) (auto simp: svc_SubscribeForPolicyChange_def split: if_splits)
  then show ?thesis using ins(2) p by (simp add: i new_subscriber_def sub_pid_def)
qed

text \<open>C18: A subscription made through the service reaches its web hook: once it has succeeded, the same
  subscription is refused with 409, and whenever the change stream of the database reports changes among
  which is one of the subscribed policy, the listener leaves that change with the notifier, whose
  notification sends the web hook the event with the policy's repository, name, version and group.\<close>

theorem subscription_reaches_web_hook:
  assumes "coll_ok re sub_get put mk subs (ms_subscriber M)" and "sv_storage S = mongo_ops M T oid now"
    and "svc_SubscribeForPolicyChange S i url name w = (Ok b, w1)"
    and "no_PolicySubscribers N = (\<lambda>repo pname grp version.
      fst (mongo_PolicySubscribers (ms_subscriber M) repo pname grp version (db_subscribers (w_store w1))))"
    and "answering (no_client N)" and "badRequest (no_client N) ''POST'' url = None"
    and "p \<in> set ps" and "pid_of p = i" and "marshal (no_codec N) (event_json (event_of p)) = Ok body"
  shows "(\<exists>e w2. svc_SubscribeForPolicyChange S i url name w1 = (Err e, w2) \<and> response_status e = 409)
    \<and> (\<exists>ob'. mongo_ListenPolicyDataChanges (mongo_AddPolicySubscribers [notifier_PolicyDataChange N] M) None (map Ok ps)
          None ob = (Ok (), ob')
        \<and> event_of p \<in> set (ob_pending ob')
        \<and> (\<exists>sent. notifySubscribers N (event_of p) h = (Ok (), h @ sent)
             \<and> \<lparr>rq_Method = ''POST'', rq_URL = url, rq_Header = [(''Content-Type'', ''application/json'')], rq_Body = body\<rparr>
               \<in> set sent))"
proof -
  note sub = Subscribe_OkD [OF assms(1-3)]
  obtain repo grp pname version where i: "i = (repo, grp, pname, version)" by (cases i) auto
  let ?K = "ms_subscriber M" and ?c = "db_subscribers (w_store w1)"
  have mem: "(oid, b) \<in> set (subs ?c)" using sub by simp
  have "\<exists>e w2. svc_SubscribeForPolicyChange S i url name w1 = (Err e, w2) \<and> response_status e = 409"
  proof -
    obtain q where "co_FindOne (ms_policy M) (pid_filter i) (db_policies (w_store w1)) = Ok (Some q)" using sub by metis
    then have pol: "on_store (op_Policy (sv_storage S) i) w1 = (Ok q, w1)"
      by (simp add: assms(2) mongo_ops_def mongo_Policy_def)
    have "\<exists>d. mongo_Subscriber ?K i url name ?c = (Ok d, ?c)"
      using coll_ok_FindOne [OF assms(1), of "[(''webhookurl'', Eq (BStr url)), (''name'', Eq (BStr name)),
          (''policyrepository'', Eq (BStr repo)), (''policygroup'', Eq (BStr grp)), (''policyname'', Eq (BStr pname)),
          (''policyversion'', Eq (BStr version))]" ?c] mem sub matches_subscriber [of re url name repo grp pname version oid b]
      by (auto simp: mongo_Subscriber_def i)
    then obtain d where "on_store (op_Subscriber (sv_storage S) i url name) w1 = (Ok d, w1)"
      by (auto simp: assms(2) mongo_ops_def on_store_def on_subscribers_def)
    then show ?thesis
      using pol by (simp add: svc_SubscribeForPolicyChange_def response_status_def)
  qed
  moreover have "\<exists>sent. notifySubscribers N (event_of p) h = (Ok (), h @ sent) \<and> webhook_request b body \<in> set sent"
  proof -
    obtain ds where ds: "co_Find ?K [(''policyrepository'', Eq (BStr repo)), (''policyname'', Eq (BStr pname)),
        (''policygroup'', Eq (BStr grp)), (''policyversion'', Eq (BStr version))] ?c = Ok ds"
      "mset ds = filter_mset (matches re sub_get [(''policyrepository'', Eq (BStr repo)), (''policyname'', Eq (BStr pname)),
        (''policygroup'', Eq (BStr grp)), (''policyversion'', Eq (BStr version))]) (mset (subs ?c))"
      by (rule coll_ok_Find [OF assms(1)])
    have "(oid, b) \<in># mset ds" unfolding ds(2) using mem matches_subscription sub i by simp
    then have b: "b \<in> set (map snd ds)" by force
    have "no_PolicySubscribers N (ce_Repository (event_of p)) (ce_Name (event_of p)) (ce_Group (event_of p))
        (ce_Version (event_of p)) = Ok (map snd ds)"
      using assms(8) ds(1) by (auto simp: assms(4) event_of_def pid_of_def i mongo_PolicySubscribers_def)
    then have "notifySubscribers N (event_of p) h = (Ok (), h @ map (\<lambda>b. webhook_request b body)
        (filter (\<lambda>b. badRequest (no_client N) ''POST'' (sub_WebhookURL b) = None) (map snd ds)))"
      using assms(9) notify_loop_requests [OF assms(5)] by (simp add: notifySubscribers_def)
    then show ?thesis using b sub assms(6) by auto
  qed
  moreover have "mongo_ListenPolicyDataChanges (mongo_AddPolicySubscribers [notifier_PolicyDataChange N] M) None (map Ok ps)
      None ob = (Ok (), fold (mongo_notify [notifier_PolicyDataChange N]) ps ob)"
    by (simp add: mongo_ListenPolicyDataChanges_def mongo_AddPolicySubscribers_def mongo_stream_delivers)
  ultimately show ?thesis
    using assms(7) sub by (simp add: mongo_notifier_pending webhook_request_def)
qed

definition ex_sub_notifier :: "ex_db \<Rightarrow> notifier" where
  "ex_sub_notifier db =
     \<lparr>no_PolicySubscribers = (\<lambda>repo pname grp version. fst (mongo_PolicySubscribers ex_sub_coll repo pname grp version (db_subscribers db))),
      no_Send = (\<lambda>v evs. (None, evs)), no_client = ex_net (ex_response 200 []), no_codec = ex_codec JNull\<rparr>"

theorem subscription_reaches_web_hook_witness:
  "\<exists>b w1 sent. svc_SubscribeForPolicyChange ex_import_service ex_id ''http://hook'' ''me''
      \<lparr>w_store = ex_db [ex_policy] [], w_cache = rc_New, w_http = []\<rparr> = (Ok b, w1)
    \<and> notifySubscribers (ex_sub_notifier (w_store w1)) (event_of ex_policy) [] = (Ok (), sent)
    \<and> \<lparr>rq_Method = ''POST'', rq_URL = ''http://hook'', rq_Header = [(''Content-Type'', ''application/json'')], rq_Body = ''json''\<rparr>
      \<in> set sent"
proof -
  let ?w = "\<lparr>w_store = ex_db [ex_policy] [], w_cache = rc_New, w_http = []\<rparr>"
  have S: "sv_storage ex_import_service = mongo_ops ex_mongo ex_tx 7 5000000" by (simp add: ex_import_service_def)
  have ok: "coll_ok (\<lambda>pat s. False) sub_get (\<lambda>k v d. d) (\<lambda>oid. (oid, new_subscriber ex_id [] [])) (\<lambda>ds. ds) (ms_subscriber ex_mongo)"
    using ex_sub_coll_ok by simp
  have "co_FindOne ex_coll (pid_filter ex_id) [ex_policy] = Ok (Some ex_policy)"
    by (simp add: ex_coll_def list_coll_def)
  then obtain b w1 where run: "svc_SubscribeForPolicyChange ex_import_service ex_id ''http://hook'' ''me'' ?w = (Ok b, w1)"
    by (simp add: svc_SubscribeForPolicyChange_def S mongo_ops_def mongo_Policy_def mongo_Subscriber_def
        mongo_CreateSubscriber_def on_store_def on_subscribers_def on_policies_def ex_db_def ex_id_def ex_sub_coll_def
        list_coll_def Let_def sbind_def sret_def)
  show ?thesis
    using subscription_reaches_web_hook [where N = "ex_sub_notifier (w_store w1)" and p = ex_policy and ps = "[ex_policy]"
        and body = "''json''" and h = "[]", OF ok S run] run
    by (auto simp: ex_sub_notifier_def)
qed

end
