(* ===== verification/Error_Ids.thy ===== *)
theory Error_Ids
  imports JS_Base64
begin

text \<open>
  The structured errors with the random identifiers that theory \<open>Go_Errors\<close> leaves out: package
  \<^verbatim>\<open>vendor/.../microservice-core-go/pkg/err\<close> (\<^verbatim>\<open>errors.go\<close>, \<^verbatim>\<open>shortid.go\<close>) as it is written, and the
  conversion of \<^verbatim>\<open>internal/service/error_response.go\<close> over it.  An error has an identifier, a kind that
  is any Go \<^verbatim>\<open>int\<close>, a message and the error it wraps; pointers to errors may be \<^verbatim>\<open>nil\<close>.  The second half
  shows that \<open>erase\<close>, which drops the identifiers, maps this model onto the one of \<open>Go_Errors\<close> that the
  rest of the development uses.
\<close>

section \<open>Identifiers (\<^verbatim>\<open>shortid.go\<close>)\<close>

definition Alphabet :: string where
  "Alphabet = ''abcdefghijklmnopqrstuvwxyzABCDEFGHIJKLMNOPQRSTUVWXYZ1234567890''"

text \<open>
  The \<open>n\<close>-th call of \<^verbatim>\<open>rand.Read\<close> on the buffer of 16 bytes leaves the bytes \<open>R n\<close> in it, or gives an
  error; the number of calls so far is the state of every operation that may draw an identifier.
\<close>

type_synonym entropy = "nat \<Rightarrow> byte list outcome"

definition id_char :: "byte \<Rightarrow> char" where
  "id_char b = Alphabet ! (unat b mod length Alphabet)"

definition NewID :: "entropy \<Rightarrow> nat \<Rightarrow> string outcome \<times> nat" where
  "NewID R n =
     ((case R n of
         Ok bs \<Rightarrow> Ok (map (\<lambda>i. id_char (bs ! i)) [0..<16])
       | Err e \<Rightarrow> Panic (''failed to read random bytes: '' @ err_text e)
       | Panic t \<Rightarrow> Panic t
       | Blocked \<Rightarrow> Blocked), n + 1)"

section \<open>Errors\<close>

text \<open>
  \<open>IPlain\<close> is a value of another error type, known by its text, \<open>INil\<close> a \<^verbatim>\<open>nil\<close> pointer of type
  \<^verbatim>\<open>*Error\<close>, \<open>IError\<close> an \<^verbatim>\<open>*Error\<close> with its identifier, kind, message and wrapped error.
\<close>

datatype ident_error =
    IPlain string
  | INil
  | IError string int string "ident_error option"

definition kind_name :: "int \<Rightarrow> string" where
  "kind_name k =
     (if k = 0 then ''unknown error''
      else if k = 1 then ''bad request''
      else if k = 2 then ''not authenticated''
      else if k = 3 then ''permission denied''
      else if k = 4 then ''already exist''
      else if k = 5 then ''not found''
      else if k = 6 then ''timeout''
      else if k = 7 then ''internal error''
      else if k = 8 then ''service unavailable''
      else ''unknown error kind'')"

definition code_status :: "int \<Rightarrow> int" where
  "code_status k =
     (if k = 1 then 400
      else if k = 2 then 401
      else if k = 3 then 403
      else if k = 4 then 409
      else if k = 5 then 404
      else if k = 6 then 408
      else if k = 7 then 500
      else if k = 8 then 503
      else 500)"

definition status_kind :: "int \<Rightarrow> int" where
  "status_kind c =
     (if c = 400 then 1
      else if c = 401 then 2
      else if c = 403 then 3
      else if c = 409 then 4
      else if c = 404 then 5
      else if c = 408 then 6
      else if c = 500 then 7
      else if c = 503 then 8
      else 0)"

fun Temporary :: "ident_error \<Rightarrow> bool" where
  "Temporary (IError i k m e) = (k = 7 \<or> k = 6)"
| "Temporary _ = False"

fun is_error :: "int \<Rightarrow> ident_error \<Rightarrow> bool outcome" where
  "is_error kind (IError i k m e) = Ok (k = kind)"
| "is_error kind (IPlain t) = Ok False"
| "is_error kind INil = Panic ''invalid memory address or nil pointer dereference''"

subsection \<open>Building an error\<close>

text \<open>
  An argument of \<^verbatim>\<open>New\<close>; \<open>IOther\<close> is one that no case of its type switch matches, such as the \<^verbatim>\<open>nil\<close>
  interface.  The loop over the arguments carries the identifier, the kind, the kind of the wrapped
  error, the message and the wrapped error; copying a \<^verbatim>\<open>nil\<close> error panics.
\<close>

datatype new_argument = IKind int | IErr ident_error | IStr string | IOther

type_synonym new_state = "string \<times> int \<times> int \<times> string \<times> ident_error option"

fun new_step :: "new_argument \<Rightarrow> new_state \<Rightarrow> new_state outcome" where
  "new_step (IKind k') (i, k, ik, m, e) = Ok (i, k', ik, m, e)"
| "new_step (IErr (IError i' k' m' e')) (i, k, ik, m, e) =
     Ok (i', k, k', if m = [] then m' else m, Some (IError i' k' m' e'))"
| "new_step (IErr INil) s = Panic ''invalid memory address or nil pointer dereference''"
| "new_step (IErr (IPlain t)) (i, k, ik, m, e) = Ok (i, k, ik, m, Some (IPlain t))"
| "new_step (IStr m') (i, k, ik, m, e) = Ok (i, k, ik, m', e)"
| "new_step IOther s = Ok s"

fun new_loop :: "new_argument list \<Rightarrow> new_state \<Rightarrow> new_state outcome" where
  "new_loop [] s = Ok s"
| "new_loop (a # args) s = obind (new_step a s) (new_loop args)"

definition ident_New :: "entropy \<Rightarrow> new_argument list \<Rightarrow> nat \<Rightarrow> ident_error outcome \<times> nat" where
  "ident_New R args =
     (if args = [] then sret (Panic ''call to errors.New without arguments'')
      else sbind (sret (new_loop args ([], 0, 0, [], None))) (\<lambda>(i, k, ik, m, e).
        sbind (if i = [] then NewID R else sret (Ok i)) (\<lambda>i.
          sret (Ok (IError i (if k = 0 then ik else k) m e)))))"

subsection \<open>The text of an error\<close>

text \<open>
  \<^verbatim>\<open>errorSkipID\<close>, with the text of a wrapped error of another type.  \<^verbatim>\<open>Error\<close> gives an error without
  identifier one, which stays in the error, and appends it in parentheses.
\<close>

fun errorSkipID :: "ident_error \<Rightarrow> string" where
  "errorSkipID (IPlain t) = t"
| "errorSkipID INil = ''nil''"
| "errorSkipID (IError i k m e) =
     (let b = (if k \<noteq> 0 then pad m @ kind_name k else m)
      in case e of None \<Rightarrow> b | Some inner \<Rightarrow> pad b @ errorSkipID inner)"

fun ident_Error :: "entropy \<Rightarrow> ident_error \<Rightarrow> nat \<Rightarrow> (string \<times> ident_error) outcome \<times> nat" where
  "ident_Error R (IPlain t) n = (Ok (t, IPlain t), n)"
| "ident_Error R INil n = (Ok (''nil'', INil), n)"
| "ident_Error R (IError i k m e) n =
     sbind (if i = [] then NewID R else sret (Ok i)) (\<lambda>i.
       let b = (if k \<noteq> 0 then pad m @ kind_name k else m);
           b = (case e of None \<Rightarrow> b | Some inner \<Rightarrow> pad b @ errorSkipID inner)
       in sret (Ok (b @ '' ('' @ i @ '')'', IError i k m e))) n"

subsection \<open>Transport\<close>

text \<open>
  \<^verbatim>\<open>MarshalJSON\<close> writes identifier, kind and message; empty texts are left out, and so is the wrapped
  error.  The encoder writes \<^verbatim>\<open>null\<close> for a \<^verbatim>\<open>nil\<close> error; it is called on values of type \<^verbatim>\<open>*Error\<close> only.
\<close>

fun error_json :: "ident_error \<Rightarrow> json" where
  "error_json (IError i k m e) =
     JObj ((if i = [] then [] else [(''id'', JStr i)]) @ [(''kind'', JNum (int_text k))]
           @ (if m = [] then [] else [(''message'', JStr m)]))"
| "error_json _ = JNull"

definition MarshalJSON :: "codec \<Rightarrow> ident_error \<Rightarrow> string outcome" where
  "MarshalJSON C e = marshal C (error_json e)"

text \<open>A number is decoded into an \<^verbatim>\<open>int\<close> field as \<^verbatim>\<open>strconv.ParseInt\<close> reads it.\<close>

fun int_field :: "codec \<Rightarrow> string \<Rightarrow> (string \<times> json) list \<Rightarrow> int \<Rightarrow> int outcome" where
  "int_field C name [] cur = Ok cur"
| "int_field C name ((k, v) # kvs) cur =
     (if sameFold C k name then
        (case v of
           JNum t \<Rightarrow> (case ParseInt64 t of Some i \<Rightarrow> int_field C name kvs i | None \<Rightarrow> Err type_mismatch)
         | JNull \<Rightarrow> int_field C name kvs cur
         | _ \<Rightarrow> Err type_mismatch)
      else int_field C name kvs cur)"

definition UnmarshalJSON :: "codec \<Rightarrow> string \<Rightarrow> ident_error outcome" where
  "UnmarshalJSON C data =
     obind (unmarshal C data) (\<lambda>v.
     obind (struct_entries v) (\<lambda>kvs.
     obind (str_field C ''id'' kvs []) (\<lambda>i.
     obind (int_field C ''kind'' kvs 0) (\<lambda>k.
     obind (str_field C ''message'' kvs []) (\<lambda>m.
       Ok (IError i k m None))))))"

text \<open>
  The errors a method of the service returns: one of the transport code, with its identifier, the
  status \<^verbatim>\<open>goahttp.NewErrorResponse\<close> gives it, its message and its text, or any other.
\<close>

datatype served = IGoa string int string string | IServed ident_error

fun ident_NewErrorResponse :: "entropy \<Rightarrow> served option \<Rightarrow> nat \<Rightarrow> ident_error option outcome \<times> nat" where
  "ident_NewErrorResponse R None n = (Ok None, n)"
| "ident_NewErrorResponse R (Some (IServed (IPlain t))) n =
     sbind (NewID R) (\<lambda>i. sret (Ok (Some (IError i 7 t (Some (IPlain t)))))) n"
| "ident_NewErrorResponse R (Some (IServed e)) n = (Ok (Some e), n)"
| "ident_NewErrorResponse R (Some (IGoa i status m t)) n =
     (Ok (Some (IError i (status_kind status) m (Some (IPlain t)))), n)"

text \<open>
  A response being written (\<^verbatim>\<open>http.ResponseWriter\<close>): the header the handler may change, the status and
  header as they were sent, and the body.  The first \<^verbatim>\<open>WriteHeader\<close> sends both and later ones are
  ignored; a status outside 100 to 999 makes it panic.
\<close>

record writer =
  w_Header :: "string \<rightharpoonup> string"
  w_Sent :: "(int \<times> (string \<rightharpoonup> string)) option"
  w_Body :: string

definition WriteHeader :: "int \<Rightarrow> writer \<Rightarrow> unit outcome \<times> writer" where
  "WriteHeader code w =
     (if w_Sent w \<noteq> None then (Ok (), w)
      else if code < 100 \<or> 999 < code then (Panic ''invalid WriteHeader code'', w)
      else (Ok (), w\<lparr>w_Sent := Some (code, w_Header w)\<rparr>))"

text \<open>
  \<^verbatim>\<open>JSON\<close> writes an error to a response; \<^verbatim>\<open>statusCode\<close> holds the optional arguments.  The encoder appends
  a line break, and writes nothing when it fails.
\<close>

definition write_error :: "codec \<Rightarrow> ident_error \<Rightarrow> int list \<Rightarrow> writer \<Rightarrow> unit outcome \<times> writer" where
  "write_error C e statusCode =
     sbind (sret (case e of
          IError i k m e' \<Rightarrow> Ok (code_status k)
        | _ \<Rightarrow> Panic ''invalid memory address or nil pointer dereference'')) (\<lambda>code.
     sbind (WriteHeader (case statusCode of [] \<Rightarrow> code | c # _ \<Rightarrow> c)) (\<lambda>_ w.
       let w = w\<lparr>w_Header := (w_Header w)(''Content-Type'' \<mapsto> ''application/json'')\<rparr>
       in (Ok (), case MarshalJSON C e of
                    Ok t \<Rightarrow> w\<lparr>w_Body := w_Body w @ t @ [CHR 0x0A]\<rparr>
                  | _ \<Rightarrow> w)))"

definition JSON :: "entropy \<Rightarrow> codec \<Rightarrow> ident_error option \<Rightarrow> int list \<Rightarrow> nat \<Rightarrow> writer \<Rightarrow> (unit outcome \<times> writer) \<times> nat" where
  "JSON R C err statusCode n w =
     (let (e, n') = (case err of
          Some (IPlain t) \<Rightarrow> ident_New R [IErr (IPlain t)] n
        | Some e \<Rightarrow> (Ok e, n)
        | None \<Rightarrow> ident_New R [IOther] n)
      in (case e of
            Ok e \<Rightarrow> write_error C e statusCode w
          | Err g \<Rightarrow> (Err g, w)
          | Panic t \<Rightarrow> (Panic t, w)
          | Blocked \<Rightarrow> (Blocked, w), n'))"

section \<open>Rules\<close>

lemma length_Alphabet [simp]: "length Alphabet = 62"
  by (simp add: Alphabet_def)

lemma id_char_in: "id_char b \<in> set Alphabet"
  unfolding id_char_def by (rule nth_mem) simp

text \<open>The generator fills the buffer, as \<^verbatim>\<open>crypto/rand\<close> does whenever it gives no error.\<close>

definition fills :: "entropy \<Rightarrow> nat \<Rightarrow> bool" where
  "fills R n \<longleftrightarrow> (case R n of Ok bs \<Rightarrow> length bs = 16 | _ \<Rightarrow> False)"

definition new_id :: "entropy \<Rightarrow> nat \<Rightarrow> string" where
  "new_id R n = (case R n of Ok bs \<Rightarrow> map id_char bs | _ \<Rightarrow> [])"

lemma NewID_fills:
  assumes "fills R n"
  shows "NewID R n = (Ok (new_id R n), n + 1)"
proof -
  obtain bs where bs: "R n = Ok bs" "length bs = 16"
    using assms by (auto simp: fills_def split: outcome.splits)
  have "map (\<lambda>i. id_char (bs ! i)) [0..<16] = map id_char bs"
    by (rule nth_equalityI) (simp_all add: bs(2))
  then show ?thesis by (simp add: NewID_def new_id_def bs(1))
qed

lemma new_id_shape:
  assumes "fills R n"
  shows "length (new_id R n) = 16" and "set (new_id R n) \<subseteq> set Alphabet" and "new_id R n \<noteq> []"
proof -
  obtain bs where bs: "R n = Ok bs" "length bs = 16"
    using assms by (auto simp: fills_def split: outcome.splits)
  show "length (new_id R n) = 16" by (simp add: new_id_def bs)
  then show "new_id R n \<noteq> []" by auto
  show "set (new_id R n) \<subseteq> set Alphabet" using id_char_in by (auto simp: new_id_def bs)
qed

subsection \<open>Forgetting the identifiers\<close>

text \<open>
  The errors the program makes: no \<^verbatim>\<open>nil\<close> pointer anywhere and every kind one of the nine constants.
  On them \<open>erase\<close> maps the operations of this theory to those of \<open>Go_Errors\<close>.
\<close>

definition kind_of :: "int \<Rightarrow> kind" where
  "kind_of k =
     (if k = 1 then BadRequest else if k = 2 then Unauthorized else if k = 3 then Forbidden
      else if k = 4 then Exist else if k = 5 then NotFound else if k = 6 then Timeout
      else if k = 7 then Internal else if k = 8 then ServiceUnavailable else Unknown)"

definition is_kind :: "int \<Rightarrow> bool" where
  "is_kind k \<longleftrightarrow> 0 \<le> k \<and> k \<le> 8"

fun erase :: "ident_error \<Rightarrow> goerror" where
  "erase (IPlain t) = Plain t"
| "erase INil = Plain ''nil''"
| "erase (IError i k m e) = Structured (kind_of k) m (map_option erase e)"

fun proper :: "ident_error \<Rightarrow> bool" where
  "proper (IPlain t) = True"
| "proper INil = False"
| "proper (IError i k m e) = (is_kind k \<and> (case e of None \<Rightarrow> True | Some inner \<Rightarrow> proper inner))"

lemma is_kind_cases:
  assumes "is_kind k"
  obtains "k = 0" | "k = 1" | "k = 2" | "k = 3" | "k = 4" | "k = 5" | "k = 6" | "k = 7" | "k = 8"
proof -
  have "k \<in> {0..8}" using assms by (simp add: is_kind_def)
  moreover have "{0..8} = {0, 1, 2, 3, 4, 5, 6, 7, 8 :: int}" by (simp add: set_eq_iff) presburger
  ultimately show thesis using that by blast
qed

lemma kind_of_is_kind:
  assumes "is_kind k"
  shows "(kind_of k = Unknown) = (k = 0)" and "int (kind_code (kind_of k)) = k"
    and "kind_String (kind_of k) = kind_name k" and "kind_status (kind_of k) = code_status k"
  using assms
  by (cases rule: is_kind_cases; simp add: kind_of_def kind_name_def code_status_def)+

text \<open>The argument of \<open>Go_Errors.errors_New\<close> for one of \<open>ident_New\<close>; \<open>IOther\<close> has none.\<close>

fun erase_arg :: "new_argument \<Rightarrow> errarg list" where
  "erase_arg (IKind k) = [AKind (kind_of k)]"
| "erase_arg (IErr e) = [AErr (erase e)]"
| "erase_arg (IStr m) = [AStr m]"
| "erase_arg IOther = []"

fun proper_arg :: "new_argument \<Rightarrow> bool" where
  "proper_arg (IKind k) = is_kind k"
| "proper_arg (IErr e) = proper e"
| "proper_arg _ = True"

fun erase_state :: "new_state \<Rightarrow> kind \<times> kind \<times> string \<times> goerror option" where
  "erase_state (i, k, ik, m, e) = (kind_of k, kind_of ik, m, map_option erase e)"

fun proper_state :: "new_state \<Rightarrow> bool" where
  "proper_state (i, k, ik, m, e) =
     (is_kind k \<and> is_kind ik \<and> (case e of None \<Rightarrow> True | Some inner \<Rightarrow> proper inner))"

lemma new_step_erase:
  assumes "proper_arg a" and "proper_state s"
  obtains s' where "new_step a s = Ok s'" "proper_state s'"
    "erase_state s' = foldl new_arg (erase_state s) (erase_arg a)"
proof -
  obtain i k ik m e where s: "s = (i, k, ik, m, e)" by (cases s)
  show thesis
  proof (cases a)
    case (IErr x)
    then show thesis using assms that by (cases x) (auto simp: s)
  qed (use assms that in \<open>auto simp: s\<close>)
qed

lemma new_loop_erase:
  assumes "list_all proper_arg args" and "proper_state s"
  shows "\<exists>s'. new_loop args s = Ok s' \<and> proper_state s' \<and>
    erase_state s' = foldl new_arg (erase_state s) (concat (map erase_arg args))"
  using assms
proof (induction args arbitrary: s)
  case (Cons a args)
  then obtain s' where s': "new_step a s = Ok s'" "proper_state s'"
    "erase_state s' = foldl new_arg (erase_state s) (erase_arg a)"
    by (auto elim: new_step_erase)
  show ?case using Cons.IH [OF _ s'(2)] Cons.prems(1) by (simp add: s'(1) foldl_append flip: s'(3))
qed simp

text \<open>
  \<^verbatim>\<open>New\<close> on the errors of the program: it returns, with an error that has an identifier, and forgetting
  the identifiers it is \<open>errors_New\<close>.
\<close>

lemma ident_New_erase:
  assumes "args \<noteq> []" and "list_all proper_arg args" and "fills R n"
  shows "\<exists>i k m e n'. ident_New R args n = (Ok (IError i k m e), n') \<and> i \<noteq> [] \<and>
    n' \<in> {n, n + 1} \<and> proper (IError i k m e) \<and>
    erase (IError i k m e) = errors_New (concat (map erase_arg args))"
proof -
  have "proper_state ([], 0, 0, [], None)" by (simp add: is_kind_def)
  from new_loop_erase [OF assms(2) this] obtain i k ik m e where
    l: "new_loop args ([], 0, 0, [], None) = Ok (i, k, ik, m, e)" and
    p: "proper_state (i, k, ik, m, e)" and
    f: "foldl new_arg (Unknown, Unknown, [], None) (concat (map erase_arg args))
      = (kind_of k, kind_of ik, m, map_option erase e)"
    by (auto simp: kind_of_def)
  let ?i = "if i = [] then new_id R n else i" and ?k = "if k = 0 then ik else k"
  have "ident_New R args n = (Ok (IError ?i ?k m e), if i = [] then n + 1 else n)"
    using assms(1) by (simp add: ident_New_def l NewID_fills [OF assms(3)] sbind_def)
  moreover have "proper (IError ?i ?k m e)" using p by simp
  moreover have "erase (IError ?i ?k m e) = errors_New (concat (map erase_arg args))"
    using p kind_of_is_kind(1) [of k] by (simp add: errors_New_def f)
  moreover have "?i \<noteq> []" using new_id_shape(3) [OF assms(3)] by simp
  ultimately show ?thesis by (smt (verit) insertCI)
qed

lemma errorSkipID_erase: "proper e \<Longrightarrow> errorSkipID e = err_text (erase e)"
proof (induction e rule: erase.induct)
  case (3 i k m e)
  then show ?case using kind_of_is_kind(1,3) [of k] by (cases e) (auto simp: Let_def)
qed simp_all

text \<open>The printed text is the text of \<open>Go_Errors\<close> with the identifier in parentheses.\<close>

lemma ident_Error_text:
  assumes "proper (IError i k m e)" and "i \<noteq> []"
  shows "ident_Error R (IError i k m e) n
    = (Ok (err_text (erase (IError i k m e)) @ '' ('' @ i @ '')'', IError i k m e), n)"
proof -
  have "errorSkipID (IError i k m e) = err_text (erase (IError i k m e))"
    by (rule errorSkipID_erase [OF assms(1)])
  then show ?thesis using assms(2) by (simp add: sbind_def Let_def)
qed

lemma status_kind_GetKind: "status_kind c = int (kind_code (GetKind c))" and is_kind_status_kind: "is_kind (status_kind c)"
  by (simp_all add: status_kind_def is_kind_def)

lemma kind_of_status_kind: "kind_of (status_kind c) = GetKind c"
  by (simp add: status_kind_def kind_of_def)

fun erase_served :: "served \<Rightarrow> raised" where
  "erase_served (IGoa i status m t) = Goa status m"
| "erase_served (IServed e) = Raised (erase e)"

text \<open>
  The conversion for the transport, for errors of the transport code whose text is their message:
  the same error, of the same status, as in \<open>Go_Errors\<close>.
\<close>

lemma ident_NewErrorResponse_erase:
  assumes "case s of IGoa i status m t \<Rightarrow> t = m | IServed e \<Rightarrow> proper e" and "fills R n"
  shows "\<exists>i k m e n'. ident_NewErrorResponse R (Some s) n = (Ok (Some (IError i k m e)), n') \<and>
    NewErrorResponse (Some (erase_served s)) = Some (erase (IError i k m e)) \<and>
    code_status k = StatusCode (erase (IError i k m e))"
proof (cases s)
  case (IGoa i status m t)
  then show ?thesis using assms(1) kind_of_is_kind(4) [OF is_kind_status_kind, of status]
    by (simp add: kind_of_status_kind)
next
  case (IServed e)
  show ?thesis
  proof (cases e)
    case (IPlain t)
    then show ?thesis using IServed NewID_fills [OF assms(2)]
      by (simp add: sbind_def kind_of_def code_status_def)
  next
    case INil
    then show ?thesis using IServed assms(1) by simp
  next
    case (IError i k m inner)
    then show ?thesis using IServed assms(1) kind_of_is_kind(4) [of k] by simp
  qed
qed

subsection \<open>Transport\<close>

text \<open>The codec keeps the three field names apart.\<close>

definition error_keys :: "codec \<Rightarrow> bool" where
  "error_keys C \<longleftrightarrow>
     (let names = [''id'', ''kind'', ''message'']
      in list_all (\<lambda>a. list_all (\<lambda>b. sameFold C a b = (a = b)) names) names)"

lemma error_keys_sameFold [simp]:
  assumes "error_keys C"
  shows "sameFold C ''id'' ''id''" "sameFold C ''kind'' ''kind''" "sameFold C ''message'' ''message''"
    "\<not> sameFold C ''id'' ''kind''" "\<not> sameFold C ''id'' ''message''" "\<not> sameFold C ''kind'' ''id''"
    "\<not> sameFold C ''kind'' ''message''" "\<not> sameFold C ''message'' ''id''" "\<not> sameFold C ''message'' ''kind''"
  using assms by (simp_all add: error_keys_def)

lemma error_roundtrip:
  assumes "error_keys C" and "json_faithful C (error_json (IError i k m e))"
    and "- (2 ^ 63) \<le> k" and "k < 2 ^ 63"
  shows "obind (MarshalJSON C (IError i k m e)) (UnmarshalJSON C) = Ok (IError i k m None)"
proof -
  obtain t where t: "marshal C (error_json (IError i k m e)) = Ok t"
    "unmarshal C t = Ok (error_json (IError i k m e))"
    using assms(2) by (rule json_faithfulE)
  have "UnmarshalJSON C t = Ok (IError i k m None)"
    unfolding UnmarshalJSON_def t(2)
    using assms(1) ParseInt64_text [OF assms(3,4)] by (cases "i = []"; cases "m = []") simp_all
  then show ?thesis by (simp only: MarshalJSON_def t(1) obind.simps)
qed

text \<open>Nothing \<^verbatim>\<open>JSON\<close> puts into the header is sent: \<^verbatim>\<open>WriteHeader\<close> has sent the header before.\<close>

lemma write_error_header_lost:
  assumes "100 \<le> code_status k \<and> code_status k \<le> 999" and "w_Sent w = None"
  shows "w_Sent (snd (write_error C (IError i k m e) [] w)) = Some (code_status k, w_Header w)"
  using assms by (simp add: write_error_def WriteHeader_def sbind_def Let_def split: outcome.splits)

end
