(* ===== verification/Error_Props.thy ===== *)
theory Error_Props
  imports Error_Ids Examples
begin

text \<open>
  What becomes of an error on its way to the client: it is made with a kind and a message, wrapped by
  every caller it passes, converted for the transport, encoded, and decoded by the client.
\<close>

text \<open>\<^verbatim>\<open>return errors.New("...", err)\<close>, once for every caller, the innermost first.\<close>

fun wrap_all :: "entropy \<Rightarrow> string list \<Rightarrow> ident_error \<Rightarrow> nat \<Rightarrow> ident_error outcome \<times> nat" where
  "wrap_all R [] e = sret (Ok e)"
| "wrap_all R (m # ms) e = sbind (ident_New R [IStr m, IErr e]) (wrap_all R ms)"

text \<open>The message of the wrapped error: the last one that is not empty.\<close>

definition outer_message :: "string \<Rightarrow> string list \<Rightarrow> string" where
  "outer_message m ms = foldl (\<lambda>m x. if x = [] then m else x) m ms"

lemma ident_New_wrap:
  assumes "i \<noteq> []"
  shows "ident_New R [IStr x, IErr (IError i k m e)] n
    = (Ok (IError i k (if x = [] then m else x) (Some (IError i k m e))), n)"
  using assms by (simp add: ident_New_def sbind_def)

lemma wrap_all_keeps:
  assumes "i \<noteq> []"
  shows "\<exists>e'. wrap_all R ms (IError i k m e) n = (Ok (IError i k (outer_message m ms) e'), n)"
  using assms
proof (induction ms arbitrary: m e)
  case (Cons x ms)
  show ?case
    using Cons.IH [OF Cons.prems, of "if x = [] then m else x" "Some (IError i k m e)"]
    by (simp add: outer_message_def ident_New_wrap [OF Cons.prems])
qed (simp add: outer_message_def)

text \<open>C40: An error that a service method makes with a kind and a message and that any number of callers
  wrap reaches the client whole: the identifier is drawn once, from the first 16 random bytes, 16
  letters and digits; the transport keeps the error as it is and answers with the status of its kind,
  the status the model without identifiers gives; and the client decodes the identifier, the kind and
  the outermost message from the body.\<close>

theorem error_reaches_client:
  assumes "k \<noteq> 0" and "is_kind k" and "fills R n" and "error_keys C"
    and "json_faithful C (error_json (IError (new_id R n) k (outer_message m ms) None))"
  shows "\<exists>e'. let e = IError (new_id R n) k (outer_message m ms) e' in
    sbind (ident_New R [IKind k, IStr m]) (wrap_all R ms) n = (Ok e, n + 1) \<and>
    ident_NewErrorResponse R (Some (IServed e)) (n + 1) = (Ok (Some e), n + 1) \<and>
    response_status (erase e) = code_status k \<and>
    obind (MarshalJSON C e) (UnmarshalJSON C) = Ok (IError (new_id R n) k (outer_message m ms) None) \<and>
    length (new_id R n) = 16 \<and> set (new_id R n) \<subseteq> set Alphabet"
proof -
  note id = new_id_shape [OF assms(3)]
  have "ident_New R [IKind k, IStr m] n = (Ok (IError (new_id R n) k m None), n + 1)"
    using assms(1) NewID_fills [OF assms(3)] by (simp add: ident_New_def sbind_def)
  moreover obtain e' where
    "wrap_all R ms (IError (new_id R n) k m None) (n + 1)
      = (Ok (IError (new_id R n) k (outer_message m ms) e'), n + 1)"
    using wrap_all_keeps [OF id(3)] by blast
  moreover have "response_status (erase (IError (new_id R n) k (outer_message m ms) e')) = code_status k"
    using kind_of_is_kind(4) [OF assms(2)] by (simp add: response_status_def)
  moreover have "obind (MarshalJSON C (IError (new_id R n) k (outer_message m ms) e')) (UnmarshalJSON C)
      = Ok (IError (new_id R n) k (outer_message m ms) None)"
    using assms(2,5) by (intro error_roundtrip [OF assms(4)]) (simp_all add: is_kind_def)
  ultimately show ?thesis using id(1,2) by (auto simp: Let_def)
qed

theorem error_reaches_client_witness:
  "\<exists>e'. obind (MarshalJSON (ex_codec (error_json (IError ''aaaaaaaaaaaaaaaa'' 5 ''getting policy'' None)))
        (IError ''aaaaaaaaaaaaaaaa'' 5 ''getting policy'' e'))
      (UnmarshalJSON (ex_codec (error_json (IError ''aaaaaaaaaaaaaaaa'' 5 ''getting policy'' None))))
      = Ok (IError ''aaaaaaaaaaaaaaaa'' 5 ''getting policy'' None) \<and>
    sbind (ident_New (\<lambda>_. Ok (replicate 16 0)) [IKind 5, IStr ''policy not found''])
      (wrap_all (\<lambda>_. Ok (replicate 16 0)) [''error getting policy'', [], ''getting policy'']) 0
      = (Ok (IError ''aaaaaaaaaaaaaaaa'' 5 ''getting policy'' e'), 1)"
proof -
  let ?R = "\<lambda>_ :: nat. Ok (replicate 16 0) :: byte list outcome"
  let ?C = "ex_codec (error_json (IError ''aaaaaaaaaaaaaaaa'' 5 ''getting policy'' None))"
  let ?ms = "[''error getting policy'', [], ''getting policy'']"
  have "id_char 0 = CHR ''a''" by (simp add: id_char_def) (simp add: Alphabet_def)
  then have id: "new_id ?R 0 = ''aaaaaaaaaaaaaaaa''"
    by (simp add: new_id_def numeral_eq_Suc)
  have m: "outer_message ''policy not found'' ?ms = ''getting policy''"
    by (simp add: outer_message_def)
  have f: "fills ?R 0" by (simp add: fills_def)
  have c: "error_keys ?C" by (simp add: error_keys_def)
  have j: "json_faithful ?C (error_json (IError (new_id ?R 0) 5 (outer_message ''policy not found'' ?ms) None))"
    unfolding id m by (simp add: json_faithful_def)
  have k: "(5 :: int) \<noteq> 0" "is_kind 5" by (simp_all add: is_kind_def)
  show ?thesis
    using error_reaches_client [OF k f c j] unfolding id m Let_def add_0 by blast
qed

end
