(* ===== verification/Service_Config.thy ===== *)
theory Service_Config
  imports Server Env_Config
begin

text \<open>
  The start of the service: its configuration from the environment (\<^verbatim>\<open>internal/config/config.go\<close>) and
  what \<^verbatim>\<open>cmd/policy/main.go\<close> makes from it, up to the moment the server runs.  The storage, the
  subscribers and the middleware are those of theory \<open>Server\<close>, the clients those of \<open>Clients\<close>.
\<close>

section \<open>The configuration\<close>

text \<open>The record of theory \<open>Server\<close> holds the fields that are used there; these are the others.\<close>

record service_config = config +
  mongo_User :: string
  mongo_Pass :: string
  mongo_DB :: string
  mongo_Collection :: string
  mongo_AuthMechanism :: string
  cache_Addr :: string
  task_Addr :: string
  signer_Addr :: string
  didresolver_Addr :: string
  metrics_Addr :: string
  ocm_Addr :: string
  oauth_ClientID :: string
  oauth_ClientSecret :: string
  oauth_TokenURL :: string
  refresher_PollInterval :: duration
  auth_JwkURL :: string
  auth_RefreshInterval :: duration
  ipfilter_AllowedIPs :: "string list"
  nats_Addr :: string
  nats_Subject :: string
  policy_User :: string
  policy_Pass :: string
  policy_Branch :: string
  policy_LockOnValidationFailure :: bool
  autoimport_PollInterval :: duration
  cfg_ExternalAddr :: string
  cfg_LogLevel :: string

definition zero_service_config :: service_config where
  "zero_service_config =
     \<lparr>mongo_Addr = [], policy_CloneURL = [], policy_Folder = [], auth_Enabled = False,
      ipfilter_Enabled = False, http_Host = [], http_Port = [], http_IdleTimeout = 0,
      http_ReadTimeout = 0, http_WriteTimeout = 0,
      mongo_User = [], mongo_Pass = [], mongo_DB = [], mongo_Collection = [], mongo_AuthMechanism = [],
      cache_Addr = [], task_Addr = [], signer_Addr = [], didresolver_Addr = [], metrics_Addr = [],
      ocm_Addr = [], oauth_ClientID = [], oauth_ClientSecret = [], oauth_TokenURL = [],
      refresher_PollInterval = 0, auth_JwkURL = [], auth_RefreshInterval = 0, ipfilter_AllowedIPs = [],
      nats_Addr = [], nats_Subject = [], policy_User = [], policy_Pass = [], policy_Branch = [],
      policy_LockOnValidationFailure = False, autoimport_PollInterval = 0, cfg_ExternalAddr = [],
      cfg_LogLevel = []\<rparr>"

definition service_env_vars :: "service_config env_var list" where
  "service_env_vars =
     [env_field ''HTTP'' ''Host'' ''HTTP_HOST'' [] False (SetString (\<lambda>s c. c\<lparr>http_Host := s\<rparr>)),
      env_field ''HTTP'' ''Port'' ''HTTP_PORT'' ''8080'' False (SetString (\<lambda>s c. c\<lparr>http_Port := s\<rparr>)),
      env_field ''HTTP'' ''IdleTimeout'' ''HTTP_IDLE_TIMEOUT'' ''120s'' False (SetDuration (\<lambda>d c. c\<lparr>http_IdleTimeout := d\<rparr>)),
      env_field ''HTTP'' ''ReadTimeout'' ''HTTP_READ_TIMEOUT'' ''10s'' False (SetDuration (\<lambda>d c. c\<lparr>http_ReadTimeout := d\<rparr>)),
      env_field ''HTTP'' ''WriteTimeout'' ''HTTP_WRITE_TIMEOUT'' ''10s'' False (SetDuration (\<lambda>d c. c\<lparr>http_WriteTimeout := d\<rparr>)),
      env_field ''MONGO'' ''Addr'' ''MONGO_ADDR'' [] False (SetString (\<lambda>s c. c\<lparr>mongo_Addr := s\<rparr>)),
      env_field ''MONGO'' ''User'' ''MONGO_USER'' [] False (SetString (\<lambda>s c. c\<lparr>mongo_User := s\<rparr>)),
      env_field ''MONGO'' ''Pass'' ''MONGO_PASS'' [] False (SetString (\<lambda>s c. c\<lparr>mongo_Pass := s\<rparr>)),
      env_field ''MONGO'' ''DB'' ''MONGO_DBNAME'' ''policy'' False (SetString (\<lambda>s c. c\<lparr>mongo_DB := s\<rparr>)),
      env_field ''MONGO'' ''Collection'' ''MONGO_COLLECTION'' ''policies'' False (SetString (\<lambda>s c. c\<lparr>mongo_Collection := s\<rparr>)),
      env_field ''MONGO'' ''AuthMechanism'' ''MONGO_AUTH_MECHANISM'' ''SCRAM-SHA-1'' False (SetString (\<lambda>s c. c\<lparr>mongo_AuthMechanism := s\<rparr>)),
      env_field ''CACHE'' ''Addr'' ''CACHE_ADDR'' [] False (SetString (\<lambda>s c. c\<lparr>cache_Addr := s\<rparr>)),
      env_field ''TASK'' ''Addr'' ''TASK_ADDR'' [] False (SetString (\<lambda>s c. c\<lparr>task_Addr := s\<rparr>)),
      env_field ''SIGNER'' ''Addr'' ''SIGNER_ADDR'' [] False (SetString (\<lambda>s c. c\<lparr>signer_Addr := s\<rparr>)),
      env_field ''DIDRESOLVER'' ''Addr'' ''DID_RESOLVER_ADDR'' [] False (SetString (\<lambda>s c. c\<lparr>didresolver_Addr := s\<rparr>)),
      env_field ''METRICS'' ''Addr'' ''METRICS_ADDR'' '':2112'' False (SetString (\<lambda>s c. c\<lparr>metrics_Addr := s\<rparr>)),
      env_field ''OCM'' ''Addr'' ''OCM_ADDR'' [] True (SetString (\<lambda>s c. c\<lparr>ocm_Addr := s\<rparr>)),
      env_field ''OAUTH'' ''ClientID'' ''OAUTH_CLIENT_ID'' [] False (SetString (\<lambda>s c. c\<lparr>oauth_ClientID := s\<rparr>)),
      env_field ''OAUTH'' ''ClientSecret'' ''OAUTH_CLIENT_SECRET'' [] False (SetString (\<lambda>s c. c\<lparr>oauth_ClientSecret := s\<rparr>)),
      env_field ''OAUTH'' ''TokenURL'' ''OAUTH_TOKEN_URL'' [] False (SetString (\<lambda>s c. c\<lparr>oauth_TokenURL := s\<rparr>)),
      env_field ''REFRESHER'' ''PollInterval'' ''REFRESHER_POLL_INTERVAL'' ''10s'' False (SetDuration (\<lambda>d c. c\<lparr>refresher_PollInterval := d\<rparr>)),
      env_field ''AUTH'' ''Enabled'' ''AUTH_ENABLED'' ''false'' False (SetBool (\<lambda>b c. c\<lparr>auth_Enabled := b\<rparr>)),
      env_field ''AUTH'' ''JwkURL'' ''AUTH_JWK_URL'' [] False (SetString (\<lambda>s c. c\<lparr>auth_JwkURL := s\<rparr>)),
      env_field ''AUTH'' ''RefreshInterval'' ''AUTH_REFRESH_INTERVAL'' ''1h'' False (SetDuration (\<lambda>d c. c\<lparr>auth_RefreshInterval := d\<rparr>)),
      env_field ''IPFILTER'' ''Enabled'' ''IP_FILTER_ENABLE'' ''false'' False (SetBool (\<lambda>b c. c\<lparr>ipfilter_Enabled := b\<rparr>)),
      env_field ''IPFILTER'' ''AllowedIPs'' ''IP_FILTER_ALLOWED_IPS'' [] False (SetStrings (\<lambda>l c. c\<lparr>ipfilter_AllowedIPs := l\<rparr>)),
      env_field ''NATS'' ''Addr'' ''NATS_ADDR'' [] True (SetString (\<lambda>s c. c\<lparr>nats_Addr := s\<rparr>)),
      env_field ''NATS'' ''Subject'' ''NATS_SUBJECT'' ''policy_notifier'' False (SetString (\<lambda>s c. c\<lparr>nats_Subject := s\<rparr>)),
      env_field ''POLICY'' ''CloneURL'' ''POLICY_REPOSITORY_CLONE_URL'' [] False (SetString (\<lambda>s c. c\<lparr>policy_CloneURL := s\<rparr>)),
      env_field ''POLICY'' ''User'' ''POLICY_REPOSITORY_USER'' [] False (SetString (\<lambda>s c. c\<lparr>policy_User := s\<rparr>)),
      env_field ''POLICY'' ''Pass'' ''POLICY_REPOSITORY_PASS'' [] False (SetString (\<lambda>s c. c\<lparr>policy_Pass := s\<rparr>)),
      env_field ''POLICY'' ''Branch'' ''POLICY_REPOSITORY_BRANCH'' [] False (SetString (\<lambda>s c. c\<lparr>policy_Branch := s\<rparr>)),
      env_field ''POLICY'' ''Folder'' ''POLICY_REPOSITORY_FOLDER'' [] False (SetString (\<lambda>s c. c\<lparr>policy_Folder := s\<rparr>)),
      env_field ''POLICY'' ''LockOnValidationFailure'' ''POLICY_LOCK_ON_VALIDATION_FAILURE'' ''false'' False (SetBool (\<lambda>b c. c\<lparr>policy_LockOnValidationFailure := b\<rparr>)),
      env_field ''AUTOIMPORT'' ''PollInterval'' ''AUTO_IMPORT_POLL_INTERVAL'' ''10s'' False (SetDuration (\<lambda>d c. c\<lparr>autoimport_PollInterval := d\<rparr>)),
      env_field [] ''ExternalAddr'' ''EXTERNAL_HTTP_ADDR'' ''http://policy:8080'' False (SetString (\<lambda>s c. c\<lparr>cfg_ExternalAddr := s\<rparr>)),
      env_field [] ''LogLevel'' ''LOG_LEVEL'' ''INFO'' False (SetString (\<lambda>s c. c\<lparr>cfg_LogLevel := s\<rparr>))]"

definition service_loadConfig ::
  "(string \<Rightarrow> duration outcome) \<Rightarrow> (string \<rightharpoonup> string) \<Rightarrow> service_config outcome" where
  "service_loadConfig pd env = env_Process pd env service_env_vars zero_service_config"

section \<open>The start\<close>

text \<open>
  \<^verbatim>\<open>auth.NewMiddleware\<close>: registering the address with the cache of keys, and fetching the keys once, may
  fail.  \<open>'k\<close> is the key set, \<open>'s\<close> the sender of the event bus, \<open>'d\<close> the connection to the database
  and \<open>'c\<close> its storage.
\<close>

record ('s, 'k, 'd, 'c) platform =
  pf_ParseDuration :: "string \<Rightarrow> duration outcome"
  pf_UnmarshalLevel :: "string \<Rightarrow> unit outcome"
  pf_httpClient :: net
  pf_oauth2 :: "net \<Rightarrow> string \<Rightarrow> string \<Rightarrow> string \<Rightarrow> net"
  pf_DefaultClient :: net
  pf_NewSender :: "string \<Rightarrow> string \<Rightarrow> 's outcome"
  pf_NewClient :: "'s \<Rightarrow> (event \<Rightarrow> goerror option) outcome"
  pf_origin :: "service_config \<Rightarrow> ('d, 'c) origin"
  pf_jwkRegister :: "string \<Rightarrow> duration \<Rightarrow> unit outcome"
  pf_jwkRefresh :: "string \<Rightarrow> 'k outcome"

definition auth_NewMiddleware :: "('s, 'k, 'd, 'c) platform \<Rightarrow> string \<Rightarrow> duration \<Rightarrow> 'k outcome" where
  "auth_NewMiddleware X jwkURL refreshInterval =
     (if jwkURL = [] then Err (Plain ''missing JWK url'')
      else obind (owrap (\<lambda>e. Plain (''fail to register JWK url with cache: '' @ err_text e))
                   (pf_jwkRegister X jwkURL refreshInterval)) (\<lambda>_.
           owrap (\<lambda>e. Plain (''fail to refresh JWK cache: '' @ err_text e)) (pf_jwkRefresh X jwkURL)))"

text \<open>\<^verbatim>\<open>createLogger\<close> keeps the level \<^verbatim>\<open>info\<close> for an empty text.\<close>

definition createLogger :: "('s, 'k, 'd, 'c) platform \<Rightarrow> string \<Rightarrow> unit outcome" where
  "createLogger X logLevel = (if logLevel \<noteq> [] then pf_UnmarshalLevel X logLevel else Ok ())"

text \<open>The parts the program runs with.\<close>

record ('s, 'k, 'c) started =
  st_config :: service_config
  st_signer :: http_service
  st_cache :: http_service
  st_events :: "'s nats_client"
  st_storage :: "'c storage"
  st_subscribers :: "subscriber_part list"
  st_refresher :: "duration option"
  st_keys :: "'k option"
  st_server :: http_server

text \<open>
  A failed step ends the program with its message and the error
  (\<^verbatim>\<open>if err != nil { logger.Fatal(message, err) }\<close>, which is \<open>main_step\<close>).
\<close>

datatype ('s, 'k, 'c) startup =
    Started "('s, 'k, 'c) started"
  | Fatal string goerror
  | Crashed string
  | Hanging

definition main_step ::
  "string \<Rightarrow> 'a outcome \<Rightarrow> ('a \<Rightarrow> ('s, 'k, 'c) startup) \<Rightarrow> ('s, 'k, 'c) startup" where
  "main_step message r f =
     (case r of
        Ok x \<Rightarrow> f x
      | Err e \<Rightarrow> Fatal message e
      | Panic t \<Rightarrow> Crashed t
      | Blocked \<Rightarrow> Hanging)"

definition service_main ::
  "('s, 'k, 'd, 'c) platform \<Rightarrow> (string \<rightharpoonup> string) \<Rightarrow> ('s, 'k, 'c) startup" where
  "service_main X env =
     main_step ''cannot load configuration'' (service_loadConfig (pf_ParseDuration X) env) (\<lambda>cfg.
     main_step [] (createLogger X (cfg_LogLevel cfg)) (\<lambda>_.
     let httpClient = pf_httpClient X;
         oauthClient = (if auth_Enabled cfg
           then pf_oauth2 X httpClient (oauth_ClientID cfg) (oauth_ClientSecret cfg) (oauth_TokenURL cfg)
           else httpClient);
         signer = signer_New (pf_DefaultClient X) (signer_Addr cfg) [signer_WithHTTPClient httpClient];
         cache = cacheclient_New (pf_DefaultClient X) (cache_Addr cfg) [cacheclient_WithHTTPClient oauthClient]
     in
     main_step ''failed to create events client''
       (nats_New (pf_NewSender X) (pf_NewClient X) (nats_Addr cfg) (nats_Subject cfg)) (\<lambda>events.
     main_step ''error creating storage'' (makeStorage (config.truncate cfg) (pf_origin X cfg)) (\<lambda>storage.
     main_step ''failed to create authentication middleware''
       (if auth_Enabled cfg
        then obind (auth_NewMiddleware X (auth_JwkURL cfg) (auth_RefreshInterval cfg)) (\<lambda>keys. Ok (Some keys))
        else Ok None) (\<lambda>keys.
     Started \<lparr>st_config = cfg, st_signer = signer, st_cache = cache, st_events = events, st_storage = storage,
          st_subscribers = main_subscribers storage,
          st_refresher = (if has_refresher storage then Some (refresher_PollInterval cfg) else None),
          st_keys = keys, st_server = main_server (config.truncate cfg)\<rparr>)))))"

text \<open>
  The policy server of the running program; \<open>parse\<close> is \<^verbatim>\<open>jwt.Parse\<close> with a key set, \<open>allows\<close> the filter
  for a list of addresses, \<open>s0\<close> the endpoints of the generated code.
\<close>

definition started_server ::
  "('k \<Rightarrow> string \<Rightarrow> goerror option) \<Rightarrow> (string list \<Rightarrow> string \<Rightarrow> bool) \<Rightarrow> ('s, 'k, 'c) started \<Rightarrow>
   ('a, 'w) server \<Rightarrow> ('a, 'w) server" where
  "started_server parse allows x =
     policy_server (config.truncate (st_config x))
       (case st_keys x of Some keys \<Rightarrow> parse keys | None \<Rightarrow> (\<lambda>_. None))
       (allows (ipfilter_AllowedIPs (st_config x)))"

text \<open>The policy service over the operations of its storage, with the clients it was started with.\<close>

definition started_service ::
  "codec \<Rightarrow> 'st storage_ops \<Rightarrow> ('s, 'k, 'd, 'c) platform \<Rightarrow> ('s, 'k, 'c) started \<Rightarrow> 'st service" where
  "started_service C ops X x =
     (let signer = st_signer x; cache = st_cache x; cfg = st_config x in
      svc_New ops
        (cacheclient_Set (hs_httpClient cache) (hs_addr cache))
        (signer_Key C (hs_httpClient signer) (hs_addr signer))
        (signer_Sign C (hs_httpClient signer) (hs_addr signer))
        (cfg_ExternalAddr cfg) (policy_LockOnValidationFailure cfg) (pf_httpClient X))"

section \<open>What a running service was configured with\<close>

text \<open>
  A variable as the environment gives it: under the name of its structure and its own, or under its own
  alone; a text, empty when it is not given; a switch, off when it is not given.
\<close>

definition env_given :: "(string \<rightharpoonup> string) \<Rightarrow> string \<Rightarrow> string \<Rightarrow> string option" where
  "env_given env pre n = (case env (pre @ ''_'' @ n) of Some s \<Rightarrow> Some s | None \<Rightarrow> env n)"

definition env_text :: "(string \<rightharpoonup> string) \<Rightarrow> string \<Rightarrow> string \<Rightarrow> string" where
  "env_text env pre n = (case env_given env pre n of Some s \<Rightarrow> s | None \<Rightarrow> [])"

definition env_switch :: "(string \<rightharpoonup> string) \<Rightarrow> string \<Rightarrow> string \<Rightarrow> bool" where
  "env_switch env pre n \<longleftrightarrow>
     (case env_given env pre n of
        Some s \<Rightarrow> s \<in> {''1'', ''t'', ''T'', ''TRUE'', ''true'', ''True''}
      | None \<Rightarrow> False)"

definition env_default :: "(string \<rightharpoonup> string) \<Rightarrow> string \<Rightarrow> string \<Rightarrow> string \<Rightarrow> string" where
  "env_default env pre n d = (case env_given env pre n of Some s \<Rightarrow> s | None \<Rightarrow> d)"

lemma env_value_given:
  assumes "pre \<noteq> []" and "n \<noteq> []"
  shows "env_value env (env_field pre x n d r f) =
    (case env_given env pre n of Some s \<Rightarrow> Some s | None \<Rightarrow> if d \<noteq> [] then Some d else None)"
  using assms by (auto simp: env_value_def env_field_def env_given_def split: option.splits)

lemma main_step_Started:
  "main_step m r f = Started x \<longleftrightarrow> (\<exists>y. r = Ok y \<and> f y = Started x)"
  by (cases r) (simp_all add: main_step_def)

lemma ParseBool_Ok:
  "ParseBool s = Ok b \<Longrightarrow> b \<longleftrightarrow> s \<in> {''1'', ''t'', ''T'', ''TRUE'', ''true'', ''True''}"
  by (auto simp: ParseBool_def split: if_splits)

lemma service_env_text:
  fixes g :: "service_config \<Rightarrow> string"
  assumes "service_loadConfig pd env = Ok cfg" and "n < length service_env_vars"
    and "service_env_vars ! n = env_field pre x k [] r (SetString f)" and "pre \<noteq> []" "k \<noteq> []"
    and "\<And>s c. g (f s c) = s" and "g zero_service_config = []"
    and "list_all (\<lambda>v. keeps_field g (ev_field v)) (take n service_env_vars)"
    and "list_all (\<lambda>v. keeps_field g (ev_field v)) (drop (Suc n) service_env_vars)"
  shows "g cfg = env_text env pre k \<and> (r \<longrightarrow> env_given env pre k \<noteq> None)"
  using env_Process_field [OF assms(1) [unfolded service_loadConfig_def] assms(2,8,9)] assms(4-7)
  unfolding assms(3) env_value_given [OF assms(4,5)]
  by (auto simp: env_field_def env_text_def split: option.splits)

lemma service_env_switch:
  fixes g :: "service_config \<Rightarrow> bool"
  assumes "service_loadConfig pd env = Ok cfg" and "n < length service_env_vars"
    and "service_env_vars ! n = env_field pre x k ''false'' r (SetBool f)" and "pre \<noteq> []" "k \<noteq> []"
    and "\<And>b c. g (f b c) = b"
    and "list_all (\<lambda>v. keeps_field g (ev_field v)) (take n service_env_vars)"
    and "list_all (\<lambda>v. keeps_field g (ev_field v)) (drop (Suc n) service_env_vars)"
  shows "g cfg \<longleftrightarrow> env_switch env pre k"
  using env_Process_field [OF assms(1) [unfolded service_loadConfig_def] assms(2,7,8)] assms(6)
  unfolding assms(3) env_value_given [OF assms(4,5)]
  by (auto simp: env_field_def env_switch_def obind_Ok_iff dest!: ParseBool_Ok split: option.splits)

lemma service_env_default:
  fixes g :: "service_config \<Rightarrow> string"
  assumes "service_loadConfig pd env = Ok cfg" and "n < length service_env_vars"
    and "service_env_vars ! n = env_field pre x k d r (SetString f)" and "pre \<noteq> []" "k \<noteq> []"
    and "\<And>s c. g (f s c) = s" and "d \<noteq> [] \<or> g zero_service_config = []"
    and "list_all (\<lambda>v. keeps_field g (ev_field v)) (take n service_env_vars)"
    and "list_all (\<lambda>v. keeps_field g (ev_field v)) (drop (Suc n) service_env_vars)"
  shows "g cfg = env_default env pre k d"
  using env_Process_field [OF assms(1) [unfolded service_loadConfig_def] assms(2,8,9)] assms(4-7)
  unfolding assms(3) env_value_given [OF assms(4,5)]
  by (auto simp: env_field_def env_default_def split: option.splits if_splits)

lemma service_env_duration:
  fixes g :: "service_config \<Rightarrow> duration"
  assumes "service_loadConfig pd env = Ok cfg" and "n < length service_env_vars"
    and "service_env_vars ! n = env_field pre x k d r (SetDuration f)" and "pre \<noteq> []" "k \<noteq> []"
    and "\<And>s c. g (f s c) = s" and "d \<noteq> []"
    and "list_all (\<lambda>v. keeps_field g (ev_field v)) (take n service_env_vars)"
    and "list_all (\<lambda>v. keeps_field g (ev_field v)) (drop (Suc n) service_env_vars)"
  shows "pd (env_default env pre k d) = Ok (g cfg)"
  using env_Process_field [OF assms(1) [unfolded service_loadConfig_def] assms(2,8,9)] assms(4-7)
  unfolding assms(3) env_value_given [OF assms(4,5)]
  by (auto simp: env_field_def env_default_def obind_Ok_iff split: option.splits if_splits)

text \<open>The address and the timeouts of the HTTP server.\<close>

lemma server_configured:
  assumes "service_loadConfig pd env = Ok cfg"
  shows "http_Host cfg = env_default env ''HTTP'' ''HTTP_HOST'' []"
    and "http_Port cfg = env_default env ''HTTP'' ''HTTP_PORT'' ''8080''"
    and "pd (env_default env ''HTTP'' ''HTTP_IDLE_TIMEOUT'' ''120s'') = Ok (http_IdleTimeout cfg)"
    and "pd (env_default env ''HTTP'' ''HTTP_READ_TIMEOUT'' ''10s'') = Ok (http_ReadTimeout cfg)"
    and "pd (env_default env ''HTTP'' ''HTTP_WRITE_TIMEOUT'' ''10s'') = Ok (http_WriteTimeout cfg)"
proof -
  show "http_Host cfg = env_default env ''HTTP'' ''HTTP_HOST'' []"
    using service_env_default [where g = http_Host and n = 0 and pre = "''HTTP''" and x = "''Host''" and k = "''HTTP_HOST''"
      and d = "[]" and r = False and f = "\<lambda>s c. c\<lparr>http_Host := s\<rparr>", OF assms]
    by (simp add: service_env_vars_def env_field_def zero_service_config_def)
  show "http_Port cfg = env_default env ''HTTP'' ''HTTP_PORT'' ''8080''"
    using service_env_default [where g = http_Port and n = 1 and pre = "''HTTP''" and x = "''Port''" and k = "''HTTP_PORT''"
      and d = "''8080''" and r = False and f = "\<lambda>s c. c\<lparr>http_Port := s\<rparr>", OF assms]
    by (simp add: service_env_vars_def env_field_def)
  show "pd (env_default env ''HTTP'' ''HTTP_IDLE_TIMEOUT'' ''120s'') = Ok (http_IdleTimeout cfg)"
    using service_env_duration [where g = http_IdleTimeout and n = 2 and pre = "''HTTP''" and x = "''IdleTimeout''"
      and k = "''HTTP_IDLE_TIMEOUT''" and d = "''120s''" and r = False and f = "\<lambda>s c. c\<lparr>http_IdleTimeout := s\<rparr>", OF assms]
    by (simp add: service_env_vars_def env_field_def)
  show "pd (env_default env ''HTTP'' ''HTTP_READ_TIMEOUT'' ''10s'') = Ok (http_ReadTimeout cfg)"
    using service_env_duration [where g = http_ReadTimeout and n = 3 and pre = "''HTTP''" and x = "''ReadTimeout''"
      and k = "''HTTP_READ_TIMEOUT''" and d = "''10s''" and r = False and f = "\<lambda>s c. c\<lparr>http_ReadTimeout := s\<rparr>", OF assms]
    by (simp add: service_env_vars_def env_field_def)
  show "pd (env_default env ''HTTP'' ''HTTP_WRITE_TIMEOUT'' ''10s'') = Ok (http_WriteTimeout cfg)"
    using service_env_duration [where g = http_WriteTimeout and n = 4 and pre = "''HTTP''" and x = "''WriteTimeout''"
      and k = "''HTTP_WRITE_TIMEOUT''" and d = "''10s''" and r = False and f = "\<lambda>s c. c\<lparr>http_WriteTimeout := s\<rparr>", OF assms]
    by (simp add: service_env_vars_def env_field_def)
qed

lemma service_configured:
  assumes "service_loadConfig pd env = Ok cfg"
  shows "mongo_Addr cfg = env_text env ''MONGO'' ''MONGO_ADDR''"
    and "policy_CloneURL cfg = env_text env ''POLICY'' ''POLICY_REPOSITORY_CLONE_URL''"
    and "auth_JwkURL cfg = env_text env ''AUTH'' ''AUTH_JWK_URL''"
    and "env_given env ''OCM'' ''OCM_ADDR'' \<noteq> None"
    and "env_given env ''NATS'' ''NATS_ADDR'' \<noteq> None"
    and "auth_Enabled cfg \<longleftrightarrow> env_switch env ''AUTH'' ''AUTH_ENABLED''"
    and "ipfilter_Enabled cfg \<longleftrightarrow> env_switch env ''IPFILTER'' ''IP_FILTER_ENABLE''"
proof -
  show "mongo_Addr cfg = env_text env ''MONGO'' ''MONGO_ADDR''"
    using service_env_text [where g = mongo_Addr and n = 5 and pre = "''MONGO''" and x = "''Addr''" and k = "''MONGO_ADDR''" and r = False
      and f = "\<lambda>s c. c\<lparr>mongo_Addr := s\<rparr>", OF assms]
    by (simp add: service_env_vars_def env_field_def zero_service_config_def)
  show "policy_CloneURL cfg = env_text env ''POLICY'' ''POLICY_REPOSITORY_CLONE_URL''"
    using service_env_text [where g = policy_CloneURL and n = 28 and pre = "''POLICY''" and x = "''CloneURL''" and k = "''POLICY_REPOSITORY_CLONE_URL''" and r = False
      and f = "\<lambda>s c. c\<lparr>policy_CloneURL := s\<rparr>", OF assms]
    by (simp add: service_env_vars_def env_field_def zero_service_config_def)
  show "auth_JwkURL cfg = env_text env ''AUTH'' ''AUTH_JWK_URL''"
    using service_env_text [where g = auth_JwkURL and n = 22 and pre = "''AUTH''" and x = "''JwkURL''" and k = "''AUTH_JWK_URL''" and r = False
      and f = "\<lambda>s c. c\<lparr>auth_JwkURL := s\<rparr>", OF assms]
    by (simp add: service_env_vars_def env_field_def zero_service_config_def)
  show "env_given env ''OCM'' ''OCM_ADDR'' \<noteq> None"
    using service_env_text [where g = ocm_Addr and n = 16 and pre = "''OCM''" and x = "''Addr''" and k = "''OCM_ADDR''" and r = True
      and f = "\<lambda>s c. c\<lparr>ocm_Addr := s\<rparr>", OF assms]
    by (simp add: service_env_vars_def env_field_def zero_service_config_def)
  show "env_given env ''NATS'' ''NATS_ADDR'' \<noteq> None"
    using service_env_text [where g = nats_Addr and n = 26 and pre = "''NATS''" and x = "''Addr''" and k = "''NATS_ADDR''" and r = True
      and f = "\<lambda>s c. c\<lparr>nats_Addr := s\<rparr>", OF assms]
    by (simp add: service_env_vars_def env_field_def zero_service_config_def)
  show "auth_Enabled cfg \<longleftrightarrow> env_switch env ''AUTH'' ''AUTH_ENABLED''"
    using service_env_switch [where g = auth_Enabled and n = 21 and pre = "''AUTH''" and x = "''Enabled''" and k = "''AUTH_ENABLED''" and r = False
      and f = "\<lambda>b c. c\<lparr>auth_Enabled := b\<rparr>", OF assms]
    by (simp add: service_env_vars_def env_field_def zero_service_config_def)
  show "ipfilter_Enabled cfg \<longleftrightarrow> env_switch env ''IPFILTER'' ''IP_FILTER_ENABLE''"
    using service_env_switch [where g = ipfilter_Enabled and n = 24 and pre = "''IPFILTER''" and x = "''Enabled''" and k = "''IP_FILTER_ENABLE''" and r = False
      and f = "\<lambda>b c. c\<lparr>ipfilter_Enabled := b\<rparr>", OF assms]
    by (simp add: service_env_vars_def env_field_def zero_service_config_def)
qed

end
