(* ===== verification/Start_Props.thy ===== *)
theory Start_Props
  imports Service_Config
begin

text \<open>
  What the environment the service is started with decides: the storage, who hears of policy changes,
  and which requests are served.
\<close>


lemma truncate_fields [simp]:
  "mongo_Addr (config.truncate c) = mongo_Addr c" "policy_CloneURL (config.truncate c) = policy_CloneURL c"
  "auth_Enabled (config.truncate c) = auth_Enabled c"
  "ipfilter_Enabled (config.truncate c) = ipfilter_Enabled c"
  "http_Host (config.truncate c) = http_Host c" "http_Port (config.truncate c) = http_Port c"
  "http_IdleTimeout (config.truncate c) = http_IdleTimeout c"
  "http_ReadTimeout (config.truncate c) = http_ReadTimeout c"
  "http_WriteTimeout (config.truncate c) = http_WriteTimeout c"
  by (simp_all add: config.defs)



text \<open>
  Only the requests to the cache service carry the OAuth token; a service started without the address of
  the cache or of the signer still runs, and the calls that need it fail.
\<close>

lemma started_clients:
  assumes "service_main X env = Started x"
  shows "hs_httpClient (st_signer x) = pf_httpClient X"
    and "hs_httpClient (st_cache x) = (if auth_Enabled (st_config x)
      then pf_oauth2 X (pf_httpClient X) (oauth_ClientID (st_config x)) (oauth_ClientSecret (st_config x))
             (oauth_TokenURL (st_config x))
      else pf_httpClient X)"
    and "cache_Addr (st_config x) = [] \<Longrightarrow>
      \<exists>e. sv_cacheSet (started_service C ops X x) key namespace scope v ttl h = (Err e, h) \<and> errors_Is ServiceUnavailable e"
    and "signer_Addr (st_config x) = [] \<Longrightarrow>
      \<exists>e. sv_signerSign (started_service C ops X x) namespace key d h = (Err e, h) \<and> errors_Is ServiceUnavailable e"
  using assms
  by (auto simp: service_main_def main_step_Started Let_def signer_New_def cacheclient_New_def
      signer_WithHTTPClient_def cacheclient_WithHTTPClient_def started_service_def svc_New_def
      cacheclient_Set_def signer_Sign_def split: if_splits)










end
