(* ===== verification/Swagger_UI.thy ===== *)
theory Swagger_UI
  imports JS_Base64
begin

text \<open>
  The browser part of the service: the API page under \<^verbatim>\<open>src/swagger\<close> loads bundles of Swagger UI.  The
  bundles are minified, one line of code each, and share their helper functions; this theory models
  the helpers the page uses on text that comes from outside (\<^verbatim>\<open>sanitizeUrl\<close> and its caller, the
  path of a deep link, the test whether a URL may be sent to the public validator) and the code
  verifier of the page's OAuth login (RFC 7636).  The rest of the bundles, their user interface, is
  not modelled.  A JavaScript string is the list of its UTF-16 code units.
\<close>

section \<open>JavaScript strings\<close>

type_synonym jsstring = "nat list"

definition js :: "string \<Rightarrow> jsstring" where
  "js s = map of_char s"

text \<open>A value whose \<^verbatim>\<open>typeof\<close> the helpers test; \<open>JsOther\<close> is any value that is not a string.\<close>

datatype jsvalue = JsString jsstring | JsOther

text \<open>The white space of \<^verbatim>\<open>trim\<close> and of the regular expression \<^verbatim>\<open>\s\<close>.\<close>

definition js_space :: "nat \<Rightarrow> bool" where
  "js_space c \<longleftrightarrow>
     9 \<le> c \<and> c \<le> 13 \<or> 8192 \<le> c \<and> c \<le> 8202 \<or>
     c \<in> {32, 160, 5760, 8232, 8233, 8239, 8287, 12288, 65279}"

definition js_trim :: "jsstring \<Rightarrow> jsstring" where
  "js_trim s = rev (dropWhile js_space (rev (dropWhile js_space s)))"

definition js_lower :: "nat \<Rightarrow> nat" where
  "js_lower c = (if 65 \<le> c \<and> c \<le> 90 then c + 32 else c)"

fun js_contains :: "jsstring \<Rightarrow> jsstring \<Rightarrow> bool" where
  "js_contains p [] = (p = [])"
| "js_contains p (c # s) = (prefix p (c # s) \<or> js_contains p s)"

section \<open>URLs shown by the page\<close>

text \<open>
  \<open>shown_char\<close> is the complement of the class \<^verbatim>\<open>[^\x20-\x7E...]\<close> whose characters are removed, \<open>script_scheme\<close> the test
  \<^verbatim>\<open>/^(%20|\s)*(javascript|data|vbscript)/im\<close> on a text of one line, and \<open>scheme_match\<close> the first match of
  \<^verbatim>\<open>/^([^:]+):/gm\<close> on one.  No line break survives the removal, so both look at the start of the text only.
\<close>

definition shown_char :: "nat \<Rightarrow> bool" where
  "shown_char c \<longleftrightarrow> 32 \<le> c \<and> c \<le> 126 \<or> 192 \<le> c \<and> c \<le> 382"

definition scheme_match :: "jsstring \<Rightarrow> jsstring option" where
  "scheme_match s =
     (let p = takeWhile (\<lambda>c. c \<noteq> 58) s in if p = [] \<or> p = s then None else Some (p @ [58]))"

fun skip_blanks :: "jsstring \<Rightarrow> jsstring" where
  "skip_blanks [] = []"
| "skip_blanks (c # s) =
     (if js_space c then skip_blanks s
      else if c = 37 \<and> take 2 s = js ''20'' then skip_blanks (drop 2 s)
      else c # s)"

definition script_words :: "jsstring list" where
  "script_words = [js ''javascript'', js ''data'', js ''vbscript'']"

definition script_scheme :: "jsstring \<Rightarrow> bool" where
  "script_scheme s \<longleftrightarrow> list_ex (\<lambda>w. prefix w (map js_lower (skip_blanks s))) script_words"

definition about_blank :: jsstring where
  "about_blank = js ''about:blank''"

definition sanitizeUrl :: "jsstring \<Rightarrow> jsstring" where
  "sanitizeUrl url =
     (if url = [] then about_blank
      else let s = js_trim (filter shown_char url)
           in if take 1 s = js ''.'' \<or> take 1 s = js ''/'' then s
              else case scheme_match s of
                     None \<Rightarrow> s
                   | Some m \<Rightarrow> if script_scheme m then about_blank else s)"

text \<open>The helper of the bundles that calls it.\<close>

definition safe_url :: "jsvalue \<Rightarrow> jsstring" where
  "safe_url v = (case v of JsString s \<Rightarrow> if s = [] then [] else sanitizeUrl s | JsOther \<Rightarrow> [])"

text \<open>
  What a browser takes for the scheme: leading control characters and spaces and all tabs and line
  breaks are dropped, and letters compare without case.
\<close>

definition browser_text :: "jsstring \<Rightarrow> jsstring" where
  "browser_text u = map js_lower (filter (\<lambda>c. c \<notin> {9, 10, 13}) (dropWhile (\<lambda>c. c \<le> 32) u))"

definition runs_script :: "jsstring \<Rightarrow> bool" where
  "runs_script u \<longleftrightarrow> list_ex (\<lambda>w. prefix (w @ [58]) (browser_text u)) script_words"

section \<open>Deep links and the validator\<close>

definition createDeepLinkPath :: "jsvalue \<Rightarrow> jsstring" where
  "createDeepLinkPath v =
     (case v of
        JsString s \<Rightarrow> concat (map (\<lambda>c. if js_space c then js ''%20'' else [c]) (js_trim s))
      | JsOther \<Rightarrow> [])"

definition requiresValidationURL :: "jsstring \<Rightarrow> bool" where
  "requiresValidationURL uri \<longleftrightarrow>
     \<not> (uri = [] \<or> js_contains (js ''localhost'') uri \<or> js_contains (js ''127.0.0.1'') uri
        \<or> uri = js ''none'')"

section \<open>The code verifier of the OAuth login\<close>

definition b64toB64UrlEncoded :: "string \<Rightarrow> string" where
  "b64toB64UrlEncoded s =
     filter (\<lambda>c. c \<noteq> CHR ''='')
       (map (\<lambda>c. if c = CHR ''/'' then CHR ''_'' else c)
         (map (\<lambda>c. if c = CHR ''+'' then CHR ''-'' else c) s))"

text \<open>The random bytes the generator draws are its argument.\<close>

definition generateCodeVerifier :: "byte list \<Rightarrow> string" where
  "generateCodeVerifier bytes = b64toB64UrlEncoded (fromByteArray bytes)"

text \<open>The characters RFC 7636 allows.\<close>

definition verifier_char :: "char \<Rightarrow> bool" where
  "verifier_char c \<longleftrightarrow>
     c \<in> set ''ABCDEFGHIJKLMNOPQRSTUVWXYZabcdefghijklmnopqrstuvwxyz0123456789-._~''"

section \<open>No script scheme survives\<close>

lemma js_lower_colon [simp]: "js_lower c = 58 \<longleftrightarrow> c = 58"
  by (auto simp: js_lower_def)

lemma set_js_trim: "set (js_trim s) \<subseteq> set s"
  by (auto simp: js_trim_def dest!: set_dropWhileD)

lemma js_trim_first: "js_trim s = c # t \<Longrightarrow> \<not> js_space c"
proof -
  assume trim: "js_trim s = c # t"
  let ?u = "dropWhile js_space s"
  from trim have "rev (js_trim s) = rev t @ [c]" by simp
  then have suf: "dropWhile js_space (rev ?u) = rev t @ [c]" by (simp add: js_trim_def)
  obtain v where "rev ?u = v @ rev t @ [c]"
    using takeWhile_dropWhile_id [of js_space "rev ?u"] suf by metis
  then have "?u = c # t @ rev v" by (metis append.assoc append_Cons append_Nil rev.simps rev_append rev_rev_ident)
  then show ?thesis using hd_dropWhile [of js_space s] by simp
qed

lemma shown_trimmed:
  assumes "s = js_trim (filter shown_char url)"
  shows "browser_text s = map js_lower s"
proof -
  have shown: "shown_char c" if "c \<in> set s" for c
    using that assms set_js_trim [of "filter shown_char url"] by auto
  have "dropWhile (\<lambda>c. c \<le> 32) s = s"
  proof (cases s)
    case (Cons c t)
    then have "\<not> js_space c" using assms js_trim_first by metis
    moreover have "shown_char c" using shown Cons by simp
    ultimately show ?thesis using Cons by (auto simp: js_space_def shown_char_def)
  qed simp
  moreover have "filter (\<lambda>c. c \<notin> {9, 10, 13}) s = s"
    using shown [of 9] shown [of 10] shown [of 13] by (auto simp: filter_id_conv shown_char_def)
  ultimately show ?thesis by (simp add: browser_text_def)
qed

lemma script_word_text:
  "w \<in> set script_words \<Longrightarrow> w \<noteq> [] \<and> 97 \<le> w ! 0 \<and> w ! 0 \<le> 122 \<and> 58 \<notin> set w"
  by (auto simp: script_words_def js_def)

lemma lowered_scheme:
  assumes "prefix (w @ [58]) (map js_lower s)" and w: "w \<in> set script_words"
  obtains p where "scheme_match s = Some (p @ [58])" and "map js_lower p = w" and "prefix p s"
proof -
  from assms(1) obtain t where "map js_lower s = w @ 58 # t" by (auto simp: prefix_def)
  then obtain p q where s: "s = p @ q" and p: "map js_lower p = w" and q: "map js_lower q = 58 # t"
    by (metis map_eq_append_conv)
  from q obtain r where r: "q = 58 # r" by (cases q) auto
  have "58 \<notin> set p" using p script_word_text [OF w] by force
  then have "takeWhile (\<lambda>c. c \<noteq> 58) s = p"
    unfolding s r by (subst takeWhile_append2) auto
  moreover have "p \<noteq> []" using p script_word_text [OF w] by auto
  ultimately have "scheme_match s = Some (p @ [58])" by (simp add: scheme_match_def s r)
  then show thesis using that p s by simp
qed

lemma script_scheme_word:
  assumes "map js_lower p = w" and w: "w \<in> set script_words"
  shows "script_scheme (p @ [58])"
proof -
  obtain c t where p: "p = c # t" using assms script_word_text [OF w] by (cases p) auto
  have "js_lower c = w ! 0" using assms p by auto
  then have "97 \<le> js_lower c \<and> js_lower c \<le> 122" using script_word_text [OF w] by simp
  then have "\<not> js_space c" "c \<noteq> 37" by (auto simp: js_lower_def js_space_def split: if_splits)
  then have "skip_blanks (p @ [58]) = p @ [58]" by (simp add: p)
  then show ?thesis using assms by (auto simp: script_scheme_def list_ex_iff intro: bexI [of _ w])
qed

lemma about_blank_safe: "\<not> runs_script about_blank"
  by code_simp

lemma sanitizeUrl_no_script: "\<not> runs_script (sanitizeUrl url)"
proof (cases "sanitizeUrl url = about_blank")
  case True
  then show ?thesis using about_blank_safe by simp
next
  case False
  define s where "s = js_trim (filter shown_char url)"
  have url: "sanitizeUrl url = s" and kept: "take 1 s = js ''.'' \<or> take 1 s = js ''/'' \<or> (\<forall>m. scheme_match s = Some m \<longrightarrow> \<not> script_scheme m)"
    using False by (auto simp: sanitizeUrl_def s_def Let_def split: if_splits option.splits)
  show ?thesis
  proof
    assume "runs_script (sanitizeUrl url)"
    then obtain w where w: "w \<in> set script_words" and "prefix (w @ [58]) (map js_lower s)"
      using shown_trimmed [OF s_def] url by (auto simp: runs_script_def list_ex_iff)
    then obtain p where m: "scheme_match s = Some (p @ [58])" and p: "map js_lower p = w"
      and pre: "prefix p s" by (metis lowered_scheme)
    obtain c t where ct: "p = c # t" using p script_word_text [OF w] by (cases p) auto
    then have "take 1 s = [c]" using pre by (auto simp: prefix_def)
    moreover have "97 \<le> js_lower c" using p ct script_word_text [OF w] by auto
    ultimately have "take 1 s \<noteq> js ''.''" "take 1 s \<noteq> js ''/''"
      by (auto simp: js_def js_lower_def split: if_splits)
    then show False using kept m script_scheme_word [OF p w] by blast
  qed
qed

lemma safe_url_no_script: "\<not> runs_script (safe_url v)"
proof -
  have "\<not> runs_script []" by code_simp
  then show ?thesis using sanitizeUrl_no_script by (simp add: safe_url_def split: jsvalue.split)
qed

text \<open>The sanitised URL starts with a visible character and has no control characters.\<close>

definition clean_url :: "jsstring \<Rightarrow> bool" where
  "clean_url s \<longleftrightarrow> list_all (\<lambda>c. 32 \<le> c) s \<and> (s \<noteq> [] \<longrightarrow> 32 < s ! 0)"

lemma trimmed_clean: "clean_url (js_trim (filter shown_char url))"
proof -
  let ?s = "js_trim (filter shown_char url)"
  have "shown_char c" if "c \<in> set ?s" for c
    using that set_js_trim [of "filter shown_char url"] by auto
  then have shown: "list_all (\<lambda>c. 32 \<le> c) ?s"
    by (fastforce simp: list_all_iff shown_char_def)
  show ?thesis
  proof (cases ?s)
    case Nil
    then show ?thesis by (simp add: clean_url_def)
  next
    case (Cons c t)
    then have "\<not> js_space c" using js_trim_first by blast
    then have "c \<noteq> 32" by (auto simp: js_space_def)
    then show ?thesis using shown unfolding Cons by (simp add: clean_url_def)
  qed
qed

lemma sanitizeUrl_clean: "clean_url (sanitizeUrl url)"
proof -
  have "clean_url about_blank" by code_simp
  then show ?thesis using trimmed_clean by (simp add: sanitizeUrl_def Let_def split: option.split)
qed

lemma safe_url_clean: "clean_url (safe_url v)"
  using sanitizeUrl_clean by (simp add: safe_url_def clean_url_def split: jsvalue.split)

lemma browser_text_clean:
  assumes "clean_url s" and "32 < c"
  shows "browser_text (s @ c # q) = map js_lower s @ browser_text (c # q)"
    and "browser_text s = map js_lower s"
proof -
  have drop: "dropWhile (\<lambda>c. c \<le> 32) (s @ r) = s @ (if s = [] then dropWhile (\<lambda>c. c \<le> 32) r else r)" for r
    using assms(1) by (cases s) (auto simp: clean_url_def)
  have "filter (\<lambda>c. c \<notin> {9, 10, 13}) s = s"
    using assms(1) by (fastforce simp: clean_url_def filter_id_conv list_all_iff)
  then show "browser_text (s @ c # q) = map js_lower s @ browser_text (c # q)"
    and "browser_text s = map js_lower s"
    using drop [of "c # q"] drop [of "[]"] assms(2) by (simp_all add: browser_text_def)
qed

text \<open>Neither \<^verbatim>\<open>?\<close> nor \<^verbatim>\<open>&\<close> is part of a script scheme, so a query cannot complete one.\<close>

lemma prefix_before: "prefix p (a @ c # b) \<Longrightarrow> c \<notin> set p \<Longrightarrow> prefix p a"
  by (auto simp: prefix_def append_eq_append_conv2 Cons_eq_append_conv)

lemma query_no_script:
  assumes "clean_url s" and "\<not> runs_script s" and "c = 63 \<or> c = 38"
  shows "\<not> runs_script (s @ c # q)"
proof
  assume "runs_script (s @ c # q)"
  moreover obtain r where "browser_text (c # q) = c # r"
    using assms(3) by (auto simp: browser_text_def js_lower_def)
  ultimately obtain w where w: "w \<in> set script_words" "prefix (w @ [58]) (map js_lower s @ c # r)"
    using browser_text_clean(1) [OF assms(1), of c q] assms(3) by (auto simp: runs_script_def list_ex_iff)
  have "c \<notin> set (w @ [58])" using w(1) assms(3) by (auto simp: script_words_def js_def)
  then have "prefix (w @ [58]) (browser_text s)"
    using prefix_before [OF w(2)] browser_text_clean(2) [OF assms(1), of 63] by simp
  then show False using w(1) assms(2) by (auto simp: runs_script_def list_ex_iff)
qed

text \<open>C38: Whatever text is given, the URL that \<^verbatim>\<open>sanitizeUrl\<close> and the page's own helper around it return is not one a browser reads as a
  \<^verbatim>\<open>javascript\<close>, \<^verbatim>\<open>data\<close> or \<^verbatim>\<open>vbscript\<close> URL, whatever the case of its letters and whatever blanks and
  control characters it was mixed with.\<close>

theorem sanitizeUrl_safe: "\<not> runs_script (sanitizeUrl url) \<and> \<not> runs_script (safe_url v)"
  using sanitizeUrl_no_script safe_url_no_script by simp

section \<open>The code verifier\<close>

lemma b64_char_no_pad: "n < 64 \<Longrightarrow> b64_char n \<noteq> CHR ''=''"
  using b64_val_char [of n] b64_val_pad by auto

lemma url_encoded_length:
  "length (b64toB64UrlEncoded (b64_encode s)) = (4 * length s + 2) div 3"
proof (induction s rule: b64_encode.induct)
  case (2 a)
  note g = byte_groups [OF of_char_lt [of a] of_char_lt [of a] of_char_lt [of a]]
  show ?case using b64_char_no_pad [OF g(6)] b64_char_no_pad [OF g(8)]
    by (simp add: b64toB64UrlEncoded_def Let_def)
next
  case (3 a b)
  note g = byte_groups [OF of_char_lt [of a] of_char_lt [of b] of_char_lt [of b]]
  show ?case using b64_char_no_pad [OF g(4)] b64_char_no_pad [OF g(7)] b64_char_no_pad [OF g(8)]
    by (simp add: b64toB64UrlEncoded_def Let_def)
next
  case (4 a b c s)
  note g = byte_groups [OF of_char_lt [of a] of_char_lt [of b] of_char_lt [of c]]
  show ?case
    using 4 b64_char_no_pad [OF g(4)] b64_char_no_pad [OF g(5)] b64_char_no_pad [OF g(8)]
      b64_char_no_pad [of "of_char c mod 64"]
    by (simp add: b64toB64UrlEncoded_def Let_def)
qed (simp add: b64toB64UrlEncoded_def)

lemma generateCodeVerifier_length: "length (generateCodeVerifier bytes) = (4 * length bytes + 2) div 3"
  by (simp add: generateCodeVerifier_def fromByteArray_groups url_encoded_length)

lemma verifier_alphabet:
  "list_all (\<lambda>c. list_all verifier_char (b64toB64UrlEncoded [c])) (CHR ''='' # b64_alphabet)"
  by code_simp

lemma generateCodeVerifier_chars: "list_all verifier_char (generateCodeVerifier bytes)"
proof -
  have "verifier_char d" if "c \<in> set (fromByteArray bytes)" "d \<in> set (b64toB64UrlEncoded [c])" for c d
    using that b64_encode_chars [of c "map byte_char bytes"] verifier_alphabet
    by (auto simp: list_all_iff fromByteArray_groups)
  then show ?thesis
    by (fastforce simp: generateCodeVerifier_def b64toB64UrlEncoded_def list_all_iff)
qed

text \<open>C35: The 32 random bytes of the OAuth login become a code verifier that RFC 7636 allows: 43
  characters, all from its alphabet, without padding.\<close>

theorem code_verifier_allowed:
  assumes "length bytes = 32"
  shows "length (generateCodeVerifier bytes) = 43 \<and> list_all verifier_char (generateCodeVerifier bytes)"
  using assms generateCodeVerifier_chars by (simp add: generateCodeVerifier_length)

theorem code_verifier_allowed_witness:
  "length (generateCodeVerifier (replicate 32 251)) = 43
   \<and> list_all verifier_char (generateCodeVerifier (replicate 32 251))"
  by (rule code_verifier_allowed) simp

end
