(* ===== verification/Swagger_Curl.thy ===== *)
theory Swagger_Curl
  imports Header
begin

text \<open>
  The request snippets of Swagger UI (\<^verbatim>\<open>src/swagger/swagger-ui-es-bundle-core.js\<close>): for every request made
  from the API page the page shows the curl command for bash, cmd and PowerShell.  The model covers the
  quoting of arguments for the three shells and the command line that is built from the request.  The
  reference is a reading of POSIX shell words: quotes, escaped characters, line continuations and
  command separators.  Strings are represented by their UTF-8 bytes.
\<close>

section \<open>Quoting an argument\<close>

definition replace_all :: "char \<Rightarrow> string \<Rightarrow> string \<Rightarrow> string" where
  "replace_all c r s = concat (map (\<lambda>x. if x = c then r else [x]) s)"

text \<open>\<^verbatim>\<open>/^[_\/-]/\<close>: such an argument is taken for an option and left as it is.\<close>

definition option_like :: "string \<Rightarrow> bool" where
  "option_like s \<longleftrightarrow> (case s of [] \<Rightarrow> False | c # _ \<Rightarrow> c \<in> {CHR ''_'', CHR ''/'', CHR ''-''})"

definition quote :: char where "quote = CHR 0x27"
definition dquote :: char where "dquote = CHR 0x22"
definition backslash :: char where "backslash = CHR 0x5C"
definition newline :: char where "newline = CHR 0x0A"

definition escapeShell :: "string \<Rightarrow> string" where
  "escapeShell s =
     (if s = ''-d '' then s
      else if option_like s then s
      else [quote] @ replace_all quote [quote, backslash, quote, quote] s @ [quote])"

text \<open>The two-character text \<^verbatim>\<open>\"\<close> gets a second backslash.\<close>

fun double_backslash :: "string \<Rightarrow> string" where
  "double_backslash (a # b # s) =
     (if a = backslash \<and> b = dquote then [backslash, backslash, dquote] @ double_backslash s
      else a # double_backslash (b # s))"
| "double_backslash s = s"

definition escapeCMD :: "string \<Rightarrow> string" where
  "escapeCMD s =
     (let e = replace_all newline (CHR ''^'' # [newline])
                (replace_all dquote [dquote, dquote]
                  (double_backslash (replace_all CHR ''^'' ''^^'' s)))
      in if e = ''-d '' then ''-d ^'' @ [newline]
         else if option_like e then e
         else [dquote] @ e @ [dquote])"

text \<open>The regular expression for the dollar sign has no global flag: only the first one is replaced.\<close>

fun replace_first :: "char \<Rightarrow> string \<Rightarrow> string \<Rightarrow> string" where
  "replace_first c r [] = []"
| "replace_first c r (x # s) = (if x = c then r @ s else x # replace_first c r s)"

definition backquote :: char where "backquote = CHR 0x60"

definition escapePowershell :: "string \<Rightarrow> string" where
  "escapePowershell s =
     (if s = ''-d '' then s
      else if newline \<in> set s then
        ''@'' @ [dquote, newline]
        @ replace_first CHR ''$'' [backquote, CHR ''$'']
            (replace_all backquote [backquote, backquote] (replace_all dquote [backslash, dquote] s))
        @ [newline, dquote] @ ''@''
      else if option_like s then s
      else [quote] @ replace_all quote [quote, quote] (replace_all dquote [dquote, dquote] s) @ [quote])"

section \<open>The request\<close>

text \<open>
  A value of a form is a file or any other value, given by its two texts: as a string and as indented
  JSON.  A body is a string, a map (a form), or another value, given by its JSON text; an empty string
  counts as no body.
\<close>

datatype form_value = FileValue string string | OtherValue string string

datatype request_body = NoBody | TextBody string | FormBody "(string \<times> form_value) list" | OtherBody string

record curl_request =
  cq_method :: string
  cq_url :: string
  cq_headers :: "(string \<times> string) list"
  cq_curlOptions :: "string list option"
  cq_body :: request_body

text \<open>The UTF-8 bytes of the white space that \<^verbatim>\<open>trim\<close> removes.\<close>

definition js_spaces :: "string list" where
  "js_spaces =
     map (\<lambda>n. [char_of (n :: nat)]) [9, 10, 11, 12, 13, 32]
     @ [[CHR 0xC2, CHR 0xA0], [CHR 0xE1, CHR 0x9A, CHR 0x80]]
     @ map (\<lambda>n. [CHR 0xE2, CHR 0x80, char_of (n :: nat)]) [128, 129, 130, 131, 132, 133, 134, 135, 136, 137, 138, 168, 169, 175]
     @ [[CHR 0xE2, CHR 0x81, CHR 0x9F], [CHR 0xE3, CHR 0x80, CHR 0x80], [CHR 0xEF, CHR 0xBB, CHR 0xBF]]"

function strip :: "string list \<Rightarrow> string \<Rightarrow> string" where
  "strip ws s =
     (case find (\<lambda>w. w \<noteq> [] \<and> prefix w s) ws of
        None \<Rightarrow> s
      | Some w \<Rightarrow> strip ws (drop (length w) s))"
  by pat_completeness auto
termination
  by (relation "measure (length \<circ> snd)") (auto simp: find_Some_iff prefix_def)

definition js_trim_bytes :: "string \<Rightarrow> string" where
  "js_trim_bytes s = rev (strip (map rev js_spaces) (rev (strip js_spaces s)))"

fun before :: "string \<Rightarrow> string \<Rightarrow> string option" where
  "before sep [] = (if sep = [] then Some [] else None)"
| "before sep (c # s) = (if prefix sep (c # s) then Some [] else map_option ((#) c) (before sep s))"

text \<open>Repeated keys of a form carry a suffix that starts with \<^verbatim>\<open>_**[]\<close>.\<close>

definition extractKey :: "string \<Rightarrow> string" where
  "extractKey k = (case before ''_**[]'' k of None \<Rightarrow> k | Some p \<Rightarrow> js_trim_bytes p)"

fun indent_lines :: "string \<Rightarrow> string" where
  "indent_lines [] = []"
| "indent_lines (c # s) =
     (if c = CHR 0x0D then
        (case s of
           d # t \<Rightarrow> if d = newline then [newline] @ ''  '' @ indent_lines t else [newline] @ ''  '' @ indent_lines s
         | [] \<Rightarrow> [newline] @ ''  '')
      else if c = newline then [newline] @ ''  '' @ indent_lines s
      else c # indent_lines s)"

definition stringified_entry :: "string \<times> form_value \<Rightarrow> string" where
  "stringified_entry kv =
     (case kv of
        (k, FileValue n t) \<Rightarrow>
          ''  '' @ [dquote] @ extractKey k @ [dquote] @ '': {'' @ [newline] @ ''    '' @ [dquote] @ ''name'' @ [dquote]
          @ '': '' @ [dquote] @ n @ [dquote]
          @ (if t = [] then []
             else '','' @ [newline] @ ''    '' @ [dquote] @ ''type'' @ [dquote] @ '': '' @ [dquote] @ t @ [dquote])
          @ [newline] @ ''  }''
      | (k, OtherValue t j) \<Rightarrow> ''  '' @ [dquote] @ extractKey k @ [dquote] @ '': '' @ indent_lines j)"

definition getStringBodyOfMap :: "(string \<times> form_value) list \<Rightarrow> string" where
  "getStringBodyOfMap m =
     ''{'' @ [newline] @ join_with ('','' @ [newline]) (map stringified_entry m) @ [newline] @ ''}''"

section \<open>The command\<close>

definition addWordsWithoutLeadingSpace :: "(string \<Rightarrow> string) \<Rightarrow> string list \<Rightarrow> string" where
  "addWordsWithoutLeadingSpace escape args = join_with '' '' (map escape args)"

definition addWords :: "(string \<Rightarrow> string) \<Rightarrow> string list \<Rightarrow> string" where
  "addWords escape args = '' '' @ addWordsWithoutLeadingSpace escape args"

definition addNewLine :: "string \<Rightarrow> string" where
  "addNewLine newLine = '' '' @ newLine"

definition addIndent :: string where
  "addIndent = ''  ''"

definition multipart :: "(string \<times> string) list \<Rightarrow> bool" where
  "multipart hs \<longleftrightarrow>
     list_ex (\<lambda>(h, v). map down h = ''content-type'' \<and> map down v = ''multipart/form-data'') hs"

definition form_argument :: "string \<times> form_value \<Rightarrow> string" where
  "form_argument kv =
     (case kv of
        (k, FileValue n t) \<Rightarrow> extractKey k @ ''=@'' @ n @ (if t = [] then [] else '';type='' @ t)
      | (k, OtherValue t j) \<Rightarrow> extractKey k @ ''='' @ t)"

definition no_body :: "request_body \<Rightarrow> bool" where
  "no_body b \<longleftrightarrow> b = NoBody \<or> b = TextBody []"

text \<open>A multipart body that is not a map has no entries to go through, which is a \<^verbatim>\<open>TypeError\<close>.\<close>

definition curl_body :: "(string \<Rightarrow> string) \<Rightarrow> string \<Rightarrow> curl_request \<Rightarrow> string outcome" where
  "curl_body escape newLine req =
     (if no_body (cq_body req) then
        Ok (if cq_method req = ''POST''
            then addNewLine newLine @ addIndent
                 @ addWordsWithoutLeadingSpace escape [''-d '' @ [quote, quote]]
            else [])
      else if multipart (cq_headers req) \<and> cq_method req \<in> {''POST'', ''PUT'', ''PATCH''} then
        (case cq_body req of
           FormBody m \<Rightarrow>
             Ok (concat (map (\<lambda>kv. addNewLine newLine @ addIndent
                                   @ addWordsWithoutLeadingSpace escape [''-F'']
                                   @ addWords escape [form_argument kv]) m))
         | _ \<Rightarrow> Err (Plain ''TypeError''))
      else
        Ok (addNewLine newLine @ addIndent @ addWordsWithoutLeadingSpace escape [''-d '']
            @ addWordsWithoutLeadingSpace escape
                [case cq_body req of
                   FormBody m \<Rightarrow> getStringBodyOfMap m | TextBody t \<Rightarrow> t | OtherBody j \<Rightarrow> j | NoBody \<Rightarrow> []]))"

definition curlify :: "curl_request \<Rightarrow> (string \<Rightarrow> string) \<Rightarrow> string \<Rightarrow> string \<Rightarrow> string outcome" where
  "curlify req escape newLine ext =
     obind (curl_body escape newLine req) (\<lambda>body.
       Ok (''curl'' @ ext
           @ (case cq_curlOptions req of None \<Rightarrow> [] | Some os \<Rightarrow> addWords escape os)
           @ addWords escape [''-X'', cq_method req] @ addNewLine newLine @ addIndent
           @ addWordsWithoutLeadingSpace escape [cq_url req]
           @ concat (map (\<lambda>(h, v). addNewLine newLine @ addIndent
                             @ addWordsWithoutLeadingSpace escape [''-H'', h @ '': '' @ v]) (cq_headers req))
           @ body))"

definition curl_powershell :: "curl_request \<Rightarrow> string outcome" where
  "curl_powershell req = curlify req escapePowershell [backquote, newline] ''.exe''"

definition curl_bash :: "curl_request \<Rightarrow> string outcome" where
  "curl_bash req = curlify req escapeShell [backslash, newline] []"

definition curl_cmd :: "curl_request \<Rightarrow> string outcome" where
  "curl_cmd req = curlify req escapeCMD (CHR ''^'' # [newline]) []"

declare strip.simps [simp del]

section \<open>Reading shell words\<close>

text \<open>
  Characters that a POSIX shell takes as they are in an unquoted word; a text with any other unquoted
  character but blanks, separators, quotes and backslashes is not read (\<open>None\<close>), since the shell might
  expand it.  The result is the list of the simple commands, each the list of its words.
\<close>

definition word_char :: "char \<Rightarrow> bool" where
  "word_char c \<longleftrightarrow>
     is_lower c \<or> is_upper c \<or> (48 :: nat) \<le> of_char c \<and> of_char c \<le> (57 :: nat) \<or> c \<in> set ''-_./:@%+,=''"

definition close_word :: "string option \<Rightarrow> string list \<Rightarrow> string list" where
  "close_word cur ws = (case cur of None \<Rightarrow> ws | Some w \<Rightarrow> ws @ [w])"

definition add_char :: "char \<Rightarrow> string option \<Rightarrow> string option" where
  "add_char c cur = Some ((case cur of None \<Rightarrow> [] | Some w \<Rightarrow> w) @ [c])"

fun shell :: "bool \<Rightarrow> string \<Rightarrow> string option \<Rightarrow> string list \<Rightarrow> string list list option" where
  "shell q [] cur ws = (if q then None else Some [close_word cur ws])"
| "shell True (c # s) cur ws =
     (if c = quote then shell False s cur ws else shell True s (add_char c cur) ws)"
| "shell False (c # s) cur ws =
     (if c = quote then shell True s (case cur of None \<Rightarrow> Some [] | Some w \<Rightarrow> Some w) ws
      else if c = backslash then
        (case s of
           [] \<Rightarrow> None
         | d # t \<Rightarrow> if d = newline then shell False t cur ws else shell False t (add_char d cur) ws)
      else if c = CHR '' '' then shell False s None (close_word cur ws)
      else if c = newline \<or> c = CHR '';'' then
        map_option (\<lambda>r. close_word cur ws # r) (shell False s None [])
      else if word_char c then shell False s (add_char c cur) ws
      else None)"

definition shell_commands :: "string \<Rightarrow> string list list option" where
  "shell_commands s = shell False s None []"

text \<open>An argument is safe if it is quoted, or if it is an option of harmless characters.\<close>

definition safe_arg :: "string \<Rightarrow> bool" where
  "safe_arg s \<longleftrightarrow> \<not> option_like s \<or> list_all word_char s"

lemma shell_chars [simp]:
  "quote \<noteq> backslash" "backslash \<noteq> quote" "CHR '' '' \<noteq> quote" "CHR '' '' \<noteq> backslash" "newline \<noteq> quote" "quote \<noteq> newline" "CHR '';'' \<noteq> quote" "CHR '';'' \<noteq> backslash"
  "\<not> word_char quote" "\<not> word_char backslash" "\<not> word_char newline" "\<not> word_char CHR '' ''" "\<not> word_char CHR '';''"
  by code_simp+

lemma word_char_plain:
  "word_char c \<Longrightarrow> c \<noteq> quote \<and> c \<noteq> backslash \<and> c \<noteq> CHR '' '' \<and> c \<noteq> newline \<and> c \<noteq> CHR '';''"
  using shell_chars by metis

lemma replace_all_Cons [simp]: "replace_all c r (x # s) = (if x = c then r else [x]) @ replace_all c r s"
  and replace_all_Nil [simp]: "replace_all c r [] = []"
  by (simp_all add: replace_all_def)

lemma shell_quoted:
  "shell True (replace_all quote [quote, backslash, quote, quote] e @ [quote] @ s) (Some w) ws = shell False s (Some (w @ e)) ws"
  by (induction e arbitrary: w) (simp_all add: add_char_def)

lemma shell_plain:
  "list_all word_char e \<Longrightarrow> shell False (e @ s) (Some w) ws = shell False s (Some (w @ e)) ws"
  by (induction e arbitrary: w) (auto simp: add_char_def dest: word_char_plain)

lemma escapeShell_quoted:
  "\<not> option_like e \<Longrightarrow> escapeShell e = [quote] @ replace_all quote [quote, backslash, quote, quote] e @ [quote]"
  by (auto simp: escapeShell_def option_like_def)

text \<open>One quoted argument is read back as one word.\<close>

lemma shell_arg:
  assumes "safe_arg e"
  shows "shell False (escapeShell e @ s) None ws = shell False s (Some e) ws"
proof (cases "option_like e")
  case True
  then obtain c t where e: "e = c # t" by (auto simp: option_like_def split: list.splits)
  have "list_all word_char e" using assms True by (simp add: safe_arg_def)
  then have "word_char c" "list_all word_char t" by (simp_all add: e)
  then have "shell False (e @ s) None ws = shell False s (Some e) ws"
    using word_char_plain [of c] shell_plain [of t s "[c]" ws] by (simp add: e add_char_def)
  moreover have "escapeShell e = e" using True by (simp add: escapeShell_def)
  ultimately show ?thesis by simp
next
  case False
  then show ?thesis
    using shell_quoted [of e s "[]" ws] unfolding escapeShell_quoted [OF False] by simp
qed

lemma shell_blank [simp]: "shell False (CHR '' '' # s) cur ws = shell False s None (close_word cur ws)"
  by simp

lemma shell_continuation:
  "shell False (addNewLine [backslash, newline] @ addIndent @ s) cur ws = shell False s None (close_word cur ws)"
  by (simp add: addNewLine_def addIndent_def close_word_def)

declare shell.simps(3) [simp del]

lemma close_Some [simp]: "close_word (Some w) ws = ws @ [w]"
  and close_None [simp]: "close_word None ws = ws"
  by (simp_all add: close_word_def)

lemma shell_args:
  assumes "list_all safe_arg es" and "es \<noteq> []"
  shows "shell False (addWordsWithoutLeadingSpace escapeShell es @ s) None ws
    = shell False s (Some (last es)) (ws @ butlast es)"
  using assms
proof (induction es arbitrary: ws)
  case (Cons e es)
  show ?case
  proof (cases es)
    case Nil
    then show ?thesis using Cons.prems shell_arg [of e s ws] by (simp add: addWordsWithoutLeadingSpace_def)
  next
    case (Cons f fs)
    then show ?thesis
      using Cons.prems Cons.IH [of "ws @ [e]"] shell_arg [of e "CHR '' '' # addWordsWithoutLeadingSpace escapeShell es @ s" ws]
      by (simp add: addWordsWithoutLeadingSpace_def)
  qed
qed simp

section \<open>The command line\<close>

text \<open>
  A segment of the command line contributes its words after whatever has been read, which it separates
  from its own by a blank.
\<close>

definition segment :: "string \<Rightarrow> string list \<Rightarrow> bool" where
  "segment t es \<longleftrightarrow>
     (\<forall>s cur ws. \<exists>cur' ws'. shell False (t @ s) cur ws = shell False s cur' ws' \<and>
        close_word cur' ws' = close_word cur ws @ es)"

lemma segmentI:
  "(\<And>s cur ws. \<exists>cur' ws'. shell False (t @ s) cur ws = shell False s cur' ws' \<and>
      close_word cur' ws' = close_word cur ws @ es) \<Longrightarrow> segment t es"
  by (simp add: segment_def)

lemma segment_by:
  assumes "\<And>s cur ws. shell False (t @ s) cur ws = shell False s (c cur ws) (w cur ws)"
    and "\<And>cur ws. close_word (c cur ws) (w cur ws) = close_word cur ws @ es"
  shows "segment t es"
  unfolding segment_def using assms by blast

lemma segment_Nil: "segment [] []"
  by (rule segment_by [where c = "\<lambda>cur ws. cur" and w = "\<lambda>cur ws. ws"]) simp_all

lemma segment_append: "segment t es \<Longrightarrow> segment u fs \<Longrightarrow> segment (t @ u) (es @ fs)"
  unfolding segment_def by (metis append.assoc)

lemma segment_concat: "(\<And>x. x \<in> set xs \<Longrightarrow> segment (f x) (g x)) \<Longrightarrow> segment (concat (map f xs)) (concat (map g xs))"
  by (induction xs) (auto intro: segment_Nil segment_append)

lemma segment_addWords:
  assumes "list_all safe_arg es"
  shows "segment (addWords escapeShell es) es"
proof (cases "es = []")
  case True
  show ?thesis
    by (rule segment_by [where c = "\<lambda>cur ws. None" and w = close_word])
      (simp_all add: True addWords_def addWordsWithoutLeadingSpace_def)
next
  case False
  show ?thesis
  proof (rule segmentI)
    fix s cur ws
    have "shell False (addWords escapeShell es @ s) cur ws = shell False s (Some (last es)) (close_word cur ws @ butlast es)"
      using shell_args [OF assms False] by (simp add: addWords_def)
    then show "\<exists>cur' ws'. shell False (addWords escapeShell es @ s) cur ws = shell False s cur' ws' \<and>
      close_word cur' ws' = close_word cur ws @ es"
      using False by (intro exI conjI) auto
  qed
qed

lemma segment_line:
  assumes "list_all safe_arg es" and "es \<noteq> []"
  shows "segment (addNewLine [backslash, newline] @ addIndent @ addWordsWithoutLeadingSpace escapeShell es) es"
proof (rule segmentI)
  fix s cur ws
  have "shell False ((addNewLine [backslash, newline] @ addIndent @ addWordsWithoutLeadingSpace escapeShell es) @ s) cur ws
    = shell False s (Some (last es)) (close_word cur ws @ butlast es)"
    using shell_args [OF assms] by (simp add: shell_continuation)
  then show "\<exists>cur' ws'. shell False ((addNewLine [backslash, newline] @ addIndent @ addWordsWithoutLeadingSpace escapeShell es) @ s) cur ws
      = shell False s cur' ws' \<and> close_word cur' ws' = close_word cur ws @ es"
    using assms(2) by (intro exI conjI) auto
qed

lemma word_char_dash: "word_char CHR ''-''" "word_char CHR ''d''" "word_char CHR ''F''" "word_char CHR ''H''" "word_char CHR ''X''"
  by code_simp+

lemma shell_flag:
  "shell False (''-d '' @ s) None ws = shell False s None (ws @ [''-d''])"
  using shell_plain [of "''d''" "CHR '' '' # s" "''-''" ws] word_char_dash word_char_plain [of "CHR ''-''"]
  by (subst append.simps, subst shell.simps) (simp add: add_char_def)

lemma flag_unquoted: "addWordsWithoutLeadingSpace escapeShell [''-d ''] = ''-d ''"
  "addWordsWithoutLeadingSpace escapeShell [''-d '' @ [quote, quote]] = ''-d '' @ [quote, quote]"
  by (simp_all add: addWordsWithoutLeadingSpace_def escapeShell_def option_like_def)

lemma segment_data:
  assumes "safe_arg e"
  shows "segment (addNewLine [backslash, newline] @ addIndent @ addWordsWithoutLeadingSpace escapeShell [''-d '']
    @ addWordsWithoutLeadingSpace escapeShell [e]) [''-d'', e]"
proof (rule segmentI)
  fix s cur ws
  show "\<exists>cur' ws'. shell False ((addNewLine [backslash, newline] @ addIndent @ addWordsWithoutLeadingSpace escapeShell [''-d '']
      @ addWordsWithoutLeadingSpace escapeShell [e]) @ s) cur ws = shell False s cur' ws' \<and>
      close_word cur' ws' = close_word cur ws @ [''-d'', e]"
    using shell_args [of "[e]"] assms
    unfolding flag_unquoted append.assoc shell_continuation shell_flag
    by (intro exI conjI) auto
qed

lemma segment_empty_data:
  "segment (addNewLine [backslash, newline] @ addIndent
     @ addWordsWithoutLeadingSpace escapeShell [''-d '' @ [quote, quote]]) [''-d'', []]"
proof (rule segmentI)
  fix s cur ws
  have "shell False ([quote, quote] @ s) None vs = shell False s (Some []) vs" for vs
    by (simp add: shell.simps(3))
  then show "\<exists>cur' ws'. shell False ((addNewLine [backslash, newline] @ addIndent
     @ addWordsWithoutLeadingSpace escapeShell [''-d '' @ [quote, quote]]) @ s) cur ws = shell False s cur' ws' \<and>
      close_word cur' ws' = close_word cur ws @ [''-d'', []]"
    unfolding flag_unquoted append.assoc shell_continuation shell_flag
    by (intro exI conjI) auto
qed

text \<open>The words the body stands for, and the texts of a request that end up in arguments.\<close>

definition body_text :: "request_body \<Rightarrow> string" where
  "body_text b =
     (case b of FormBody m \<Rightarrow> getStringBodyOfMap m | TextBody t \<Rightarrow> t | OtherBody j \<Rightarrow> j | NoBody \<Rightarrow> [])"

definition sends_form :: "curl_request \<Rightarrow> bool" where
  "sends_form req \<longleftrightarrow> multipart (cq_headers req) \<and> cq_method req \<in> {''POST'', ''PUT'', ''PATCH''}"

definition form_entries :: "request_body \<Rightarrow> (string \<times> form_value) list" where
  "form_entries b = (case b of FormBody m \<Rightarrow> m | _ \<Rightarrow> [])"

definition body_words :: "curl_request \<Rightarrow> string list" where
  "body_words req =
     (if no_body (cq_body req) then (if cq_method req = ''POST'' then [''-d'', []] else [])
      else if sends_form req
      then concat (map (\<lambda>kv. [''-F'', form_argument kv]) (form_entries (cq_body req)))
      else [''-d'', body_text (cq_body req)])"

definition command_options :: "curl_request \<Rightarrow> string list" where
  "command_options req = (case cq_curlOptions req of None \<Rightarrow> [] | Some os \<Rightarrow> os)"

definition command_texts :: "curl_request \<Rightarrow> string list" where
  "command_texts req =
     command_options req @ [cq_method req, cq_url req]
     @ map (\<lambda>(h, v). h @ '': '' @ v) (cq_headers req)
     @ (if no_body (cq_body req) then []
        else if sends_form req then map form_argument (form_entries (cq_body req))
        else [body_text (cq_body req)])"

lemma safe_flags: "safe_arg ''-X''" "safe_arg ''-H''" "safe_arg ''-F''"
  using word_char_dash by (simp_all add: safe_arg_def)

lemma segment_body:
  assumes "list_all safe_arg (command_texts req)" and "curl_body escapeShell [backslash, newline] req = Ok t"
  shows "segment t (body_words req)"
proof (cases "no_body (cq_body req)")
  case True
  then show ?thesis
    using assms(2) segment_empty_data segment_Nil by (auto simp: curl_body_def body_words_def split: if_splits)
next
  case no: False
  show ?thesis
  proof (cases "sends_form req")
    case True
    then obtain m where m: "cq_body req = FormBody m"
      using assms(2) no by (auto simp: curl_body_def sends_form_def split: request_body.splits)
    let ?f = "\<lambda>kv. addNewLine [backslash, newline] @ addIndent @ addWordsWithoutLeadingSpace escapeShell [''-F'']
        @ addWords escapeShell [form_argument kv]"
    have each: "segment (?f kv) [''-F'', form_argument kv]" if "kv \<in> set m" for kv
    proof -
      have "safe_arg (form_argument kv)"
        using assms(1) that True no m by (auto simp: command_texts_def form_entries_def list_all_iff)
      then show ?thesis
        using segment_append [OF segment_line [of "[''-F'']"] segment_addWords [of "[form_argument kv]"]] safe_flags
        by simp
    qed
    have "segment (concat (map ?f m)) (concat (map (\<lambda>kv. [''-F'', form_argument kv]) m))"
      by (rule segment_concat) (rule each)
    then show ?thesis
      using assms(2) no True by (simp add: curl_body_def body_words_def sends_form_def m form_entries_def)
  next
    case False
    then have "safe_arg (body_text (cq_body req))" using assms(1) no by (simp add: command_texts_def)
    moreover have "t = addNewLine [backslash, newline] @ addIndent @ addWordsWithoutLeadingSpace escapeShell [''-d '']
        @ addWordsWithoutLeadingSpace escapeShell [body_text (cq_body req)]"
      using assms(2) no False unfolding curl_body_def sends_form_def body_text_def
      by (simp only: if_False outcome.inject)
    moreover have "body_words req = [''-d'', body_text (cq_body req)]"
      using no False by (simp add: body_words_def)
    ultimately show ?thesis using segment_data by simp
  qed
qed

lemma shell_curl: "shell False (''curl'' @ s) None [] = shell False s (Some ''curl'') []"
proof -
  have w: "list_all word_char ''curl''" by code_simp
  then show ?thesis
    using shell_plain [of "''url''" s "''c''" "[]"] word_char_plain [of "CHR ''c''"]
    by (subst append.simps, subst shell.simps) (simp add: add_char_def)
qed

lemma curl_bash_words:
  assumes "list_all safe_arg (command_texts req)" and "curl_bash req = Ok text"
  shows "shell_commands text =
    Some [''curl'' # command_options req @ [''-X'', cq_method req, cq_url req]
          @ concat (map (\<lambda>(h, v). [''-H'', h @ '': '' @ v]) (cq_headers req)) @ body_words req]"
proof -
  let ?nl = "[backslash, newline]" and ?hs = "cq_headers req"
  let ?h = "\<lambda>(h, v). addNewLine ?nl @ addIndent @ addWordsWithoutLeadingSpace escapeShell [''-H'', h @ '': '' @ v]"
  let ?opts = "case cq_curlOptions req of None \<Rightarrow> [] | Some os \<Rightarrow> addWords escapeShell os"
  let ?first = "addWords escapeShell [''-X'', cq_method req]"
  let ?url = "addNewLine ?nl @ addIndent @ addWordsWithoutLeadingSpace escapeShell [cq_url req]"
  obtain b where b: "curl_body escapeShell ?nl req = Ok b"
    and tx: "text = ''curl'' @ ?opts @ ?first @ ?url @ concat (map ?h ?hs) @ b"
    using assms(2) by (cases "curl_body escapeShell ?nl req") (auto simp: curl_bash_def curlify_def)
  have safe: "list_all safe_arg (command_options req)" "safe_arg (cq_method req)" "safe_arg (cq_url req)"
    "\<And>h v. (h, v) \<in> set ?hs \<Longrightarrow> safe_arg (h @ '': '' @ v)"
    using assms(1) by (auto simp: command_texts_def list_all_iff)
  have "segment ?opts (command_options req)"
    using safe(1) segment_addWords segment_Nil by (auto simp: command_options_def split: option.splits)
  moreover have "segment ?first [''-X'', cq_method req]"
    using segment_addWords safe safe_flags by simp
  moreover have "segment ?url [cq_url req]"
    using segment_line [of "[cq_url req]"] safe by simp
  moreover have "segment (concat (map ?h ?hs)) (concat (map (\<lambda>(h, v). [''-H'', h @ '': '' @ v]) ?hs))"
    using segment_line safe safe_flags by (intro segment_concat) (auto simp: list_all_iff)
  ultimately have "segment (?opts @ ?first @ ?url @ concat (map ?h ?hs) @ b)
      (command_options req @ [''-X'', cq_method req] @ [cq_url req]
       @ concat (map (\<lambda>(h, v). [''-H'', h @ '': '' @ v]) ?hs) @ body_words req)"
    using segment_body [OF assms(1) b] by (intro segment_append)
  then obtain cur' ws' where run: "shell False ((?opts @ ?first @ ?url @ concat (map ?h ?hs) @ b) @ []) (Some ''curl'') []
      = shell False [] cur' ws'" and words: "close_word cur' ws' = close_word (Some ''curl'') [] @
      (command_options req @ [''-X'', cq_method req] @ [cq_url req]
       @ concat (map (\<lambda>(h, v). [''-H'', h @ '': '' @ v]) ?hs) @ body_words req)"
    unfolding segment_def by blast
  have "shell_commands text = shell False [] cur' ws'"
    unfolding shell_commands_def tx shell_curl using run by simp
  then show ?thesis using words by simp
qed

section \<open>What the snippets mean\<close>

text \<open>C22: If every text of the request is either quoted by the page (it does not start with an underscore, a
  slash or a hyphen) or made of harmless characters, the bash command shown for the request is read by a
  shell as exactly one command with exactly the request's method, URL, headers and body as its
  arguments, whatever quotes, separators or line breaks they contain.\<close>

theorem bash_snippet_is_request:
  assumes "list_all safe_arg (command_texts req)"
    and "sends_form req \<longrightarrow> no_body (cq_body req) \<or> (\<exists>m. cq_body req = FormBody m)"
  shows "\<exists>t. curl_bash req = Ok t \<and> shell_commands t =
    Some [''curl'' # command_options req @ [''-X'', cq_method req, cq_url req]
          @ concat (map (\<lambda>(h, v). [''-H'', h @ '': '' @ v]) (cq_headers req)) @ body_words req]"
proof -
  have "\<exists>t. curl_bash req = Ok t"
    using assms(2) by (auto simp: curl_bash_def curlify_def curl_body_def sends_form_def)
  then show ?thesis using curl_bash_words [OF assms(1)] by blast
qed

definition ex_curl_request :: curl_request where
  "ex_curl_request =
     \<lparr>cq_method = ''POST'', cq_url = ''https://agent/policy'', cq_headers = [(''Accept'', ''a;b'')],
      cq_curlOptions = None, cq_body = TextBody (''it'' @ [quote] @ ''s; $(reboot)'' @ [newline])\<rparr>"

theorem bash_snippet_is_request_witness:
  "\<exists>t. curl_bash ex_curl_request = Ok t \<and> shell_commands t =
     Some [[''curl'', ''-X'', ''POST'', ''https://agent/policy'', ''-H'', ''Accept: a;b'',
            ''-d'', ''it'' @ [quote] @ ''s; $(reboot)'' @ [newline]]]"
  using bash_snippet_is_request [of ex_curl_request]
  by (simp add: ex_curl_request_def command_texts_def command_options_def body_words_def no_body_def
      sends_form_def multipart_def down_def is_upper_def body_text_def safe_arg_def option_like_def)

text \<open>A body that starts with a hyphen is taken for an option and not quoted: what follows a semicolon
  in it is a command of its own to the shell the snippet is pasted into.\<close>

theorem unquoted_body_is_command:
  assumes "safe_arg url" and "list_all word_char w" and "list_all word_char c" and "c \<noteq> []"
  shows "\<exists>t. curl_bash \<lparr>cq_method = ''POST'', cq_url = url, cq_headers = [], cq_curlOptions = None,
      cq_body = TextBody (''-'' @ w @ '';'' @ c)\<rparr> = Ok t \<and>
    shell_commands t = Some [[''curl'', ''-X'', ''POST'', url, ''-d'', ''-'' @ w], [c]]"
proof -
  let ?nl = "[backslash, newline]" and ?body = "''-'' @ w @ '';'' @ c"
  let ?u = "addWords escapeShell [''-X'', ''POST''] @ addNewLine ?nl @ addIndent @ addWordsWithoutLeadingSpace escapeShell [url]"
  have "option_like ?body" by (simp add: option_like_def)
  then have esc: "addWordsWithoutLeadingSpace escapeShell [?body] = ?body"
    by (simp add: addWordsWithoutLeadingSpace_def escapeShell_def)
  have "safe_arg ''POST''" by (simp add: safe_arg_def option_like_def)
  then have "segment ?u ([''-X'', ''POST''] @ [url])"
    using assms(1) safe_flags segment_line [of "[url]"] by (intro segment_append segment_addWords) auto
  then have run: "\<exists>cur ws. shell False (?u @ s) (Some ''curl'') [] = shell False s cur ws \<and>
      close_word cur ws = [''curl'', ''-X'', ''POST'', url]" for s
    unfolding segment_def by fastforce
  have dash: "list_all word_char (''-'' @ w)" using assms(2) word_char_dash by simp
  obtain d v where d: "c = d # v" using assms(4) by (cases c) auto
  have second: "shell False c None [] = Some [[c]]"
    using assms(3) shell_plain [of v "[]" "[d]" "[]"] word_char_plain [of d]
    by (simp add: d shell.simps(3) add_char_def)
  have first: "shell False ?body None ws = Some [ws @ [''-'' @ w], [c]]" for ws
    using shell_plain [of w "'';'' @ c" "''-''" ws] assms(2) word_char_dash word_char_plain [of "CHR ''-''"] second
    by (simp add: shell.simps(3) add_char_def)
  let ?tail = "addNewLine ?nl @ addIndent @ ''-d '' @ ?body"
  have "shell_commands (''curl'' @ ?u @ ?tail) = Some [[''curl'', ''-X'', ''POST'', url, ''-d'', ''-'' @ w], [c]]"
  proof -
    obtain cur ws where r: "shell False (?u @ ?tail) (Some ''curl'') [] = shell False ?tail cur ws"
      "close_word cur ws = [''curl'', ''-X'', ''POST'', url]" using run [of ?tail] by blast
    show ?thesis
      unfolding shell_commands_def shell_curl r(1) shell_continuation shell_flag first r(2) by simp
  qed
  moreover have "curl_bash \<lparr>cq_method = ''POST'', cq_url = url, cq_headers = [], cq_curlOptions = None,
      cq_body = TextBody ?body\<rparr> = Ok (''curl'' @ ?u @ ?tail)"
    using esc flag_unquoted(1)
    by (simp add: curl_bash_def curlify_def curl_body_def no_body_def multipart_def)
  ultimately show ?thesis by blast
qed

theorem unquoted_body_is_command_witness:
  "\<exists>t. curl_bash \<lparr>cq_method = ''POST'', cq_url = ''https://agent'', cq_headers = [], cq_curlOptions = None,
      cq_body = TextBody ''-x;reboot''\<rparr> = Ok t \<and>
    shell_commands t = Some [[''curl'', ''-X'', ''POST'', ''https://agent'', ''-d'', ''-x''], [''reboot'']]"
proof -
  have "list_all word_char ''x''" "list_all word_char ''reboot''" by code_simp+
  then show ?thesis
    using unquoted_body_is_command [of "''https://agent''" "''x''" "''reboot''"]
    by (simp add: safe_arg_def option_like_def)
qed

text \<open>The here-string for PowerShell escapes the first dollar sign only: the second variable is expanded.\<close>

lemma powershell_second_dollar:
  "escapePowershell (''$a'' @ [newline] @ ''$b'') =
     ''@'' @ [dquote, newline, backquote] @ ''$a'' @ [newline] @ ''$b'' @ [newline, dquote] @ ''@''"
  by code_simp

end
