(* ===== verification/JS_Regex.thy ===== *)
theory JS_Regex
  imports Main
begin

text \<open>
  The regular expressions of the JavaScript code, transcribed as data: \<open>matches\<close> tests a whole text (an
  expression between \<^verbatim>\<open>^\<close> and \<^verbatim>\<open>$\<close>) by derivatives, \<open>lang\<close> is the language it stands for.  Characters are
  UTF-16 code units.
\<close>

datatype rx =
    Eps
  | Cls "nat \<Rightarrow> bool"
  | Seq rx rx
  | Alt rx rx
  | Rep rx

fun nullable :: "rx \<Rightarrow> bool" where
  "nullable Eps = True"
| "nullable (Cls p) = False"
| "nullable (Seq r s) = (nullable r \<and> nullable s)"
| "nullable (Alt r s) = (nullable r \<or> nullable s)"
| "nullable (Rep r) = True"

definition never :: rx where
  "never = Cls (\<lambda>c. False)"

fun deriv :: "nat \<Rightarrow> rx \<Rightarrow> rx" where
  "deriv c Eps = never"
| "deriv c (Cls p) = (if p c then Eps else never)"
| "deriv c (Seq r s) =
     (if nullable r then Alt (Seq (deriv c r) s) (deriv c s) else Seq (deriv c r) s)"
| "deriv c (Alt r s) = Alt (deriv c r) (deriv c s)"
| "deriv c (Rep r) = Seq (deriv c r) (Rep r)"

fun matches :: "rx \<Rightarrow> nat list \<Rightarrow> bool" where
  "matches r [] = nullable r"
| "matches r (c # s) = matches (deriv c r) s"

text \<open>The operators \<^verbatim>\<open>?\<close>, \<^verbatim>\<open>+\<close>, \<^verbatim>\<open>{n}\<close> and a single character.\<close>

definition Opt :: "rx \<Rightarrow> rx" where "Opt r = Alt r Eps"
definition Plus :: "rx \<Rightarrow> rx" where "Plus r = Seq r (Rep r)"
definition Lit :: "nat \<Rightarrow> rx" where "Lit c = Cls ((=) c)"

fun Times :: "nat \<Rightarrow> rx \<Rightarrow> rx" where
  "Times 0 r = Eps"
| "Times (Suc n) r = Seq r (Times n r)"

fun seqs :: "rx list \<Rightarrow> rx" where
  "seqs [] = Eps"
| "seqs (r # rs) = Seq r (seqs rs)"

section \<open>The language\<close>

inductive_set star :: "nat list set \<Rightarrow> nat list set" for A where
  star_Nil: "[] \<in> star A"
| star_app: "u \<in> A \<Longrightarrow> v \<in> star A \<Longrightarrow> u @ v \<in> star A"

fun lang :: "rx \<Rightarrow> nat list set" where
  "lang Eps = {[]}"
| "lang (Cls p) = {[c] | c. p c}"
| "lang (Seq r s) = {u @ v | u v. u \<in> lang r \<and> v \<in> lang s}"
| "lang (Alt r s) = lang r \<union> lang s"
| "lang (Rep r) = star (lang r)"

lemma nullable_lang: "nullable r \<longleftrightarrow> [] \<in> lang r"
  by (induction r) (auto intro: star_Nil)

lemma star_Cons: "c # s \<in> star A \<Longrightarrow> \<exists>u v. s = u @ v \<and> c # u \<in> A \<and> v \<in> star A"
proof (induction "c # s" arbitrary: c s rule: star.induct)
  case (star_app u v)
  then show ?case by (cases u) auto
qed

lemma deriv_lang: "s \<in> lang (deriv c r) \<longleftrightarrow> c # s \<in> lang r"
proof (induction r arbitrary: s)
  case (Seq r1 r2)
  show ?case
  proof (cases "nullable r1")
    case True
    then show ?thesis using Seq by (auto simp: nullable_lang Cons_eq_append_conv)
  next
    case False
    then show ?thesis using Seq by (auto simp: nullable_lang Cons_eq_append_conv)
  qed
next
  case (Rep r)
  show ?case
  proof
    assume "s \<in> lang (deriv c (Rep r))"
    then obtain u v where "s = u @ v" "c # u \<in> lang r" "v \<in> star (lang r)" using Rep by auto
    then have "(c # u) @ v \<in> star (lang r)" by (intro star_app)
    then show "c # s \<in> lang (Rep r)" by (simp add: \<open>s = u @ v\<close>)
  next
    assume "c # s \<in> lang (Rep r)"
    then obtain u v where "s = u @ v" "c # u \<in> lang r" "v \<in> star (lang r)"
      using star_Cons [of c s "lang r"] by auto
    then show "s \<in> lang (deriv c (Rep r))" using Rep by auto
  qed
qed (auto simp: never_def)

lemma matches_lang: "matches r s \<longleftrightarrow> s \<in> lang r"
  by (induction s arbitrary: r) (simp_all add: nullable_lang deriv_lang)

lemma lang_ops [simp]:
  "lang (Opt r) = lang r \<union> {[]}" "lang (Lit c) = {[c]}" "lang (Plus r) = {u @ v | u v. u \<in> lang r \<and> v \<in> star (lang r)}"
  by (auto simp: Opt_def Lit_def Plus_def)

lemma star_Cls: "s \<in> star {[c] | c. p c} \<longleftrightarrow> list_all p s"
proof
  assume "s \<in> star {[c] | c. p c}"
  then show "list_all p s" by (induction rule: star.induct) auto
next
  assume "list_all p s"
  then show "s \<in> star {[c] | c. p c}"
  proof (induction s)
    case (Cons c s)
    then have "[c] @ s \<in> star {[c] | c. p c}" by (intro star_app) auto
    then show ?case by simp
  qed (rule star_Nil)
qed

lemma lang_Seq_Cls: "s \<in> lang (Seq (Cls p) r) \<longleftrightarrow> (\<exists>c t. s = c # t \<and> p c \<and> t \<in> lang r)"
proof
  assume "s \<in> lang (Seq (Cls p) r)"
  then show "\<exists>c t. s = c # t \<and> p c \<and> t \<in> lang r" by auto
next
  assume "\<exists>c t. s = c # t \<and> p c \<and> t \<in> lang r"
  then obtain c t where "s = [c] @ t" "p c" "t \<in> lang r" by auto
  then show "s \<in> lang (Seq (Cls p) r)" by (simp del: append_Cons) blast
qed

lemma lang_Plus_Cls: "s \<in> lang (Plus (Cls p)) \<longleftrightarrow> s \<noteq> [] \<and> list_all p s"
proof -
  have "s \<in> lang (Plus (Cls p)) \<longleftrightarrow> (\<exists>c t. s = c # t \<and> p c \<and> t \<in> star {[c] | c. p c})"
    unfolding Plus_def lang_Seq_Cls by simp
  then show ?thesis by (cases s) (auto simp: star_Cls)
qed

lemma lang_Times_Cls: "s \<in> lang (Times n (Cls p)) \<longleftrightarrow> length s = n \<and> list_all p s"
proof (induction n arbitrary: s)
  case (Suc n)
  show ?case
    unfolding Times.simps lang_Seq_Cls using Suc by (cases s) auto
qed auto

lemma lang_Seq_Eps [simp]: "lang (Seq r Eps) = lang r"
  by simp

lemma lang_Opt_Seq:
  "s \<in> lang (Seq (Opt (Lit c)) r) \<longleftrightarrow> s \<in> lang r \<or> (\<exists>t. s = c # t \<and> t \<in> lang r)"
proof -
  have "s \<in> lang (Seq (Opt (Lit c)) r) \<longleftrightarrow> (\<exists>u v. s = u @ v \<and> (u = [c] \<or> u = []) \<and> v \<in> lang r)"
    by simp blast
  also have "\<dots> \<longleftrightarrow> s \<in> lang r \<or> (\<exists>t. s = [c] @ t \<and> t \<in> lang r)"
    by (metis append_Nil)
  finally show ?thesis by simp
qed

end
