(* ===== verification/Swagger_Params.thy ===== *)
theory Swagger_Params
  imports Swagger_UI JS_Regex
begin

text \<open>
  The parameters of a request in Swagger UI: the validation of the value entered for a parameter with a
  primitive type (\<^verbatim>\<open>src/swagger/swagger-ui.js\<close>), and the names under which the value of a parameter is kept
  (\<^verbatim>\<open>src/swagger/swagger-ui-es-bundle.js\<close>).  The regular expressions of the validators are transcribed; an
  expression of the API description, \<^verbatim>\<open>Date.parse\<close> and the comparison of a text with a number are
  parameters.  Values of arrays, objects and files are not modelled.
\<close>

section \<open>The validators\<close>

definition digit :: "nat \<Rightarrow> bool" where
  "digit c \<longleftrightarrow> 48 \<le> c \<and> c \<le> 57"

definition hex_digit :: "nat \<Rightarrow> bool" where
  "hex_digit c \<longleftrightarrow> digit c \<or> 97 \<le> c \<and> c \<le> 102"

text \<open>\<^verbatim>\<open>-?\d+\<close>, \<^verbatim>\<open>-?\d+(\.?\d+)?\<close> and the expression for a GUID.\<close>

definition integer_rx :: rx where
  "integer_rx = seqs [Opt (Lit 45), Plus (Cls digit)]"

definition number_rx :: rx where
  "number_rx = seqs [Opt (Lit 45), Plus (Cls digit), Opt (seqs [Opt (Lit 46), Plus (Cls digit)])]"

definition guid_rx :: rx where
  "guid_rx = seqs
     [Opt (Cls (\<lambda>c. c = 123 \<or> c = 40)), Times 8 (Cls hex_digit), Lit 45, Times 4 (Cls hex_digit), Lit 45,
      Times 4 (Cls hex_digit), Lit 45, Times 4 (Cls hex_digit), Lit 45, Times 12 (Cls hex_digit),
      Opt (Cls (\<lambda>c. c = 41 \<or> c = 125))]"

definition validateInteger :: "jsstring \<Rightarrow> string option" where
  "validateInteger v = (if matches integer_rx v then None else Some ''Value must be an integer'')"

definition validateNumber :: "jsstring \<Rightarrow> string option" where
  "validateNumber v = (if matches number_rx v then None else Some ''Value must be a number'')"

text \<open>\<^verbatim>\<open>toLowerCase\<close> of the characters the expression can match; the others it rejects in any case, but for
  the Kelvin sign, which becomes a \<^verbatim>\<open>k\<close> and is rejected as well.\<close>

definition validateGuid :: "jsstring \<Rightarrow> string option" where
  "validateGuid v = (if matches guid_rx (map js_lower v) then None else Some ''Value must be a Guid'')"

definition validateBoolean :: "jsstring \<Rightarrow> string option" where
  "validateBoolean v =
     (if v \<noteq> js ''true'' \<and> v \<noteq> js ''false'' then Some ''Value must be a boolean'' else None)"

definition validateMaxLength :: "jsstring \<Rightarrow> nat \<Rightarrow> string option" where
  "validateMaxLength v n =
     (if length v > n
      then Some (''Value must be no longer than '' @ nat_text n @ '' character'' @ (if n \<noteq> 1 then ''s'' else []))
      else None)"

definition validateMinLength :: "jsstring \<Rightarrow> nat \<Rightarrow> string option" where
  "validateMinLength v n =
     (if length v < n
      then Some (''Value must be at least '' @ nat_text n @ '' character'' @ (if n \<noteq> 1 then ''s'' else []))
      else None)"

section \<open>The validation of a value\<close>

text \<open>
  The functions of the browser: \<open>testPattern\<close> for \<^verbatim>\<open>new RegExp(t).test(e)\<close>, \<open>badDate\<close> for
  \<^verbatim>\<open>isNaN(Date.parse(e))\<close>, \<open>above\<close> and \<open>below\<close> for the comparisons with a limit, which is kept as its text.
\<close>

datatype param_value = Undefined | Null | Text jsstring

record browser =
  testPattern :: "string \<Rightarrow> jsstring \<Rightarrow> bool"
  badDate :: "jsstring \<Rightarrow> bool"
  above :: "param_value \<Rightarrow> string \<Rightarrow> bool"
  below :: "param_value \<Rightarrow> string \<Rightarrow> bool"

datatype param_type = TString | TBoolean | TNumber | TInteger | NoType

record param_schema =
  ps_type :: param_type
  ps_format :: string
  ps_nullable :: bool
  ps_required :: bool
  ps_pattern :: string
  ps_maxLength :: "nat option"
  ps_minLength :: nat
  ps_maximum :: "string option"
  ps_minimum :: "string option"

definition present :: "param_value \<Rightarrow> bool" where
  "present v \<longleftrightarrow> (case v of Text s \<Rightarrow> True | _ \<Rightarrow> False)"

definition truthy :: "param_value \<Rightarrow> bool" where
  "truthy v \<longleftrightarrow> (case v of Text s \<Rightarrow> s \<noteq> [] | _ \<Rightarrow> False)"

text \<open>The text a regular expression is tested on.\<close>

definition value_text :: "param_value \<Rightarrow> jsstring" where
  "value_text v = (case v of Undefined \<Rightarrow> js ''undefined'' | Null \<Rightarrow> js ''null'' | Text s \<Rightarrow> s)"

definition optional_error :: "string option \<Rightarrow> string list" where
  "optional_error e = (case e of None \<Rightarrow> [] | Some m \<Rightarrow> [m])"

definition limit_error :: "bool \<Rightarrow> string \<Rightarrow> string list" where
  "limit_error b m = (if b then [m] else [])"

definition type_errors :: "browser \<Rightarrow> param_schema \<Rightarrow> jsstring \<Rightarrow> string list" where
  "type_errors B sch s =
     (case ps_type sch of
        TString \<Rightarrow>
          (if ps_format sch = ''date-time'' then limit_error (badDate B s) ''Value must be a DateTime''
           else if ps_format sch = ''uuid'' then optional_error (validateGuid s)
           else [])
      | TBoolean \<Rightarrow> optional_error (validateBoolean s)
      | TNumber \<Rightarrow> optional_error (validateNumber s)
      | TInteger \<Rightarrow> optional_error (validateInteger s)
      | NoType \<Rightarrow> [])"

text \<open>The errors in the order in which the code pushes them; a minimal length of 0 is not checked.\<close>

definition value_errors :: "browser \<Rightarrow> param_schema \<Rightarrow> param_value \<Rightarrow> string list" where
  "value_errors B sch v =
     (let s = value_text v in
        limit_error (ps_pattern sch \<noteq> [] \<and> \<not> testPattern B (ps_pattern sch) s)
          (''Value must follow pattern '' @ ps_pattern sch)
        @ (case ps_maxLength sch of None \<Rightarrow> [] | Some n \<Rightarrow> optional_error (validateMaxLength s n))
        @ (if ps_minLength sch \<noteq> 0 then optional_error (validateMinLength s (ps_minLength sch)) else [])
        @ (case ps_maximum sch of
             None \<Rightarrow> [] | Some m \<Rightarrow> limit_error (above B v m) (''Value must be less than '' @ m))
        @ (case ps_minimum sch of
             None \<Rightarrow> [] | Some m \<Rightarrow> limit_error (below B v m) (''Value must be greater than '' @ m))
        @ type_errors B sch s)"

text \<open>The length of a missing value, and its \<^verbatim>\<open>toString\<close>, are a \<^verbatim>\<open>TypeError\<close>.\<close>

definition needs_text :: "param_schema \<Rightarrow> bool" where
  "needs_text sch \<longleftrightarrow>
     ps_maxLength sch \<noteq> None \<or> ps_minLength sch \<noteq> 0 \<or> ps_type sch = TString \<and> ps_format sch = ''uuid''"

definition validateValueBySchema ::
  "browser \<Rightarrow> param_value \<Rightarrow> param_schema \<Rightarrow> bool \<Rightarrow> bool \<Rightarrow> string list outcome" where
  "validateValueBySchema B v sch requiredByParam bypassRequiredCheck =
     (let required = requiredByParam \<or> ps_required sch in
      if ps_nullable sch \<and> v = Null \<or> ps_type sch = NoType \<or> \<not> required \<and> \<not> present v then Ok []
      else if required \<and> \<not> truthy v \<and> \<not> bypassRequiredCheck then Ok [''Required field is not provided'']
      else if \<not> present v \<and> needs_text sch then Err (Plain ''TypeError'')
      else Ok (value_errors B sch v))"

section \<open>The names of a parameter\<close>

text \<open>
  A parameter has a name, a place (\<^verbatim>\<open>query\<close>, \<^verbatim>\<open>header\<close>, ...) and the hash code of its description, as text.
  The most specific name comes first.
\<close>

record parameter =
  pm_name :: string
  pm_in :: string
  pm_hash :: string

definition paramToIdentifiers :: "parameter \<Rightarrow> bool \<Rightarrow> string list" where
  "paramToIdentifiers p allowHashes =
     (if pm_in p \<noteq> [] \<and> pm_name p \<noteq> [] \<and> allowHashes
      then [pm_in p @ ''.'' @ pm_name p @ ''.hash-'' @ pm_hash p] else [])
     @ (if pm_in p \<noteq> [] \<and> pm_name p \<noteq> [] then [pm_in p @ ''.'' @ pm_name p] else [])
     @ [pm_name p]"

definition paramToIdentifier :: "parameter \<Rightarrow> bool \<Rightarrow> string" where
  "paramToIdentifier p allowHashes = hd (paramToIdentifiers p allowHashes)"

definition paramToValue :: "parameter \<Rightarrow> (string \<rightharpoonup> 'v) \<Rightarrow> 'v option" where
  "paramToValue p paramValues =
     (case filter (\<lambda>x. x \<noteq> None) (map paramValues (paramToIdentifiers p True)) of
        [] \<Rightarrow> None
      | x # _ \<Rightarrow> x)"

section \<open>What the validators accept\<close>

lemma lang_integer:
  "matches integer_rx v \<longleftrightarrow> (\<exists>ds. ds \<noteq> [] \<and> list_all digit ds \<and> (v = ds \<or> v = 45 # ds))"
  unfolding matches_lang integer_rx_def seqs.simps lang_Opt_Seq lang_Seq_Eps lang_Plus_Cls by blast

lemma optional_error_Nil [simp]: "optional_error e = [] \<longleftrightarrow> e = None"
  by (simp add: optional_error_def split: option.splits)

lemma limit_error_Nil [simp]: "limit_error b m = [] \<longleftrightarrow> \<not> b"
  by (simp add: limit_error_def)

lemma validator_None [simp]:
  "validateMaxLength s n = None \<longleftrightarrow> length s \<le> n" "validateMinLength s n = None \<longleftrightarrow> n \<le> length s"
  "validateInteger s = None \<longleftrightarrow> matches integer_rx s"
  by (auto simp: validateMaxLength_def validateMinLength_def validateInteger_def)

text \<open>The page accepts a text for a required integer parameter exactly if it is a sequence of decimal
  digits, with a minus sign or without, that satisfies the limits on value and length and the pattern of
  the description.\<close>

theorem integer_parameter_valid:
  assumes "ps_type sch = TInteger" and "requiredByParam \<or> ps_required sch"
  shows "validateValueBySchema B (Text s) sch requiredByParam False = Ok [] \<longleftrightarrow>
    (\<exists>ds. ds \<noteq> [] \<and> list_all digit ds \<and> (s = ds \<or> s = 45 # ds)) \<and>
    (ps_pattern sch = [] \<or> testPattern B (ps_pattern sch) s) \<and>
    (case ps_maxLength sch of None \<Rightarrow> True | Some n \<Rightarrow> length s \<le> n) \<and> ps_minLength sch \<le> length s \<and>
    (case ps_maximum sch of None \<Rightarrow> True | Some m \<Rightarrow> \<not> above B (Text s) m) \<and>
    (case ps_minimum sch of None \<Rightarrow> True | Some m \<Rightarrow> \<not> below B (Text s) m)"
  using assms lang_integer [of s]
  by (auto simp: validateValueBySchema_def Let_def present_def truthy_def value_errors_def value_text_def
      type_errors_def split: option.splits)

definition ex_integer_schema :: param_schema where
  "ex_integer_schema =
     \<lparr>ps_type = TInteger, ps_format = [], ps_nullable = False, ps_required = False, ps_pattern = [],
      ps_maxLength = Some 3, ps_minLength = 0, ps_maximum = Some ''99'', ps_minimum = None\<rparr>"

theorem integer_parameter_valid_witness:
  "validateValueBySchema \<lparr>testPattern = (\<lambda>p s. True), badDate = (\<lambda>s. True), above = (\<lambda>v m. False), below = (\<lambda>v m. False)\<rparr>
     (Text (js ''-42'')) ex_integer_schema True False = Ok []"
proof -
  have "js ''-42'' = 45 # js ''42''" "list_all digit (js ''42'')" "js ''42'' \<noteq> []" "length (js ''-42'') = 3"
    by (simp_all add: js_def digit_def)
  then have "\<exists>ds. ds \<noteq> [] \<and> list_all digit ds \<and> (js ''-42'' = ds \<or> js ''-42'' = 45 # ds)" by blast
  then show ?thesis
    using \<open>length (js ''-42'') = 3\<close>
    by (subst integer_parameter_valid) (simp_all add: ex_integer_schema_def)
qed

section \<open>Values under the names of parameters\<close>

lemma paramToValue_own:
  "paramToIdentifiers p True = k # ks \<Longrightarrow> paramToValue p (m(k \<mapsto> v)) = Some v"
  by (simp add: paramToValue_def)

lemma paramToValue_other:
  "k \<notin> set (paramToIdentifiers q True) \<Longrightarrow> paramToValue q (m(k \<mapsto> v)) = paramToValue q m"
proof -
  assume "k \<notin> set (paramToIdentifiers q True)"
  then have "map (m(k \<mapsto> v)) (paramToIdentifiers q True) = map m (paramToIdentifiers q True)"
    by (intro map_cong) auto
  then show ?thesis by (simp only: paramToValue_def)
qed

lemma identifier_prefix:
  assumes "pm_in p \<noteq> []" and "pm_name p \<noteq> []"
  obtains r where "paramToIdentifier p True = pm_in p @ ''.'' @ r"
  using assms by (auto simp: paramToIdentifier_def paramToIdentifiers_def)

lemma split_first_dot:
  "CHR ''.'' \<notin> set a \<Longrightarrow> CHR ''.'' \<notin> set b \<Longrightarrow> a @ CHR ''.'' # r = b @ CHR ''.'' # s \<Longrightarrow> a = b"
proof -
  have "takeWhile (\<lambda>x. x \<noteq> CHR ''.'') (d @ CHR ''.'' # t) = d" if "CHR ''.'' \<notin> set d" for d t
    using that by (subst takeWhile_append2) auto
  then show "CHR ''.'' \<notin> set a \<Longrightarrow> CHR ''.'' \<notin> set b \<Longrightarrow> a @ CHR ''.'' # r = b @ CHR ''.'' # s \<Longrightarrow> a = b"
    by metis
qed

text \<open>A value stored under the identifier of a parameter is the value the page reads for it, and the
  values of parameters in another place (query, header, path) with a name without dots are not
  touched.\<close>

theorem parameter_values_separate:
  assumes "pm_in p \<noteq> []" and "pm_name p \<noteq> []" and "CHR ''.'' \<notin> set (pm_in p)"
    and "CHR ''.'' \<notin> set (pm_in q)" and "CHR ''.'' \<notin> set (pm_name q)" and "pm_in p \<noteq> pm_in q"
  shows "paramToValue p (m(paramToIdentifier p True \<mapsto> v)) = Some v \<and>
    paramToValue q (m(paramToIdentifier p True \<mapsto> v)) = paramToValue q m"
proof
  obtain k ks where k: "paramToIdentifiers p True = k # ks"
    by (cases "paramToIdentifiers p True") (auto simp: paramToIdentifiers_def split: if_splits)
  then show "paramToValue p (m(paramToIdentifier p True \<mapsto> v)) = Some v"
    by (simp add: paramToIdentifier_def paramToValue_own)
  obtain r where r: "paramToIdentifier p True = pm_in p @ ''.'' @ r" using identifier_prefix [OF assms(1,2)] .
  have "pm_name q \<noteq> pm_in p @ CHR ''.'' # r" using assms(5) by auto
  then have "paramToIdentifier p True \<notin> set (paramToIdentifiers q True)"
    using split_first_dot [OF assms(3,4), of r] \<open>pm_name q \<noteq> pm_in p @ CHR ''.'' # r\<close> assms(6)
    by (auto simp: paramToIdentifiers_def r split: if_splits)
  then show "paramToValue q (m(paramToIdentifier p True \<mapsto> v)) = paramToValue q m"
    by (rule paramToValue_other)
qed

theorem parameter_values_separate_witness:
  "paramToValue \<lparr>pm_name = ''id'', pm_in = ''query'', pm_hash = ''7''\<rparr> [''query.id.hash-7'' \<mapsto> (3 :: nat)] = Some 3"
  using parameter_values_separate [of "\<lparr>pm_name = ''id'', pm_in = ''query'', pm_hash = ''7''\<rparr>"
      "\<lparr>pm_name = ''id'', pm_in = ''path'', pm_hash = ''8''\<rparr>" Map.empty "3 :: nat"]
  by (simp add: paramToIdentifier_def paramToIdentifiers_def)

end
