(* ===== verification/Swagger_Login.thy ===== *)
theory Swagger_Login
  imports Swagger_UI Swagger_Search
begin

text \<open>
  The OAuth login of the API page: the function of Swagger UI that opens the authorization server's page
  and the request for the token (\<^verbatim>\<open>src/swagger/swagger-ui.js\<close>), and the page the server redirects to
  (\<^verbatim>\<open>src/swagger/oauth2-redirect.html\<close>).  Texts are their UTF-8 bytes, except the authorization URL of the
  API description, which goes through \<^verbatim>\<open>sanitizeUrl\<close> and is a list of UTF-16 code units.
\<close>

section \<open>Encodings\<close>

text \<open>The page's \<^verbatim>\<open>btoa\<close>: base64 of the UTF-8 bytes.\<close>

definition btoa :: "string \<Rightarrow> string" where
  "btoa s = fromByteArray (map of_char s)"

text \<open>\<open>sha256\<close> is the hash library of the bundle.\<close>

definition createCodeChallenge :: "(string \<Rightarrow> byte list) \<Rightarrow> string \<Rightarrow> string" where
  "createCodeChallenge sha256 codeVerifier = b64toB64UrlEncoded (fromByteArray (sha256 codeVerifier))"




section \<open>Opening the login page\<close>

record oauth_auth =
  oa_name :: string
  oa_flow :: "string option"
  oa_authorizationUrl :: jsstring
  oa_clientId :: "string option"
  oa_clientSecret :: "string option"
  oa_scopes :: "string list"
  oa_codeVerifier :: "string option"
  oa_code :: "string option"

record oauth_configs =
  oc_redirectUrl :: "string option"
  oc_scopeSeparator :: "string option"
  oc_realm :: "string option"
  oc_usePkce :: bool
  oc_additional :: "(string \<times> string option) list"
  oc_useBasic :: bool

datatype login_callback = PreAuthorizeImplicit | WithBasicAuthentication | WithFormParams

text \<open>What is left in \<^verbatim>\<open>window.swaggerUIRedirectOauth2\<close> for the page the server redirects to.\<close>

record pending =
  pe_auth :: oauth_auth
  pe_state :: "string option"
  pe_redirectUrl :: string
  pe_callback :: login_callback

datatype login =
    AuthorizePassword oauth_auth
  | AuthorizeApplication oauth_auth
  | NewAuthErr string
  | OpenPage jsstring pending

definition response_type :: "string option \<Rightarrow> string list" where
  "response_type flow =
     (case flow of
        None \<Rightarrow> []
      | Some f \<Rightarrow>
          if f \<in> {''accessCode'', ''authorizationCode'', ''authorization_code''} then [''response_type=code'']
          else if f = ''implicit'' then [''response_type=token''] else [])"

definition code_flow :: "string option \<Rightarrow> bool" where
  "code_flow flow \<longleftrightarrow> flow \<in> Some ` {''accessCode'', ''authorizationCode'', ''authorization_code''}"

definition scope_text :: "oauth_configs \<Rightarrow> string list \<Rightarrow> string" where
  "scope_text cfg scopes =
     join_with (case oc_scopeSeparator cfg of Some s \<Rightarrow> if s = [] then '' '' else s | None \<Rightarrow> '' '') scopes"

definition additional_parameter :: "string \<times> string option \<Rightarrow> string list" where
  "additional_parameter e =
     (case e of (k, Some v) \<Rightarrow> [encodeURIComponent k @ ''='' @ encodeURIComponent v] | (k, None) \<Rightarrow> [])"

text \<open>
  The query the page builds, piece by piece; \<open>h\<close> is the redirect URL and \<open>challenge\<close> the code challenge
  when one is sent.
\<close>

definition login_query ::
  "oauth_configs \<Rightarrow> oauth_auth \<Rightarrow> string \<Rightarrow> string \<Rightarrow> string option \<Rightarrow> string list" where
  "login_query cfg auth h state challenge =
     response_type (oa_flow auth) @
     (case oa_clientId auth of Some i \<Rightarrow> [''client_id='' @ encodeURIComponent i] | None \<Rightarrow> []) @
     [''redirect_uri='' @ encodeURIComponent h] @
     (if oa_scopes auth \<noteq> [] then [''scope='' @ encodeURIComponent (scope_text cfg (oa_scopes auth))] else []) @
     [''state='' @ encodeURIComponent state] @
     (case oc_realm cfg of Some r \<Rightarrow> [''realm='' @ encodeURIComponent r] | None \<Rightarrow> []) @
     (case challenge of
        Some c \<Rightarrow> [''code_challenge='' @ c, ''code_challenge_method=S256''] | None \<Rightarrow> []) @
     concat (map additional_parameter (oc_additional cfg))"

text \<open>
  The arguments besides the configuration: \<open>server\<close>, the resolution of a URL against the server selected
  on the page, if any; the text of the date, from which the state is made; and the random bytes.
\<close>

definition oauth2_authorize ::
  "(string \<Rightarrow> byte list) \<Rightarrow> (jsstring \<Rightarrow> jsstring) option \<Rightarrow> oauth_configs \<Rightarrow> string \<Rightarrow> byte list \<Rightarrow>
   oauth_auth \<Rightarrow> login" where
  "oauth2_authorize sha256 server cfg date bytes auth =
     (if oa_flow auth = Some ''password'' then AuthorizePassword auth
      else if oa_flow auth \<in> Some ` {''application'', ''clientCredentials'', ''client_credentials''}
      then AuthorizeApplication auth
      else case oc_redirectUrl cfg of
        None \<Rightarrow> NewAuthErr (oa_name auth)
      | Some h \<Rightarrow>
          (let state = btoa date;
               pkce = code_flow (oa_flow auth) \<and> oc_usePkce cfg;
               verifier = generateCodeVerifier bytes;
               challenge = (if pkce then Some (createCodeChallenge sha256 verifier) else None);
               auth' = (if pkce then auth\<lparr>oa_codeVerifier := Some verifier\<rparr> else auth);
               url = safe_url (JsString (oa_authorizationUrl auth));
               target = (case server of None \<Rightarrow> url | Some resolve \<Rightarrow> resolve url);
               sep = (if 63 \<in> set (oa_authorizationUrl auth) then 38 else 63);
               callback = (if oa_flow auth = Some ''implicit'' then PreAuthorizeImplicit
                           else if oc_useBasic cfg then WithBasicAuthentication else WithFormParams)
           in OpenPage (target @ sep # js (join_with ''&'' (login_query cfg auth h state challenge)))
                \<lparr>pe_auth = auth', pe_state = Some state, pe_redirectUrl = h, pe_callback = callback\<rparr>))"

section \<open>The page the server redirects to\<close>










section \<open>The request for the token\<close>





section \<open>Reading a form\<close>

text \<open>How a server reads \<^verbatim>\<open>application/x-www-form-urlencoded\<close> data.\<close>

definition form_text :: "string \<Rightarrow> string outcome" where
  "form_text s = decodeURIComponent (map (\<lambda>c. if c = CHR ''+'' then CHR '' '' else c) s)"

fun form_fields :: "string list \<Rightarrow> (string \<times> string) list outcome" where
  "form_fields [] = Ok []"
| "form_fields (f # fs) =
     obind (form_text (takeWhile (\<lambda>c. c \<noteq> CHR ''='') f)) (\<lambda>k.
     obind (form_text (drop 1 (dropWhile (\<lambda>c. c \<noteq> CHR ''='') f))) (\<lambda>v.
     obind (form_fields fs) (\<lambda>r. Ok ((k, v) # r))))"

definition read_form :: "string \<Rightarrow> (string \<times> string) list outcome" where
  "read_form s = (if s = [] then Ok [] else form_fields (split_on CHR ''&'' s))"

section \<open>Forms are read as they were written\<close>

lemma plain_chars: "\<not> uri_unreserved CHR ''+''" "\<not> uri_unreserved CHR '' ''" "uri_unreserved CHR ''_''"
  by code_simp+

lemma hex_plain_all: "list_all (\<lambda>n. hex_char n \<noteq> CHR ''+'' \<and> hex_char n \<noteq> CHR ''%'') [0..<16]"
  by code_simp

lemma hex_plain: "n < 16 \<Longrightarrow> hex_char n \<noteq> CHR ''+'' \<and> hex_char n \<noteq> CHR ''%''"
  using hex_plain_all by (simp add: list_all_iff)

lemma percent_plain: "CHR ''+'' \<notin> set (percent c)"
  using hex_plain [OF byte_halves(1) [of c]] hex_plain [OF byte_halves(2) [of c]]
  by (auto simp: percent_def)

lemma encode_no_plus: "CHR ''+'' \<notin> set (encodeURIComponent s)"
  using percent_plain plain_chars by (auto simp: encodeURIComponent_def encode_byte_def)






lemma no_plus_map: "CHR ''+'' \<notin> set s \<Longrightarrow> map (\<lambda>c. if c = CHR ''+'' then CHR '' '' else c) s = s"
  by (induction s) auto

lemma form_text_encode [simp]: "utf8 s \<Longrightarrow> form_text (encodeURIComponent s) = Ok s"
  by (simp add: form_text_def no_plus_map [OF encode_no_plus] decode_encode)

lemma form_text_plain: "CHR ''%'' \<notin> set s \<Longrightarrow> CHR ''+'' \<notin> set s \<Longrightarrow> form_text s = Ok s"
  by (simp add: form_text_def no_plus_map decode_plain)


text \<open>A part of a form that a server reads as the given name and value.\<close>

definition part :: "string \<Rightarrow> string \<times> string \<Rightarrow> bool" where
  "part f kv \<longleftrightarrow>
     (\<exists>a b. f = a @ CHR ''='' # b \<and> CHR ''='' \<notin> set a \<and> CHR ''&'' \<notin> set f \<and>
        form_text a = Ok (fst kv) \<and> form_text b = Ok (snd kv))"

lemma partI:
  assumes "CHR ''='' \<notin> set a" "CHR ''&'' \<notin> set a" "CHR ''&'' \<notin> set b" "form_text a = Ok k" "form_text b = Ok v"
  shows "part (a @ CHR ''='' # b) (k, v)"
  unfolding part_def using assms by (intro exI [of _ a] exI [of _ b]) simp

lemma form_fields_parts: "list_all2 part fs kvs \<Longrightarrow> form_fields fs = Ok kvs"
proof (induction rule: list_all2_induct)
  case (Cons f fs kv kvs)
  then obtain a b where f: "f = a @ CHR ''='' # b" "CHR ''='' \<notin> set a" "form_text a = Ok (fst kv)"
    "form_text b = Ok (snd kv)"
    by (auto simp: part_def)
  have "takeWhile (\<lambda>c. c \<noteq> CHR ''='') f = a" "dropWhile (\<lambda>c. c \<noteq> CHR ''='') f = CHR ''='' # b"
    unfolding f(1) using f(2) by (subst takeWhile_append2 dropWhile_append2; auto)+
  then show ?case using Cons f by simp
qed simp

lemma read_form_parts: "list_all2 part fs kvs \<Longrightarrow> read_form (join_with ''&'' fs) = Ok kvs"
proof (cases fs)
  case (Cons f gs)
  assume parts: "list_all2 part fs kvs"
  then have "\<forall>f \<in> set fs. CHR ''&'' \<notin> set f \<and> f \<noteq> []"
    by (induction rule: list_all2_induct) (auto simp: part_def)
  then have sp: "split_on CHR ''&'' (join_with ''&'' fs) = fs" and "join_with ''&'' fs \<noteq> []"
    using Cons split_join [of fs "CHR ''&''"] by (cases gs; auto)+
  then show ?thesis using form_fields_parts [OF parts] by (simp add: read_form_def)
qed (simp add: read_form_def)

lemma part_encoded:
  "CHR ''='' \<notin> set a \<Longrightarrow> CHR ''&'' \<notin> set a \<Longrightarrow> CHR ''%'' \<notin> set a \<Longrightarrow> CHR ''+'' \<notin> set a \<Longrightarrow> utf8 v \<Longrightarrow>
   part (a @ CHR ''='' # encodeURIComponent v) (a, v)"
  using encode_no_sep by (intro partI) (simp_all add: form_text_plain)


section \<open>The login page that is opened\<close>

primrec opt_list :: "'a option \<Rightarrow> 'a list" where
  "opt_list None = []"
| "opt_list (Some x) = [x]"

text \<open>All texts of the login are well-formed.\<close>

definition utf8_login :: "oauth_configs \<Rightarrow> oauth_auth \<Rightarrow> bool" where
  "utf8_login cfg auth \<longleftrightarrow>
     list_all utf8 (opt_list (oa_clientId auth) @ opt_list (oc_redirectUrl cfg) @ opt_list (oc_realm cfg) @
       opt_list (oa_clientSecret auth) @ [scope_text cfg (oa_scopes auth)]) \<and>
     list_all (\<lambda>(k, v). utf8 k \<and> list_all utf8 (opt_list v)) (oc_additional cfg)"

text \<open>The parameters of an authorization request (RFC 6749, RFC 7636) for a configuration.\<close>

definition login_parameters ::
  "oauth_configs \<Rightarrow> oauth_auth \<Rightarrow> string \<Rightarrow> string \<Rightarrow> string option \<Rightarrow> (string \<times> string) list" where
  "login_parameters cfg auth h state challenge =
     (if code_flow (oa_flow auth) then [(''response_type'', ''code'')]
      else if oa_flow auth = Some ''implicit'' then [(''response_type'', ''token'')] else []) @
     map (Pair ''client_id'') (opt_list (oa_clientId auth)) @
     [(''redirect_uri'', h)] @
     (if oa_scopes auth = [] then [] else [(''scope'', scope_text cfg (oa_scopes auth))]) @
     [(''state'', state)] @
     map (Pair ''realm'') (opt_list (oc_realm cfg)) @
     (case challenge of
        None \<Rightarrow> [] | Some c \<Rightarrow> [(''code_challenge'', c), (''code_challenge_method'', ''S256'')]) @
     [(k, v). (k, Some v) \<leftarrow> oc_additional cfg]"

lemma utf8_ascii: "list_all (\<lambda>c. (of_char c :: nat) < 128) s \<Longrightarrow> utf8 s"
  by (induction s) (auto simp: ascii_more)

lemma b64_ascii: "list_all (\<lambda>c. (of_char c :: nat) < 128) (CHR ''='' # b64_alphabet)"
  by code_simp

lemma utf8_fromByteArray: "utf8 (fromByteArray bytes)"
  by (rule utf8_ascii) (use b64_ascii b64_encode_chars in \<open>fastforce simp: fromByteArray_groups list_all_iff\<close>)

lemma utf8_btoa: "utf8 (btoa s)"
  by (simp add: btoa_def utf8_fromByteArray)

lemma challenge_alphabet:
  "list_all (\<lambda>c. list_all (\<lambda>d. d \<notin> set ''%+&'') (b64toB64UrlEncoded [c])) (CHR ''='' # b64_alphabet)"
  by code_simp

lemma url_encoded_char:
  "c \<in> set (b64toB64UrlEncoded s) \<Longrightarrow> \<exists>d \<in> set s. c \<in> set (b64toB64UrlEncoded [d])"
proof (induction s)
  case (Cons d s)
  have "b64toB64UrlEncoded (d # s) = b64toB64UrlEncoded [d] @ b64toB64UrlEncoded s"
    by (simp add: b64toB64UrlEncoded_def)
  then show ?case using Cons by auto
qed (simp add: b64toB64UrlEncoded_def)

lemma challenge_plain: "c \<in> set (b64toB64UrlEncoded (fromByteArray bytes)) \<Longrightarrow> c \<notin> set ''%+&''"
proof -
  assume "c \<in> set (b64toB64UrlEncoded (fromByteArray bytes))"
  then obtain d where d: "d \<in> set (fromByteArray bytes)" "c \<in> set (b64toB64UrlEncoded [d])"
    using url_encoded_char by blast
  then have "d \<in> set (CHR ''='' # b64_alphabet)"
    using b64_encode_chars [of d "map byte_char bytes"] by (auto simp: fromByteArray_groups)
  then show ?thesis using challenge_alphabet d(2) unfolding list_all_iff by blast
qed

lemma part_challenge:
  "part (''code_challenge='' @ createCodeChallenge sha256 v) (''code_challenge'', createCodeChallenge sha256 v)"
proof -
  have c: "CHR ''%'' \<notin> set (createCodeChallenge sha256 v)" "CHR ''+'' \<notin> set (createCodeChallenge sha256 v)"
    "CHR ''&'' \<notin> set (createCodeChallenge sha256 v)"
    using challenge_plain unfolding createCodeChallenge_def by fastforce+
  have "part (''code_challenge'' @ CHR ''='' # createCodeChallenge sha256 v)
      (''code_challenge'', createCodeChallenge sha256 v)"
    by (rule partI) (simp_all add: c form_text_plain)
  then show ?thesis by simp
qed

lemma part_constants:
  "part ''response_type=code'' (''response_type'', ''code'')"
  "part ''response_type=token'' (''response_type'', ''token'')"
  "part ''code_challenge_method=S256'' (''code_challenge_method'', ''S256'')"
  using partI [of "''response_type''" "''code''" "''response_type''" "''code''"]
    partI [of "''response_type''" "''token''" "''response_type''" "''token''"]
    partI [of "''code_challenge_method''" "''S256''" "''code_challenge_method''" "''S256''"]
  by (simp_all add: form_text_plain)

lemma part_names:
  assumes "utf8 v"
  shows "part (''client_id='' @ encodeURIComponent v) (''client_id'', v)"
    and "part (''redirect_uri='' @ encodeURIComponent v) (''redirect_uri'', v)"
    and "part (''scope='' @ encodeURIComponent v) (''scope'', v)"
    and "part (''state='' @ encodeURIComponent v) (''state'', v)"
    and "part (''realm='' @ encodeURIComponent v) (''realm'', v)"
  using part_encoded [OF _ _ _ _ assms, of "''client_id''"] part_encoded [OF _ _ _ _ assms, of "''redirect_uri''"]
    part_encoded [OF _ _ _ _ assms, of "''scope''"] part_encoded [OF _ _ _ _ assms, of "''state''"]
    part_encoded [OF _ _ _ _ assms, of "''realm''"]
  by simp_all

lemma part_additional_parameter:
  assumes "utf8 (fst e)" and "list_all utf8 (opt_list (snd e))"
  shows "list_all2 part (additional_parameter e) (case e of (k, y) \<Rightarrow> case_option [] (\<lambda>v. [(k, v)]) y)"
proof (cases "snd e")
  case (Some x)
  have "part (encodeURIComponent (fst e) @ CHR ''='' # encodeURIComponent x) (fst e, x)"
    using assms Some encode_no_sep by (intro partI) simp_all
  then show ?thesis using Some by (cases e) (simp add: additional_parameter_def)
qed (cases e, simp add: additional_parameter_def)

lemma part_additional:
  assumes "list_all (\<lambda>(k, v). utf8 k \<and> list_all utf8 (opt_list v)) ps"
  shows "list_all2 part (concat (map additional_parameter ps)) [(k, v). (k, Some v) \<leftarrow> ps]"
  using assms
proof (induction ps)
  case (Cons e ps)
  then have "list_all2 part (additional_parameter e) (case e of (k, y) \<Rightarrow> case_option [] (\<lambda>v. [(k, v)]) y)"
    by (intro part_additional_parameter) (auto split: prod.splits)
  then show ?case using Cons by (simp add: list_all2_appendI)
qed simp

lemma login_query_parts:
  assumes "utf8_login cfg auth" and "oc_redirectUrl cfg = Some h" and "utf8 state"
    and "challenge = None \<or> challenge = Some (createCodeChallenge sha256 v)"
  shows "list_all2 part (login_query cfg auth h state challenge) (login_parameters cfg auth h state challenge)"
proof -
  have texts: "list_all utf8 (opt_list (oa_clientId auth))" "utf8 h" "list_all utf8 (opt_list (oc_realm cfg))"
    "utf8 (scope_text cfg (oa_scopes auth))"
    using assms(1,2) by (auto simp: utf8_login_def)
  have add: "list_all2 part (concat (map additional_parameter (oc_additional cfg)))
      [(k, v). (k, Some v) \<leftarrow> oc_additional cfg]"
    by (rule part_additional) (use assms(1) in \<open>simp add: utf8_login_def\<close>)
  show ?thesis
    unfolding login_query_def login_parameters_def
  proof (intro list_all2_appendI add)
    show "list_all2 part (response_type (oa_flow auth))
      (if code_flow (oa_flow auth) then [(''response_type'', ''code'')]
       else if oa_flow auth = Some ''implicit'' then [(''response_type'', ''token'')] else [])"
      by (auto simp: response_type_def code_flow_def part_constants split: option.split)
    show "list_all2 part (case challenge of
          Some c \<Rightarrow> [''code_challenge='' @ c, ''code_challenge_method=S256''] | None \<Rightarrow> [])
        (case challenge of
          None \<Rightarrow> [] | Some c \<Rightarrow> [(''code_challenge'', c), (''code_challenge_method'', ''S256'')])"
      using assms(4) part_challenge [of sha256 v] by (auto simp: part_constants)
  qed (use texts assms(3) part_names in \<open>auto split: option.splits\<close>)
qed

text \<open>C23: When the page opens the authorization server for a login without a selected server, with
  well-formed texts, the opened address is never one a browser reads as a script URL, whatever
  authorization URL the API description names.  It is that URL made safe, a separator (an ampersand if
  the URL of the description has a question mark, else a question mark) and a text which, read as a form,
  gives exactly the parameters of the request, with any characters in the configured names and values.
  If the login is by code and PKCE is on, the request carries as challenge the URL-safe base64 text of the
  hash of a fresh code verifier, and the page keeps that verifier for the token request; else it carries
  no challenge and the login is kept as it was.  The state it sends and keeps is the base64 text of the
  date.\<close>

theorem login_page_opened:
  assumes "oauth2_authorize sha256 None cfg date bytes auth = OpenPage url pe" and "utf8_login cfg auth"
  shows "\<not> runs_script url \<and>
    (\<exists>q challenge.
       url = safe_url (JsString (oa_authorizationUrl auth)) @
         js (if 63 \<in> set (oa_authorizationUrl auth) then ''&'' else ''?'') @ js q \<and>
       read_form q = Ok (login_parameters cfg auth (pe_redirectUrl pe) (btoa date) challenge) \<and>
       (if code_flow (oa_flow auth) \<and> oc_usePkce cfg
        then let v = generateCodeVerifier bytes in
          challenge = Some (b64toB64UrlEncoded (fromByteArray (sha256 v))) \<and>
          pe_auth pe = auth\<lparr>oa_codeVerifier := Some v\<rparr>
        else challenge = None \<and> pe_auth pe = auth)) \<and>
    oc_redirectUrl cfg = Some (pe_redirectUrl pe) \<and> pe_state pe = Some (btoa date)"
proof -
  obtain h where h: "oc_redirectUrl cfg = Some h"
    using assms(1) by (auto simp: oauth2_authorize_def split: if_splits option.splits)
  define pkce where "pkce = (code_flow (oa_flow auth) \<and> oc_usePkce cfg)"
  define v where "v = generateCodeVerifier bytes"
  define challenge where "challenge = (if pkce then Some (createCodeChallenge sha256 v) else None)"
  define sep where "sep = (if 63 \<in> set (oa_authorizationUrl auth) then 38 else 63 :: nat)"
  define q where "q = join_with ''&'' (login_query cfg auth h (btoa date) challenge)"
  have run: "url = safe_url (JsString (oa_authorizationUrl auth)) @ sep # js q"
    "pe_redirectUrl pe = h" "pe_state pe = Some (btoa date)"
    "pe_auth pe = (if pkce then auth\<lparr>oa_codeVerifier := Some v\<rparr> else auth)"
    using assms(1) h
    by (auto simp: oauth2_authorize_def Let_def pkce_def v_def challenge_def sep_def q_def split: if_splits)
  have "js ''&'' = [38]" "js ''?'' = [63]" by code_simp+
  then have sep: "sep # js q = js (if 63 \<in> set (oa_authorizationUrl auth) then ''&'' else ''?'') @ js q"
    by (simp add: sep_def)
  have "read_form q = Ok (login_parameters cfg auth h (btoa date) challenge)"
    unfolding q_def
    by (intro read_form_parts login_query_parts [OF assms(2) h utf8_btoa, of challenge sha256 v])
      (simp add: challenge_def)
  moreover have "\<not> runs_script url"
    unfolding run(1) by (rule query_no_script [OF safe_url_clean safe_url_no_script]) (simp add: sep_def)
  moreover have "if pkce
      then let v = generateCodeVerifier bytes in
        challenge = Some (b64toB64UrlEncoded (fromByteArray (sha256 v))) \<and>
        pe_auth pe = auth\<lparr>oa_codeVerifier := Some v\<rparr>
      else challenge = None \<and> pe_auth pe = auth"
    using run(4) by (simp add: challenge_def createCodeChallenge_def v_def)
  ultimately show ?thesis
    using run(1)[unfolded sep] run(2,3) h unfolding pkce_def by blast
qed

section \<open>From the response to the token request\<close>





















section \<open>Instances\<close>





definition ex_login :: oauth_auth where
  "ex_login = \<lparr>oa_name = ''oauth'', oa_flow = Some ''authorizationCode'',
     oa_authorizationUrl = js ''JavaScript:alert(1)'', oa_clientId = Some ''a&b'', oa_clientSecret = None,
     oa_scopes = [''read'', ''write''], oa_codeVerifier = None, oa_code = None\<rparr>"

definition ex_oauth :: oauth_configs where
  "ex_oauth = \<lparr>oc_redirectUrl = Some ''https://agent/oauth2-redirect.html'', oc_scopeSeparator = None,
     oc_realm = None, oc_usePkce = True, oc_additional = [(''prompt'', Some ''a b'')], oc_useBasic = False\<rparr>"

lemma ex_utf8_login: "utf8_login ex_oauth ex_login"
  by code_simp


text \<open>A login whose authorization URL is a script: the page opens \<^verbatim>\<open>about:blank\<close> with the query.\<close>

theorem login_page_opened_witness:
  "\<exists>url pe. oauth2_authorize (\<lambda>_. [1, 2, 3]) None ex_oauth ''Tue'' (replicate 32 0) ex_login = OpenPage url pe \<and>
     \<not> runs_script url \<and> pe_state pe = Some (btoa ''Tue'')"
proof -
  obtain url pe where run:
    "oauth2_authorize (\<lambda>_. [1, 2, 3]) None ex_oauth ''Tue'' (replicate 32 0) ex_login = OpenPage url pe"
    by (simp add: oauth2_authorize_def ex_oauth_def ex_login_def Let_def)
  from login_page_opened [OF run ex_utf8_login] run show ?thesis by auto
qed




end
