(* ===== verification/Spec2Isabelle.thy ===== *)
theory Spec2Isabelle
  imports Service_Props Import_Props Storage_Props Database_Props Rego_Props Liveness Server JSON_Patch_Props JSON_Patch_Valid Swagger_Request_Props Swagger_Auth_Props
    Sync_Program_Props Mongo_Props Error_Props Start_Props
    Swagger_UI Swagger_Search Swagger_Curl Swagger_Params Swagger_Login
begin

text \<open>
  The policy service of the custom policy agent.

  \<^bold>\<open>The program.\<close>  A service (\<^verbatim>\<open>src/cmd/policy\<close>, \<^verbatim>\<open>src/internal\<close>) keeps Rego policies in a storage, evaluates
  them for HTTP requests, validates their output against a JSON schema, locks and unlocks them, exports
  them as signed bundles, imports bundles from elsewhere after checking their signature, and tells
  subscribers when a policy changes.  A second program (\<^verbatim>\<open>src/cmd/sync\<close>) copies the policies of Git
  repositories into the database.  The API page is Swagger UI (\<^verbatim>\<open>src/swagger\<close>, JavaScript bundles).

  \<^bold>\<open>How the parts interact.\<close>  The handlers of the service call the storage and the policy cache; a write to
  the storage leaves a change notification, which a listener hands to the subscribers: the cache, which
  purges itself, and the notifier, which sends events to a bus and to web hooks.  Background loops refresh
  the data of policies and import bundles.  Policies call back into the program through extension
  functions.

  \<^bold>\<open>Theories and sources.\<close>

  \<^item> \<open>Prelude\<close>, \<open>Go_Std\<close>: generic lemmas; JSON values, HTTP requests and answers, \<^verbatim>\<open>strings\<close> and \<^verbatim>\<open>strconv\<close>
    functions, base64.  A call to another service takes the list of requests sent so far and extends it.
  \<^item> \<open>Go_Errors\<close>: the errors package (\<^verbatim>\<open>microservice-core-go/pkg/err\<close>), \<^verbatim>\<open>error_response.go\<close>, and \<open>outcome\<close>,
    the result of a Go call: a value, an error, a panic, or blocked for ever.  \<open>Error_Ids\<close>: the same package
    with the identifiers of errors, their JSON form and \<^verbatim>\<open>nil\<close> pointers; forgetting the identifiers maps it
    onto \<open>Go_Errors\<close>.  \<open>Error_Props\<close>: the way of an error to the client.
  \<^item> \<open>Storage_Interface\<close>: \<^verbatim>\<open>storage/types.go\<close> and the interface of the service (\<^verbatim>\<open>policy/storage.go\<close>), with
    the contracts as locales: \<open>policy_store\<close>, the stores of data and of import configurations.
  \<^item> \<open>Clone\<close>: \<^verbatim>\<open>clone/clone.go\<close>.  \<open>Memory_Storage\<close>, \<open>Memory_Laws\<close>: \<^verbatim>\<open>storage/memory\<close> and its interpretations of the
    contracts.  \<open>Mongo_Collection\<close>, \<open>Mongo_Storage\<close>, \<open>Mongo_Laws\<close>: the operations of \<^verbatim>\<open>storage/mongodb\<close> over a
    collection of the driver.  \<open>Mongo_Service\<close>: its constructor, its change stream and all of it over one
    database; \<open>Mongo_Stores\<close>: the contracts of data and imports; \<open>Mongo_Ticks\<close>, \<open>Mongo_Props\<close>: the background
    loops over it.
  \<^item> \<open>Rego_Cache\<close>, \<open>Header\<close>, \<open>Clients\<close>, \<open>Notify\<close>: \<^verbatim>\<open>regocache\<close>, \<^verbatim>\<open>header\<close>, \<^verbatim>\<open>clients/*\<close>, \<^verbatim>\<open>notify\<close>.
  \<^item> \<open>Bundle\<close>, \<open>Policy_Service\<close>, \<open>Service_Laws\<close>: \<^verbatim>\<open>service/policy\<close>; one definition \<open>svc_X\<close> for each method \<^verbatim>\<open>X\<close>.
    \<open>Auto_Import\<close>, \<open>Refresher\<close>: its background loops.
  \<^item> \<open>Rego_Funcs\<close>, \<open>Rego_Signer\<close>, \<open>Did_Web\<close>: the extension functions (\<^verbatim>\<open>regofunc\<close>).
  \<^item> \<open>Env_Config\<close>: the part of the library \<^verbatim>\<open>envconfig\<close> that both programs use.  \<open>Server\<close>, \<open>Service_Config\<close>,
    \<open>Start_Props\<close>: \<^verbatim>\<open>config/config.go\<close> and \<^verbatim>\<open>cmd/policy/main.go\<close> from the environment to the running server,
    the middleware and the health service.
  \<^item> \<open>Sync\<close>, \<open>Sync_Program\<close>, \<open>Sync_Program_Props\<close>: \<^verbatim>\<open>cmd/sync\<close>, one synchronisation, and the program with its
    configuration, flags and main loop.
  \<^item> \<open>Coherence\<close>, \<open>Liveness\<close>: the goroutines of the service over the in-memory storage as a step relation
    (\<open>run_step\<close>): calls on the storage, a retrieval's reading of the storage and its filling of the cache, a
    change notification that arrives or is dropped, and the purge.  A run also carries notes that no step
    depends on: which retrievals a purge has overtaken, and whether a change was dropped since the last one.
  \<^item> \<open>JS_Base64\<close>, \<open>JS_Object\<close>, \<open>Swagger_UI\<close>, \<open>Swagger_Search\<close>, \<open>Swagger_Curl\<close>, \<open>Swagger_Params\<close>: helper functions
    of the bundles of \<^verbatim>\<open>src/swagger\<close>; \<open>JS_Regex\<close> is a library of regular expressions.  \<open>Swagger_Login\<close>: the
    OAuth login of the page and \<^verbatim>\<open>oauth2-redirect.html\<close>.  \<open>JSON_Patch\<close>, \<open>JSON_Patch_Laws\<close>, \<open>JSON_Patch_Props\<close>,
    \<open>JSON_Patch_Valid\<close>: the JSON Patch library with which the page edits the API description.
    \<open>Swagger_Request\<close>, \<open>Swagger_Request_Laws\<close>, \<open>Swagger_Request_Props\<close>, \<open>Swagger_Auth\<close>, \<open>Swagger_Auth_Props\<close>:
    the requests the page sends, and their credentials.
  \<^item> \<open>Examples\<close>: concrete instances of the parameters.  \<open>Service_Props\<close>, \<open>Import_Props\<close>, \<open>Storage_Props\<close>,
    \<open>Database_Props\<close>, \<open>Rego_Props\<close>: properties, each with an instance where its hypotheses hold.

  A method of a Go type has the prefix of its receiver: \<open>svc_\<close>, \<open>mem_\<close>, \<open>mongo_\<close>, \<open>rc_\<close>, \<open>rego_\<close>.

  \<^bold>\<open>What the properties show.\<close>  The service: a locked policy is answered with 403 when every change has
  been received since the last purge and no overtaken retrieval has filled the cache, and from any state with
  a change to receive the listener gets to an empty cache by itself in a bounded number of steps; what an evaluation and a
  validation return, store in the cache service and lock; import takes only bundles whose signature
  verifies and export is its inverse; an error reaches the client with its identifier, kind and message.
  The storages: both satisfy the contract the service relies on; a tick of the refresher and of the
  importer over the database is a function of its documents; data refresh hands out exactly the due
  policies and postpones them; the in-memory storage cannot keep import configurations.  A subscription
  leads to a request to the web hook.  The synchronisation makes the database equal to the repository and
  keeps locks; the program catches up with the repository after failed rounds, and its two kinds of
  configuration give the same.  The start: which environment the service starts with, and that it then
  serves exactly the requests that pass the checks the environment asks for.  The page: base64, addresses,
  the query of the page, shell quoting of the snippets, the OAuth login, patches that turn one document
  into another and validated patches that apply, the address of a request, and that credentials go only
  where they are required.  Where the code does not do what it means to, the property states what it
  does: the race between an evaluation and a lock, the login whose state is not enforced; other
  deviations are lemmas.

  \<^bold>\<open>Parameters.\<close>  The Rego engine, the JSON schema compiler, the JSON codec, zip, hashing and signature
  algorithms, JWT parsing and key sets, the MongoDB driver with its change stream (a list of events), the event
  bus, git and the file system, the network, random bytes, \<^verbatim>\<open>time.ParseDuration\<close> and the clock are arguments;
  of JavaScript, \<^verbatim>\<open>JSON.parse\<close>, \<^verbatim>\<open>JSON.stringify\<close> and the library \<^verbatim>\<open>qs\<close>.  What is assumed of them is named:
  \<open>coll_ok\<close> (a reachable collection, satisfied by a list), \<open>answering\<close> (a request is answered or fails),
  \<open>total_lib\<close>, \<open>total_libs\<close> and \<open>import_returns\<close> (the libraries of a refresh and of an import return), \<open>packable\<close> (the archive can be read
  back), \<open>json_faithful\<close> (a text decodes to the value it was made from), \<open>fills\<close> (the random generator fills
  its buffer), \<open>parses_plain\<close> (\<^verbatim>\<open>JSON.parse\<close> of plain texts).  The iteration order of a Go map is an argument,
  any order of its keys.  Times and durations are nanoseconds.

  \<^bold>\<open>Loops.\<close>  Every loop over data is structural; background loops run over the list of their ticks, rounds or
  events and end with the cancelled context, so no fuel is needed.  Mutex sections are atomic; a mutex that
  is never released is the outcome \<open>Blocked\<close>.

  \<^bold>\<open>Not modelled.\<close>  Logging, metrics, ngrok, graceful shutdown and the group of background processes in
  \<^verbatim>\<open>main\<close>, which only call libraries; how the driver, the bus and git connect; the code goa generates besides
  the list of endpoints; the user interface of Swagger UI, which is minified third-party code in one line
  per bundle, the observer of its JSON Patch library (its copy of a document may share objects with the
  document, which values do not show), and of its requests the server address, the body of OpenAPI 3 and
  uploads; the test doubles.
\<close>

section \<open>From the request to the lock\<close>

text \<open>C2: When the program starts on a clone URL and the policies have no dot in their repository, group and name,
  then in every state its goroutines reach (retrievals may be overtaken between reading the storage and
  filling the cache, notifications may be dropped, the repository, group and name of every policy
  written have no dots, those of every one retrieved neither dots nor commas) in which no change is waiting or held by the listener,
  none was dropped since the cache was last purged and the policy's entry of the cache does not stem from
  a retrieval that had read before that purge, a request to evaluate a policy that is locked in the
  storage, once the middleware admits it, is answered with the error the transport turns into 403.\<close>

theorem served_lock_is_respected:
  assumes "makeStorage cfg D = Ok (InMemory m)"
    and "\<And>k p. policies m k = Some p \<Longrightarrow> dot_free (pid_of p)"
    and "sv_storage S = mem_ops ConstructKey lower order aorder now"
    and "run_reachable S (policies m) u" and "quiet (ru_sys u)" and "\<not> ru_lost u"
    and "queryCacheKey (er_id (decode rq)) \<notin> ru_late u"
    and "admitted cfg verify allowed rq" and "plain_id (er_id (decode rq))"
    and "mem_lookup (w_store (ru_world u)) (er_id (decode rq)) = Some p" and "p_Locked p"
  shows "\<exists>e w'. policy_server cfg verify allowed (policy_handlers E S decode rest) Evaluate rq None (ru_world u)
      = (Answered (Err e), w') \<and> response_status e = 403"
proof -
  have "mem_inv (mem_New (policies m))"
    using makeStorage_keyed [OF assms(1)] assms(2) by (simp add: mem_inv_def mem_New_def)
  note inv = run_reachable_inv [OF assms(3,4) this]
  have settled: "settled u" using assms(5,6) by (simp add: settled_def)
  obtain e w' where "svc_Evaluate E S (decode rq) (Some (ToContext (in_request rq))) (ru_world u) = (Err e, w')"
    and "errors_Is Forbidden e"
    using settled_locked_forbidden [OF assms(3) inv settled assms(9,7,10,11)] by blast
  then show ?thesis
    using response_status_Is by (fastforce simp: policy_server_admitted [OF assms(8)] policy_handlers_def)
qed

text \<open>The program starts on a repository of one policy; it is locked, and the listener catches up.\<close>

theorem served_lock_is_respected_witness:
  "\<exists>m u. makeStorage ex_config ex_origin = Ok (InMemory m) \<and>
    run_reachable (ex_service True (Ok ())) (policies m) u \<and>
    (\<exists>e w'. policy_server ex_config ex_verify (\<lambda>_. True)
        (policy_handlers (ex_engine JNull None) (ex_service True (Ok ())) (\<lambda>_. ex_request) (\<lambda>e rq ctx w. (Rejected 404 [], w)))
        Evaluate ex_incoming None (ru_world u) = (Answered (Err e), w') \<and> response_status e = 403)"
proof -
  let ?S = "ex_service True (Ok ())"
  obtain p where p: "makeStorage ex_config ex_origin = Ok (InMemory (mem_New [ConstructKey ex_id \<mapsto> p]))"
    "pid_of p = ex_id"
    using ex_started by blast
  let ?m = "mem_New [ConstructKey ex_id \<mapsto> p]"
  let ?u = "run_init (policies ?m) []"
  obtain w where w: "on_store (op_SetPolicyLock (sv_storage ?S) ex_id True) (ru_world ?u) = (Ok (), w)"
    "mem_lookup (w_store w) ex_id = Some (p\<lparr>p_Locked := True\<rparr>)" "changes (w_store w) \<noteq> []"
    by (simp add: on_store_def ex_ops_def mem_ops_def mem_SetPolicyLock_def run_init_def sys_init_def mem_New_def
        Let_def mem_lookup_def)
  let ?v = "run_store w ?u"
  have "run_reachable ?S (policies ?m) ?v"
    using ru_next [OF ru_start] ru_store st_lock [OF ex_plain(1) w(1)] by blast
  moreover obtain n where n: "backlog ?v = Suc n"
    using w(3) by (cases "changes (w_store w)") (simp_all add: backlog_def run_store_def)
  ultimately obtain z where z: "run_reachable ?S (policies ?m) z" "caught_up z"
    "policies (w_store (ru_world z)) = policies (w_store w)"
    using listener_works_off [OF n, of ?S] run_reachable_steps by (fastforce simp: run_store_def)
  have locked: "mem_lookup (w_store (ru_world z)) ex_id = Some (p\<lparr>p_Locked := True\<rparr>)"
    using w(2) z(3) by (simp add: mem_lookup_def)
  have ids: "dot_free (pid_of q)" if "policies ?m k = Some q" for k q
    using that p(2) by (auto simp: mem_New_def split: if_splits)
  from z(2) have settled: "quiet (ru_sys z)" "\<not> ru_lost z" "ru_late z = {}"
    by (simp_all add: caught_up_def settled_def)
  from served_lock_is_respected [OF p(1) ids _ z(1) settled(1,2) _ ex_admitted, where decode = "\<lambda>_. ex_request"]
    settled(3) locked p(1) z(1)
  show ?thesis by (fastforce simp: ex_ops_def)
qed

end
